(* ===== verification/Prelude.thy ===== *)
theory Prelude
  imports Main "HOL-Library.Word" "HOL-Library.Char_ord"
begin

section \<open>Prelude: the parts of Go and of its standard library the components share\<close>

text \<open>
  A Go byte is a \<^typ>\<open>char\<close> and a Go string or byte slice a list of them. A Go panic is a
  value of \<open>panic\<close>, carried on the left of a sum, so that an index out of range, a slice out
  of range, a nil dereference and an explicit panic are branches of the model. An \<open>int64\<close>
  keeps its width: it is a 64-bit word read by \<open>sint\<close>, and sums wrap as they do in Go.
  The theory also holds the functions of \<open>strings\<close> that several components call.
\<close>

named_theorems go_simps \<open>unfolding of the panic monad and of the slice primitives\<close>
named_theorems bytes_simps \<open>facts on the functions of the strings package\<close>

subsection \<open>Panics\<close>

datatype panic = IndexOutOfRange | SliceOutOfRange | NilDereference | DivideByZero
  | Explicit string

type_synonym 'a go = "panic + 'a"

definition bind_go :: "'a go \<Rightarrow> ('a \<Rightarrow> 'b go) \<Rightarrow> 'b go" where
  "bind_go m f = (case m of Inl p \<Rightarrow> Inl p | Inr x \<Rightarrow> f x)"

lemma bind_go_Inl [simp]: "bind_go (Inl p) f = Inl p"
  by (simp add: bind_go_def)

lemma bind_go_Inr [simp]: "bind_go (Inr x) f = f x"
  by (simp add: bind_go_def)

lemma bind_go_cong [fundef_cong]:
  "m = m' \<Longrightarrow> (\<And>x. m' = Inr x \<Longrightarrow> f x = f' x) \<Longrightarrow> bind_go m f = bind_go m' f'"
  by (auto simp: bind_go_def split: sum.splits)

lemma bind_go_eq_Inr:
  "bind_go m f = Inr y \<longleftrightarrow> (\<exists>x. m = Inr x \<and> f x = Inr y)"
  by (auto simp: bind_go_def split: sum.splits)

lemma bind_goE:
  assumes "bind_go m f = Inr y"
  obtains x where "m = Inr x" "f x = Inr y"
  using assms by (auto simp: bind_go_eq_Inr)

lemma bind_go_assoc: "bind_go (bind_go m f) g = bind_go m (\<lambda>x. bind_go (f x) g)"
  by (simp add: bind_go_def split: sum.splits)

definition go_index :: "'a list \<Rightarrow> nat \<Rightarrow> 'a go" where
  "go_index xs i = (if i < length xs then Inr (xs ! i) else Inl IndexOutOfRange)"

definition go_from :: "'a list \<Rightarrow> nat \<Rightarrow> 'a list go" where
  "go_from xs i = (if i \<le> length xs then Inr (drop i xs) else Inl SliceOutOfRange)"

definition go_upto :: "'a list \<Rightarrow> nat \<Rightarrow> 'a list go" where
  "go_upto xs i = (if i \<le> length xs then Inr (take i xs) else Inl SliceOutOfRange)"

declare go_index_def [go_simps] go_from_def [go_simps] go_upto_def [go_simps]

lemma go_index_ok [simp]: "i < length xs \<Longrightarrow> go_index xs i = Inr (xs ! i)"
  by (simp add: go_index_def)

lemma go_from_ok [simp]: "i \<le> length xs \<Longrightarrow> go_from xs i = Inr (drop i xs)"
  by (simp add: go_from_def)

lemma go_upto_ok [simp]: "i \<le> length xs \<Longrightarrow> go_upto xs i = Inr (take i xs)"
  by (simp add: go_upto_def)

text \<open>\<open>copy(l[lo:hi], src)\<close>: the bytes of \<open>src\<close> are read before any is written.\<close>

definition go_copy :: "'a list \<Rightarrow> nat \<Rightarrow> nat \<Rightarrow> 'a list \<Rightarrow> 'a list" where
  "go_copy l lo hi src =
     (let n = min (hi - lo) (length src) in take lo l @ take n src @ drop (lo + n) l)"

lemma length_go_copy [simp]: "lo \<le> hi \<Longrightarrow> hi \<le> length l \<Longrightarrow> length (go_copy l lo hi src) = length l"
  by (simp add: go_copy_def Let_def)

subsection \<open>Signed 64-bit integers\<close>

type_synonym int64 = "64 word"

definition min_int64 :: int64 where
  "min_int64 = - (2 ^ 63)"

lemma sint64_bounds: "- (2 ^ 63) \<le> sint (x :: int64)" "sint (x :: int64) < 2 ^ 63"
  using sint_greater_eq [of x] sint_lt [of x] by simp_all

lemma sint64_eq_iff: "(x :: int64) = y \<longleftrightarrow> sint x = sint y"
  by (auto intro: signed_word_eqI)

lemma sint64_of_int:
  assumes "- (2 ^ 63) \<le> k" "k < 2 ^ 63"
  shows "sint (word_of_int k :: int64) = k"
proof -
  have "sint (word_of_int k :: int64) = signed_take_bit 63 k"
    by (simp add: sint_sbintrunc')
  also have "\<dots> = k"
    using assms by (intro signed_take_bit_int_eq_self) simp_all
  finally show ?thesis .
qed

lemma sint64_add:
  assumes "- (2 ^ 63) \<le> sint x + sint y" "sint x + sint y < 2 ^ 63"
  shows "sint (x + y :: int64) = sint x + sint y"
proof -
  have "x + y = word_of_int (sint x + sint y)"
    by (simp add: wi_hom_add [symmetric])
  then show ?thesis
    using assms sint64_of_int by metis
qed

lemma sint64_sub:
  assumes "- (2 ^ 63) \<le> sint x - sint y" "sint x - sint y < 2 ^ 63"
  shows "sint (x - y :: int64) = sint x - sint y"
proof -
  have "x - y = word_of_int (sint x - sint y)"
    by (simp add: wi_hom_sub [symmetric])
  then show ?thesis
    using assms sint64_of_int by metis
qed

lemma sint64_uminus:
  assumes "x \<noteq> min_int64"
  shows "sint (- x :: int64) = - sint x"
proof -
  have eq: "- x = word_of_int (- sint x)"
    by (simp add: wi_hom_neg [symmetric])
  have "sint x \<noteq> - (2 ^ 63)"
  proof
    assume m: "sint x = - (2 ^ 63)"
    have "x = word_of_int (sint x)" by simp
    then have "x = word_of_int (- (2 ^ 63))" by (simp only: m)
    then show False
      using assms by (simp add: min_int64_def)
  qed
  then show ?thesis
    using eq sint64_bounds [of x] sint64_of_int [of "- sint x"] by simp
qed

lemma nonneg_unat:
  assumes "0 \<le>s (x :: int64)"
  shows "unat x < 2 ^ 63"
proof -
  have "0 \<le> sint x" using assms by (simp add: word_sle_eq)
  moreover have "uint x = sint x mod 2 ^ 64"
    using uint_word_of_int [of "sint x", where ?'a = 64] by simp
  moreover have "sint x mod 2 ^ 64 = sint x"
    using \<open>0 \<le> sint x\<close> sint64_bounds(2) [of x] by (intro mod_pos_pos_trivial) simp_all
  ultimately have "uint x = sint x" by (simp only:)
  then have "uint x < 2 ^ 63" using sint64_bounds(2) [of x] by (simp only:)
  then show ?thesis by (metis nat_uint_eq nat_less_numeral_power_cancel_iff)
qed

lemma sint_unat:
  assumes "0 \<le>s (x :: int64)"
  shows "sint x = int (unat x)"
proof -
  have "int (unat x) < 2 ^ 63" using nonneg_unat [OF assms] by (simp only: of_nat_less_numeral_power_cancel_iff)
  then have "sint (word_of_int (int (unat x)) :: int64) = int (unat x)" by (intro sint64_of_int) linarith+
  then show ?thesis by simp
qed

subsection \<open>The strings package, on bytes\<close>

text \<open>\<open>strings.IndexByte\<close>, with \<^term>\<open>None\<close> for its -1.\<close>

fun index_byte :: "string \<Rightarrow> char \<Rightarrow> nat option" where
  "index_byte [] c = None"
| "index_byte (x # xs) c = (if x = c then Some 0 else map_option Suc (index_byte xs c))"

definition has_prefix :: "string \<Rightarrow> string \<Rightarrow> bool" where
  "has_prefix s p = (take (length p) s = p)"

text \<open>
  \<open>strings.ToLower\<close> on a string of ASCII bytes: Go's own fast path for such strings. Its
  Unicode tables are not modelled; a property that lower-cases a string assumes it is ASCII.
\<close>

definition ascii_byte :: "char \<Rightarrow> bool" where
  "ascii_byte c = ((of_char c :: nat) < 128)"

definition ascii :: "string \<Rightarrow> bool" where
  "ascii s = list_all ascii_byte s"

definition lower_byte :: "char \<Rightarrow> char" where
  "lower_byte c = (if CHR ''A'' \<le> c \<and> c \<le> CHR ''Z'' then char_of ((of_char c :: nat) + 32) else c)"

definition to_lower :: "string \<Rightarrow> string" where
  "to_lower s = map lower_byte s"

lemma index_byte_None [bytes_simps]: "index_byte s c = None \<longleftrightarrow> c \<notin> set s"
  by (induction s) auto

lemma index_byte_notin: "c \<notin> set s \<Longrightarrow> index_byte s c = None"
  by (simp add: index_byte_None)

lemma index_byte_Some:
  "index_byte s c = Some i \<Longrightarrow> i < length s \<and> s ! i = c \<and> c \<notin> set (take i s)"
  by (induction s arbitrary: i) (auto split: if_splits)

lemma index_byte_append [bytes_simps]:
  "c \<notin> set p \<Longrightarrow> index_byte (p @ c # s) c = Some (length p)"
  by (induction p) auto

lemma index_byte_append_notin:
  "c \<notin> set p \<Longrightarrow> index_byte (p @ s) c = map_option (\<lambda>i. length p + i) (index_byte s c)"
  by (induction p) (auto simp: option.map_comp comp_def option.map_ident plus_nat.add_0 cong: option.map_cong)

lemma has_prefix_append [simp]: "has_prefix (p @ s) p"
  by (simp add: has_prefix_def)

lemma has_prefix_iff: "has_prefix s p \<longleftrightarrow> (\<exists>t. s = p @ t)"
  by (metis append_take_drop_id has_prefix_append has_prefix_def)

lemma to_lower_length [simp]: "length (to_lower s) = length s"
  by (simp add: to_lower_def)

lemma lower_byte_idem [simp]: "lower_byte (lower_byte c) = lower_byte c"
proof (cases "CHR ''A'' \<le> c \<and> c \<le> CHR ''Z''")
  case True
  then have "65 \<le> (of_char c :: nat)" "(of_char c :: nat) \<le> 90"
    by (simp_all add: less_eq_char_def)
  then have "(of_char (char_of ((of_char c :: nat) + 32)) :: nat) = of_char c + 32"
    by (simp add: char_of_nat)
  with True show ?thesis
    using \<open>65 \<le> of_char c\<close> by (simp add: lower_byte_def less_eq_char_def)
next
  case False
  then show ?thesis by (auto simp: lower_byte_def)
qed

lemma to_lower_idem [simp]: "to_lower (to_lower s) = to_lower s"
  by (simp add: to_lower_def)

end
