(* ===== verification/Bufio.thy ===== *)
theory Bufio
  imports Prelude
begin

section \<open>Buffered readers: \<open>bufio.Reader\<close> as the server uses it\<close>

text \<open>
  The methods of Go's \<open>bufio.Reader\<close> that the parsers call, on what is still to come: the bytes
  the stream will deliver and the error that ends it (\<open>io.EOF\<close> or another one, which every later
  read reports again). How the bytes are cut into packets does not show at this interface. The size of
  the buffer, which bounds \<open>Peek\<close>, is larger than what the code peeks for.
\<close>

datatype io_error = EOF | OtherIO string

record bufio =
  pending :: string
  end_error :: io_error

definition bufio_ReadBytes :: "char \<Rightarrow> bufio \<Rightarrow> (string \<times> io_error option) \<times> bufio" where
  "bufio_ReadBytes delim r =
     (case index_byte (pending r) delim of
        Some i \<Rightarrow> ((take (i + 1) (pending r), None), r\<lparr>pending := drop (i + 1) (pending r)\<rparr>)
      | None \<Rightarrow> ((pending r, Some (end_error r)), r\<lparr>pending := []\<rparr>))"

definition bufio_Peek :: "nat \<Rightarrow> bufio \<Rightarrow> string \<times> io_error option" where
  "bufio_Peek n r =
     (if n \<le> length (pending r) then (take n (pending r), None) else (pending r, Some (end_error r)))"

definition bufio_Discard :: "nat \<Rightarrow> bufio \<Rightarrow> bufio" where
  "bufio_Discard n r = r\<lparr>pending := drop n (pending r)\<rparr>"

definition bufio_ReadByte :: "bufio \<Rightarrow> (char \<times> io_error option) \<times> bufio" where
  "bufio_ReadByte r =
     (case pending r of
        [] \<Rightarrow> ((CHR 0x00, Some (end_error r)), r)
      | c # s \<Rightarrow> ((c, None), r\<lparr>pending := s\<rparr>))"

text \<open>A read of at most \<open>n\<close> bytes: what is there, or the error at the end.\<close>

definition bufio_Read :: "nat \<Rightarrow> bufio \<Rightarrow> (string \<times> io_error option) \<times> bufio" where
  "bufio_Read n r =
     (if n = 0 then (([], None), r)
      else if pending r = [] then (([], Some (end_error r)), r)
      else ((take n (pending r), None), r\<lparr>pending := drop n (pending r)\<rparr>))"

subsection \<open>Nothing is lost or reordered\<close>

lemma ReadBytes_conserves:
  "bufio_ReadBytes d r = ((line, e), r') \<Longrightarrow> pending r = line @ pending r' \<and> end_error r' = end_error r"
  by (auto simp: bufio_ReadBytes_def split: option.splits)

lemma ReadBytes_ends:
  assumes "bufio_ReadBytes d r = ((line, None), r')"
  shows "line \<noteq> [] \<and> last line = d"
proof -
  obtain i where i: "index_byte (pending r) d = Some i" "line = take (i + 1) (pending r)"
    using assms by (auto simp: bufio_ReadBytes_def split: option.splits)
  with index_byte_Some [OF i(1)] show ?thesis by (auto simp: take_Suc_conv_app_nth)
qed

lemma ReadBytes_line:
  "d \<notin> set l \<Longrightarrow> bufio_ReadBytes d (r\<lparr>pending := l @ d # s\<rparr>) = ((l @ [d], None), r\<lparr>pending := s\<rparr>)"
  by (simp add: bufio_ReadBytes_def index_byte_append)

lemma ReadBytes_shorter:
  "bufio_ReadBytes d r = ((line, e), r') \<Longrightarrow> length (pending r') + length line = length (pending r)"
  by (drule ReadBytes_conserves) simp

end
