(* ===== verification/Pipe.thy ===== *)
theory Pipe
  imports Prelude
begin

section \<open>Pipes of readers and writers: \<open>jps/pipe/pipe.go\<close>\<close>

text \<open>
  A generator wraps a reader (writer) in another one; \<open>From\<close> and \<open>To\<close> apply a list of generators
  one after the other and keep every layer, the outermost first, which is the one that \<open>Read\<close>
  and \<open>Write\<close> use. The code fills an array from its end to its start; the list here grows at its
  head. A generator that was never set is a nil function, and calling it panics.

  The second half reads a layer as what it does to a whole message.
\<close>

record ('s, 'e) PipeGenerator =
  Generator :: "('s \<Rightarrow> 'e + 's) option"
  generator_id :: "64 word"

type_synonym ('s, 'e) ReaderPipeGenerator = "('s, 'e) PipeGenerator"
type_synonym ('s, 'e) WriterPipeGenerator = "('s, 'e) PipeGenerator"

text \<open>\<open>Register\<close>: the register is the global counter \<open>readerRegister\<close> (\<open>writerRegister\<close>).\<close>

definition ReaderPipeGenerator_Register ::
  "('s, 'e) ReaderPipeGenerator \<Rightarrow> 64 word \<Rightarrow> (('s, 'e) ReaderPipeGenerator \<times> 64 word) go" where
  "ReaderPipeGenerator_Register g readerRegister =
     (let r = readerRegister + 1 in
      if r = 0 then Inl (Explicit ''generator register full'') else Inr (g\<lparr>generator_id := r\<rparr>, r))"

definition WriterPipeGenerator_Register ::
  "('s, 'e) WriterPipeGenerator \<Rightarrow> 64 word \<Rightarrow> (('s, 'e) WriterPipeGenerator \<times> 64 word) go" where
  "WriterPipeGenerator_Register g writerRegister =
     (let r = writerRegister + 1 in
      if r = 0 then Inl (Explicit ''generator register full'') else Inr (g\<lparr>generator_id := r\<rparr>, r))"

text \<open>The inner loops, over one list of generators.\<close>

fun From_pipes ::
  "'s \<Rightarrow> 's list \<Rightarrow> ('s, 'e) ReaderPipeGenerator list \<Rightarrow> ('e + 's \<times> 's list) go" where
  "From_pipes r readers [] = Inr (Inr (r, readers))"
| "From_pipes r readers (p # ps) =
     (case Generator p of
        None \<Rightarrow> Inl NilDereference
      | Some g \<Rightarrow>
          (case g r of
             Inl err \<Rightarrow> Inr (Inl err)
           | Inr r' \<Rightarrow> From_pipes r' (r' # readers) ps))"

fun From_loop ::
  "'s \<Rightarrow> 's list \<Rightarrow> ('s, 'e) ReaderPipeGenerator list list \<Rightarrow> ('e + 's list) go" where
  "From_loop r readers [] = Inr (Inr readers)"
| "From_loop r readers (ps # pipes) =
     bind_go (From_pipes r readers ps) (\<lambda>x. case x of
       Inl err \<Rightarrow> Inr (Inl err)
     | Inr (r', readers') \<Rightarrow> From_loop r' readers' pipes)"

definition From :: "'s \<Rightarrow> ('s, 'e) ReaderPipeGenerator list list \<Rightarrow> ('e + 's list) go" where
  "From r pipes = From_loop r [r] pipes"

fun To_pipes ::
  "'s \<Rightarrow> 's list \<Rightarrow> ('s, 'e) WriterPipeGenerator list \<Rightarrow> ('e + 's \<times> 's list) go" where
  "To_pipes w writers [] = Inr (Inr (w, writers))"
| "To_pipes w writers (p # ps) =
     (case Generator p of
        None \<Rightarrow> Inl NilDereference
      | Some g \<Rightarrow>
          (case g w of
             Inl err \<Rightarrow> Inr (Inl err)
           | Inr w' \<Rightarrow> To_pipes w' (w' # writers) ps))"

fun To_loop ::
  "'s \<Rightarrow> 's list \<Rightarrow> ('s, 'e) WriterPipeGenerator list list \<Rightarrow> ('e + 's list) go" where
  "To_loop w writers [] = Inr (Inr writers)"
| "To_loop w writers (ps # pipes) =
     bind_go (To_pipes w writers ps) (\<lambda>x. case x of
       Inl err \<Rightarrow> Inr (Inl err)
     | Inr (w', writers') \<Rightarrow> To_loop w' writers' pipes)"

definition To :: "'s \<Rightarrow> ('s, 'e) WriterPipeGenerator list list \<Rightarrow> ('e + 's list) go" where
  "To w pipes = To_loop w [w] pipes"

text \<open>\<open>close\<close> is the \<open>Close\<close> of a layer, acting on the state of the program.\<close>

fun ReaderPipe_Close :: "('r \<Rightarrow> 's \<Rightarrow> 'e option \<times> 's) \<Rightarrow> 'r list \<Rightarrow> 's \<Rightarrow> 'e option \<times> 's" where
  "ReaderPipe_Close close [] s = (None, s)"
| "ReaderPipe_Close close (r # readers) s =
     (let (err, s') = close r s in
      if readers = [] \<or> err \<noteq> None then (err, s') else ReaderPipe_Close close readers s')"

fun WriterPipe_Close :: "('w \<Rightarrow> 's \<Rightarrow> 'e option \<times> 's) \<Rightarrow> 'w list \<Rightarrow> 's \<Rightarrow> 'e option \<times> 's" where
  "WriterPipe_Close close [] s = (None, s)"
| "WriterPipe_Close close (w # writers) s =
     (let (err, s') = close w s in
      if writers = [] \<or> err \<noteq> None then (err, s') else WriterPipe_Close close writers s')"

text \<open>
  \<open>flusher w\<close> is the layer's \<open>Flush\<close>, if its dynamic type has one. Nothing here makes a layer
  that has no \<open>Flush\<close> pass the request on; the loop goes on with the next layer.
\<close>

fun WriterPipe_Flush ::
  "('w \<Rightarrow> ('s \<Rightarrow> 'e option \<times> 's) option) \<Rightarrow> 'w list \<Rightarrow> 's \<Rightarrow> 'e option \<times> 's" where
  "WriterPipe_Flush flusher [] s = (None, s)"
| "WriterPipe_Flush flusher (w # writers) s =
     (case flusher w of
        None \<Rightarrow> WriterPipe_Flush flusher writers s
      | Some flush \<Rightarrow>
          (let (err, s') = flush s in
           if err \<noteq> None then (err, s') else WriterPipe_Flush flusher writers s'))"

subsection \<open>What a pipe does to a message\<close>

text \<open>
  \<open>decoder\<close>: the generator of a reader whose source holds the message \<open>m\<close> gives a reader that
  holds \<open>dec m\<close>. \<open>encoder\<close>: the generator of a writer which passes every message \<open>m\<close> on as
  \<open>w m\<close> gives one that passes it on as \<open>w (enc m)\<close>.
\<close>

definition decoder :: "('m \<Rightarrow> 'm) \<Rightarrow> ('m, 'e) ReaderPipeGenerator" where
  "decoder dec = \<lparr>Generator = Some (\<lambda>m. Inr (dec m)), generator_id = 0\<rparr>"

definition encoder :: "('m \<Rightarrow> 'm) \<Rightarrow> ('m \<Rightarrow> 'm, 'e) WriterPipeGenerator" where
  "encoder enc = \<lparr>Generator = Some (\<lambda>w. Inr (w \<circ> enc)), generator_id = 0\<rparr>"

text \<open>The layers built over \<open>x\<close> by applying \<open>fs\<close> one after the other, the outermost first.\<close>

fun layers :: "('x \<Rightarrow> 'x) list \<Rightarrow> 'x \<Rightarrow> 'x list" where
  "layers [] x = []"
| "layers (f # fs) x = layers fs (f x) @ [f x]"

lemma hd_layers: "hd (layers fs x @ [x]) = fold id fs x"
proof (induction fs arbitrary: x)
  case (Cons f fs)
  from Cons.IH [of "f x"] show ?case by (cases "layers fs (f x)") auto
qed simp

lemma From_pipes_decoders:
  "From_pipes r readers (map decoder ds) = Inr (Inr (fold id ds r, layers ds r @ readers))"
  by (induction ds arbitrary: r readers) (simp_all add: decoder_def)

lemma From_decoders: "From r [map decoder ds] = Inr (Inr (layers ds r @ [r]))"
  by (simp add: From_def From_pipes_decoders)

lemma To_pipes_encoders:
  "To_pipes w writers (map encoder es)
    = Inr (Inr (w \<circ> foldr id es, layers (map (\<lambda>e w. w \<circ> e) es) w @ writers))"
  by (induction es arbitrary: w writers) (simp_all add: encoder_def comp_assoc)

lemma To_encoders:
  "To w [map encoder es] = Inr (Inr (layers (map (\<lambda>e w. w \<circ> e) es) w @ [w]))"
  by (simp add: To_def To_pipes_encoders)

lemma fold_writers: "fold id (map (\<lambda>e w. w \<circ> e) es) w = w \<circ> foldr id es"
  by (induction es arbitrary: w) (simp_all add: comp_assoc)

end
