(* ===== verification/Util.thy ===== *)
theory Util
  imports Prelude "HOL-Library.List_Lexorder"
begin

section \<open>Small helpers: \<open>util\<close>\<close>

text \<open>
  \<open>CompareStrings\<close> (an index loop, shown to be the lexicographic order of bytes), \<open>MinInt\<close>,
  \<open>MaxInt\<close>, the wrappers that let a function be called once, the buffering writer and the writer
  that copies what was written to several others. A writer is a function from the bytes and its
  state to the count, the error and its new state.
\<close>

datatype ComparisonResult = ComparisonEqual | ComparisonLessThan | ComparisonGreaterThan

definition MinInt :: "int \<Rightarrow> int \<Rightarrow> int" where
  "MinInt a b = (if a < b then a else b)"

definition MaxInt :: "int \<Rightarrow> int \<Rightarrow> int" where
  "MaxInt a b = (if a > b then a else b)"

function CompareStrings_loop :: "string \<Rightarrow> string \<Rightarrow> int \<Rightarrow> nat \<Rightarrow> ComparisonResult" where
  "CompareStrings_loop a b l i =
     (if int i < l then
        (if a ! i < b ! i then ComparisonLessThan
         else if a ! i > b ! i then ComparisonGreaterThan
         else CompareStrings_loop a b l (i + 1))
      else if length a < length b then ComparisonLessThan
      else if length a > length b then ComparisonGreaterThan
      else ComparisonEqual)"
  by auto
termination
  by (relation "measure (\<lambda>(a, b, l, i). nat (l - int i))") auto

declare CompareStrings_loop.simps [simp del]

definition CompareStrings :: "string \<Rightarrow> string \<Rightarrow> ComparisonResult" where
  "CompareStrings a b = CompareStrings_loop a b (MinInt (int (length a)) (int (length b))) 0"

subsection \<open>Functions called once\<close>

text \<open>
  The closures share the captured \<open>called\<close>, which is threaded through; \<open>f\<close> acts on the rest of
  the program's state.
\<close>

definition SingleCallError :: "('s \<Rightarrow> 's) \<Rightarrow> 'e \<Rightarrow> bool \<times> 's \<Rightarrow> 'e option \<times> bool \<times> 's" where
  "SingleCallError f err cs =
     (let (called, s) = cs in if called then (Some err, called, s) else (None, True, f s))"

definition SingleCallErrorPassthrough ::
  "('s \<Rightarrow> 'e option \<times> 's) \<Rightarrow> 'e \<Rightarrow> bool \<times> 's \<Rightarrow> 'e option \<times> bool \<times> 's" where
  "SingleCallErrorPassthrough f err cs =
     (let (called, s) = cs in
      if called then (Some err, called, s) else (let (e, s') = f s in (e, True, s')))"

definition SingleCallPanic :: "('s \<Rightarrow> 's) \<Rightarrow> string \<Rightarrow> bool \<times> 's \<Rightarrow> (bool \<times> 's) go" where
  "SingleCallPanic f err cs =
     (let (called, s) = cs in if called then Inl (Explicit err) else Inr (True, f s))"

subsection \<open>Writers\<close>

definition BufferWriter_Write :: "string \<Rightarrow> string \<Rightarrow> nat \<times> string" where
  "BufferWriter_Write data buf = (length data, buf @ data)"

datatype 'e write_to_error = WriteErr 'e | ShortWrite

definition BufferWriter_WriteTo ::
  "(string \<Rightarrow> 's \<Rightarrow> nat \<times> 'e option \<times> 's) \<Rightarrow> string \<Rightarrow> 's \<Rightarrow> 'e write_to_error option \<times> 's" where
  "BufferWriter_WriteTo write buf s =
     (let (n, err, s') = write buf s in
      case err of
        Some e \<Rightarrow> (Some (WriteErr e), s')
      | None \<Rightarrow> (if n < length buf then Some ShortWrite else None, s'))"

text \<open>The first writer decides the count and the error; the others get what it took.\<close>

fun WriterSpliter_rest :: "(string \<Rightarrow> 's \<Rightarrow> nat \<times> 'e option \<times> 's) list \<Rightarrow> string \<Rightarrow> 's \<Rightarrow> 's" where
  "WriterSpliter_rest [] src s = s"
| "WriterSpliter_rest (w # ws) src s = (let (_, _, s') = w src s in WriterSpliter_rest ws src s')"

fun WriterSpliter_Write ::
  "(string \<Rightarrow> 's \<Rightarrow> nat \<times> 'e option \<times> 's) list \<Rightarrow> string \<Rightarrow> 's \<Rightarrow> (nat \<times> 'e option \<times> 's) go" where
  "WriterSpliter_Write [] src s = Inr (length src, None, s)"
| "WriterSpliter_Write (w # ws) src s =
     (let (n, err, s') = w src s in
      bind_go (go_upto src n) (\<lambda>src'. Inr (n, err, WriterSpliter_rest ws src' s')))"

subsection \<open>\<open>CompareStrings\<close> is the lexicographic order\<close>

fun compare_lists :: "string \<Rightarrow> string \<Rightarrow> ComparisonResult" where
  "compare_lists [] [] = ComparisonEqual"
| "compare_lists [] (y # ys) = ComparisonLessThan"
| "compare_lists (x # xs) [] = ComparisonGreaterThan"
| "compare_lists (x # xs) (y # ys) =
     (if x < y then ComparisonLessThan else if x > y then ComparisonGreaterThan
      else compare_lists xs ys)"

lemma compare_lists_eq:
  "compare_lists a b =
    (if a = b then ComparisonEqual else if a < b then ComparisonLessThan else ComparisonGreaterThan)"
  by (induction a b rule: compare_lists.induct) auto

lemma CompareStrings_loop_eq:
  "i \<le> length a \<Longrightarrow> i \<le> length b \<Longrightarrow>
    CompareStrings_loop a b (min (int (length a)) (int (length b))) i
      = compare_lists (drop i a) (drop i b)"
proof (induction "length a - i" arbitrary: i)
  case 0
  then have "drop i a = []" by simp
  with 0 show ?case
    by (cases "drop i b") (auto simp: CompareStrings_loop.simps [of a b _ i])
next
  case (Suc k)
  then obtain x xs where a: "drop i a = x # xs" by (cases "drop i a") auto
  show ?case
  proof (cases "drop i b")
    case Nil
    with Suc a show ?thesis by (simp add: CompareStrings_loop.simps [of a b _ i])
  next
    case (Cons y ys)
    have nth: "a ! i = x" "b ! i = y" using a Cons nth_via_drop by metis+
    have i: "i < length a" "i < length b" using a Cons by (metis drop_eq_Nil linorder_not_le list.distinct(1))+
    have "drop (Suc i) a = xs" "drop (Suc i) b = ys" using a Cons by (metis drop_Suc list.sel(3) tl_drop)+
    with Suc.hyps(1) [of "Suc i"] Suc.hyps(2) i
    have "CompareStrings_loop a b (min (int (length a)) (int (length b))) (i + 1) = compare_lists xs ys"
      by simp
    with a Cons nth i show ?thesis
      by (simp add: CompareStrings_loop.simps [of a b _ i])
  qed
qed

lemma CompareStrings_eq:
  "CompareStrings a b =
    (if a = b then ComparisonEqual else if a < b then ComparisonLessThan else ComparisonGreaterThan)"
proof -
  have "MinInt x y = min x y" for x y by (simp add: MinInt_def)
  then show ?thesis
    using CompareStrings_loop_eq [of 0 a b] by (simp add: CompareStrings_def compare_lists_eq)
qed

end
