(* ===== verification/Encoding_List.thy ===== *)
theory Encoding_List
  imports Pipe Util
begin

section \<open>The list of encodings: \<open>http/http1/encoding\<close>\<close>

text \<open>
  A \<open>List\<close> keeps its encodings in descending order of their names and finds them by binary
  search. \<open>Add\<close> and \<open>Remove\<close> move the items with \<open>copy\<close>, as the code does. Two methods turn
  the codes of a header into the generators of a pipe. The compressors themselves (\<open>zlib\<close>, \<open>gzip\<close>)
  and the chunked reader are parameters of the predefined lists.
\<close>

subsection \<open>The list\<close>

record ('r, 'w, 'e) Encoding =
  Name :: string
  Reader :: "('r, 'e) ReaderPipeGenerator"
  Writer :: "('w, 'e) WriterPipeGenerator"

type_synonym ('r, 'w, 'e) List = "('r, 'w, 'e) Encoding list"

definition NewList :: "('r, 'w, 'e) List" where
  "NewList = []"

text \<open>
  The bounds \<open>a\<close> and \<open>b\<close> are signed (\<open>b\<close> may become -1); the probe \<open>c\<close> is always an index of the
  list while the loop runs.
\<close>

function index_loop :: "('r, 'w, 'e) List \<Rightarrow> string \<Rightarrow> int \<Rightarrow> int \<Rightarrow> bool \<times> int" where
  "index_loop l encoding a b =
     (let c = (a + b) div 2;
          r = CompareStrings (Name (l ! nat c)) encoding
      in if r = ComparisonEqual then (True, c)
         else if r = ComparisonGreaterThan then
           (if b < c + 1 then (False, c + 1) else index_loop l encoding (c + 1) b)
         else
           (if c - 1 < a then (False, c) else index_loop l encoding a (c - 1)))"
  by auto
termination
  by (relation "measure (\<lambda>(l, e, a, b). nat (b - a + 1))") auto

declare index_loop.simps [simp del]

definition index :: "('r, 'w, 'e) List \<Rightarrow> string \<Rightarrow> bool \<times> nat" where
  "index l encoding =
     (if length l = 0 then (False, 0)
      else (let (r, i) = index_loop l encoding 0 (int (length l) - 1) in (r, nat i)))"

definition Contains :: "('r, 'w, 'e) List \<Rightarrow> string \<Rightarrow> bool" where
  "Contains l encoding = fst (index l encoding)"

definition Get :: "('r, 'w, 'e) List \<Rightarrow> string \<Rightarrow> ('r, 'w, 'e) Encoding option" where
  "Get l encoding = (let (r, i) = index l encoding in if \<not> r then None else Some (l ! i))"

definition Remove :: "('r, 'w, 'e) List \<Rightarrow> string \<Rightarrow> bool \<times> ('r, 'w, 'e) List" where
  "Remove l encoding =
     (let (r, i) = index l encoding in
      if \<not> r then (False, l)
      else (let l1 = go_copy l i (length l) (drop (i + 1) l) in (True, take (length l1 - 1) l1)))"

definition Add :: "('r, 'w, 'e) List \<Rightarrow> ('r, 'w, 'e) Encoding \<Rightarrow> bool \<times> ('r, 'w, 'e) List" where
  "Add l encoding =
     (if length l = 0 then (True, l @ [encoding])
      else (let (r, i) = index l (Name encoding) in
        if r then (False, l)
        else if i = length l then (True, l @ [encoding])
        else (let l1 = l @ [l ! (length l - 1)];
                  l2 = go_copy l1 (i + 1) (length l1 - 1) (drop i (take (length l1 - 2) l1))
              in (True, l2[i := encoding]))))"

text \<open>The reader loop runs over the codes backwards, \<open>out\<close> holds the generators found so far.\<close>

fun GetReaderPipeGenerators_loop ::
  "('r, 'w, 'e) List \<Rightarrow> string list \<Rightarrow> ('r, 'e) ReaderPipeGenerator list
     \<Rightarrow> ('r, 'e) ReaderPipeGenerator list option" where
  "GetReaderPipeGenerators_loop l [] out = Some out"
| "GetReaderPipeGenerators_loop l (c # cs) out =
     (let (thisOk, code) = index l (to_lower c) in
      if \<not> thisOk then None
      else GetReaderPipeGenerators_loop l cs (out @ [Reader (l ! code)]))"

definition GetReaderPipeGenerators ::
  "('r, 'w, 'e) List \<Rightarrow> string list \<Rightarrow> ('r, 'e) ReaderPipeGenerator list option" where
  "GetReaderPipeGenerators l codes = GetReaderPipeGenerators_loop l (rev codes) []"

text \<open>The writer loop leaves a nil generator (\<^term>\<open>None\<close>) for a code it does not find.\<close>

definition GetWriterPipeGenerators ::
  "('r, 'w, 'e) List \<Rightarrow> string list \<Rightarrow> ('w, 'e) WriterPipeGenerator option list \<times> bool" where
  "GetWriterPipeGenerators l codes =
     (map (\<lambda>c. let (thisOk, code) = index l c in if thisOk then Some (Writer (l ! code)) else None) codes,
      list_all (\<lambda>c. fst (index l c)) codes)"

subsection \<open>The predefined encodings\<close>

definition mk_generator :: "('s \<Rightarrow> 'e + 's) option \<Rightarrow> ('s, 'e) PipeGenerator" where
  "mk_generator g = \<lparr>Generator = g, generator_id = 0\<rparr>"

definition ChunkedEncoding :: "('r \<Rightarrow> 'e + 'r) \<Rightarrow> ('r, 'w, 'e) Encoding" where
  "ChunkedEncoding chunked_NewPipe =
     \<lparr>Name = ''chunked'', Reader = mk_generator (Some chunked_NewPipe), Writer = mk_generator None\<rparr>"

definition DeflateEncoding ::
  "('r \<Rightarrow> 'e + 'r) \<Rightarrow> ('w \<Rightarrow> 'w) \<Rightarrow> ('r, 'w, 'e) Encoding" where
  "DeflateEncoding zlib_NewReader zlib_NewWriter =
     \<lparr>Name = ''deflate'', Reader = mk_generator (Some zlib_NewReader),
      Writer = mk_generator (Some (\<lambda>w. Inr (zlib_NewWriter w)))\<rparr>"

definition GzipEncoding ::
  "('r \<Rightarrow> 'e + 'r) \<Rightarrow> ('w \<Rightarrow> 'w) \<Rightarrow> ('r, 'w, 'e) Encoding" where
  "GzipEncoding gzip_NewReader gzip_NewWriter =
     \<lparr>Name = ''gzip'', Reader = mk_generator (Some gzip_NewReader),
      Writer = mk_generator (Some (\<lambda>w. Inr (gzip_NewWriter w)))\<rparr>"

definition XGzipEncoding ::
  "('r \<Rightarrow> 'e + 'r) \<Rightarrow> ('w \<Rightarrow> 'w) \<Rightarrow> ('r, 'w, 'e) Encoding" where
  "XGzipEncoding gzip_NewReader gzip_NewWriter =
     \<lparr>Name = ''x-gzip'', Reader = mk_generator (Some gzip_NewReader),
      Writer = mk_generator (Some (\<lambda>w. Inr (gzip_NewWriter w)))\<rparr>"

definition HTTPTransferEncodings ::
  "('r \<Rightarrow> 'e + 'r) \<Rightarrow> ('w \<Rightarrow> 'w) \<Rightarrow> ('r \<Rightarrow> 'e + 'r) \<Rightarrow> ('w \<Rightarrow> 'w) \<Rightarrow> ('r \<Rightarrow> 'e + 'r)
     \<Rightarrow> ('r, 'w, 'e) List" where
  "HTTPTransferEncodings zlib_NewReader zlib_NewWriter gzip_NewReader gzip_NewWriter chunked_NewPipe =
     (let l1 = snd (Add NewList (DeflateEncoding zlib_NewReader zlib_NewWriter));
          l2 = snd (Add l1 (GzipEncoding gzip_NewReader gzip_NewWriter));
          l3 = snd (Add l2 (XGzipEncoding gzip_NewReader gzip_NewWriter))
      in snd (Add l3 (ChunkedEncoding chunked_NewPipe)))"

definition HTTPContentEncodings ::
  "('r \<Rightarrow> 'e + 'r) \<Rightarrow> ('w \<Rightarrow> 'w) \<Rightarrow> ('r \<Rightarrow> 'e + 'r) \<Rightarrow> ('w \<Rightarrow> 'w) \<Rightarrow> ('r, 'w, 'e) List" where
  "HTTPContentEncodings zlib_NewReader zlib_NewWriter gzip_NewReader gzip_NewWriter =
     (let l1 = snd (Add NewList (DeflateEncoding zlib_NewReader zlib_NewWriter));
          l2 = snd (Add l1 (GzipEncoding gzip_NewReader gzip_NewWriter))
      in snd (Add l2 (XGzipEncoding gzip_NewReader gzip_NewWriter)))"

subsection \<open>The contract of \<open>index\<close>\<close>

text \<open>The order of the list: strictly descending names.\<close>

definition descending :: "('r, 'w, 'e) List \<Rightarrow> bool" where
  "descending l \<longleftrightarrow> sorted_wrt (\<lambda>x y. Name x > Name y) l"

text \<open>
  What \<open>Contains\<close>, \<open>Get\<close>, \<open>Add\<close> and \<open>Remove\<close> rely on: a found index holds the key; when none is
  found, the index separates the greater keys from the smaller ones.
\<close>

locale key_search =
  fixes key :: "'a \<Rightarrow> 'k::linorder" and find :: "'a list \<Rightarrow> 'k \<Rightarrow> bool \<times> nat"
  assumes find_True: "sorted_wrt (\<lambda>x y. key x > key y) l \<Longrightarrow> find l k = (True, i)
      \<Longrightarrow> i < length l \<and> key (l ! i) = k"
    and find_False: "sorted_wrt (\<lambda>x y. key x > key y) l \<Longrightarrow> find l k = (False, i)
      \<Longrightarrow> i \<le> length l \<and> (\<forall>x \<in> set (take i l). key x > k) \<and> (\<forall>x \<in> set (drop i l). k > key x)"
begin

lemma found_iff:
  assumes "sorted_wrt (\<lambda>x y. key x > key y) l"
  shows "fst (find l k) \<longleftrightarrow> k \<in> key ` set l"
proof (cases "find l k")
  case (Pair r i)
  show ?thesis
  proof (cases r)
    case True
    with find_True [OF assms, of k i] Pair show ?thesis by force
  next
    case False
    with find_False [OF assms, of k i] Pair
    have "\<forall>x \<in> set (take i l @ drop i l). key x \<noteq> k" unfolding set_append by fastforce
    with False Pair show ?thesis by auto
  qed
qed

lemma insert_keeps_order:
  assumes "sorted_wrt (\<lambda>x y. key x > key y) l" "find l (key x) = (False, i)"
  shows "sorted_wrt (\<lambda>x y. key x > key y) (take i l @ x # drop i l)"
  using find_False [OF assms] sorted_wrt_take [OF assms(1)] sorted_wrt_drop [OF assms(1)]
  by (auto simp: sorted_wrt_append intro: less_trans)

lemma insert_set:
  assumes "sorted_wrt (\<lambda>x y. key x > key y) l" "find l (key x) = (False, i)"
  shows "set (take i l @ x # drop i l) = insert x (set l)"
  by (metis Un_insert_right append_take_drop_id list.simps(15) set_append)

lemma remove_keeps_order:
  assumes "sorted_wrt (\<lambda>x y. key x > key y) l" "find l k = (True, i)"
  shows "sorted_wrt (\<lambda>x y. key x > key y) (take i l @ drop (Suc i) l)"
    and "set (take i l @ drop (Suc i) l) = {x \<in> set l. key x \<noteq> k}"
proof -
  have i: "i < length l" "key (l ! i) = k" using find_True [OF assms] by blast+
  have l: "l = take i l @ l ! i # drop (Suc i) l" using i(1) by (rule id_take_nth_drop)
  have s: "sorted_wrt (\<lambda>x y. key x > key y) (take i l @ l ! i # drop (Suc i) l)"
    using assms(1) l by metis
  then show "sorted_wrt (\<lambda>x y. key x > key y) (take i l @ drop (Suc i) l)"
    by (auto simp: sorted_wrt_append)
  have "set l = insert (l ! i) (set (take i l @ drop (Suc i) l))"
    by (metis Un_insert_right l list.simps(15) set_append)
  moreover have "\<forall>x \<in> set (take i l @ drop (Suc i) l). key x \<noteq> k"
    using s i(2) by (auto simp: sorted_wrt_append)
  ultimately show "set (take i l @ drop (Suc i) l) = {x \<in> set l. key x \<noteq> k}"
    using i(2) by auto
qed

end

lemma descending_nth: "descending l \<Longrightarrow> i < j \<Longrightarrow> j < length l \<Longrightarrow> Name (l ! i) > Name (l ! j)"
  by (simp add: descending_def sorted_wrt_iff_nth_less)

lemma index_loop_spec:
  assumes desc: "descending l"
  shows "0 \<le> a \<Longrightarrow> a \<le> b \<Longrightarrow> b < int (length l) \<Longrightarrow>
    (\<forall>j. int j < a \<longrightarrow> Name (l ! j) > e) \<Longrightarrow> (\<forall>j. b < int j \<and> j < length l \<longrightarrow> e > Name (l ! j)) \<Longrightarrow>
    index_loop l e a b = (r, i) \<Longrightarrow>
    0 \<le> i \<and> (if r then i < int (length l) \<and> Name (l ! nat i) = e
      else i \<le> int (length l) \<and> (\<forall>j. int j < i \<longrightarrow> Name (l ! j) > e)
        \<and> (\<forall>j. i \<le> int j \<and> j < length l \<longrightarrow> e > Name (l ! j)))"
proof (induction "nat (b - a + 1)" arbitrary: a b rule: less_induct)
  case less
  define c where "c = (a + b) div 2"
  have c: "0 \<le> c" "a \<le> c" "c \<le> b" "c < int (length l)"
    using less.prems by (auto simp: c_def)
  have loop: "index_loop l e a b =
      (if Name (l ! nat c) = e then (True, c)
       else if e < Name (l ! nat c) then
         (if b < c + 1 then (False, c + 1) else index_loop l e (c + 1) b)
       else (if c - 1 < a then (False, c) else index_loop l e a (c - 1)))"
    using not_less_iff_gr_or_eq
    by (auto simp: index_loop.simps [of l e a b] Let_def CompareStrings_eq c_def)
  have above: "Name (l ! nat c) < Name (l ! j)" if "int j < c" for j
    using descending_nth [OF desc, of j "nat c"] that c by (simp add: zless_nat_conj)
  have below: "Name (l ! j) < Name (l ! nat c)" if "c < int j" "j < length l" for j
    using descending_nth [OF desc, of "nat c" j] that c by (simp add: nat_less_iff)
  have at: "int j = c \<Longrightarrow> nat c = j" for j by auto
  consider (eq) "Name (l ! nat c) = e" | (gt) "Name (l ! nat c) > e" | (lt) "Name (l ! nat c) < e"
    by fastforce
  then show ?case
  proof cases
    case eq
    with less.prems c show ?thesis by (auto simp: loop)
  next
    case gt
    then have ne: "Name (l ! nat c) \<noteq> e" by blast
    have above': "\<forall>j. int j < c + 1 \<longrightarrow> Name (l ! j) > e"
      using above gt at by (metis less_trans linorder_neqE_linordered_idom zless_add1_eq)
    show ?thesis
    proof (cases "b < c + 1")
      case True
      then have "i = c + 1" "\<not> r" using less.prems gt ne by (simp_all add: loop)
      with True above' less.prems c show ?thesis by auto
    next
      case False
      then have "index_loop l e (c + 1) b = (r, i)"
        using less.prems gt ne by (simp add: loop)
      from less.hyps [OF _ _ _ _ above' _ this] False less.prems c show ?thesis by auto
    qed
  next
    case lt
    then have ne: "Name (l ! nat c) \<noteq> e" "\<not> e < Name (l ! nat c)" by auto
    have below': "\<forall>j. c - 1 < int j \<and> j < length l \<longrightarrow> e > Name (l ! j)"
      using below lt at by (metis diff_less_eq less_trans linorder_neqE_linordered_idom zless_add1_eq)
    show ?thesis
    proof (cases "c - 1 < a")
      case True
      then have "i = c" "\<not> r" using less.prems ne by (simp_all add: loop)
      with True below' less.prems c show ?thesis by auto
    next
      case False
      then have "index_loop l e a (c - 1) = (r, i)"
        using less.prems ne by (simp add: loop)
      from less.hyps [OF _ _ _ _ _ below' this] False less.prems c show ?thesis by auto
    qed
  qed
qed

lemma index_spec:
  assumes "descending l" "index l e = (r, i)"
  shows "if r then i < length l \<and> Name (l ! i) = e
    else i \<le> length l \<and> (\<forall>j < i. Name (l ! j) > e) \<and> (\<forall>j. i \<le> j \<and> j < length l \<longrightarrow> e > Name (l ! j))"
proof (cases "l = []")
  case False
  obtain k where loop: "index_loop l e 0 (int (length l) - 1) = (r, k)" and i: "i = nat k"
    using assms(2) False by (auto simp: index_def split: prod.splits)
  have bounds: "0 \<le> int (length l) - 1" "int (length l) - 1 < int (length l)"
    using False by (cases l; simp)+
  have edges: "\<forall>j. int j < 0 \<longrightarrow> Name (l ! j) > e"
    "\<forall>j. int (length l) - 1 < int j \<and> j < length l \<longrightarrow> e > Name (l ! j)" by auto
  have "0 \<le> k \<and> (if r then k < int (length l) \<and> Name (l ! nat k) = e
      else k \<le> int (length l) \<and> (\<forall>j. int j < k \<longrightarrow> Name (l ! j) > e)
        \<and> (\<forall>j. k \<le> int j \<and> j < length l \<longrightarrow> e > Name (l ! j)))"
    by (rule index_loop_spec [OF assms(1) order_refl bounds edges loop])
  then have k: "0 \<le> k" and rest: "if r then k < int (length l) \<and> Name (l ! nat k) = e
      else k \<le> int (length l) \<and> (\<forall>j. int j < k \<longrightarrow> Name (l ! j) > e)
        \<and> (\<forall>j. k \<le> int j \<and> j < length l \<longrightarrow> e > Name (l ! j))" by blast+
  from k i have ki: "k = int i" by simp
  show ?thesis using rest unfolding ki by (cases r; simp)
qed (use assms in \<open>simp add: index_def\<close>)

interpretation encodings: key_search Name index
proof
  fix l :: "('r, 'w, 'e) List" and k i
  assume "sorted_wrt (\<lambda>x y. Name x > Name y) l"
  then have d: "descending l" by (simp add: descending_def)
  show "index l k = (True, i) \<Longrightarrow> i < length l \<and> Name (l ! i) = k"
    using index_spec [OF d, of k True i] by simp
  show "index l k = (False, i) \<Longrightarrow> i \<le> length l \<and> (\<forall>x \<in> set (take i l). Name x > k)
      \<and> (\<forall>x \<in> set (drop i l). k > Name x)"
    using index_spec [OF d, of k False i] by (auto simp: in_set_conv_nth)
qed

subsection \<open>The list operations\<close>

lemma Add_result:
  assumes "descending l"
  shows "Add l e = (if fst (index l (Name e)) then (False, l)
    else (let i = snd (index l (Name e)) in (True, take i l @ e # drop i l)))"
proof -
  obtain r i where ri: "index l (Name e) = (r, i)" by fastforce
  consider "l = []" | "l \<noteq> []" "r" | "l \<noteq> []" "\<not> r" "i = length l" | "l \<noteq> []" "\<not> r" "i < length l"
    using index_spec [OF assms ri] by (cases r) force+
  then show ?thesis
  proof cases
    case 1
    with ri show ?thesis by (simp add: Add_def index_def)
  next
    case 4
    define l1 where "l1 = l @ [l ! (length l - 1)]"
    have n: "min (length l - (i + 1)) (length (drop i (take (length l - 1) l))) = length l - (i + 1)"
      "length l1 - 1 = length l" "take (length l1 - 2) l1 = take (length l - 1) l"
      "drop (i + 1 + (length l - (i + 1))) l1 = [l ! (length l - 1)]"
      "take (length l - (i + 1)) (drop i (take (length l - 1) l)) = drop i (take (length l - 1) l)"
      using 4(3) by (simp_all add: l1_def)
    then have "go_copy l1 (i + 1) (length l1 - 1) (drop i (take (length l1 - 2) l1))
        = take (i + 1) l1 @ drop i (take (length l - 1) l) @ [l ! (length l - 1)]"
      by (simp only: go_copy_def Let_def)
    moreover have "drop i (take (length l - 1) l) @ [l ! (length l - 1)] = drop i l"
    proof -
      have "take (length l - 1) l @ [l ! (length l - 1)] = l"
        using 4(1) by (metis append_butlast_last_id butlast_conv_take last_conv_nth)
      then have "drop i (take (length l - 1) l @ [l ! (length l - 1)]) = drop i l" by simp
      then show ?thesis using 4(3) by simp
    qed
    moreover have "take (i + 1) l1 = take i l @ [l ! i]"
      using 4(3) by (simp add: l1_def take_Suc_conv_app_nth)
    ultimately have "(go_copy l1 (i + 1) (length l1 - 1) (drop i (take (length l1 - 2) l1)))[i := e]
        = take i l @ e # drop i l"
      using 4(3) by (simp add: list_update_append)
    with 4 ri show ?thesis by (simp add: Add_def l1_def Let_def)
  qed (use ri in \<open>simp_all add: Add_def\<close>)
qed

lemma Remove_result:
  assumes "descending l"
  shows "Remove l e = (if fst (index l e)
    then (let i = snd (index l e) in (True, take i l @ drop (Suc i) l)) else (False, l))"
proof -
  obtain r i where ri: "index l e = (r, i)" by fastforce
  show ?thesis
  proof (cases r)
    case True
    then have "i < length l" using index_spec [OF assms ri] by simp
    define l1 where "l1 = go_copy l i (length l) (drop (i + 1) l)"
    have n: "min (length l - i) (length (drop (i + 1) l)) = length l - (i + 1)"
      "take (length l - (i + 1)) (drop (i + 1) l) = drop (i + 1) l"
      using \<open>i < length l\<close> by simp_all
    have l1: "l1 = take i l @ drop (i + 1) l @ drop (i + (length l - (i + 1))) l"
      by (simp only: l1_def go_copy_def Let_def n)
    have "length l1 = length l" using \<open>i < length l\<close> by (simp add: l1_def)
    moreover have "take (length l - 1) l1 = take i l @ drop (Suc i) l"
      using \<open>i < length l\<close> by (cases "i = length l - 1") (auto simp: l1 min_def)
    ultimately show ?thesis using True ri by (simp add: Remove_def Let_def l1_def)
  qed (use ri in \<open>simp add: Remove_def\<close>)
qed

lemma Add_descending: "descending l \<Longrightarrow> descending (snd (Add l e))"
  using encodings.insert_keeps_order [of l e]
  by (cases "index l (Name e)") (auto simp: Add_result descending_def Let_def)

lemma Remove_descending: "descending l \<Longrightarrow> descending (snd (Remove l e))"
  using encodings.remove_keeps_order(1) [of l e]
  by (cases "index l e") (auto simp: Remove_result descending_def Let_def)

lemma NewList_descending: "descending NewList" "set NewList = {}"
  by (simp_all add: NewList_def descending_def)

subsection \<open>Generators of a list of codes\<close>

lemma GetReader_loop:
  "descending l \<Longrightarrow> list_all (\<lambda>c. fst (index l (to_lower c))) cs \<Longrightarrow>
    GetReaderPipeGenerators_loop l cs out = Some (out @ map (\<lambda>c. Reader (l ! snd (index l (to_lower c)))) cs)"
  by (induction cs arbitrary: out) (auto split: prod.splits)

lemma foldl_Add_descending: "descending (foldl (\<lambda>l e. snd (Add l e)) NewList es)"
  by (induction es rule: rev_induct) (simp_all add: NewList_descending Add_descending)

lemma Contains_iff: "descending l \<Longrightarrow> Contains l n \<longleftrightarrow> n \<in> Name ` set l"
  using encodings.found_iff [of l n] by (simp add: Contains_def descending_def)

lemma Get_result:
  assumes "descending l"
  shows "case Get l n of Some e \<Rightarrow> e \<in> set l \<and> Name e = n | None \<Rightarrow> n \<notin> Name ` set l"
proof (cases "index l n")
  case (Pair r i)
  show ?thesis
  proof (cases r)
    case True
    with index_spec [OF assms Pair] Pair show ?thesis by (simp add: Get_def)
  next
    case False
    with Contains_iff [OF assms, of n] Pair show ?thesis by (simp add: Get_def Contains_def)
  qed
qed

lemma descending_inj: "descending l \<Longrightarrow> x \<in> set l \<Longrightarrow> y \<in> set l \<Longrightarrow> Name x = Name y \<Longrightarrow> x = y"
  by (metis descending_nth in_set_conv_nth linorder_neqE_nat order_less_irrefl)

lemma Get_member:
  assumes "descending l" "x \<in> set l" "Name x = n"
  shows "Get l n = Some x"
proof (cases "Get l n")
  case (Some e)
  with Get_result [OF assms(1), of n] descending_inj [OF assms(1), of e x] assms(2,3)
  show ?thesis by simp
next
  case None
  with Get_result [OF assms(1), of n] assms(2,3) show ?thesis by auto
qed

lemma Add_set:
  assumes "descending l"
  shows "set (snd (Add l e)) = (if Name e \<in> Name ` set l then set l else insert e (set l))"
  using encodings.found_iff [OF assms [unfolded descending_def], of "Name e"]
    encodings.insert_set [OF assms [unfolded descending_def], of e]
  by (cases "index l (Name e)") (auto simp: Add_result [OF assms] Let_def)

lemma HTTPContentEncodings_descending: "descending (HTTPContentEncodings zr zw gr gw)"
  by (simp add: HTTPContentEncodings_def Let_def Add_descending NewList_descending)

lemma HTTPTransferEncodings_descending: "descending (HTTPTransferEncodings zr zw gr gw ch)"
  by (simp add: HTTPTransferEncodings_def Let_def Add_descending NewList_descending)

lemmas predefined = DeflateEncoding_def GzipEncoding_def XGzipEncoding_def ChunkedEncoding_def

lemma set_HTTPContentEncodings:
  "set (HTTPContentEncodings zr zw gr gw)
    = {DeflateEncoding zr zw, GzipEncoding gr gw, XGzipEncoding gr gw}"
  by (auto simp: HTTPContentEncodings_def Let_def Add_set Add_descending NewList_descending predefined)

lemma set_HTTPTransferEncodings:
  "set (HTTPTransferEncodings zr zw gr gw ch)
    = {DeflateEncoding zr zw, GzipEncoding gr gw, XGzipEncoding gr gw, ChunkedEncoding ch}"
  by (auto simp: HTTPTransferEncodings_def Let_def Add_set Add_descending NewList_descending predefined)

subsection \<open>Properties\<close>

text \<open>
  On a list in descending order the binary search terminates with the right answer:
  \<open>Contains\<close> says whether an encoding of that name is in the list, and \<open>Get\<close> returns it.
\<close>

theorem Get_finds:
  assumes "descending l"
  shows "(Contains l n \<longleftrightarrow> n \<in> Name ` set l)
    \<and> (case Get l n of Some e \<Rightarrow> e \<in> set l \<and> Name e = n | None \<Rightarrow> n \<notin> Name ` set l)"
  using Contains_iff [OF assms] Get_result [OF assms] by blast

theorem Get_finds_witness:
  "Contains (HTTPContentEncodings Inr id Inr id :: (string, string, unit) List) ''gzip''
    \<longleftrightarrow> ''gzip'' \<in> Name ` set (HTTPContentEncodings Inr id Inr id :: (string, string, unit) List)"
  using Get_finds [OF HTTPContentEncodings_descending] by blast

text \<open>
  Whatever is added to a new list and in whatever order, the list stays in descending order;
  on such a list \<open>Add\<close> of a fresh name inserts the encoding and loses none, \<open>Add\<close> of a name that
  is there changes nothing and says so, and \<open>Remove\<close> takes out exactly the encoding of that name.
\<close>

theorem Add_Remove_correct:
  "(let l = foldl (\<lambda>l e. snd (Add l e)) NewList es in
    descending l
    \<and> (if Name e \<in> Name ` set l then Add l e = (False, l)
       else fst (Add l e) \<and> descending (snd (Add l e)) \<and> set (snd (Add l e)) = insert e (set l))
    \<and> fst (Remove l n) = (n \<in> Name ` set l) \<and> descending (snd (Remove l n))
    \<and> set (snd (Remove l n)) = {x \<in> set l. Name x \<noteq> n})"
proof -
  define l where "l = foldl (\<lambda>l e. snd (Add l e)) NewList es"
  have d: "descending l" by (simp add: l_def foldl_Add_descending)
  note o = d [unfolded descending_def]
  have f: "fst (index l k) \<longleftrightarrow> k \<in> Name ` set l" for k using encodings.found_iff [OF o] .
  have "Name e \<in> Name ` set l \<Longrightarrow> Add l e = (False, l)"
    using f [of "Name e"] by (simp add: Add_result [OF d])
  moreover have "fst (Add l e) \<and> descending (snd (Add l e)) \<and> set (snd (Add l e)) = insert e (set l)"
    if "Name e \<notin> Name ` set l"
    using f [of "Name e"] that Add_set [OF d, of e] Add_descending [OF d, of e]
    by (simp add: Add_result [OF d] Let_def)
  moreover have "fst (Remove l n) = (n \<in> Name ` set l) \<and> set (snd (Remove l n)) = {x \<in> set l. Name x \<noteq> n}"
  proof (cases "fst (index l n)")
    case True
    with encodings.remove_keeps_order(2) [OF o, of n] f [of n] show ?thesis
      by (cases "index l n") (simp add: Remove_result [OF d] Let_def)
  next
    case False
    with f [of n] show ?thesis by (auto simp: Remove_result [OF d])
  qed
  ultimately show ?thesis
    using d Remove_descending [OF d, of n] by (simp add: Let_def flip: l_def)
qed

text \<open>
  C31: the readers undo the encodings: when every code of the header names a decoder of the list,
  the pipe \<open>From\<close> builds over the message decodes it, if the message was encoded by the codes in
  the order of the header (first code first), as HTTP says.
\<close>

theorem readers_decode:
  assumes "descending l" "\<And>c. c \<in> set codes \<Longrightarrow> Get l (to_lower c) = Some (e c) \<and> Reader (e c) = decoder (dec c)"
    and "\<And>c m. c \<in> set codes \<Longrightarrow> dec c (enc c m) = m"
  shows "\<exists>gens rs. GetReaderPipeGenerators l codes = Some gens
    \<and> From (fold enc codes m) [gens] = Inr (Inr rs) \<and> hd rs = m"
proof -
  have ok: "fst (index l (to_lower c)) \<and> Reader (l ! snd (index l (to_lower c))) = decoder (dec c)"
    if "c \<in> set codes" for c
    using assms(2) [OF that] by (auto simp: Get_def split: prod.splits if_splits)
  have "GetReaderPipeGenerators l codes = Some (map (\<lambda>c. Reader (l ! snd (index l (to_lower c)))) (rev codes))"
    using GetReader_loop [OF assms(1), of "rev codes"] ok
    by (simp add: GetReaderPipeGenerators_def list_all_iff)
  also have "map (\<lambda>c. Reader (l ! snd (index l (to_lower c)))) (rev codes) = map (\<lambda>c. decoder (dec c)) (rev codes)"
    using ok by simp
  finally have gens: "GetReaderPipeGenerators l codes = Some (map decoder (map dec (rev codes)))"
    by (simp only: map_map comp_def)
  have "fold id (map dec (rev codes)) (fold enc codes m) = m"
    using assms(3) by (induction codes arbitrary: m) (simp_all add: fold_append)
  then have hd: "hd (layers (map dec (rev codes)) (fold enc codes m) @ [fold enc codes m]) = m"
    by (simp only: hd_layers)
  show ?thesis by (intro exI conjI) (rule gens, rule From_decoders, rule hd)
qed

theorem readers_decode_witness:
  "\<exists>gens rs. GetReaderPipeGenerators
      (HTTPContentEncodings (\<lambda>m. Inr (rev m)) id (\<lambda>m. Inr (tl m)) id :: (string, string, unit) List)
      [''GZIP'', ''deflate''] = Some gens
    \<and> From (fold (\<lambda>c m. if c = ''GZIP'' then CHR ''z'' # m else rev m) [''GZIP'', ''deflate''] ''abc'') [gens]
        = Inr (Inr rs) \<and> hd rs = ''abc''"
proof (rule readers_decode)
  let ?l = "HTTPContentEncodings (\<lambda>m. Inr (rev m)) id (\<lambda>m. Inr (tl m)) id :: (string, string, unit) List"
  show "descending ?l" by (rule HTTPContentEncodings_descending)
  have g: "Get ?l ''gzip'' = Some (GzipEncoding (\<lambda>m. Inr (tl m)) id)"
    "Get ?l ''deflate'' = Some (DeflateEncoding (\<lambda>m. Inr (rev m)) id)"
    by (rule Get_member [OF HTTPContentEncodings_descending];
        simp add: set_HTTPContentEncodings predefined)+
  have t: "to_lower ''GZIP'' = ''gzip''" "to_lower ''deflate'' = ''deflate''" by code_simp+
  fix c :: string assume c: "c \<in> set [''GZIP'', ''deflate'']"
  show "Get ?l (to_lower c) = Some (if c = ''GZIP'' then GzipEncoding (\<lambda>m. Inr (tl m)) id
          else DeflateEncoding (\<lambda>m. Inr (rev m)) id)
      \<and> Reader (if c = ''GZIP'' then GzipEncoding (\<lambda>m. Inr (tl m)) id
          else DeflateEncoding (\<lambda>m. Inr (rev m)) id :: (string, string, unit) Encoding)
        = decoder (if c = ''GZIP'' then tl else rev)"
    using c g t by (auto simp: GzipEncoding_def DeflateEncoding_def mk_generator_def decoder_def)
  show "(if c = ''GZIP'' then tl else rev) (if c = ''GZIP'' then CHR ''z'' # m else rev m) = m" for m
    by simp
qed

text \<open>
  The writers apply the encodings in the wrong order. A pipe \<open>To\<close> built from the encoders of
  the codes passes a message through the last encoder first, so with two or more codes the output
  is not what the header announces.
\<close>

theorem writers_encode_backwards:
  "\<exists>ws. To id [map encoder encs] = Inr (Inr ws) \<and> (\<forall>m. hd ws m = fold id (rev encs) m)"
proof -
  have "hd (layers (map (\<lambda>e w. w \<circ> e) encs) id @ [id]) = foldr id encs"
    by (simp add: hd_layers fold_writers)
  then show ?thesis
    using To_encoders [of id encs] by (auto simp: foldr_conv_fold)
qed

text \<open>
  The predefined transfer encodings hold a chunked encoding that has no writer: asking for the
  writers of a chunked message succeeds, and building the pipe panics on the nil generator.
\<close>

theorem chunked_writer_panics:
  "GetWriterPipeGenerators (HTTPTransferEncodings zr zw gr gw ch) [''chunked'']
      = ([Some (Writer (ChunkedEncoding ch))], True)
    \<and> To w [[Writer (ChunkedEncoding ch)]] = Inl NilDereference"
proof
  let ?l = "HTTPTransferEncodings zr zw gr gw ch"
  have "Get ?l ''chunked'' = Some (ChunkedEncoding ch)"
    by (rule Get_member [OF HTTPTransferEncodings_descending])
      (simp_all add: set_HTTPTransferEncodings predefined)
  then show "GetWriterPipeGenerators ?l [''chunked''] = ([Some (Writer (ChunkedEncoding ch))], True)"
    by (auto simp: GetWriterPipeGenerators_def Get_def split: prod.splits if_splits)
  show "To w [[Writer (ChunkedEncoding ch)]] = Inl NilDereference"
    by (simp add: To_def ChunkedEncoding_def mk_generator_def)
qed

end
