(* ===== verification/Http_Chars.thy ===== *)
theory Http_Chars
  imports Prelude
begin

section \<open>Characters, tokens and quoted strings: \<open>http/httpchars\<close>\<close>

text \<open>
  The byte classes of RFC 7230, the functions that cut tokens and white space off a string, and
  the parser and formatter of quoted strings. Go's \<open>range\<close> over a string yields the runes of its
  UTF-8 decoding, so the theory starts with that decoding; a rune is a \<^typ>\<open>nat\<close>. The
  formatter walks the runes but copies bytes, which is right on ASCII strings only.
\<close>

subsection \<open>\<open>range\<close> over a string\<close>

definition cont_byte :: "nat \<Rightarrow> bool" where
  "cont_byte b = (0x80 \<le> b \<and> b \<le> 0xBF)"

text \<open>
  The bounds of the second byte depend on the first; an invalid sequence gives the rune U+FFFD
  and width 1.
\<close>

definition second_byte :: "nat \<Rightarrow> nat \<Rightarrow> bool" where
  "second_byte b0 b1 =
     ((if b0 = 0xE0 then 0xA0 else if b0 = 0xF0 then 0x90 else 0x80) \<le> b1
      \<and> b1 \<le> (if b0 = 0xED then 0x9F else if b0 = 0xF4 then 0x8F else 0xBF))"

definition decode_bytes :: "nat \<Rightarrow> nat \<Rightarrow> nat \<Rightarrow> nat \<Rightarrow> nat \<times> nat" where
  "decode_bytes b0 b1 b2 b3 =
     (if b0 < 0x80 then (b0, 1)
      else if 0xC2 \<le> b0 \<and> b0 \<le> 0xDF \<and> cont_byte b1 then
        ((b0 - 0xC0) * 64 + (b1 - 0x80), 2)
      else if 0xE0 \<le> b0 \<and> b0 \<le> 0xEF \<and> second_byte b0 b1 \<and> cont_byte b2 then
        ((b0 - 0xE0) * 4096 + (b1 - 0x80) * 64 + (b2 - 0x80), 3)
      else if 0xF0 \<le> b0 \<and> b0 \<le> 0xF4 \<and> second_byte b0 b1 \<and> cont_byte b2 \<and> cont_byte b3 then
        ((b0 - 0xF0) * 262144 + (b1 - 0x80) * 4096 + (b2 - 0x80) * 64 + (b3 - 0x80), 4)
      else (0xFFFD, 1))"

text \<open>The byte at an index, or 0 (which continues no sequence) past the end.\<close>

definition byte_at :: "string \<Rightarrow> nat \<Rightarrow> nat" where
  "byte_at s i = (if i < length s then of_char (s ! i) else 0)"

text \<open>The first rune of a non-empty string and its width in bytes.\<close>

definition decode_rune :: "string \<Rightarrow> nat \<times> nat" where
  "decode_rune s = decode_bytes (byte_at s 0) (byte_at s 1) (byte_at s 2) (byte_at s 3)"

lemma decode_bytes_width: "snd (decode_bytes b0 b1 b2 b3) \<ge> 1"
  by (simp add: decode_bytes_def)

lemma decode_rune_width: "0 < snd (decode_rune s)"
  using decode_bytes_width by (simp add: decode_rune_def Suc_le_eq)

lemma decode_bytes_high: "\<not> b0 < 128 \<Longrightarrow> fst (decode_bytes b0 b1 b2 b3) \<ge> 128"
proof -
  have two: "128 \<le> (b0 - 0xC0) * 64 + x" if "0xC2 \<le> b0" for x
    using mult_le_mono1 [of 2 "b0 - 0xC0" 64] that by linarith
  have three: "128 \<le> (b0 - 0xE0) * 4096 + (b1 - 0x80) * 64 + x" if "0xE0 \<le> b0" "second_byte b0 b1" for x
  proof (cases "b0 = 0xE0")
    case True
    with that have "0x20 \<le> b1 - 0x80" by (auto simp: second_byte_def)
    then show ?thesis using mult_le_mono1 [of "0x20" "b1 - 0x80" 64] by linarith
  next
    case False
    with that have "1 \<le> b0 - 0xE0" by simp
    then show ?thesis using mult_le_mono1 [of 1 "b0 - 0xE0" 4096] by linarith
  qed
  have four: "128 \<le> (b0 - 0xF0) * 262144 + (b1 - 0x80) * 4096 + x + y"
    if "0xF0 \<le> b0" "b0 \<le> 0xF4" "second_byte b0 b1" for x y
  proof (cases "b0 = 0xF0")
    case True
    with that have "0x10 \<le> b1 - 0x80" by (auto simp: second_byte_def)
    then show ?thesis using mult_le_mono1 [of "0x10" "b1 - 0x80" 4096] by linarith
  next
    case False
    with that have "1 \<le> b0 - 0xF0" by simp
    then show ?thesis using mult_le_mono1 [of 1 "b0 - 0xF0" 262144] by linarith
  qed
  assume "\<not> b0 < 128"
  then show ?thesis
    unfolding decode_bytes_def using two three four by (simp only: if_False if_cancel fst_conv split: if_split) simp
qed

lemma decode_rune_ascii: "ascii_byte c \<Longrightarrow> decode_rune (c # s) = (of_char c, 1)"
  by (simp add: decode_rune_def decode_bytes_def byte_at_def ascii_byte_def)

lemma decode_rune_high: "\<not> ascii_byte c \<Longrightarrow> fst (decode_rune (c # s)) \<ge> 128"
  using decode_bytes_high [of "of_char c"]
  by (simp add: decode_rune_def byte_at_def ascii_byte_def)

subsection \<open>Byte classes\<close>

definition IsWhitespace :: "char \<Rightarrow> bool" where
  "IsWhitespace b = (b = CHR '' '' \<or> b = CHR 0x09)"

definition IsDigit :: "char \<Rightarrow> bool" where
  "IsDigit b = (CHR ''0'' \<le> b \<and> b \<le> CHR ''9'')"

definition IsAlpha :: "char \<Rightarrow> bool" where
  "IsAlpha b = ((CHR ''a'' \<le> b \<and> b \<le> CHR ''z'') \<or> (CHR ''A'' \<le> b \<and> b \<le> CHR ''Z''))"

definition IsVChar :: "char \<Rightarrow> bool" where
  "IsVChar b = (CHR 0x21 \<le> b \<and> b \<le> CHR 0x7E)"

definition IsOBSText :: "char \<Rightarrow> bool" where
  "IsOBSText b = (CHR 0x80 \<le> b)"

definition IsFieldChar :: "char \<Rightarrow> bool" where
  "IsFieldChar b = (IsOBSText b \<or> IsVChar b)"

definition IsQuotedPairChar :: "char \<Rightarrow> bool" where
  "IsQuotedPairChar b = (IsVChar b \<or> b = CHR 0x22 \<or> b = CHR 0x5C \<or> b = CHR '' '' \<or> b = CHR 0x09
     \<or> IsOBSText b)"

definition IsQDText :: "char \<Rightarrow> bool" where
  "IsQDText b = ((CHR 0x5D \<le> b \<and> b \<le> CHR 0x7E) \<or> (CHR 0x23 \<le> b \<and> b \<le> CHR 0x5B)
     \<or> b = CHR '' '' \<or> b = CHR ''!'' \<or> b = CHR 0x09 \<or> IsOBSText b)"

definition IsTokenChar :: "char \<Rightarrow> bool" where
  "IsTokenChar b = (IsAlpha b \<or> IsDigit b \<or> b = CHR ''-'' \<or> b = CHR ''*''
     \<or> (CHR 0x23 \<le> b \<and> b \<le> CHR 0x27) \<or> b = CHR ''!'' \<or> b = CHR ''+'' \<or> b = CHR ''.''
     \<or> b = CHR ''^'' \<or> b = CHR ''_'' \<or> b = CHR 0x60 \<or> b = CHR ''|'' \<or> b = CHR ''~'')"

definition IsTokenRune :: "nat \<Rightarrow> bool" where
  "IsTokenRune r = (if r \<le> 255 then IsTokenChar (char_of r) else False)"

fun IsValidToken_loop :: "string \<Rightarrow> bool" where
  "IsValidToken_loop [] = True"
| "IsValidToken_loop (b # bytes) = (if \<not> IsTokenChar b then False else IsValidToken_loop bytes)"

definition IsValidToken :: "string \<Rightarrow> bool" where
  "IsValidToken bytes = (if length bytes = 0 then False else IsValidToken_loop bytes)"

function IsValidTokenString :: "string \<Rightarrow> bool" where
  "IsValidTokenString s =
     (if s = [] then True
      else (let (r, w) = decode_rune s in
        if r > 255 then False
        else if \<not> IsTokenChar (char_of r) then False
        else IsValidTokenString (drop w s)))"
  by auto
termination
proof (relation "measure length")
  fix s :: string and x r w
  assume "s \<noteq> []" "x = decode_rune s" "(r, w) = x"
  then show "(drop w s, s) \<in> measure length"
    using decode_rune_width [of s] by (cases s) (auto dest: sym)
qed simp

declare IsValidTokenString.simps [simp del]

subsection \<open>Cutting white space and tokens\<close>

fun ConsumeWhitespace :: "string \<Rightarrow> string" where
  "ConsumeWhitespace [] = []"
| "ConsumeWhitespace (c # s) = (if IsWhitespace c then ConsumeWhitespace s else c # s)"

fun RemoveWhitespacePrefix :: "string \<Rightarrow> string" where
  "RemoveWhitespacePrefix [] = []"
| "RemoveWhitespacePrefix (c # s) = (if IsWhitespace c then RemoveWhitespacePrefix s else c # s)"

text \<open>The index \<open>i\<close> of the code is one less than \<open>n\<close> here.\<close>

fun RemoveWhitespacePostfix_loop :: "string \<Rightarrow> nat \<Rightarrow> string" where
  "RemoveWhitespacePostfix_loop v 0 = take 0 v"
| "RemoveWhitespacePostfix_loop v (Suc i) =
     (if IsWhitespace (v ! i) then RemoveWhitespacePostfix_loop v i else take (Suc i) v)"

definition RemoveWhitespacePostfix :: "string \<Rightarrow> string" where
  "RemoveWhitespacePostfix v = RemoveWhitespacePostfix_loop v (length v)"

definition RemoveWhitespace :: "string \<Rightarrow> string" where
  "RemoveWhitespace v = RemoveWhitespacePostfix (RemoveWhitespacePrefix v)"

text \<open>\<open>i\<close> is the byte index of the rune the loop looks at.\<close>

function ReadToken_loop :: "string \<Rightarrow> nat \<Rightarrow> string \<times> string" where
  "ReadToken_loop s i =
     (if i \<ge> length s then (s, [])
      else (let (c, w) = decode_rune (drop i s) in
        if \<not> IsTokenRune c then (take i s, drop i s) else ReadToken_loop s (i + w)))"
  by auto
termination
proof (relation "measure (\<lambda>(s, i). length s - i)")
  fix s :: string and i :: nat and x r w
  assume "\<not> length s \<le> i" "x = decode_rune (drop i s)" "(r, w) = x"
  then show "((s, i + w), s, i) \<in> measure (\<lambda>(s, i). length s - i)"
    using decode_rune_width [of "drop i s"] by (auto dest: sym)
qed simp

declare ReadToken_loop.simps [simp del]

definition ReadToken :: "string \<Rightarrow> string \<times> string" where
  "ReadToken s = ReadToken_loop s 0"

subsection \<open>Quoted strings\<close>

datatype quoted_error = ErrNoStartingQuotesForQuotedString | ErrNoEndingQuotesForQuotedString
  | ErrMalformedQuotedString | ErrInvalidCharacter

text \<open>
  The rest of \<open>qstr\<close> from index \<open>i\<close> on, and the bytes read so far. After a backslash the code
  reads the next byte without looking whether there is one.
\<close>

fun ParseQuotedString_loop ::
  "string \<Rightarrow> nat \<Rightarrow> string \<Rightarrow> (string \<times> nat \<times> quoted_error option) go" where
  "ParseQuotedString_loop [] i str = Inr (str, i, Some ErrNoEndingQuotesForQuotedString)"
| "ParseQuotedString_loop (c # rest) i str =
     (if \<not> IsQDText c then
        (if c = CHR 0x5C then
           (case rest of
              [] \<Rightarrow> Inl IndexOutOfRange
            | c' # rest' \<Rightarrow>
                if \<not> IsQuotedPairChar c' then Inr (str, i + 1, Some ErrMalformedQuotedString)
                else ParseQuotedString_loop rest' (i + 2) (str @ [c']))
         else if c = CHR 0x22 then Inr (str, i + 1, None)
         else Inr (str, i, Some ErrMalformedQuotedString))
      else ParseQuotedString_loop rest (i + 1) (str @ [c]))"

definition ParseQuotedStringNoStartingQuote ::
  "string \<Rightarrow> (string \<times> nat \<times> quoted_error option) go" where
  "ParseQuotedStringNoStartingQuote qstr = ParseQuotedString_loop qstr 0 []"

definition ParseQuotedString :: "string \<Rightarrow> (string \<times> nat \<times> quoted_error option) go" where
  "ParseQuotedString qstr =
     (if qstr = [] \<or> hd qstr \<noteq> CHR 0x22 then Inr ([], 0, Some ErrNoStartingQuotesForQuotedString)
      else ParseQuotedStringNoStartingQuote (tl qstr))"

definition ParseFullQuotedStringNoStartingQuote :: "string \<Rightarrow> (string \<times> quoted_error option) go" where
  "ParseFullQuotedStringNoStartingQuote qstr =
     bind_go (ParseQuotedStringNoStartingQuote qstr) (\<lambda>(str, end', err).
       Inr (str, if end' \<noteq> length qstr then Some ErrMalformedQuotedString else err))"

definition ParseFullQuotedString :: "string \<Rightarrow> (string \<times> quoted_error option) go" where
  "ParseFullQuotedString qstr =
     (if qstr = [] \<or> hd qstr \<noteq> CHR 0x22 then Inr ([], Some ErrNoStartingQuotesForQuotedString)
      else ParseFullQuotedStringNoStartingQuote (tl qstr))"

text \<open>
  The loop of the formatter has the rest of the string, the output after its first byte, and
  \<open>isQuoted\<close>; the break on an invalid byte ends it with the error.
\<close>

function FormatTokenOrQuotedString_loop ::
  "string \<Rightarrow> string \<Rightarrow> bool \<Rightarrow> string \<times> bool \<times> quoted_error option" where
  "FormatTokenOrQuotedString_loop str out isQuoted =
     (if str = [] then (out, isQuoted, None)
      else (let c = hd str; w = snd (decode_rune str) in
        if IsTokenChar c then FormatTokenOrQuotedString_loop (drop w str) (out @ [c]) isQuoted
        else if IsQDText c then FormatTokenOrQuotedString_loop (drop w str) (out @ [c]) True
        else if IsQuotedPairChar c then
          FormatTokenOrQuotedString_loop (drop w str) (out @ [CHR 0x5C, c]) True
        else (out, isQuoted, Some ErrInvalidCharacter)))"
  by auto
termination
  by (relation "measure (\<lambda>(s, _, _). length s)")
    (auto simp: decode_rune_width)

declare FormatTokenOrQuotedString_loop.simps [simp del]

definition FormatTokenOrQuotedString :: "string \<Rightarrow> string \<times> quoted_error option" where
  "FormatTokenOrQuotedString str =
     (let (out, isQuoted, err) = FormatTokenOrQuotedString_loop str [] False
      in if isQuoted then (CHR 0x22 # out @ [CHR 0x22], err) else (out, err))"

subsection \<open>Facts on the byte classes\<close>

text \<open>Every class as a condition on the code of the byte, where arithmetic decides.\<close>

lemma char_eq_code: "(c = d) \<longleftrightarrow> (of_char c :: nat) = of_char d"
  by simp

lemmas class_codes = IsWhitespace_def IsDigit_def IsAlpha_def IsVChar_def IsOBSText_def
  IsFieldChar_def IsQuotedPairChar_def IsQDText_def IsTokenChar_def ascii_byte_def
  less_eq_char_def char_eq_code

lemma token_qdtext: "IsTokenChar c \<Longrightarrow> IsQDText c"
  unfolding class_codes of_char_Char by (simp del: of_char_eq_iff) presburger

lemma token_ascii: "IsTokenChar c \<Longrightarrow> ascii_byte c"
  unfolding class_codes of_char_Char by (simp del: of_char_eq_iff) presburger

lemma not_qdtext [simp]: "\<not> IsQDText (CHR 0x22)" "\<not> IsQDText (CHR 0x5C)"
  by (simp_all add: IsQDText_def IsOBSText_def less_eq_char_def)

lemma IsTokenRune_decode: "IsTokenRune (fst (decode_rune (c # s))) \<longleftrightarrow> IsTokenChar c"
proof (cases "ascii_byte c")
  case True
  then show ?thesis
    by (simp add: decode_rune_ascii IsTokenRune_def ascii_byte_def)
next
  case False
  have "\<not> IsTokenChar (char_of r)" if "128 \<le> r" "r \<le> 255" for r :: nat
    using token_ascii [of "char_of r"] that by (auto simp: ascii_byte_def)
  with False decode_rune_high [OF False, of s] show ?thesis
    using token_ascii by (auto simp: IsTokenRune_def)
qed

subsection \<open>Tokens and white space\<close>

lemma ReadToken_loop_splits:
  "i \<le> length s \<Longrightarrow> list_all IsTokenChar (take i s) \<Longrightarrow>
    ReadToken_loop s i = (takeWhile IsTokenChar s, dropWhile IsTokenChar s)"
proof (induction s i rule: ReadToken_loop.induct)
  case (1 s i)
  have all: "\<And>c. c \<in> set (take i s) \<Longrightarrow> IsTokenChar c" using "1.prems" by (simp add: list_all_iff)
  show ?case
  proof (cases "length s \<le> i")
    case True
    then have "i = length s" using "1.prems" by simp
    then have "takeWhile IsTokenChar s = s" "dropWhile IsTokenChar s = []"
      using all by (simp_all add: takeWhile_eq_all_conv dropWhile_eq_Nil_conv)
    moreover have "ReadToken_loop s i = (s, [])"
      using True by (simp add: ReadToken_loop.simps [of s i])
    ultimately show ?thesis by (simp only:)
  next
    case False
    then obtain c t where ct: "drop i s = c # t" by (cases "drop i s") auto
    have s: "s = take i s @ c # t" using ct by (metis append_take_drop_id)
    obtain r w where rw: "decode_rune (drop i s) = (r, w)" by fastforce
    have r: "IsTokenRune r \<longleftrightarrow> IsTokenChar c" using IsTokenRune_decode [of c t] rw ct by simp
    show ?thesis
    proof (cases "IsTokenChar c")
      case True
      then have "w = 1" using rw ct token_ascii [OF True] by (simp add: decode_rune_ascii)
      moreover have "list_all IsTokenChar (take (i + 1) s)"
        using False True ct "1.prems" by (simp add: take_Suc_conv_app_nth nth_via_drop [OF ct])
      ultimately show ?thesis
        using "1.IH" [OF False rw [symmetric] refl] True False r
        by (simp add: ReadToken_loop.simps [of s i] rw)
    next
      case f: False
      have "takeWhile IsTokenChar (take i s @ c # t) = take i s"
        "dropWhile IsTokenChar (take i s @ c # t) = drop i s"
        using all f ct by (simp_all add: takeWhile_append2 dropWhile_append2)
      then have "takeWhile IsTokenChar s = take i s" "dropWhile IsTokenChar s = drop i s"
        using s by simp_all
      with False f r show ?thesis by (simp add: ReadToken_loop.simps [of s i] rw)
    qed
  qed
qed

lemma RemoveWhitespacePrefix_eq: "RemoveWhitespacePrefix v = dropWhile IsWhitespace v"
  by (induction v) auto

lemma ConsumeWhitespace_eq: "ConsumeWhitespace v = dropWhile IsWhitespace v"
  by (induction v) auto

lemma RemoveWhitespacePostfix_loop_eq:
  "n \<le> length v \<Longrightarrow> RemoveWhitespacePostfix_loop v n = rev (dropWhile IsWhitespace (rev (take n v)))"
  by (induction n) (simp_all add: take_Suc_conv_app_nth)

lemma RemoveWhitespacePostfix_eq: "RemoveWhitespacePostfix v = rev (dropWhile IsWhitespace (rev v))"
  by (simp add: RemoveWhitespacePostfix_def RemoveWhitespacePostfix_loop_eq)

subsection \<open>Quoted strings\<close>

definition escape :: "char \<Rightarrow> string" where
  "escape c = (if IsQDText c then [c] else [CHR 0x5C, c])"

lemma Format_loop_escapes:
  "list_all ascii_byte str \<Longrightarrow> FormatTokenOrQuotedString_loop str out q = (out', q', None) \<Longrightarrow>
    out' = out @ concat (map escape str) \<and> (q' \<longleftrightarrow> q \<or> \<not> list_all IsTokenChar str)
      \<and> list_all (\<lambda>c. IsQDText c \<or> IsQuotedPairChar c) str"
proof (induction str arbitrary: out q)
  case (Cons c str)
  have w: "decode_rune (c # str) = (of_char c, 1)" using Cons.prems by (simp add: decode_rune_ascii)
  note step = FormatTokenOrQuotedString_loop.simps [of "c # str" out q]
  consider "IsTokenChar c" | "\<not> IsTokenChar c" "IsQDText c"
    | "\<not> IsTokenChar c" "\<not> IsQDText c" "IsQuotedPairChar c"
    | "\<not> IsTokenChar c" "\<not> IsQDText c" "\<not> IsQuotedPairChar c" by blast
  then show ?case
  proof cases
    case 1
    with Cons.prems w have "FormatTokenOrQuotedString_loop str (out @ [c]) q = (out', q', None)"
      by (simp add: step)
    from Cons.IH [OF _ this] Cons.prems 1 show ?thesis by (simp add: escape_def token_qdtext)
  next
    case 2
    with Cons.prems w have "FormatTokenOrQuotedString_loop str (out @ [c]) True = (out', q', None)"
      by (simp add: step)
    from Cons.IH [OF _ this] Cons.prems 2 show ?thesis by (simp add: escape_def)
  next
    case 3
    with Cons.prems w
    have "FormatTokenOrQuotedString_loop str (out @ [CHR 0x5C, c]) True = (out', q', None)"
      by (simp add: step)
    from Cons.IH [OF _ this] Cons.prems 3 show ?thesis by (simp add: escape_def)
  next
    case 4
    with Cons.prems show ?thesis by (simp add: step)
  qed
qed (simp add: FormatTokenOrQuotedString_loop.simps)

lemma Parse_loop_escaped:
  "list_all (\<lambda>c. IsQDText c \<or> IsQuotedPairChar c) str \<Longrightarrow>
    ParseQuotedString_loop (concat (map escape str) @ CHR 0x22 # rest) i acc
      = Inr (acc @ str, i + length (concat (map escape str)) + 1, None)"
  by (induction str arbitrary: i acc) (auto simp: escape_def)

lemma Format_shape:
  assumes "ascii str" "FormatTokenOrQuotedString str = (out, None)"
  shows "(list_all IsTokenChar str \<and> out = str)
    \<or> (\<not> list_all IsTokenChar str \<and> out = CHR 0x22 # concat (map escape str) @ [CHR 0x22]
        \<and> list_all (\<lambda>c. IsQDText c \<or> IsQuotedPairChar c) str)"
proof -
  obtain out' q where loop: "FormatTokenOrQuotedString_loop str [] False = (out', q, None)"
    and out: "out = (if q then CHR 0x22 # out' @ [CHR 0x22] else out')"
    using assms(2) by (auto simp: FormatTokenOrQuotedString_def Let_def split: prod.splits if_splits)
  have f: "out' = concat (map escape str)" "q \<longleftrightarrow> \<not> list_all IsTokenChar str"
    "list_all (\<lambda>c. IsQDText c \<or> IsQuotedPairChar c) str"
    using Format_loop_escapes [OF _ loop] assms(1) by (simp_all add: ascii_def)
  have "concat (map escape str) = str" if "list_all IsTokenChar str"
    using that by (induction str) (simp_all add: escape_def token_qdtext)
  with f out show ?thesis by auto
qed

lemma Format_then_parse:
  assumes "ascii str" "FormatTokenOrQuotedString str = (out, None)"
  shows "(list_all IsTokenChar str \<longrightarrow> out = str)
    \<and> (\<not> list_all IsTokenChar str \<longrightarrow> ParseFullQuotedString out = Inr (str, None))"
  using Format_shape [OF assms]
  by (auto simp: ParseFullQuotedString_def ParseFullQuotedStringNoStartingQuote_def
      ParseQuotedStringNoStartingQuote_def Parse_loop_escaped)

subsection \<open>Properties\<close>

text \<open>
  \<open>ReadToken\<close>, which walks the runes of the string, cuts every string (valid UTF-8 or not)
  exactly before its first byte that is not a token character.
\<close>

theorem ReadToken_splits:
  "ReadToken s = (takeWhile IsTokenChar s, dropWhile IsTokenChar s)"
  by (simp add: ReadToken_def ReadToken_loop_splits)

text \<open>
  \<open>FormatTokenOrQuotedString\<close> and \<open>ParseFullQuotedString\<close> are a round trip on ASCII strings:
  when formatting succeeds, either the output is the string itself and consists of token
  characters, or the parser reads the string back from it without an error or a panic.
\<close>

theorem quoted_string_roundtrip:
  assumes "ascii str" "FormatTokenOrQuotedString str = (out, None)"
  shows "if list_all IsTokenChar str then out = str
    else ParseFullQuotedString out = Inr (str, None)"
  using Format_then_parse [OF assms] by auto

theorem quoted_string_roundtrip_witness:
  "ParseFullQuotedString [CHR 0x22, CHR ''a'', CHR '' '', CHR 0x5C, CHR 0x22, CHR 0x22]
    = Inr ([CHR ''a'', CHR '' '', CHR 0x22], None)"
proof -
  have "FormatTokenOrQuotedString [CHR ''a'', CHR '' '', CHR 0x22]
      = ([CHR 0x22, CHR ''a'', CHR '' '', CHR 0x5C, CHR 0x22, CHR 0x22], None)"
    by code_simp
  moreover have "ascii [CHR ''a'', CHR '' '', CHR 0x22]" by code_simp
  moreover have "\<not> list_all IsTokenChar [CHR ''a'', CHR '' '', CHR 0x22]" by code_simp
  ultimately show ?thesis using quoted_string_roundtrip by metis
qed

text \<open>
  Outside ASCII the formatter loses bytes, because it steps through the runes of the string but
  copies only the first byte of each; and the parser panics on a string whose last byte is a
  backslash.
\<close>

theorem quoted_string_defects:
  "FormatTokenOrQuotedString [CHR 0xC3, CHR 0xA9] = ([CHR 0x22, CHR 0xC3, CHR 0x22], None)
    \<and> ParseFullQuotedString [CHR 0x22, CHR ''a'', CHR 0x5C] = Inl IndexOutOfRange"
  by code_simp

end
