(* ===== verification/Media_Type.thy ===== *)
theory Media_Type
  imports Http_Chars
begin

section \<open>Media types: \<open>mediatype\<close> and \<open>http/http1/mediatype.go\<close>\<close>

text \<open>
  A media type with its parameters, and the formatter and parser of the Content-Type header. The
  parser's loop runs on the rest of the value and the type found so far.
\<close>

subsection \<open>The type\<close>

record Param =
  par_Name :: string
  par_Value :: string

record Media_Type =
  mt_Type :: string
  mt_Subtype :: string
  mt_Params :: "Param list"

definition NewType :: "string \<Rightarrow> string \<Rightarrow> Media_Type" where
  "NewType typ subtyp = \<lparr>mt_Type = typ, mt_Subtype = subtyp, mt_Params = []\<rparr>"

fun GetParamCaseSensitive_loop :: "Param list \<Rightarrow> string \<Rightarrow> string" where
  "GetParamCaseSensitive_loop [] name = ''''"
| "GetParamCaseSensitive_loop (p # ps) name =
     (if par_Name p = name then par_Value p else GetParamCaseSensitive_loop ps name)"

definition GetParamCaseSensitive :: "Media_Type \<Rightarrow> string \<Rightarrow> string" where
  "GetParamCaseSensitive t name = GetParamCaseSensitive_loop (mt_Params t) name"

definition GetParam :: "Media_Type \<Rightarrow> string \<Rightarrow> string" where
  "GetParam t name = GetParamCaseSensitive t (to_lower name)"

text \<open>
  \<open>for _, p := range t.Params\<close> copies each parameter, so the assignment to \<open>p.Value\<close> is lost: the
  loop only tells whether the name is there.
\<close>

fun SetParam_loop :: "Param list \<Rightarrow> string \<Rightarrow> bool" where
  "SetParam_loop [] name = False"
| "SetParam_loop (p # ps) name = (if par_Name p = name then True else SetParam_loop ps name)"

definition SetParam :: "string \<Rightarrow> string \<Rightarrow> Media_Type \<Rightarrow> Media_Type" where
  "SetParam name v t =
     (if SetParam_loop (mt_Params t) name then t
      else t\<lparr>mt_Params := mt_Params t @ [\<lparr>par_Name = name, par_Value = v\<rparr>]\<rparr>)"

definition MimeType :: "Media_Type \<Rightarrow> string" where
  "MimeType t = mt_Type t @ ''/'' @ mt_Subtype t"

definition Param_String :: "Param \<Rightarrow> string" where
  "Param_String p = par_Name p @ ''='' @ par_Value p"

fun Type_String_loop :: "Param list \<Rightarrow> string \<Rightarrow> string" where
  "Type_String_loop [] str = str"
| "Type_String_loop (p # ps) str = Type_String_loop ps (str @ ''; '' @ Param_String p)"

definition Type_String :: "Media_Type \<Rightarrow> string" where
  "Type_String t = Type_String_loop (mt_Params t) (MimeType t)"

subsection \<open>The Content-Type header\<close>

fun FormatMediaType_loop :: "Param list \<Rightarrow> string \<Rightarrow> quoted_error + string" where
  "FormatMediaType_loop [] out = Inr out"
| "FormatMediaType_loop (p # ps) out =
     (case FormatTokenOrQuotedString (par_Value p) of
        (_, Some err) \<Rightarrow> Inl err
      | (v, None) \<Rightarrow> FormatMediaType_loop ps (out @ '';'' @ par_Name p @ ''='' @ v))"

definition FormatMediaType :: "Media_Type \<Rightarrow> quoted_error + string" where
  "FormatMediaType mt = FormatMediaType_loop (mt_Params mt) (mt_Type mt @ ''/'' @ mt_Subtype mt)"

datatype media_error = ErrMalformedContentType | MediaQuoted quoted_error

definition add_param :: "string \<Rightarrow> string \<Rightarrow> Media_Type \<Rightarrow> Media_Type" where
  "add_param name v mt = mt\<lparr>mt_Params := mt_Params mt @ [\<lparr>par_Name = name, par_Value = v\<rparr>]\<rparr>"

lemma length_RemoveWhitespacePrefix: "length (RemoveWhitespacePrefix s) \<le> length s"
  by (simp add: RemoveWhitespacePrefix_eq length_dropWhile_le)

lemma index_byte_length: "index_byte s c = Some i \<Longrightarrow> i < length s"
  by (simp add: index_byte_Some)

text \<open>
  One round of the loop: the parameter it appends, if any, and the string of the next round, or
  \<^term>\<open>None\<close> with the error (or nil) with which the loop ends.
\<close>

definition ParseMediaType_step ::
  "string \<Rightarrow> ((string \<times> string) option \<times> string option \<times> media_error option) go" where
  "ParseMediaType_step str =
     (case index_byte str (CHR ''='') of
        None \<Rightarrow> Inr (None, None, Some ErrMalformedContentType)
      | Some i \<Rightarrow>
          (let name = to_lower (take i str); str1 = drop (i + 1) str in
           bind_go (go_index str1 0) (\<lambda>c.
             if c = CHR 0x22 then
               bind_go (ParseQuotedStringNoStartingQuote (drop 1 str1)) (\<lambda>(v, j, err).
                 case err of
                   Some e \<Rightarrow> Inr (None, None, Some (MediaQuoted e))
                 | None \<Rightarrow>
                     bind_go (go_from str1 (j + 1)) (\<lambda>after.
                       let str2 = RemoveWhitespacePrefix after in
                       if length str2 = 0 then Inr (Some (name, v), None, None)
                       else if str2 ! 0 = CHR '';'' then
                         Inr (Some (name, v), Some (RemoveWhitespacePrefix (drop 1 str2)), None)
                       else Inr (Some (name, v), None, Some ErrMalformedContentType)))
             else
               (case index_byte str1 (CHR '';'') of
                  None \<Rightarrow> Inr (Some (name, str1), None, None)
                | Some k \<Rightarrow>
                    Inr (Some (name, RemoveWhitespacePostfix (take k str1)),
                      Some (RemoveWhitespacePrefix (drop (k + 1) str1)), None)))))"

lemma length_cut: "length (RemoveWhitespacePrefix (drop k s)) \<le> length s"
  using length_RemoveWhitespacePrefix [of "drop k s"] by simp

lemma length_cut_twice: "length (RemoveWhitespacePrefix (drop j (RemoveWhitespacePrefix (drop k s)))) \<le> length s"
  by (rule order_trans [OF length_cut length_cut])

lemma ParseMediaType_step_shorter:
  assumes "ParseMediaType_step str = Inr (p, Some s, e)"
  shows "length s < length str"
proof -
  obtain i where i: "index_byte str (CHR ''='') = Some i"
    using assms by (cases "index_byte str (CHR ''='')") (auto simp: ParseMediaType_step_def)
  define str1 where "str1 = drop (i + 1) str"
  have "length s \<le> length str1"
    using assms length_cut length_cut_twice unfolding ParseMediaType_step_def i Let_def option.case str1_def [symmetric]
    by (auto simp: bind_go_eq_Inr go_from_def split: if_splits option.splits prod.splits)
  then show ?thesis using index_byte_length [OF i] by (simp add: str1_def)
qed

function ParseMediaType_loop :: "string \<Rightarrow> Media_Type \<Rightarrow> (Media_Type \<times> media_error option) go" where
  "ParseMediaType_loop str mt =
     bind_go (ParseMediaType_step str) (\<lambda>(p, next_str, err).
       let mt' = (case p of None \<Rightarrow> mt | Some (name, v) \<Rightarrow> add_param name v mt) in
       case next_str of None \<Rightarrow> Inr (mt', err) | Some str' \<Rightarrow> ParseMediaType_loop str' mt')"
  by auto
termination
  by (relation "measure (\<lambda>(s, _). length s)") (auto dest: ParseMediaType_step_shorter)

declare ParseMediaType_loop.simps [simp del]

definition ParseMediaType :: "string \<Rightarrow> (Media_Type \<times> media_error option) go" where
  "ParseMediaType str =
     (case index_byte str (CHR ''/'') of
        None \<Rightarrow> Inr (NewType str '''', Some ErrMalformedContentType)
      | Some i \<Rightarrow>
          (let typ = to_lower (take i str); str1 = drop (i + 1) str in
           case index_byte str1 (CHR '';'') of
             None \<Rightarrow> Inr (NewType typ str1, None)
           | Some j \<Rightarrow>
               ParseMediaType_loop (RemoveWhitespacePrefix (drop (j + 1) str1))
                 (NewType typ (to_lower (RemoveWhitespacePostfix (take j str1))))))"

subsection \<open>Reading back what was formatted\<close>

definition valid_param :: "Param \<Rightarrow> bool" where
  "valid_param p \<longleftrightarrow> list_all IsTokenChar (par_Name p) \<and> to_lower (par_Name p) = par_Name p
     \<and> ascii (par_Value p) \<and> snd (FormatTokenOrQuotedString (par_Value p)) = None"

definition wf_media_type :: "Media_Type \<Rightarrow> bool" where
  "wf_media_type t \<longleftrightarrow> CHR ''/'' \<notin> set (mt_Type t) \<and> to_lower (mt_Type t) = mt_Type t
     \<and> list_all IsTokenChar (mt_Subtype t) \<and> to_lower (mt_Subtype t) = mt_Subtype t
     \<and> list_all valid_param (mt_Params t)"

definition param_text :: "Param \<Rightarrow> string" where
  "param_text p = par_Name p @ ''='' @ fst (FormatTokenOrQuotedString (par_Value p))"

definition params_text :: "Param list \<Rightarrow> string" where
  "params_text ps = concat (map (\<lambda>p. CHR '';'' # param_text p) ps)"

lemma FormatMediaType_loop_eq:
  "list_all valid_param ps \<Longrightarrow> FormatMediaType_loop ps out = Inr (out @ params_text ps)"
proof (induction ps arbitrary: out)
  case (Cons p ps)
  then have "FormatTokenOrQuotedString (par_Value p) = (fst (FormatTokenOrQuotedString (par_Value p)), None)"
    by (simp add: valid_param_def prod_eq_iff)
  then obtain v where "FormatTokenOrQuotedString (par_Value p) = (v, None)" ..
  with Cons show ?case by (simp add: params_text_def param_text_def)
qed (simp add: params_text_def)

lemma token_not:
  "list_all IsTokenChar s \<Longrightarrow> CHR '';'' \<notin> set s \<and> CHR ''='' \<notin> set s \<and> CHR 0x22 \<notin> set s
    \<and> CHR ''/'' \<notin> set s"
  by (auto simp: list_all_iff class_codes)

lemma token_not_white: "list_all IsTokenChar s \<Longrightarrow> c \<in> set s \<Longrightarrow> \<not> IsWhitespace c"
  by (auto simp: list_all_iff class_codes)

lemma token_no_prefix:
  "list_all IsTokenChar s \<Longrightarrow> RemoveWhitespacePrefix (s @ CHR ''='' # t) = s @ CHR ''='' # t"
  by (cases s) (auto simp: RemoveWhitespacePrefix_eq class_codes)

lemma token_no_postfix: "list_all IsTokenChar s \<Longrightarrow> RemoveWhitespacePostfix s = s"
  using token_not_white [of s] by (cases s rule: rev_cases) (auto simp: RemoveWhitespacePostfix_eq)

lemma ParseMediaType_loop_param:
  assumes v: "valid_param p" and rest: "rest = [] \<or> (\<exists>t. rest = CHR '';'' # t)"
  shows "ParseMediaType_loop (param_text p @ rest) mt =
    (if rest = [] then
       (if par_Value p = [] then Inl IndexOutOfRange else Inr (add_param (par_Name p) (par_Value p) mt, None))
     else ParseMediaType_loop (RemoveWhitespacePrefix (tl rest)) (add_param (par_Name p) (par_Value p) mt))"
proof -
  let ?n = "par_Name p" and ?v = "fst (FormatTokenOrQuotedString (par_Value p))"
  have n: "to_lower ?n = ?n" "CHR ''='' \<notin> set ?n" using v token_not by (auto simp: valid_param_def)
  have i: "index_byte (param_text p @ rest) (CHR ''='') = Some (length ?n)"
    using index_byte_append [OF n(2), of "?v @ rest"] by (simp add: param_text_def)
  have d: "take (length ?n) (param_text p @ rest) = ?n" "drop (length ?n + 1) (param_text p @ rest) = ?v @ rest"
    by (simp_all add: param_text_def)
  note step = ParseMediaType_loop.simps [of "param_text p @ rest" mt, unfolded ParseMediaType_step_def i
    option.case Let_def d n(1)]
  have f: "FormatTokenOrQuotedString (par_Value p) = (?v, None)" "ascii (par_Value p)"
    using v by (simp_all add: valid_param_def prod_eq_iff)
  from Format_shape [OF f(2,1)] show ?thesis
  proof (elim disjE conjE)
    assume t: "list_all IsTokenChar (par_Value p)" "?v = par_Value p"
    have q: "CHR '';'' \<notin> set (par_Value p)" "CHR 0x22 \<notin> set (par_Value p)" using token_not [OF t(1)] by auto
    show ?thesis
    proof (cases "rest = []")
      case True
      with q t(2) index_byte_notin [OF q(1)] show ?thesis
        unfolding step by (cases "par_Value p") (auto simp: go_index_def)
    next
      case False
      then obtain u where u: "rest = CHR '';'' # u" using rest by auto
      have "index_byte (par_Value p @ CHR '';'' # u) (CHR '';'') = Some (length (par_Value p))"
        by (rule index_byte_append [OF q(1)])
      moreover have "go_index (par_Value p @ CHR '';'' # u) 0 \<noteq> Inl e \<and>
          go_index (par_Value p @ CHR '';'' # u) 0 \<noteq> Inr (CHR 0x22)" for e
        using q(2) by (cases "par_Value p") auto
      ultimately show ?thesis
        using t token_no_postfix [OF t(1)] u unfolding step
        by (cases "go_index (par_Value p @ CHR '';'' # u) 0") simp_all
    qed
  next
    let ?e = "concat (map escape (par_Value p))"
    assume nt: "\<not> list_all IsTokenChar (par_Value p)" and e: "?v = CHR 0x22 # ?e @ [CHR 0x22]"
      and l: "list_all (\<lambda>c. IsQDText c \<or> IsQuotedPairChar c) (par_Value p)"
    from nt have ne: "par_Value p \<noteq> []" by auto
    have "ParseQuotedStringNoStartingQuote (?e @ CHR 0x22 # rest) = Inr (par_Value p, length ?e + 1, None)"
      using Parse_loop_escaped [OF l, of rest 0 "[]"] by (simp add: ParseQuotedStringNoStartingQuote_def)
    with e ne rest show ?thesis unfolding step by (auto simp: RemoveWhitespacePrefix_eq class_codes)
  qed
qed

lemma ParseMediaType_loop_formatted:
  "list_all valid_param (p # ps) \<Longrightarrow>
    ParseMediaType_loop (param_text p @ params_text ps) mt =
      (if par_Value (last (p # ps)) = [] then Inl IndexOutOfRange
       else Inr (mt\<lparr>mt_Params := mt_Params mt @ p # ps\<rparr>, None))"
proof (induction ps arbitrary: p mt)
  case Nil
  then show ?case
    using ParseMediaType_loop_param [of p "[]" mt] by (simp add: params_text_def add_param_def)
next
  case (Cons q qs)
  have "RemoveWhitespacePrefix (param_text q @ params_text qs) = param_text q @ params_text qs"
    using Cons.prems token_no_prefix [of "par_Name q"] by (simp add: param_text_def valid_param_def)
  then have "ParseMediaType_loop (param_text p @ params_text (q # qs)) mt
      = ParseMediaType_loop (param_text q @ params_text qs) (add_param (par_Name p) (par_Value p) mt)"
    using ParseMediaType_loop_param [of p "params_text (q # qs)" mt] Cons.prems
    by (simp add: params_text_def)
  with Cons.IH [of q "add_param (par_Name p) (par_Value p) mt"] Cons.prems show ?case
    by (simp add: add_param_def)
qed

lemma SetParam_loop_iff: "SetParam_loop ps name \<longleftrightarrow> name \<in> par_Name ` set ps"
  by (induction ps) auto

lemma GetParam_loop_append:
  "GetParamCaseSensitive_loop (ps @ qs) name =
    (if name \<in> par_Name ` set ps then GetParamCaseSensitive_loop ps name
     else GetParamCaseSensitive_loop qs name)"
  by (induction ps) auto

lemma GetParam_loop_absent: "name \<notin> par_Name ` set ps \<Longrightarrow> GetParamCaseSensitive_loop ps name = []"
  by (induction ps) auto

subsection \<open>Properties\<close>

text \<open>
  C36: a media type with names in lower case, the subtype and the names of the parameters tokens, and values that
  can be written, is read back unchanged when it is formatted, except that an empty value of the last parameter
  makes the parser panic. (\<open>FormatMediaType\<close> does not check the names.)
\<close>

theorem media_type_roundtrip:
  assumes "wf_media_type mt"
  shows "\<exists>s. FormatMediaType mt = Inr s \<and> ParseMediaType s =
    (if mt_Params mt \<noteq> [] \<and> par_Value (last (mt_Params mt)) = [] then Inl IndexOutOfRange
     else Inr (mt, None))"
proof -
  let ?s = "mt_Type mt @ CHR ''/'' # mt_Subtype mt @ params_text (mt_Params mt)"
  from assms have v: "CHR ''/'' \<notin> set (mt_Type mt)" "to_lower (mt_Type mt) = mt_Type mt"
    "list_all IsTokenChar (mt_Subtype mt)" "to_lower (mt_Subtype mt) = mt_Subtype mt"
    "list_all valid_param (mt_Params mt)" by (simp_all add: wf_media_type_def)
  have f: "FormatMediaType mt = Inr ?s"
    using FormatMediaType_loop_eq [OF v(5)] by (simp add: FormatMediaType_def)
  have i: "index_byte ?s (CHR ''/'') = Some (length (mt_Type mt))" by (rule index_byte_append [OF v(1)])
  have sc: "CHR '';'' \<notin> set (mt_Subtype mt)" using token_not [OF v(3)] by simp
  have "ParseMediaType ?s = (if mt_Params mt \<noteq> [] \<and> par_Value (last (mt_Params mt)) = []
      then Inl IndexOutOfRange else Inr (mt, None))"
  proof (cases "mt_Params mt")
    case Nil
    then show ?thesis
      using i v(2) index_byte_notin [OF sc] by (simp add: ParseMediaType_def params_text_def NewType_def)
  next
    case (Cons p ps)
    have "index_byte (mt_Subtype mt @ CHR '';'' # param_text p @ params_text ps) (CHR '';'')
        = Some (length (mt_Subtype mt))" by (rule index_byte_append [OF sc])
    moreover have "RemoveWhitespacePrefix (param_text p @ params_text ps) = param_text p @ params_text ps"
      using v(5) Cons token_no_prefix [of "par_Name p"] by (simp add: param_text_def valid_param_def)
    ultimately show ?thesis
      using i v Cons ParseMediaType_loop_formatted [of p ps "NewType (mt_Type mt) (mt_Subtype mt)"]
      by (simp add: ParseMediaType_def params_text_def token_no_postfix NewType_def)
  qed
  with f show ?thesis by blast
qed

theorem media_type_roundtrip_witness:
  "\<exists>s. FormatMediaType \<lparr>mt_Type = ''text'', mt_Subtype = ''html'',
        mt_Params = [\<lparr>par_Name = ''charset'', par_Value = ''utf 8''\<rparr>]\<rparr> = Inr s
    \<and> ParseMediaType s = Inr (\<lparr>mt_Type = ''text'', mt_Subtype = ''html'',
        mt_Params = [\<lparr>par_Name = ''charset'', par_Value = ''utf 8''\<rparr>]\<rparr>, None)"
proof -
  have "wf_media_type \<lparr>mt_Type = ''text'', mt_Subtype = ''html'',
      mt_Params = [\<lparr>par_Name = ''charset'', par_Value = ''utf 8''\<rparr>]\<rparr>" by code_simp
  from media_type_roundtrip [OF this] show ?thesis by simp
qed

text \<open>
  \<open>SetParam\<close> never changes a value: a name that is there keeps its old one.
\<close>

theorem SetParam_GetParam:
  "GetParamCaseSensitive (SetParam name v t) name' =
    (if name' = name \<and> name \<notin> par_Name ` set (mt_Params t) then v else GetParamCaseSensitive t name')"
  by (cases "name \<in> par_Name ` set (mt_Params t)"; cases "name' \<in> par_Name ` set (mt_Params t)")
    (auto simp: SetParam_def SetParam_loop_iff GetParamCaseSensitive_def GetParam_loop_append GetParam_loop_absent)

end
