(* ===== verification/Header.thy ===== *)
theory Header
  imports Http_Chars "HOL-Library.Multiset"
begin

section \<open>Header stores: \<open>http/header\<close> and the standard processor\<close>

text \<open>
  A \<open>Header\<close> maps raw keys to lists of values; a \<open>Processor\<close> turns the keys and values its
  callers use into raw ones. Nil and empty slices have no values, so both are the empty list; the
  slices are values here, and that a value processor also writes into the slice of its caller is
  not modelled. The read lock of the processor is a counter of readers, because one method keeps
  it; the other locks are released by every path and only order concurrent callers, so the
  operations are modelled as they act one at a time. A value processor may panic, and with it
  every operation that calls it.

  The second part instantiates the store with the processor of the standard server
  (\<open>jps/server/standard/httpServer.go\<close>): canonical keys, prefixed \<open>Jps-\<close> keys, lower-case values.
\<close>

subsection \<open>Processors\<close>

record Processor =
  KeyTransforms :: "(string \<Rightarrow> string) list"
  ValuesProcessors ::
    "(string \<Rightarrow> string list \<Rightarrow> int \<Rightarrow> int \<Rightarrow> (string \<times> string list \<times> int \<times> int) go) list"

fun GetKey_loop :: "(string \<Rightarrow> string) list \<Rightarrow> string \<Rightarrow> string" where
  "GetKey_loop [] key = key"
| "GetKey_loop (t # ts) key = GetKey_loop ts (t key)"

definition GetKey :: "Processor \<Rightarrow> string \<Rightarrow> string" where
  "GetKey p key = GetKey_loop (KeyTransforms p) key"

fun ProcessValues_loop ::
  "(string \<Rightarrow> string list \<Rightarrow> int \<Rightarrow> int \<Rightarrow> (string \<times> string list \<times> int \<times> int) go) list
     \<Rightarrow> string \<Rightarrow> string list \<Rightarrow> int \<Rightarrow> int \<Rightarrow> string list go" where
  "ProcessValues_loop [] key values a b = Inr values"
| "ProcessValues_loop (f # fs) key values a b =
     bind_go (f key values a b) (\<lambda>(key', values', a', b'). ProcessValues_loop fs key' values' a' b')"

definition ProcessValues ::
  "Processor \<Rightarrow> string \<Rightarrow> string list \<Rightarrow> int \<Rightarrow> int \<Rightarrow> string list go" where
  "ProcessValues p key values a b = ProcessValues_loop (ValuesProcessors p) key values a b"

subsection \<open>The store\<close>

record Header =
  Values :: "string \<rightharpoonup> string list"
  processor_readers :: nat

definition New_Header :: Header where
  "New_Header = \<lparr>Values = Map.empty, processor_readers = 0\<rparr>"

definition Processor_RLock :: "Header \<Rightarrow> Header" where
  "Processor_RLock h = h\<lparr>processor_readers := processor_readers h + 1\<rparr>"

definition Processor_RUnlock :: "Header \<Rightarrow> Header" where
  "Processor_RUnlock h = h\<lparr>processor_readers := processor_readers h - 1\<rparr>"

definition GetValuesRawKey :: "Header \<Rightarrow> string \<Rightarrow> string list" where
  "GetValuesRawKey h key = (case Values h key of None \<Rightarrow> [] | Some vs \<Rightarrow> if length vs = 0 then [] else vs)"

definition GetValues :: "Processor \<Rightarrow> Header \<Rightarrow> string \<Rightarrow> string list" where
  "GetValues p h key = GetValuesRawKey h (GetKey p key)"

definition Header_Get :: "Processor \<Rightarrow> Header \<Rightarrow> string \<Rightarrow> string" where
  "Header_Get p h key = (let vs = GetValues p h key in if length vs = 0 then '''' else vs ! 0)"

definition SetValuesRaw :: "string \<Rightarrow> string list \<Rightarrow> Header \<Rightarrow> Header" where
  "SetValuesRaw key values h = h\<lparr>Values := (Values h)(key \<mapsto> values)\<rparr>"

definition SetValues :: "Processor \<Rightarrow> string \<Rightarrow> string list \<Rightarrow> Header \<Rightarrow> Header go" where
  "SetValues p key values h =
     (let h1 = Processor_RLock h; key' = GetKey p key in
      bind_go (ProcessValues p key' values 0 (int (length values))) (\<lambda>values'.
        Inr (SetValuesRaw key' values' (Processor_RUnlock h1))))"

definition Header_Set :: "Processor \<Rightarrow> string \<Rightarrow> string \<Rightarrow> Header \<Rightarrow> Header go" where
  "Header_Set p key v h = SetValues p key [v] h"

text \<open>
  \<open>append\<close> makes the new slice, but the range of modified values is computed from the length of
  the old one.
\<close>

definition AddRawKey :: "Processor \<Rightarrow> string \<Rightarrow> string \<Rightarrow> Header \<Rightarrow> Header go" where
  "AddRawKey p key v h =
     (case Values h key of
        None \<Rightarrow> bind_go (ProcessValues p key [v] 0 1) (\<lambda>vs'. Inr (h\<lparr>Values := (Values h)(key \<mapsto> vs')\<rparr>))
      | Some vs \<Rightarrow>
          bind_go (ProcessValues p key (vs @ [v]) (int (length vs) - 1) (int (length vs))) (\<lambda>vs'.
            Inr (h\<lparr>Values := (Values h)(key \<mapsto> vs')\<rparr>)))"

definition AddRawKeyUnsafe :: "Processor \<Rightarrow> string \<Rightarrow> string \<Rightarrow> Header \<Rightarrow> Header go" where
  "AddRawKeyUnsafe p key v h =
     (case Values h key of
        None \<Rightarrow> bind_go (ProcessValues p key [v] 0 1) (\<lambda>vs'. Inr (h\<lparr>Values := (Values h)(key \<mapsto> vs')\<rparr>))
      | Some vs \<Rightarrow>
          bind_go (ProcessValues p key (vs @ [v]) (int (length vs) - 1) (int (length vs))) (\<lambda>vs'.
            Inr (h\<lparr>Values := (Values h)(key \<mapsto> vs')\<rparr>)))"

definition Header_Add :: "Processor \<Rightarrow> string \<Rightarrow> string \<Rightarrow> Header \<Rightarrow> Header go" where
  "Header_Add p key v h =
     bind_go (AddRawKey p (GetKey p key) v (Processor_RLock h)) (\<lambda>h'. Inr (Processor_RUnlock h'))"

definition AddUnsafe :: "Processor \<Rightarrow> string \<Rightarrow> string \<Rightarrow> Header \<Rightarrow> Header go" where
  "AddUnsafe p key v h = AddRawKeyUnsafe p (GetKey p key) v h"

definition DelRawKey :: "string \<Rightarrow> Header \<Rightarrow> bool \<times> Header" where
  "DelRawKey key h =
     (if Values h key \<noteq> None then (True, h\<lparr>Values := (Values h)(key := None)\<rparr>) else (False, h))"

definition Header_Del :: "Processor \<Rightarrow> string \<Rightarrow> Header \<Rightarrow> Header" where
  "Header_Del p key h = snd (DelRawKey (GetKey p key) h)"

text \<open>
  The inner loop of \<open>Has\<close> marks the first wanted value that is not marked yet and equal to the
  one at hand; \<^term>\<open>None\<close> when there is none. Its outer loop stops when nothing is left.
\<close>

fun Has_mark :: "string \<Rightarrow> string list \<Rightarrow> bool list \<Rightarrow> bool list option" where
  "Has_mark x (v # values) (w # wants) =
     (if w = False \<and> x = v then Some (True # wants)
      else map_option (\<lambda>ws. w # ws) (Has_mark x values wants))"
| "Has_mark x _ _ = None"

fun Has_loop :: "string list \<Rightarrow> string list \<Rightarrow> bool list \<Rightarrow> nat \<Rightarrow> bool" where
  "Has_loop [] values wants left = False"
| "Has_loop (x # have) values wants left =
     (case Has_mark x values wants of
        Some wants' \<Rightarrow> if left - 1 = 0 then True else Has_loop have values wants' (left - 1)
      | None \<Rightarrow> Has_loop have values wants left)"

definition Has :: "Processor \<Rightarrow> string \<Rightarrow> string list \<Rightarrow> Header \<Rightarrow> (bool \<times> Header) go" where
  "Has p key values h =
     (let h1 = Processor_RLock h; key' = GetKey p key in
      bind_go (ProcessValues p key' values 0 (int (length values))) (\<lambda>values'.
        if length values' = 0 then Inr (True, h1)
        else (let h2 = Processor_RUnlock h1; have = GetValuesRawKey h2 key' in
          Inr (Has_loop have values' (replicate (length values') False) (length values'), h2))))"

text \<open>\<open>cb\<close> gives the new values or an error, which leaves the header as it is.\<close>

definition ModifyRawKey ::
  "string \<Rightarrow> (string \<Rightarrow> string list \<Rightarrow> 'e + string list) \<Rightarrow> Header \<Rightarrow> 'e option \<times> Header" where
  "ModifyRawKey key cb h =
     (case Values h key of
        None \<Rightarrow>
          (case cb key [] of
             Inl err \<Rightarrow> (Some err, h)
           | Inr values \<Rightarrow> (None, h\<lparr>Values := (Values h)(key \<mapsto> values)\<rparr>))
      | Some vs \<Rightarrow>
          (case cb key vs of
             Inl err \<Rightarrow> (Some err, h)
           | Inr values \<Rightarrow> (None, h\<lparr>Values := (Values h)(key \<mapsto> values)\<rparr>)))"

text \<open>
  \<open>ForEach\<close> over the keys in the order \<open>keys\<close>, which Go leaves open; the callback acts on the
  state \<open>'s\<close>. The loop keeps only the error of the last call.
\<close>

fun ForEach ::
  "(string \<Rightarrow> string list \<Rightarrow> 's \<Rightarrow> 'e option \<times> 's) \<Rightarrow> Header \<Rightarrow> string list \<Rightarrow> 'e option \<Rightarrow> 's \<Rightarrow> 'e option \<times> 's" where
  "ForEach cb h [] err s = (err, s)"
| "ForEach cb h (key # keys) err s =
     (case Values h key of
        None \<Rightarrow> ForEach cb h keys err s
      | Some vs \<Rightarrow>
          if length vs \<noteq> 0 then (let (err', s') = cb key vs s in ForEach cb h keys err' s')
          else ForEach cb h keys err s)"

subsection \<open>The standard processor\<close>

text \<open>\<open>CanonicalHeaderKey\<close> of Go's \<open>net/http\<close>: unchanged unless all bytes are token bytes.\<close>

definition upper_byte :: "char \<Rightarrow> char" where
  "upper_byte c = (if CHR ''a'' \<le> c \<and> c \<le> CHR ''z'' then char_of ((of_char c :: nat) - 32) else c)"

fun canonical_bytes :: "bool \<Rightarrow> string \<Rightarrow> string" where
  "canonical_bytes upper [] = []"
| "canonical_bytes upper (c # s) =
     (if upper then upper_byte c else lower_byte c) # canonical_bytes (c = CHR ''-'') s"

definition CanonicalHeaderKey :: "string \<Rightarrow> string" where
  "CanonicalHeaderKey s = (if list_all IsTokenChar s then canonical_bytes True s else s)"

definition Prefix :: "string \<Rightarrow> string" where
  "Prefix s = (if has_prefix s ''Jps-'' then ''Jps-Had-'' @ drop 4 s else s)"

function LowerCaseAll_loop :: "string list \<Rightarrow> int \<Rightarrow> int \<Rightarrow> string list go" where
  "LowerCaseAll_loop values i end' =
     (if i < end' then
        (if 0 \<le> i \<and> i < int (length values)
         then LowerCaseAll_loop (values[nat i := to_lower (values ! nat i)]) (i + 1) end'
         else Inl IndexOutOfRange)
      else Inr values)"
  by auto
termination by (relation "measure (\<lambda>(_, i, e). nat (e - i))") auto

declare LowerCaseAll_loop.simps [simp del]

definition LowerCaseAll ::
  "string \<Rightarrow> string list \<Rightarrow> int \<Rightarrow> int \<Rightarrow> (string \<times> string list \<times> int \<times> int) go" where
  "LowerCaseAll key values start end' =
     bind_go (LowerCaseAll_loop values start end') (\<lambda>values'. Inr (key, values', start, end'))"

definition standard_processor :: Processor where
  "standard_processor =
     \<lparr>KeyTransforms = [CanonicalHeaderKey, Prefix], ValuesProcessors = [LowerCaseAll]\<rparr>"

subsection \<open>Values of the standard processor\<close>

lemma LowerCaseAll_loop_eq:
  "0 \<le> i \<Longrightarrow> i \<le> e \<Longrightarrow> e \<le> int (length vs) \<Longrightarrow>
    LowerCaseAll_loop vs i e
      = Inr (take (nat i) vs @ map to_lower (take (nat e - nat i) (drop (nat i) vs)) @ drop (nat e) vs)"
proof (induction vs i e rule: LowerCaseAll_loop.induct)
  case (1 vs i e)
  show ?case
  proof (cases "i < e")
    case True
    define n where "n = nat i"
    have n: "nat i = n" "nat (i + 1) = Suc n" "n < length vs" "n < nat e"
      using True "1.prems" by (auto simp: n_def)
    have d: "drop n vs = vs ! n # drop (Suc n) vs" using n(3) by (rule Cons_nth_drop_Suc [symmetric])
    have "nat e - n = Suc (nat e - Suc n)" using n(4) by simp
    with "1.IH" True "1.prems" n d show ?thesis
      by (simp add: LowerCaseAll_loop.simps [of vs i e] take_Suc_conv_app_nth)
  next
    case False
    with "1.prems" have "i = e" by simp
    with "1.prems" show ?thesis by (simp add: LowerCaseAll_loop.simps)
  qed
qed

lemma standard_ProcessValues [simp]:
  "ProcessValues standard_processor key vs 0 (int (length vs)) = Inr (map to_lower vs)"
  by (simp add: ProcessValues_def standard_processor_def LowerCaseAll_def LowerCaseAll_loop_eq)

lemma standard_ProcessValues_first [simp]:
  "ProcessValues standard_processor key [v] 0 1 = Inr [to_lower v]"
  using standard_ProcessValues [of key "[v]"] by simp

lemma standard_ProcessValues_add:
  "ProcessValues standard_processor key (vs @ [v]) (int (length vs) - 1) (int (length vs))
    = (if vs = [] then Inl IndexOutOfRange else Inr (butlast vs @ [to_lower (last vs), v]))"
proof (cases vs rule: rev_cases)
  case Nil
  then show ?thesis
    by (simp add: ProcessValues_def standard_processor_def LowerCaseAll_def LowerCaseAll_loop.simps)
next
  case (snoc ws w)
  then show ?thesis
    by (simp add: ProcessValues_def standard_processor_def LowerCaseAll_def LowerCaseAll_loop_eq nat_add_distrib)
qed

subsection \<open>Keys of the standard processor\<close>

lemma upper_lower: "upper_byte (lower_byte c) = upper_byte c"
proof (cases "CHR ''A'' \<le> c \<and> c \<le> CHR ''Z''")
  case True
  then have c: "65 \<le> (of_char c :: nat)" "(of_char c :: nat) \<le> 90" by (simp_all add: less_eq_char_def)
  then have "lower_byte c = char_of ((of_char c :: nat) + 32)" using True by (simp add: lower_byte_def)
  moreover have "upper_byte c = c" using c by (simp add: upper_byte_def less_eq_char_def)
  ultimately show ?thesis using c by (simp add: upper_byte_def less_eq_char_def)
qed (auto simp: lower_byte_def)

lemma token_lower: "IsTokenChar (lower_byte c) \<longleftrightarrow> IsTokenChar c"
proof (cases "CHR ''A'' \<le> c \<and> c \<le> CHR ''Z''")
  case True
  then have c: "65 \<le> (of_char c :: nat)" "(of_char c :: nat) \<le> 90" by (simp_all add: less_eq_char_def)
  then have "IsAlpha (lower_byte c)"
    using True by (simp add: lower_byte_def IsAlpha_def less_eq_char_def)
  moreover have "IsAlpha c" using True by (simp add: IsAlpha_def)
  moreover have "IsAlpha d \<Longrightarrow> IsTokenChar d" for d unfolding IsTokenChar_def by (rule disjI1)
  ultimately show ?thesis by blast
qed (auto simp: lower_byte_def)

lemma dash_lower: "lower_byte c = CHR ''-'' \<longleftrightarrow> c = CHR ''-''"
proof (cases "CHR ''A'' \<le> c \<and> c \<le> CHR ''Z''")
  case True
  then have c: "65 \<le> (of_char c :: nat)" "(of_char c :: nat) \<le> 90" by (simp_all add: less_eq_char_def)
  then have "(of_char (lower_byte c) :: nat) \<noteq> of_char CHR ''-''" "(of_char c :: nat) \<noteq> of_char CHR ''-''"
    using True by (simp_all add: lower_byte_def)
  then show ?thesis by metis
qed (auto simp: lower_byte_def)

lemma canonical_bytes_lower: "canonical_bytes u (to_lower s) = canonical_bytes u s"
  by (induction s arbitrary: u) (simp_all add: to_lower_def upper_lower dash_lower)

lemma CanonicalHeaderKey_lower:
  "list_all IsTokenChar s \<Longrightarrow> CanonicalHeaderKey s = canonical_bytes True (to_lower s)"
  by (simp add: CanonicalHeaderKey_def canonical_bytes_lower)

lemma token_to_lower: "list_all IsTokenChar (to_lower s) \<longleftrightarrow> list_all IsTokenChar s"
  by (simp add: to_lower_def list_all_iff token_lower)

lemma standard_GetKey: "GetKey standard_processor k = Prefix (CanonicalHeaderKey k)"
  by (simp add: GetKey_def standard_processor_def)

lemma GetKey_case:
  assumes "list_all IsTokenChar k" "to_lower k = to_lower k'"
  shows "GetKey standard_processor k = GetKey standard_processor k'"
proof -
  have "list_all IsTokenChar k'" using assms token_to_lower by metis
  with assms show ?thesis by (simp add: standard_GetKey CanonicalHeaderKey_lower)
qed

subsection \<open>\<open>Add\<close> on the standard processor\<close>

lemma Header_Add_cases:
  "Header_Add standard_processor k v h =
    (case Values h (GetKey standard_processor k) of
       None \<Rightarrow> Inr (SetValuesRaw (GetKey standard_processor k) [to_lower v] h)
     | Some [] \<Rightarrow> Inl IndexOutOfRange
     | Some (w # ws) \<Rightarrow> Inr (SetValuesRaw (GetKey standard_processor k)
         (butlast (w # ws) @ [to_lower (last (w # ws)), v]) h))"
  by (auto simp: Header_Add_def AddRawKey_def Processor_RLock_def Processor_RUnlock_def SetValuesRaw_def
      standard_ProcessValues_add split: option.splits list.splits)

lemma Header_Add_snoc:
  assumes "Values h (GetKey standard_processor k) \<noteq> Some []" "to_lower v = v"
  shows "\<exists>vs. Header_Add standard_processor k v h
    = Inr (SetValuesRaw (GetKey standard_processor k) (vs @ [v]) h)"
proof (cases "Values h (GetKey standard_processor k)")
  case None
  with assms(2) show ?thesis by (intro exI [of _ "[]"]) (simp add: Header_Add_cases)
next
  case (Some ws)
  then obtain w us where "ws = w # us" using assms(1) by (cases ws) auto
  with Some show ?thesis
    by (intro exI [of _ "butlast (w # us) @ [to_lower (last (w # us))]"]) (simp add: Header_Add_cases)
qed

subsection \<open>The contract of a header store\<close>

text \<open>
  What the clients of a header (message metadata and bodies) rely on: \<open>raw\<close> is the key under
  which values are kept, \<open>norm\<close> what becomes of values that are set.
\<close>

locale header_store =
  fixes get :: "'h \<Rightarrow> string \<Rightarrow> string list"
    and set_values :: "string \<Rightarrow> string list \<Rightarrow> 'h \<Rightarrow> 'h go"
    and del :: "string \<Rightarrow> 'h \<Rightarrow> 'h"
    and raw :: "string \<Rightarrow> string"
    and norm :: "string list \<Rightarrow> string list"
  assumes set_ok: "\<exists>h'. set_values k vs h = Inr h'"
    and get_set: "set_values k vs h = Inr h' \<Longrightarrow>
      get h' k' = (if raw k' = raw k then norm vs else get h k')"
    and get_del: "get (del k h) k' = (if raw k' = raw k then [] else get h k')"
begin

lemma set_total: obtains h' where "set_values k vs h = Inr h'"
    "\<And>k'. get h' k' = (if raw k' = raw k then norm vs else get h k')"
  using set_ok get_set by blast

lemma set_twice:
  assumes "set_values k vs h = Inr h1" "set_values k ws h1 = Inr h2"
  shows "get h2 k' = (if raw k' = raw k then norm ws else get h k')"
  using get_set [OF assms(1)] get_set [OF assms(2)] by simp

lemma set_two_keys:
  assumes "set_values k vs h = Inr h1" "set_values l ws h1 = Inr h2" "raw k \<noteq> raw l"
  shows "get h2 k = norm vs" "get h2 l = norm ws"
  using get_set [OF assms(1)] get_set [OF assms(2)] assms(3) by auto

end

interpretation standard_store: header_store "GetValues standard_processor" "SetValues standard_processor"
  "Header_Del standard_processor" "GetKey standard_processor" "map to_lower"
proof
  fix k k' vs and h h' :: Header
  show "\<exists>h'. SetValues standard_processor k vs h = Inr h'"
    by (simp add: SetValues_def Let_def)
  show "GetValues standard_processor (Header_Del standard_processor k h) k' =
      (if GetKey standard_processor k' = GetKey standard_processor k then []
       else GetValues standard_processor h k')"
    by (auto simp: GetValues_def GetValuesRawKey_def Header_Del_def DelRawKey_def split: option.splits)
  assume "SetValues standard_processor k vs h = Inr h'"
  then show "GetValues standard_processor h' k' =
      (if GetKey standard_processor k' = GetKey standard_processor k then map to_lower vs
       else GetValues standard_processor h k')"
    by (auto simp: SetValues_def Let_def GetValues_def GetValuesRawKey_def SetValuesRaw_def
        Processor_RLock_def Processor_RUnlock_def split: option.splits)
qed

subsection \<open>\<open>Has\<close> counts\<close>

text \<open>The wanted values that are not marked.\<close>

definition unmarked :: "string list \<Rightarrow> bool list \<Rightarrow> string multiset" where
  "unmarked values wants = mset (map fst (filter (\<lambda>(v, w). \<not> w) (zip values wants)))"

lemma unmarked_simps [simp]:
  "unmarked [] wants = {#}"
  "unmarked (v # vs) (w # wants) = (if w then unmarked vs wants else add_mset v (unmarked vs wants))"
  by (simp_all add: unmarked_def)

lemma Has_mark_Some:
  "length vs = length wants \<Longrightarrow> Has_mark x vs wants = Some wants' \<Longrightarrow>
    length wants' = length wants \<and> x \<in># unmarked vs wants
      \<and> unmarked vs wants' = unmarked vs wants - {#x#}"
proof (induction x vs wants arbitrary: wants' rule: Has_mark.induct)
  case (1 x v vs w wants)
  show ?case
  proof (cases "w = False \<and> x = v")
    case True
    with "1.prems" show ?thesis by auto
  next
    case False
    with "1.prems" obtain ws where ws: "Has_mark x vs wants = Some ws" "wants' = w # ws" by auto
    with "1.IH" [OF False _ ws(1)] "1.prems" False show ?thesis
      by (cases w) auto
  qed
qed simp_all

lemma Has_mark_None:
  "length vs = length wants \<Longrightarrow> Has_mark x vs wants = None \<Longrightarrow> x \<notin># unmarked vs wants"
proof (induction x vs wants rule: Has_mark.induct)
  case (1 x v vs w wants)
  then show ?case by (cases "w = False \<and> x = v") auto
qed auto

lemma Has_loop_subset:
  "length vs = length wants \<Longrightarrow> left = size (unmarked vs wants) \<Longrightarrow> 0 < left \<Longrightarrow>
    Has_loop xs vs wants left \<longleftrightarrow> unmarked vs wants \<subseteq># mset xs"
proof (induction xs arbitrary: wants left)
  case (Cons x xs)
  show ?case
  proof (cases "Has_mark x vs wants")
    case None
    then have "x \<notin># unmarked vs wants" using Has_mark_None Cons.prems by blast
    then have "unmarked vs wants \<subseteq># mset (x # xs) \<longleftrightarrow> unmarked vs wants \<subseteq># mset xs"
      using subset_eq_diff_conv [of "unmarked vs wants" "{#x#}" "mset xs"]
        diff_single_trivial [of x "unmarked vs wants"] by simp
    with Cons None show ?thesis by simp
  next
    case (Some wants')
    from Has_mark_Some [OF Cons.prems(1) this] have w: "length wants' = length wants"
      "x \<in># unmarked vs wants" "unmarked vs wants' = unmarked vs wants - {#x#}" by auto
    have sub: "unmarked vs wants \<subseteq># mset (x # xs) \<longleftrightarrow> unmarked vs wants' \<subseteq># mset xs"
      using w(2,3) by (simp add: insert_subset_eq_iff subset_eq_diff_conv)
    have sz: "size (unmarked vs wants') = left - 1"
      using w Cons.prems by (simp add: size_Diff_singleton)
    show ?thesis
    proof (cases "left - 1 = 0")
      case True
      then have "unmarked vs wants' = {#}" using sz by simp
      with True Some sub show ?thesis by simp
    next
      case False
      with Cons.IH [of wants' "left - 1"] Cons.prems w sz Some sub show ?thesis by simp
    qed
  qed
qed auto

lemma unmarked_start: "unmarked vs (replicate (length vs) False) = mset vs"
  by (induction vs) (simp_all add: unmarked_def)

lemma Has_standard:
  "\<exists>h'. Has standard_processor k ws h
    = Inr (mset (map to_lower ws) \<subseteq># mset (GetValues standard_processor h k), h')"
proof (cases "ws = []")
  case True
  then show ?thesis
    using standard_ProcessValues [of "GetKey standard_processor k" "[]"] by (simp add: Has_def Let_def)
next
  case False
  let ?vs = "map to_lower ws"
  have "Has_loop (GetValues standard_processor h k) ?vs (replicate (length ?vs) False) (length ?vs)
      \<longleftrightarrow> mset ?vs \<subseteq># mset (GetValues standard_processor h k)"
    using Has_loop_subset [of ?vs "replicate (length ?vs) False" "length ?vs"] unmarked_start [of ?vs] False
    by simp
  with False show ?thesis
    by (simp add: Has_def Let_def GetValues_def GetValuesRawKey_def Processor_RLock_def Processor_RUnlock_def)
qed

subsection \<open>Properties\<close>

text \<open>
  With the standard processor, whatever the store holds, \<open>SetValues\<close> succeeds, and then
  \<open>GetValues\<close> under the same key in any spelling (upper or lower case) gives the values in lower
  case, while the values under every other key are what they were; \<open>Del\<close> leaves none.
\<close>

theorem SetValues_GetValues:
  assumes "list_all IsTokenChar k" "to_lower k = to_lower k'"
    and "GetKey standard_processor other \<noteq> GetKey standard_processor k"
  shows "\<exists>h'. SetValues standard_processor k vs h = Inr h'
    \<and> GetValues standard_processor h' k' = map to_lower vs
    \<and> GetValues standard_processor h' other = GetValues standard_processor h other
    \<and> GetValues standard_processor (Header_Del standard_processor k' h') k = []
    \<and> GetValues standard_processor (Header_Del standard_processor k' h') other
        = GetValues standard_processor h other"
proof -
  have same: "GetKey standard_processor k' = GetKey standard_processor k"
    using GetKey_case [OF assms(1,2)] by simp
  obtain h' where "SetValues standard_processor k vs h = Inr h'"
    and g: "\<And>k'. GetValues standard_processor h' k' =
      (if GetKey standard_processor k' = GetKey standard_processor k then map to_lower vs
       else GetValues standard_processor h k')"
    using standard_store.set_total by blast
  then show ?thesis
    using same assms(3) by (intro exI [of _ h']) (simp add: standard_store.get_del g)
qed

theorem SetValues_GetValues_witness:
  "\<exists>h'. SetValues standard_processor ''Content-Type'' [''text/HTML''] New_Header = Inr h'
    \<and> GetValues standard_processor h' ''CONTENT-type'' = map to_lower [''text/HTML'']
    \<and> GetValues standard_processor h' ''etag'' = []"
proof -
  have "list_all IsTokenChar ''Content-Type''" "to_lower ''Content-Type'' = to_lower ''CONTENT-type''"
    "GetKey standard_processor ''etag'' \<noteq> GetKey standard_processor ''Content-Type''"
    by code_simp+
  from SetValues_GetValues [OF this, of "[''text/HTML'']" New_Header] show ?thesis
    by (auto simp: GetValues_def GetValuesRawKey_def New_Header_def)
qed

text \<open>
  \<open>Has\<close> decides multiset inclusion: with a processor that keeps the number of values, it
  answers true exactly when every wanted value occurs in the stored values at least as often as
  it is wanted.
\<close>

theorem Has_subset:
  "\<exists>h'. Has standard_processor k ws h
    = Inr (mset (map to_lower ws) \<subseteq># mset (GetValues standard_processor h k), h')"
  by (rule Has_standard)

text \<open>
  The result of \<open>Add\<close> on the standard processor. A first value is lower-cased; a further value
  is stored as it is (the range handed to the processor names the value before it); and under a
  key whose ws were set to none, \<open>Add\<close> panics.
\<close>

theorem Add_outcome:
  "Header_Add standard_processor k v h =
    (case Values h (GetKey standard_processor k) of
       None \<Rightarrow> Inr (SetValuesRaw (GetKey standard_processor k) [to_lower v] h)
     | Some [] \<Rightarrow> Inl IndexOutOfRange
     | Some (w # ws) \<Rightarrow> Inr (SetValuesRaw (GetKey standard_processor k)
         (butlast (w # ws) @ [to_lower (last (w # ws)), v]) h))"
  by (rule Header_Add_cases)

text \<open>
  Every operation that takes the read lock of the processor gives it back, except \<open>Has\<close> called
  with values of which the processor leaves none: it returns with the lock held.
\<close>

theorem locks_balanced:
  "(SetValues p k vs h = Inr h1 \<longrightarrow> processor_readers h1 = processor_readers h)
    \<and> (Header_Add p k v h = Inr h2 \<longrightarrow> processor_readers h2 = processor_readers h)
    \<and> (Has p k vs h = Inr (b, h3) \<longrightarrow> processor_readers h3 = processor_readers h
         \<or> (b \<and> ProcessValues p (GetKey p k) vs 0 (int (length vs)) = Inr []
            \<and> processor_readers h3 = Suc (processor_readers h)))"
  by (auto simp: SetValues_def Header_Add_def AddRawKey_def Has_def Let_def bind_go_eq_Inr SetValuesRaw_def
      Processor_RLock_def Processor_RUnlock_def split: option.splits if_splits)

theorem locks_balanced_witness:
  "\<exists>h3. Has standard_processor ''Connection'' [] New_Header = Inr (True, h3) \<and> processor_readers h3 = 1"
proof -
  have "Has standard_processor ''Connection'' [] New_Header = Inr (True, Processor_RLock New_Header)"
    using standard_ProcessValues [of "GetKey standard_processor ''Connection''" "[]"]
    by (simp add: Has_def Let_def)
  with locks_balanced [of standard_processor "''Connection''" "[]" New_Header New_Header "''''" New_Header
      True "Processor_RLock New_Header"]
  show ?thesis by (auto simp: Processor_RLock_def New_Header_def)
qed

end
