(* ===== verification/Stable_Insertion.thy ===== *)
theory Stable_Insertion
  imports Prelude "HOL-Library.Multiset"
begin

section \<open>Stable insertion, shared by the range sorter and the handler lists\<close>

text \<open>
  Two components keep a list in order by walking it until the new element comes strictly before
  the next one: \<open>SortRanges\<close> and the \<open>insert\<close> methods of the handler lists. The locale states
  what such a walk relies on: a test \<open>before\<close> that compares a key of a linear order. Its
  lemmas say that placing keeps the list sorted, loses nothing, and puts an element after those
  of equal key, so that placing one by one is the library's stable \<^const>\<open>sort_key\<close>.
\<close>

fun place :: "('a \<Rightarrow> 'a \<Rightarrow> bool) \<Rightarrow> 'a \<Rightarrow> 'a list \<Rightarrow> 'a list" where
  "place lt x [] = [x]"
| "place lt x (y # ys) = (if lt x y then x # y # ys else y # place lt x ys)"

lemma mset_place [simp]: "mset (place lt x xs) = add_mset x (mset xs)"
  by (induction xs) auto

lemma set_place [simp]: "set (place lt x xs) = insert x (set xs)"
  by (induction xs) auto

lemma length_place [simp]: "length (place lt x xs) = Suc (length xs)"
  by (induction xs) auto

lemma place_not_Nil [simp]: "place lt x xs \<noteq> []"
  by (cases xs) auto

lemma filter_place_other: "\<not> P x \<Longrightarrow> filter P (place lt x xs) = filter P xs"
  by (induction xs) auto

locale stable_placement =
  fixes before :: "'a \<Rightarrow> 'a \<Rightarrow> bool" and key :: "'a \<Rightarrow> 'k::linorder"
  assumes before_iff: "before x y \<longleftrightarrow> key x < key y"
begin

lemma sorted_place: "sorted (map key xs) \<Longrightarrow> sorted (map key (place before x xs))"
proof (induction xs)
  case (Cons y ys)
  then show ?case
    by (cases "key x < key y") (auto simp: before_iff intro: order_trans less_imp_le)
qed simp

lemma place_at_end:
  "(\<And>y. y \<in> set xs \<Longrightarrow> \<not> before x y) \<Longrightarrow> place before x xs = xs @ [x]"
  by (induction xs) auto

lemma place_snoc:
  assumes "sorted (map key (xs @ [y]))"
  shows "place before x (xs @ [y])
    = (if before x y then place before x xs @ [y] else xs @ [y, x])"
  using assms
proof (induction xs)
  case (Cons z zs)
  then have "key z \<le> key y" by (simp add: sorted_append)
  with Cons show ?case
    by (auto simp: before_iff [of x y] before_iff [of x z] sorted_append)
qed simp

lemma filter_place_same:
  "sorted (map key xs) \<Longrightarrow> key x = k
    \<Longrightarrow> filter (\<lambda>y. k = key y) (place before x xs) = filter (\<lambda>y. k = key y) xs @ [x]"
proof (induction xs)
  case (Cons y ys)
  show ?case
  proof (cases "before x y")
    case True
    then have "\<forall>z \<in> set (y # ys). k \<noteq> key z"
      using Cons.prems by (auto simp: before_iff)
    then have "filter (\<lambda>z. k = key z) (y # ys) = []"
      by (simp add: filter_empty_conv)
    with True Cons.prems show ?thesis by simp
  next
    case False
    with Cons show ?thesis by auto
  qed
qed simp

lemma sorted_foldl_place:
  "sorted (map key xs) \<Longrightarrow> sorted (map key (foldl (\<lambda>l x. place before x l) xs ys))"
  by (induction ys arbitrary: xs) (simp_all add: sorted_place)

lemma mset_foldl_place:
  "mset (foldl (\<lambda>l x. place before x l) xs ys) = mset xs + mset ys"
  by (induction ys arbitrary: xs) simp_all

lemma filter_foldl_place:
  "sorted (map key xs) \<Longrightarrow>
    filter (\<lambda>y. k = key y) (foldl (\<lambda>l x. place before x l) xs ys)
      = filter (\<lambda>y. k = key y) xs @ filter (\<lambda>y. k = key y) ys"
proof (induction ys arbitrary: xs)
  case (Cons y ys)
  have "sorted (map key (place before y xs))"
    using Cons.prems by (rule sorted_place)
  from Cons.IH [OF this] show ?case
    using Cons.prems filter_place_same [of xs y k]
      filter_place_other [of "\<lambda>z. k = key z" y before xs] by auto
qed simp

lemma foldl_place_sort_key: "foldl (\<lambda>l x. place before x l) [] xs = sort_key key xs"
proof (rule sym, rule properties_for_sort_key)
  show "mset (foldl (\<lambda>l x. place before x l) [] xs) = mset xs"
    by (simp add: mset_foldl_place)
  show "sorted (map key (foldl (\<lambda>l x. place before x l) [] xs))"
    by (rule sorted_foldl_place) simp
  fix y
  show "filter (\<lambda>z. key y = key z) (foldl (\<lambda>l x. place before x l) [] xs)
      = filter (\<lambda>z. key y = key z) xs"
    by (simp add: filter_foldl_place)
qed

end

end
