(* ===== verification/Ranges.thy ===== *)
theory Ranges
  imports Stable_Insertion
begin

section \<open>Byte ranges: \<open>jps/range.go\<close>\<close>

text \<open>
  A \<open>Range\<close> has two signed 64-bit ends, both inclusive; a negative end counts from the end of
  the data. The definitions follow the Go functions, the in-place loops of \<open>SortRanges\<close> and
  \<open>MergeRanges\<close> included: an index that moves over a list that is updated by position. The
  lemmas show that the sorting loop is the stable sort on the signed start, that the merging
  loop computes a recursion over the rest of the list, and what merging keeps: the bytes that
  the ranges cover on data of any size.
\<close>

subsection \<open>The type and its accessors\<close>

record Range =
  Start :: int64
  End :: int64

definition RangeAll :: Range where
  "RangeAll = \<lparr>Start = 0, End = -1\<rparr>"

definition NewRange :: "int64 \<Rightarrow> int64 \<Rightarrow> Range" where
  "NewRange start end' = \<lparr>Start = start, End = end'\<rparr>"

definition Abs :: "Range \<Rightarrow> int64 \<Rightarrow> Range" where
  "Abs r sz =
     (let r1 = (if Start r <s 0 then r\<lparr>Start := Start r + sz\<rparr> else r)
      in if End r1 <s 0 then r1\<lparr>End := End r1 + sz\<rparr> else r1)"

definition StartEnd :: "Range \<Rightarrow> int64 \<Rightarrow> int64 \<times> int64" where
  "StartEnd r sz = (let r' = Abs r sz in (Start r', End r'))"

definition IsAbsolute :: "Range \<Rightarrow> bool" where
  "IsAbsolute r = (0 \<le>s Start r \<and> 0 \<le>s End r)"

definition Length :: "Range \<Rightarrow> int64 \<times> int64" where
  "Length r =
     (let l = End r - Start r + 1
      in if Start r <s 0 then (l, if 0 <s End r then -1 else 0)
         else (l, if End r <s 0 then 1 else 0))"

definition isNoLength :: "Range \<Rightarrow> bool" where
  "isNoLength r =
     (if Start r <s 0 \<and> 0 <s End r then False
      else if End r <s 0 then False
      else End r - Start r <s 0)"

definition AbsLength :: "Range \<Rightarrow> int64 \<Rightarrow> int64" where
  "AbsLength r sz = (let (l, sizeMul) = Length r in l + sizeMul * sz)"

subsection \<open>\<open>SortRanges\<close>\<close>

text \<open>
  The inner loop has \<open>j + 1\<close> as its argument, so that its end \<open>j < 0\<close> is the case 0; the
  outer loop runs over the positions from 1.
\<close>

fun sort_inner :: "Range \<Rightarrow> nat \<Rightarrow> Range list \<Rightarrow> Range list" where
  "sort_inner r 0 rs = rs"
| "sort_inner r (Suc j) rs =
     (if Start r <s Start (rs ! j)
      then sort_inner r j ((rs[Suc j := rs ! j])[j := r])
      else rs)"

lemma length_sort_inner [simp]: "length (sort_inner r j rs) = length rs"
  by (induction r j rs rule: sort_inner.induct) auto

function sort_outer :: "nat \<Rightarrow> Range list \<Rightarrow> Range list" where
  "sort_outer i rs =
     (if i < length rs then sort_outer (Suc i) (sort_inner (rs ! i) i rs) else rs)"
  by pat_completeness auto
termination
  by (relation "measure (\<lambda>(i, rs). length rs - i)") auto

declare sort_outer.simps [simp del]

definition SortRanges :: "Range list \<Rightarrow> Range list" where
  "SortRanges rs = sort_outer 1 rs"

subsection \<open>\<open>MergeRanges\<close> and \<open>TidyRanges\<close>\<close>

text \<open>
  \<open>rs = rs[:i+copy(rs[i:], rs[i+1:])]\<close> moves the elements after position \<open>i\<close> down by one and
  shortens the slice.
\<close>

definition remove_at :: "nat \<Rightarrow> 'a list \<Rightarrow> 'a list" where
  "remove_at i rs = take i rs @ drop (Suc i) rs"

lemma length_remove_at [simp]: "i < length rs \<Longrightarrow> length (remove_at i rs) = length rs - 1"
  by (simp add: remove_at_def)

function merge_loop :: "nat \<Rightarrow> Range \<Rightarrow> Range list \<Rightarrow> Range list" where
  "merge_loop i r1 rs =
     (if i < length rs then
        (let r2 = rs ! i in
         if 0 \<le>s Start r2 \<and> 0 \<le>s End r2 then
           (if End r2 <s Start r2 then merge_loop i r1 (remove_at i rs)
            else if 0 \<le>s Start r1 then
              (if Start r1 \<le>s Start r2 then
                 (if Start r2 \<le>s End r1 then
                    (if End r1 <s End r2
                     then merge_loop i (r1\<lparr>End := End r2\<rparr>)
                            (remove_at i (rs[i - 1 := (rs ! (i - 1))\<lparr>End := End r2\<rparr>]))
                     else merge_loop i r1 (remove_at i rs))
                  else merge_loop (Suc i) r2 rs)
               else if Start r1 \<le>s End r2 then
                 (let r1' = r1\<lparr>Start := Start r2\<rparr>;
                      r1'' = (if End r1' <s End r2 then r1'\<lparr>End := End r2\<rparr> else r1')
                  in merge_loop i r1'' (remove_at i (rs[i - 1 := r1''])))
               else merge_loop (Suc i) r2 rs)
            else merge_loop (Suc i) r2 rs)
         else merge_loop (Suc i) r2 rs)
      else rs)"
  by pat_completeness auto
termination
  by (relation "measure (\<lambda>(i, r1, rs). length rs - i)") auto

declare merge_loop.simps [simp del]

fun MergeRanges :: "Range list \<Rightarrow> Range list" where
  "MergeRanges [] = []"
| "MergeRanges (r1 # rs) =
     (if isNoLength r1 then MergeRanges rs else merge_loop 1 r1 (r1 # rs))"

definition TidyRanges :: "Range list \<Rightarrow> Range list" where
  "TidyRanges rs = MergeRanges (SortRanges rs)"

subsection \<open>The bytes a range covers\<close>

text \<open>
  The specification side: the positions that a range covers on data of \<open>n\<close> bytes, with the ends
  read as signed integers and a negative end counted from \<open>n\<close>, as the documentation of \<open>Range\<close>
  says.
\<close>

definition resolve :: "int \<Rightarrow> int64 \<Rightarrow> int" where
  "resolve n x = (if sint x < 0 then sint x + n else sint x)"

definition covers :: "int \<Rightarrow> Range \<Rightarrow> int set" where
  "covers n r = {i. 0 \<le> i \<and> i < n \<and> resolve n (Start r) \<le> i \<and> i \<le> resolve n (End r)}"

definition covered :: "int \<Rightarrow> Range list \<Rightarrow> int set" where
  "covered n rs = (\<Union>r \<in> set rs. covers n r)"

named_theorems range_simps \<open>signed comparisons and coverage as facts on integers\<close>

declare word_sless_alt [range_simps] word_sle_eq [range_simps] covers_def [range_simps]
  resolve_def [range_simps] IsAbsolute_def [range_simps]

lemma covered_Nil [simp]: "covered n [] = {}"
  by (simp add: covered_def)

lemma covered_Cons [simp]: "covered n (r # rs) = covers n r \<union> covered n rs"
  by (simp add: covered_def)

lemma covered_cong_set: "set rs = set rs' \<Longrightarrow> covered n rs = covered n rs'"
  by (simp add: covered_def)

lemma covers_backwards: "IsAbsolute r \<Longrightarrow> End r <s Start r \<Longrightarrow> covers n r = {}"
  by (auto simp: range_simps)

lemma covers_merge_forward:
  assumes "IsAbsolute r2" "0 \<le>s Start r1" "Start r1 \<le>s Start r2" "Start r2 \<le>s End r1"
  shows "covers n (r1\<lparr>End := if End r1 <s End r2 then End r2 else End r1\<rparr>)
    = covers n r1 \<union> covers n r2"
  using assms by (auto simp: range_simps)

lemma covers_merge_backward:
  assumes "IsAbsolute r1" "IsAbsolute r2" "Start r2 \<le>s Start r1" "Start r1 \<le>s End r2"
    and "Start r1 \<le>s End r1"
  shows "covers n (r1\<lparr>Start := Start r2, End := if End r1 <s End r2 then End r2 else End r1\<rparr>)
    = covers n r1 \<union> covers n r2"
  using assms by (auto simp: range_simps)

lemma isNoLength_covers:
  assumes "isNoLength r" "Start r \<noteq> min_int64"
  shows "covers n r = {}"
proof (cases "sint (Start r) < 0")
  case True
  with assms(1) have "End r = 0"
    by (auto simp: isNoLength_def range_simps sint64_eq_iff split: if_splits)
  with assms True show ?thesis
    by (simp add: isNoLength_def word_sless_alt sint64_uminus split: if_splits)
next
  case False
  then have "sint (End r - Start r) = sint (End r) - sint (Start r)" if "0 \<le> sint (End r)"
    using that sint64_bounds [of "End r"] sint64_bounds [of "Start r"]
    by (intro sint64_sub) auto
  with assms(1) False show ?thesis
    by (auto simp: isNoLength_def range_simps split: if_splits)
qed

subsection \<open>The sorting loop is the stable sort\<close>

interpretation range_order: stable_placement
  "\<lambda>x y. Start x <s Start y" "\<lambda>r. sint (Start r)"
  by unfold_locales (simp add: word_sless_alt)

lemma sort_inner_place:
  "sorted (map (\<lambda>r. sint (Start r)) xs) \<Longrightarrow>
    sort_inner r (length xs) (xs @ r # ys) = place (\<lambda>x y. Start x <s Start y) r xs @ ys"
proof (induction xs arbitrary: ys rule: rev_induct)
  case (snoc z zs)
  have shift: "((zs @ z # r # ys)[Suc (length zs) := z])[length zs := r] = zs @ r # z # ys"
    by (simp add: list_update_append)
  from snoc.prems have "sorted (map (\<lambda>r. sint (Start r)) zs)"
    by (simp add: sorted_append)
  from snoc.IH [OF this, of "z # ys"] snoc.prems shift show ?case
    by (auto simp: nth_append range_order.place_snoc)
qed simp

lemma sort_outer_foldl:
  "i \<le> length rs \<Longrightarrow> sorted (map (\<lambda>r. sint (Start r)) (take i rs)) \<Longrightarrow>
    sort_outer i rs = foldl (\<lambda>l r. place (\<lambda>x y. Start x <s Start y) r l) (take i rs) (drop i rs)"
proof (induction i rs rule: sort_outer.induct)
  case (1 i rs)
  show ?case
  proof (cases "i < length rs")
    case True
    let ?p = "place (\<lambda>x y. Start x <s Start y) (rs ! i) (take i rs)"
    have rs: "rs = take i rs @ rs ! i # drop (Suc i) rs"
      using True by (simp add: id_take_nth_drop)
    have len: "length (take i rs) = i" using True by simp
    have inner: "sort_inner (rs ! i) i rs = ?p @ drop (Suc i) rs"
      using sort_inner_place [OF "1.prems"(2), of "rs ! i" "drop (Suc i) rs"] rs len by simp
    have lenp: "length ?p = Suc i" using len by simp
    have "sort_outer (Suc i) (sort_inner (rs ! i) i rs)
        = foldl (\<lambda>l r. place (\<lambda>x y. Start x <s Start y) r l) ?p (drop (Suc i) rs)"
      using "1.IH" [OF True] True range_order.sorted_place [OF "1.prems"(2), of "rs ! i"]
      by (simp add: inner lenp)
    with True show ?thesis
      by (simp add: sort_outer.simps [of i rs] Cons_nth_drop_Suc [symmetric])
  next
    case False
    then show ?thesis using "1.prems" by (subst sort_outer.simps) simp
  qed
qed

lemma SortRanges_foldl:
  "SortRanges rs = foldl (\<lambda>l r. place (\<lambda>x y. Start x <s Start y) r l) [] rs"
proof (cases rs)
  case Nil
  then show ?thesis by (simp add: SortRanges_def sort_outer.simps)
next
  case (Cons r rs')
  then show ?thesis
    using sort_outer_foldl [of 1 rs] by (simp add: SortRanges_def)
qed

lemma SortRanges_sort_key: "SortRanges rs = sort_key (\<lambda>r. sint (Start r)) rs"
  by (simp add: SortRanges_foldl range_order.foldl_place_sort_key)

subsection \<open>The merging loop as a recursion over the rest\<close>

fun merge_rest :: "Range \<Rightarrow> Range list \<Rightarrow> Range list" where
  "merge_rest r1 [] = [r1]"
| "merge_rest r1 (r2 # rest) =
     (if IsAbsolute r2 then
        (if End r2 <s Start r2 then merge_rest r1 rest
         else if 0 \<le>s Start r1 \<and> Start r1 \<le>s Start r2 \<and> Start r2 \<le>s End r1 then
           merge_rest (r1\<lparr>End := if End r1 <s End r2 then End r2 else End r1\<rparr>) rest
         else if 0 \<le>s Start r1 \<and> \<not> Start r1 \<le>s Start r2 \<and> Start r1 \<le>s End r2 then
           merge_rest (r1\<lparr>Start := Start r2,
                          End := if End r1 <s End r2 then End r2 else End r1\<rparr>) rest
         else r1 # merge_rest r2 rest)
      else r1 # merge_rest r2 rest)"

lemma remove_at_mid: "remove_at (Suc (length as)) (as @ r1 # r2 # rest) = as @ r1 # rest"
  by (simp add: remove_at_def)

lemma merge_loop_rest:
  "merge_loop (Suc (length as)) r1 (as @ r1 # rest) = as @ merge_rest r1 rest"
proof (induction rest arbitrary: as r1)
  case Nil
  then show ?case by (subst merge_loop.simps) simp
next
  case (Cons r2 rest)
  have step: "merge_loop (Suc (Suc (length as))) r2 (as @ r1 # r2 # rest)
      = as @ r1 # merge_rest r2 rest" for r1
    using Cons.IH [of "as @ [r1]" r2] by simp
  have nth: "(as @ r1 # r2 # rest) ! Suc (length as) = r2"
    "(as @ r1 # r2 # rest) ! length as = r1"
    by (simp_all add: nth_append)
  have upd: "(as @ r1 # r2 # rest)[length as := x] = as @ x # r2 # rest" for x
    by (simp add: list_update_append)
  have ends: "r1\<lparr>End := End r1\<rparr> = r1" "r1\<lparr>Start := y, End := End r1\<rparr> = r1\<lparr>Start := y\<rparr>" for y
    by simp_all
  show ?case
    by (subst merge_loop.simps)
      (simp add: nth upd step remove_at_mid Cons.IH IsAbsolute_def Let_def ends del: nth_append)
qed

lemma MergeRanges_rest:
  "MergeRanges (r # rs) = (if isNoLength r then MergeRanges rs else merge_rest r rs)"
  using merge_loop_rest [of "[]" r rs] by simp

text \<open>
  The loop keeps what is covered in two situations: when all ranges are absolute, and when the
  starts are in ascending order (then the branch in which \<open>r2\<close> comes first is never taken).
\<close>

abbreviation starts_sorted :: "Range list \<Rightarrow> bool" where
  "starts_sorted rs \<equiv> sorted (map (\<lambda>r. sint (Start r)) rs)"

definition mergeable :: "Range \<Rightarrow> Range list \<Rightarrow> bool" where
  "mergeable r rs \<longleftrightarrow> (IsAbsolute r \<longrightarrow> Start r \<le>s End r)
     \<and> (list_all IsAbsolute (r # rs) \<or> starts_sorted (r # rs))"

lemma mergeable_skip: "mergeable r1 (r2 # rest) \<Longrightarrow> mergeable r1 rest"
  by (auto simp: mergeable_def)

lemma mergeable_next:
  "mergeable r1 (r2 # rest) \<Longrightarrow> (IsAbsolute r2 \<Longrightarrow> \<not> End r2 <s Start r2) \<Longrightarrow> mergeable r2 rest"
  by (auto simp: mergeable_def range_simps)

lemma mergeable_forward:
  assumes "mergeable r1 (r2 # rest)" "IsAbsolute r2" "0 \<le>s Start r1"
    "Start r1 \<le>s Start r2" "Start r2 \<le>s End r1"
  shows "mergeable (r1\<lparr>End := if End r1 <s End r2 then End r2 else End r1\<rparr>) rest"
  using assms by (auto simp: mergeable_def range_simps)

lemma mergeable_backward:
  assumes "mergeable r1 (r2 # rest)" "IsAbsolute r2" "0 \<le>s Start r1"
    "\<not> Start r1 \<le>s Start r2" "Start r1 \<le>s End r2"
  shows "IsAbsolute r1 \<and> Start r1 \<le>s End r1 \<and>
    mergeable (r1\<lparr>Start := Start r2, End := if End r1 <s End r2 then End r2 else End r1\<rparr>) rest"
  using assms by (auto simp: mergeable_def range_simps)

lemma merge_rest_step:
  obtains (keep) "merge_rest r1 (r2 # rest) = r1 # merge_rest r2 rest"
      "IsAbsolute r2 \<Longrightarrow> \<not> End r2 <s Start r2"
      "IsAbsolute r2 \<Longrightarrow> 0 \<le>s Start r1 \<Longrightarrow> Start r1 \<le>s Start r2 \<Longrightarrow> \<not> Start r2 \<le>s End r1"
  | (skip) "merge_rest r1 (r2 # rest) = merge_rest r1 rest" "IsAbsolute r2" "End r2 <s Start r2"
  | (forward) "merge_rest r1 (r2 # rest)
        = merge_rest (r1\<lparr>End := if End r1 <s End r2 then End r2 else End r1\<rparr>) rest"
      "IsAbsolute r2" "0 \<le>s Start r1" "Start r1 \<le>s Start r2" "Start r2 \<le>s End r1"
  | (backward) "merge_rest r1 (r2 # rest)
        = merge_rest (r1\<lparr>Start := Start r2,
                         End := if End r1 <s End r2 then End r2 else End r1\<rparr>) rest"
      "IsAbsolute r2" "0 \<le>s Start r1" "\<not> Start r1 \<le>s Start r2" "Start r1 \<le>s End r2"
  by (cases "IsAbsolute r2"; cases "End r2 <s Start r2";
      cases "0 \<le>s Start r1 \<and> Start r1 \<le>s Start r2 \<and> Start r2 \<le>s End r1";
      cases "0 \<le>s Start r1 \<and> \<not> Start r1 \<le>s Start r2 \<and> Start r1 \<le>s End r2") auto

lemma merge_rest_covered:
  "mergeable r rs \<Longrightarrow> covered n (merge_rest r rs) = covers n r \<union> covered n rs"
proof (induction rs arbitrary: r)
  case (Cons r2 rest)
  show ?case
  proof (cases rule: merge_rest_step [where ?r1.0 = r and ?r2.0 = r2 and rest = rest])
    case keep
    with Cons.IH mergeable_next [OF Cons.prems] show ?thesis by (simp del: merge_rest.simps(2))
  next
    case skip
    with Cons.IH mergeable_skip [OF Cons.prems] covers_backwards [of r2 n]
    show ?thesis by (simp del: merge_rest.simps(2))
  next
    case forward
    with Cons.IH mergeable_forward [OF Cons.prems] covers_merge_forward [of r2 r n]
    show ?thesis by (simp del: merge_rest.simps(2) add: Un_assoc)
  next
    case backward
    moreover have "Start r2 \<le>s Start r" using backward(4) by (auto simp: range_simps)
    ultimately show ?thesis
      using Cons.IH mergeable_backward [OF Cons.prems] covers_merge_backward [of r r2 n]
      by (simp del: merge_rest.simps(2) add: Un_assoc)
  qed
qed simp

lemma isNoLength_absolute: "IsAbsolute r \<Longrightarrow> isNoLength r \<longleftrightarrow> End r <s Start r"
proof -
  assume r: "IsAbsolute r"
  then have "sint (End r - Start r) = sint (End r) - sint (Start r)"
    using sint64_bounds [of "End r"] sint64_bounds [of "Start r"]
    by (intro sint64_sub) (auto simp: range_simps)
  with r show ?thesis by (auto simp: isNoLength_def range_simps)
qed

lemma MergeRanges_covered:
  assumes "list_all IsAbsolute rs \<or> starts_sorted rs" "\<forall>r \<in> set rs. Start r \<noteq> min_int64"
  shows "covered n (MergeRanges rs) = covered n rs"
  using assms
proof (induction rs)
  case (Cons r rs)
  show ?case
  proof (cases "isNoLength r")
    case True
    moreover have "covers n r = {}" using True Cons.prems by (simp add: isNoLength_covers)
    moreover have "list_all IsAbsolute rs \<or> starts_sorted rs" using Cons.prems by auto
    ultimately show ?thesis using Cons.IH Cons.prems by (simp del: MergeRanges.simps add: MergeRanges_rest)
  next
    case False
    then have "Start r \<le>s End r" if "IsAbsolute r"
      using that by (simp add: isNoLength_absolute range_simps)
    with Cons.prems have "mergeable r rs" by (auto simp: mergeable_def)
    with False merge_rest_covered show ?thesis
      by (simp del: MergeRanges.simps add: MergeRanges_rest)
  qed
qed simp

subsection \<open>Disjointness\<close>

definition separated :: "Range \<Rightarrow> Range \<Rightarrow> bool" where
  "separated a b = (End a <s Start b)"

lemma merge_rest_starts:
  "starts_sorted (r # rs) \<Longrightarrow> x \<in> set (merge_rest r rs) \<Longrightarrow> sint (Start r) \<le> sint (Start x)"
proof (induction rs arbitrary: r)
  case (Cons r2 rest)
  show ?case
  proof (cases rule: merge_rest_step [where ?r1.0 = r and ?r2.0 = r2 and rest = rest])
    case keep
    then show ?thesis
      using Cons.IH [of r2] Cons.prems by (auto simp del: merge_rest.simps(2))
  next
    case skip
    then show ?thesis using Cons.IH [of r] Cons.prems by (auto simp del: merge_rest.simps(2))
  next
    case forward
    then show ?thesis
      using Cons.IH [of "r\<lparr>End := if End r <s End r2 then End r2 else End r\<rparr>"] Cons.prems
      by (auto simp del: merge_rest.simps(2))
  next
    case backward
    then show ?thesis using Cons.prems by (auto simp: range_simps)
  qed
qed simp

definition tidy :: "Range list \<Rightarrow> bool" where
  "tidy rs \<longleftrightarrow> sorted_wrt separated rs \<and> list_all (\<lambda>r. IsAbsolute r \<and> Start r \<le>s End r) rs"

lemma merge_rest_tidy:
  "list_all IsAbsolute (r # rs) \<Longrightarrow> Start r \<le>s End r \<Longrightarrow> starts_sorted (r # rs) \<Longrightarrow>
    tidy (merge_rest r rs)"
proof (induction rs arbitrary: r)
  case Nil
  then show ?case by (simp add: tidy_def)
next
  case (Cons r2 rest)
  show ?case
  proof (cases rule: merge_rest_step [where ?r1.0 = r and ?r2.0 = r2 and rest = rest])
    case keep
    with Cons.prems have r2: "list_all IsAbsolute (r2 # rest)" "Start r2 \<le>s End r2"
      "starts_sorted (r2 # rest)" "End r <s Start r2"
      by (auto simp: word_sless_alt word_sle_eq IsAbsolute_def [of r] IsAbsolute_def [of r2])
    then have "\<forall>x \<in> set (merge_rest r2 rest). separated r x"
      using merge_rest_starts by (fastforce simp: separated_def range_simps)
    with keep(1) Cons.IH [OF r2(1,2,3)] Cons.prems show ?thesis
      by (simp add: tidy_def del: merge_rest.simps(2))
  next
    case skip
    with Cons show ?thesis by (simp del: merge_rest.simps(2))
  next
    case forward
    let ?m = "r\<lparr>End := if End r <s End r2 then End r2 else End r\<rparr>"
    have "IsAbsolute ?m" "Start ?m \<le>s End ?m"
      using forward(2-) by (auto simp: range_simps)
    moreover have "list_all IsAbsolute rest" "starts_sorted (?m # rest)"
      using Cons.prems by simp_all
    ultimately have "list_all IsAbsolute (?m # rest)" "Start ?m \<le>s End ?m" "starts_sorted (?m # rest)"
      by simp_all
    with forward(1) Cons.IH [of ?m] show ?thesis by (simp del: merge_rest.simps(2))
  next
    case backward
    with Cons.prems show ?thesis by (auto simp: range_simps)
  qed
qed

lemma MergeRanges_tidy:
  "list_all IsAbsolute rs \<Longrightarrow> starts_sorted rs \<Longrightarrow> tidy (MergeRanges rs)"
proof (induction rs)
  case Nil
  then show ?case by (simp add: tidy_def)
next
  case (Cons r rs)
  then show ?case
    by (auto simp del: MergeRanges.simps simp: MergeRanges_rest isNoLength_absolute
        signed.not_less intro!: merge_rest_tidy)
qed

subsection \<open>Properties\<close>

lemma Abs_fields:
  "Start (Abs r sz) = (if Start r <s 0 then Start r + sz else Start r)"
  "End (Abs r sz) = (if End r <s 0 then End r + sz else End r)"
  by (simp_all add: Abs_def Let_def)

lemma starts_sorted_SortRanges: "starts_sorted (SortRanges rs)"
  by (simp add: SortRanges_sort_key)

lemma set_SortRanges [simp]: "set (SortRanges rs) = set rs"
  by (simp add: SortRanges_sort_key)

text \<open>
  C30: \<open>SortRanges\<close> is the stable sort of the ranges by their signed start: the two nested
  loops, which move elements in place, give exactly the library's \<^const>\<open>sort_key\<close>.
\<close>

theorem SortRanges_is_stable_sort: "SortRanges rs = sort_key (\<lambda>r. sint (Start r)) rs"
  by (rule SortRanges_sort_key)

text \<open>
  C10: \<open>TidyRanges\<close> neither loses nor adds a byte: on data of any size, the tidied ranges
  cover the bytes that the given ones cover, ranges with ends relative to the end of the data
  included. (A start of -2^63, which cannot be negated in 64 bits, is excluded.)
\<close>

theorem TidyRanges_covered:
  assumes "\<forall>r \<in> set rs. Start r \<noteq> min_int64"
  shows "covered n (TidyRanges rs) = covered n rs"
proof -
  have "covered n (MergeRanges (SortRanges rs)) = covered n (SortRanges rs)"
    using assms by (intro MergeRanges_covered) (simp_all add: starts_sorted_SortRanges)
  also have "\<dots> = covered n rs"
    by (rule covered_cong_set) simp
  finally show ?thesis by (simp add: TidyRanges_def)
qed

theorem TidyRanges_covered_witness:
  "covered 100 (TidyRanges [NewRange 20 30, NewRange (-5) (-1), NewRange 10 25])
    = covered 100 [NewRange 20 30, NewRange (-5) (-1), NewRange 10 25]"
  by (rule TidyRanges_covered) (simp add: NewRange_def min_int64_def)

text \<open>
  C29: for absolute ranges, \<open>TidyRanges\<close> returns what its comment promises, a list of sorted
  and non-overlapping ranges: each ends before the next one starts, and none is empty.
\<close>

theorem TidyRanges_disjoint:
  assumes "list_all IsAbsolute rs"
  shows "sorted_wrt (\<lambda>a b. End a <s Start b) (TidyRanges rs)
    \<and> list_all (\<lambda>r. 0 \<le>s Start r \<and> Start r \<le>s End r) (TidyRanges rs)"
proof -
  have "tidy (TidyRanges rs)"
    using assms unfolding TidyRanges_def
    by (intro MergeRanges_tidy) (simp_all add: starts_sorted_SortRanges list_all_iff)
  then show ?thesis
    by (auto simp: tidy_def separated_def IsAbsolute_def list_all_iff elim: sorted_wrt_mono_rel [rotated])
qed

theorem TidyRanges_disjoint_witness:
  "sorted_wrt (\<lambda>a b. End a <s Start b) (TidyRanges [NewRange 20 30, NewRange 10 25])
    \<and> list_all (\<lambda>r. 0 \<le>s Start r \<and> Start r \<le>s End r)
        (TidyRanges [NewRange 20 30, NewRange 10 25])"
  by (rule TidyRanges_disjoint) (simp add: NewRange_def range_simps)

text \<open>
  \<open>MergeRanges\<close> on absolute ranges in any order covers exactly the same bytes.
\<close>

theorem MergeRanges_absolute_covered:
  assumes "list_all IsAbsolute rs"
  shows "covered n (MergeRanges rs) = covered n rs"
proof (rule MergeRanges_covered)
  show "\<forall>r \<in> set rs. Start r \<noteq> min_int64"
    using assms by (auto simp: list_all_iff range_simps min_int64_def)
qed (simp add: assms)

theorem MergeRanges_absolute_covered_witness:
  "covered 400 (MergeRanges [NewRange 200 500, NewRange 100 300])
    = covered 400 [NewRange 200 500, NewRange 100 300]"
  by (rule MergeRanges_absolute_covered) (simp add: NewRange_def range_simps)

text \<open>
  With a range that runs to the end of the data, \<open>MergeRanges\<close> loses bytes: merging
  \<open>2-7\<close> into a preceding \<open>5-\<close> gives \<open>2-7\<close>, because the branch in which the second range
  comes first compares the ends without looking at their sign.
\<close>

theorem MergeRanges_loses_tail:
  "MergeRanges [NewRange 5 (-1), NewRange 2 7] = [NewRange 2 7]
    \<and> 9 \<in> covered 10 [NewRange 5 (-1), NewRange 2 7]
    \<and> 9 \<notin> covered 10 (MergeRanges [NewRange 5 (-1), NewRange 2 7])"
proof -
  have "MergeRanges [NewRange 5 (-1), NewRange 2 7] = [NewRange 2 7]"
    by (simp add: MergeRanges_rest isNoLength_def NewRange_def range_simps
        del: MergeRanges.simps(2))
  then show ?thesis by (simp add: range_simps NewRange_def)
qed

text \<open>
  \<open>AbsLength\<close> is the length of the range that \<open>Abs\<close> resolves, in 64-bit arithmetic,
  except for a range with a negative start and the end 0, where the size is not taken off.
\<close>

theorem AbsLength_resolved:
  "AbsLength r sz = End (Abs r sz) - Start (Abs r sz) + 1
     + (if Start r <s 0 \<and> End r = 0 then sz else 0)"
proof -
  have "0 <s End r \<longleftrightarrow> \<not> End r <s 0 \<and> End r \<noteq> 0"
    by (metis signed.less_linear signed.less_irrefl signed.less_asym)
  then show ?thesis
    by (auto simp: AbsLength_def Length_def Abs_fields Let_def)
qed

end
