(* ===== verification/Go_Strconv.thy ===== *)
theory Go_Strconv
  imports Prelude
begin

section \<open>Numbers in text: the functions of \<open>strconv\<close> the server calls\<close>

text \<open>
  \<open>ParseUint\<close> and \<open>ParseInt\<close> for a fixed base (the calls in the repository use 10 and 16) and the
  digits \<open>FormatUint\<close> and \<open>FormatInt\<close> print. A number is a \<^typ>\<open>nat\<close> or \<^typ>\<open>int\<close> with its
  bounds written out; the callers convert it to the word they keep. The round trip lemmas carry
  every round trip of the components above.
\<close>

datatype num_error = ErrSyntax | ErrRange

definition digit_val :: "char \<Rightarrow> nat option" where
  "digit_val c =
     (if CHR ''0'' \<le> c \<and> c \<le> CHR ''9'' then Some (of_char c - 48)
      else if CHR ''a'' \<le> c \<and> c \<le> CHR ''z'' then Some (of_char c - 87)
      else if CHR ''A'' \<le> c \<and> c \<le> CHR ''Z'' then Some (of_char c - 55)
      else None)"

definition digit_char :: "nat \<Rightarrow> char" where
  "digit_char d = (if d < 10 then char_of (48 + d) else char_of (87 + d))"

fun parse_uint_loop :: "nat \<Rightarrow> nat \<Rightarrow> nat \<Rightarrow> string \<Rightarrow> nat \<times> num_error option" where
  "parse_uint_loop base mx n [] = (n, None)"
| "parse_uint_loop base mx n (c # cs) =
     (case digit_val c of
        None \<Rightarrow> (0, Some ErrSyntax)
      | Some d \<Rightarrow>
          if d \<ge> base then (0, Some ErrSyntax)
          else if n * base + d > mx then (mx, Some ErrRange)
          else parse_uint_loop base mx (n * base + d) cs)"

definition ParseUint :: "string \<Rightarrow> nat \<Rightarrow> nat \<Rightarrow> nat \<times> num_error option" where
  "ParseUint s base bits =
     (if s = [] then (0, Some ErrSyntax) else parse_uint_loop base (2 ^ bits - 1) 0 s)"

definition ParseInt :: "string \<Rightarrow> nat \<Rightarrow> int \<times> num_error option" where
  "ParseInt s base =
     (if s = [] then (0, Some ErrSyntax)
      else
        (let neg = (hd s = CHR ''-'');
             digits = (if hd s = CHR ''+'' \<or> hd s = CHR ''-'' then tl s else s)
         in case ParseUint digits base 64 of
              (_, Some ErrSyntax) \<Rightarrow> (0, Some ErrSyntax)
            | (un, _) \<Rightarrow>
                if \<not> neg \<and> un \<ge> 2 ^ 63 then (2 ^ 63 - 1, Some ErrRange)
                else if neg \<and> un > 2 ^ 63 then (- (2 ^ 63), Some ErrRange)
                else (if neg then - int un else int un, None)))"

fun format_digits :: "nat \<Rightarrow> nat \<Rightarrow> string" where
  "format_digits base n =
     (if base < 2 \<or> n < base then [digit_char n]
      else format_digits base (n div base) @ [digit_char (n mod base)])"

declare format_digits.simps [simp del]

definition FormatUint :: "nat \<Rightarrow> nat \<Rightarrow> string" where
  "FormatUint n base = format_digits base n"

definition FormatInt :: "int \<Rightarrow> nat \<Rightarrow> string" where
  "FormatInt i base =
     (if i < 0 then CHR ''-'' # format_digits base (nat (- i)) else format_digits base (nat i))"

subsection \<open>Digits\<close>

lemma digit_val_char [simp]:
  assumes "d < 16"
  shows "digit_val (digit_char d) = Some d"
proof -
  have "d \<in> set [0..<16]" using assms by simp
  moreover have "list_all (\<lambda>d. digit_val (digit_char d) = Some d) [0..<16]" by code_simp
  ultimately show ?thesis by (simp add: list_all_iff)
qed

lemma digit_char_le_9: "d < 10 \<Longrightarrow> CHR ''0'' \<le> digit_char d \<and> digit_char d \<le> CHR ''9''"
  by (simp add: digit_char_def less_eq_char_def)

lemma set_format_digits10:
  "c \<in> set (format_digits 10 n) \<Longrightarrow> CHR ''0'' \<le> c \<and> c \<le> CHR ''9''"
proof (induction n rule: less_induct)
  case (less n)
  show ?case
  proof (cases "n < 10")
    case True
    with less.prems show ?thesis by (simp add: format_digits.simps [of 10 n] digit_char_le_9)
  next
    case False
    then have "n div 10 < n" by simp
    with less.IH [of "n div 10"] less.prems False show ?thesis
      by (auto simp: format_digits.simps [of 10 n] digit_char_le_9)
  qed
qed

lemma format_digits_not_Nil [simp]: "format_digits base n \<noteq> []"
  by (simp add: format_digits.simps)

lemma not_digit_notin_format:
  "\<not> (CHR ''0'' \<le> c \<and> c \<le> CHR ''9'') \<Longrightarrow> c \<notin> set (format_digits 10 n)"
  using set_format_digits10 by blast

lemma hd_format_digits10: "CHR ''0'' \<le> hd (format_digits 10 n) \<and> hd (format_digits 10 n) \<le> CHR ''9''"
  by (rule set_format_digits10 [of _ n]) simp

subsection \<open>Round trips\<close>

lemma parse_uint_loop_append:
  "parse_uint_loop base mx n (xs @ ys) =
    (case parse_uint_loop base mx n xs of
       (k, None) \<Rightarrow> parse_uint_loop base mx k ys
     | (k, Some e) \<Rightarrow> (k, Some e))"
  by (induction xs arbitrary: n) (auto split: option.splits)

lemma parse_format_digits:
  assumes "2 \<le> base" "base \<le> 16"
  shows "n \<le> mx \<Longrightarrow> parse_uint_loop base mx 0 (format_digits base n) = (n, None)"
proof (induction n rule: less_induct)
  case (less n)
  show ?case
  proof (cases "n < base")
    case True
    with less.prems assms show ?thesis by (simp add: format_digits.simps [of base n])
  next
    case False
    have "n div base < n" using False assms by (intro div_less_dividend) auto
    moreover have "n div base \<le> mx" using less.prems div_le_dividend [of n base] by (rule order_trans [rotated])
    ultimately have "parse_uint_loop base mx 0 (format_digits base (n div base)) = (n div base, None)"
      by (rule less.IH)
    moreover have "digit_val (digit_char (n mod base)) = Some (n mod base)"
      using assms mod_less_divisor [of base n] by (intro digit_val_char) linarith
    moreover have "\<not> base \<le> n mod base"
      using assms mod_less_divisor [of base n] by linarith
    ultimately show ?thesis
      using False assms less.prems
      by (simp add: format_digits.simps [of base n] parse_uint_loop_append)
  qed
qed

lemma ParseUint_FormatUint:
  assumes "2 \<le> base" "base \<le> 16" "n < 2 ^ bits"
  shows "ParseUint (FormatUint n base) base bits = (n, None)"
  using assms by (simp add: ParseUint_def FormatUint_def parse_format_digits)

lemma ParseInt_FormatInt:
  assumes "- (2 ^ 63) \<le> i" "i < 2 ^ 63"
  shows "ParseInt (FormatInt i 10) 10 = (i, None)"
proof (cases "i < 0")
  case True
  then have "ParseUint (format_digits 10 (nat (- i))) 10 64 = (nat (- i), None)"
    using assms ParseUint_FormatUint [of 10 "nat (- i)" 64] by (simp add: FormatUint_def nat_less_iff)
  with True assms show ?thesis by (simp add: ParseInt_def FormatInt_def nat_le_iff)
next
  case False
  then have "ParseUint (format_digits 10 (nat i)) 10 64 = (nat i, None)"
    using assms ParseUint_FormatUint [of 10 "nat i" 64] by (simp add: FormatUint_def nat_less_iff)
  moreover have "hd (format_digits 10 (nat i)) \<noteq> CHR ''-''" "hd (format_digits 10 (nat i)) \<noteq> CHR ''+''"
    using hd_format_digits10 [of "nat i"] by (auto simp: less_eq_char_def)
  ultimately show ?thesis
    using False assms by (simp add: ParseInt_def FormatInt_def nat_less_iff le_nat_iff)
qed

text \<open>Whatever is parsed, the result is within the bounds of the width asked for.\<close>

lemma parse_uint_loop_bound: "n \<le> mx \<Longrightarrow> fst (parse_uint_loop base mx n s) \<le> mx"
  by (induction s arbitrary: n) (auto split: option.splits)

lemma ParseUint_bound: "fst (ParseUint s base bits) < 2 ^ bits"
proof -
  have "fst (parse_uint_loop base (2 ^ bits - 1) 0 s) \<le> 2 ^ bits - 1"
    by (rule parse_uint_loop_bound) simp
  moreover have "(0 :: nat) < 2 ^ bits" by simp
  ultimately have "fst (parse_uint_loop base (2 ^ bits - 1) 0 s) < (2 :: nat) ^ bits" by linarith
  then show ?thesis by (simp add: ParseUint_def)
qed

lemma ParseInt_bound: "- (2 ^ 63) \<le> fst (ParseInt s base) \<and> fst (ParseInt s base) < 2 ^ 63"
  by (auto simp: ParseInt_def Let_def split: prod.splits option.splits num_error.splits)

end
