(* ===== verification/Http_Error.thy ===== *)
theory Http_Error
  imports Go_Strconv
begin

section \<open>HTTP errors: \<open>http/error.go\<close>\<close>

text \<open>
  An \<open>Error\<close> has a status code, a message for the user and the error it wraps: none (a nil
  interface), an error of \<open>strconv\<close>, or one made by \<open>errors.New\<close>, which is its text.
\<close>

datatype cause = NoCause | NumError num_error | NewError string

datatype http_error = HttpError (err_code: "16 word") (err_message: string) (err_cause: cause)

definition MakeErrInternalServerError :: "cause \<Rightarrow> http_error" where
  "MakeErrInternalServerError err = HttpError 500 ''Internal server error'' err"

definition ErrUnsupportedTransferEncoding :: http_error where
  "ErrUnsupportedTransferEncoding = HttpError 501 ''Unsupported Transfer-Encoding'' NoCause"

definition ErrUnsupportedContentEncoding :: http_error where
  "ErrUnsupportedContentEncoding = HttpError 415 ''Unsupported Content-Encoding'' NoCause"

definition ErrContentLengthAndTransferEncoding :: http_error where
  "ErrContentLengthAndTransferEncoding = HttpError 400
     ''It is forbidden to have both a Content-Length and a Transfer-Encoding header'' NoCause"

definition MakeErrMalformedContentLength :: "cause \<Rightarrow> http_error" where
  "MakeErrMalformedContentLength err = HttpError 400 ''Malformed Content-Length'' err"

definition ErrTooManyContentLength :: http_error where
  "ErrTooManyContentLength = HttpError 400 ''Too many Content-Length values'' NoCause"

definition ErrMustOnlyChunkOnce :: http_error where
  "ErrMustOnlyChunkOnce = HttpError 400 ''Chunked encoding must only be applied once'' NoCause"

definition ErrMustChunkLast :: http_error where
  "ErrMustChunkLast = HttpError 400 ''The final Transfer-Encoding must be chunked'' NoCause"

definition MakeErrMalformedHTTPRequest :: "cause \<Rightarrow> http_error" where
  "MakeErrMalformedHTTPRequest err = HttpError 400 ''Malformed HTTP request'' err"

definition ErrMalformedHTTPRequest :: http_error where
  "ErrMalformedHTTPRequest = MakeErrMalformedHTTPRequest NoCause"

definition ErrMalformedHTTPRequestExpectingCarraigeReturnBeforeNewline :: http_error where
  "ErrMalformedHTTPRequestExpectingCarraigeReturnBeforeNewline =
     MakeErrMalformedHTTPRequest (NewError ''expecting carraige return before newline'')"

definition ErrMalformedHTTPRequestExpecting2SpacesOnFirstRequestLine :: http_error where
  "ErrMalformedHTTPRequestExpecting2SpacesOnFirstRequestLine =
     MakeErrMalformedHTTPRequest (NewError ''expecting 2 spaces on first request line'')"

definition MakeErrMalformedHTTPVersion :: "cause \<Rightarrow> http_error" where
  "MakeErrMalformedHTTPVersion err = HttpError 400 ''Malformed HTTP version'' err"

definition ErrMalformedHTTPVersionDoesNotStartWithHTTP :: http_error where
  "ErrMalformedHTTPVersionDoesNotStartWithHTTP =
     MakeErrMalformedHTTPVersion (NewError (''HTTP version does not start with '' @ [CHR 0x22] @ ''HTTP/'' @ [CHR 0x22]))"

definition ErrMalformedHTTPVersionNoVersion :: http_error where
  "ErrMalformedHTTPVersionNoVersion =
     MakeErrMalformedHTTPVersion (NewError (''HTTP version does have anything '' @ [CHR 0x22] @ ''HTTP/'' @ [CHR 0x22]))"

definition ErrMalformedHTTPVersionNoDot :: http_error where
  "ErrMalformedHTTPVersionNoDot =
     MakeErrMalformedHTTPVersion (NewError (''HTTP version does contain a '' @ [CHR 0x27] @ ''.'' @ [CHR 0x27]))"

definition MakeErrMalformedURI :: "cause \<Rightarrow> http_error" where
  "MakeErrMalformedURI err = HttpError 400 ''Malformed URI'' err"

definition MakeErrMalformedHeaders :: "cause \<Rightarrow> http_error" where
  "MakeErrMalformedHeaders err = HttpError 400 ''Malformed HTTP headers'' err"

definition ErrMustBe1HostHeader :: http_error where
  "ErrMustBe1HostHeader = HttpError 400 ''There must be 1 Host header''
     (NewError ''the HTTP version requires 1 Host to be given'')"

definition ErrCannotChunkAnAlreadyChunkedBody :: http_error where
  "ErrCannotChunkAnAlreadyChunkedBody = HttpError 400 ''Cannot chunk an already chunked body'' NoCause"

definition ErrBytesRangeSpecMustContainDash :: cause where
  "ErrBytesRangeSpecMustContainDash =
     NewError (''a byte-range-spec must contain a '' @ [CHR 0x22] @ ''-'' @ [CHR 0x22])"

definition MakeErrMalformedRangeHeader :: "cause \<Rightarrow> http_error" where
  "MakeErrMalformedRangeHeader err = HttpError 400 ''Malformed Range header'' err"

definition MakeErrRangeNotSatisfiable :: "cause \<Rightarrow> http_error" where
  "MakeErrRangeNotSatisfiable err = HttpError 416 ''Range Not Satisfiable'' err"

definition MakeErrMalformedCacheControlHeader :: "cause \<Rightarrow> http_error" where
  "MakeErrMalformedCacheControlHeader err = HttpError 400 ''Malformed Cache-Control header'' err"

definition ErrMalformedCacheControlHeaderExpectingArgumentAfterEquals :: http_error where
  "ErrMalformedCacheControlHeaderExpectingArgumentAfterEquals =
     MakeErrMalformedCacheControlHeader (NewError ''expecting argument after equals'')"

text \<open>
  \<open>Error\<close> calls the wrapped error, which panics when there is none. \<open>num_text\<close> gives the text of
  the errors of \<open>strconv\<close>.
\<close>

definition Error_Error :: "(num_error \<Rightarrow> string) \<Rightarrow> http_error \<Rightarrow> string go" where
  "Error_Error num_text err =
     (case err_cause err of
        NoCause \<Rightarrow> Inl NilDereference
      | NumError e \<Rightarrow> Inr (''(HTTP '' @ FormatInt (uint (err_code err)) 10 @ '') '' @ err_message err @ '': '' @ num_text e)
      | NewError s \<Rightarrow> Inr (''(HTTP '' @ FormatInt (uint (err_code err)) 10 @ '') '' @ err_message err @ '': '' @ s))"

definition UserSafeStr :: "http_error \<Rightarrow> string" where
  "UserSafeStr err = err_message err"

definition Unwrap :: "http_error \<Rightarrow> cause" where
  "Unwrap err = err_cause err"

text \<open>The errors without a wrapped error cannot be printed.\<close>

lemma Error_Error_panics:
  "Error_Error num_text err = Inl NilDereference \<longleftrightarrow> Unwrap err = NoCause"
  by (auto simp: Error_Error_def Unwrap_def split: cause.splits)

end
