(* ===== verification/Range_Header.thy ===== *)
theory Range_Header
  imports Ranges Http_Error
begin

section \<open>The Range header: \<open>http/request.go\<close>\<close>

text \<open>
  \<open>FormatRange\<close>, \<open>FormatRanges\<close> and \<open>ParseRangeHeader\<close>. The parser is one loop that cuts the value
  at dashes and commas; it runs on the rest of the value and the ranges found so far. A nil
  slice is \<^term>\<open>None\<close>.
\<close>

datatype range_format_error = RangeNotSupported Range

text \<open>\<open>uint64(-r.Start)\<close> reads the negated word as an unsigned number.\<close>

definition FormatRange :: "Range \<Rightarrow> string \<times> range_format_error option" where
  "FormatRange r =
     (if Start r <s 0 then
        (if End r \<noteq> -1 then ('''', Some (RangeNotSupported r))
         else (''-'' @ FormatUint (unat (- Start r)) 10, None))
      else if End r <s 0 then
        (if End r \<noteq> -1 then ('''', Some (RangeNotSupported r))
         else (FormatUint (unat (Start r)) 10 @ ''-'', None))
      else (FormatUint (unat (Start r)) 10 @ ''-'' @ FormatUint (unat (End r)) 10, None))"

fun FormatRanges_loop :: "Range list \<Rightarrow> string \<Rightarrow> string \<times> range_format_error option" where
  "FormatRanges_loop [] out = (out, None)"
| "FormatRanges_loop (r # ranges) out =
     (case FormatRange r of
        (_, Some err) \<Rightarrow> (out, Some err)
      | (rs, None) \<Rightarrow> FormatRanges_loop ranges (out @ '','' @ rs))"

fun FormatRanges :: "Range list \<Rightarrow> string \<times> range_format_error option" where
  "FormatRanges [] = ('''', None)"
| "FormatRanges (r # ranges) =
     (case FormatRange r of
        (_, Some err) \<Rightarrow> ('''', Some err)
      | (rs, None) \<Rightarrow> FormatRanges_loop ranges rs)"

text \<open>The error for a number that does not parse: out of range, or malformed.\<close>

definition range_num_error :: "num_error \<Rightarrow> http_error" where
  "range_num_error err =
     (if err = ErrRange then MakeErrRangeNotSatisfiable (NumError err)
      else MakeErrMalformedRangeHeader (NumError err))"

function ParseRangeHeader_loop :: "string \<Rightarrow> Range list \<Rightarrow> Range list \<times> http_error option" where
  "ParseRangeHeader_loop v out =
     (case index_byte v CHR ''-'' of
        Some 0 \<Rightarrow>
          (let v1 = drop 1 v in
           case index_byte v1 CHR '','' of
             None \<Rightarrow>
               (case ParseUint v1 10 63 of
                  (_, Some err) \<Rightarrow> (out, Some (range_num_error err))
                | (endOffset, None) \<Rightarrow> (out @ [\<lparr>Start = - of_nat endOffset, End = -1\<rparr>], None))
           | Some i \<Rightarrow>
               (case ParseUint (take i v1) 10 63 of
                  (_, Some err) \<Rightarrow> (out, Some (range_num_error err))
                | (endOffset, None) \<Rightarrow>
                    ParseRangeHeader_loop (drop (i + 1) v1)
                      (out @ [\<lparr>Start = - of_nat endOffset, End = -1\<rparr>])))
      | Some (Suc k) \<Rightarrow>
          (case ParseUint (take (Suc k) v) 10 63 of
             (_, Some err) \<Rightarrow> (out, Some (range_num_error err))
           | (start, None) \<Rightarrow>
               (let v1 = drop (Suc k + 1) v in
                case index_byte v1 CHR '','' of
                  None \<Rightarrow>
                    (if length v1 = 0 then (out @ [\<lparr>Start = of_nat start, End = -1\<rparr>], None)
                     else
                       (case ParseUint v1 10 63 of
                          (_, Some err) \<Rightarrow> (out, Some (range_num_error err))
                        | (end', None) \<Rightarrow> (out @ [\<lparr>Start = of_nat start, End = of_nat end'\<rparr>], None)))
                | Some 0 \<Rightarrow>
                    ParseRangeHeader_loop (drop 1 v1) (out @ [\<lparr>Start = of_nat start, End = -1\<rparr>])
                | Some (Suc j) \<Rightarrow>
                    (case ParseUint (take (Suc j) v1) 10 63 of
                       (_, Some err) \<Rightarrow> (out, Some (range_num_error err))
                     | (end', None) \<Rightarrow>
                         ParseRangeHeader_loop (drop (Suc j + 1) v1)
                           (out @ [\<lparr>Start = of_nat start, End = of_nat end'\<rparr>]))))
      | None \<Rightarrow> (out, Some (MakeErrMalformedRangeHeader ErrBytesRangeSpecMustContainDash)))"
  by pat_completeness auto
termination
  by (relation "measure (\<lambda>(v, out). length v)") (auto dest!: index_byte_Some)

declare ParseRangeHeader_loop.simps [simp del]

definition ParseRangeHeader :: "string \<Rightarrow> (Range list option \<times> http_error option) go" where
  "ParseRangeHeader v =
     bind_go (go_upto v 6) (\<lambda>prefix'.
       if prefix' \<noteq> ''bytes='' then Inr (None, None)
       else (let (out, err) = ParseRangeHeader_loop (drop 6 v) [] in Inr (Some out, err)))"

subsection \<open>One range at a time\<close>

text \<open>What the header can carry, and what can be read back as a signed 64-bit number.\<close>

definition representable :: "Range \<Rightarrow> bool" where
  "representable r \<longleftrightarrow>
     (End r = -1 \<or> (0 \<le>s Start r \<and> 0 \<le>s End r)) \<and> Start r \<noteq> min_int64"

lemma Parse_nonneg:
  "0 \<le>s (x :: int64) \<Longrightarrow> ParseUint (FormatUint (unat x) 10) 10 63 = (unat x, None)"
  using nonneg_unat by (intro ParseUint_FormatUint) simp_all

lemma neg_nonneg:
  assumes "x <s 0" "x \<noteq> min_int64"
  shows "0 \<le>s - (x :: int64)"
  using assms sint64_uminus [of x] by (simp add: word_sle_eq word_sless_alt)

lemma format_no_comma: "CHR '','' \<notin> set (FormatUint n 10)" "CHR ''-'' \<notin> set (FormatUint n 10)"
  unfolding FormatUint_def by (rule not_digit_notin_format; simp add: less_eq_char_def)+

lemma FormatUint_not_Nil [simp]: "FormatUint n 10 \<noteq> []"
  by (simp add: FormatUint_def)



lemma length_FormatUint: obtains k where "length (FormatUint n 10) = Suc k"
  by (metis FormatUint_not_Nil length_0_conv not0_implies_Suc)

text \<open>The loop on one formatted range and what follows it: the end, or a comma and more.\<close>

definition after :: "string \<Rightarrow> Range list \<Rightarrow> Range list \<times> http_error option" where
  "after t out = (if t = [] then (out, None) else ParseRangeHeader_loop (tl t) out)"

lemma parse_one:
  assumes r: "representable r" and f: "FormatRange r = (s, None)"
    and t: "t = [] \<or> hd t = CHR '',''"
  shows "ParseRangeHeader_loop (s @ t) out = after t (out @ [r])"
proof -
  have tcase: "t = [] \<or> (\<exists>u. t = CHR '','' # u)" using t by (cases t) auto
  consider (suffix) "Start r <s 0" "End r = -1" | (opened) "0 \<le>s Start r" "End r = -1"
    | (both) "0 \<le>s Start r" "0 \<le>s End r"
    using r by (cases "Start r <s 0") (auto simp: representable_def word_sle_eq word_sless_alt)
  then show ?thesis
  proof cases
    case suffix
    have nn: "0 \<le>s - Start r" using suffix r by (intro neg_nonneg) (auto simp: representable_def)
    have s: "s = CHR ''-'' # FormatUint (unat (- Start r)) 10" using f suffix by (simp add: FormatRange_def)
    have "\<lparr>Start = - of_nat (unat (- Start r)), End = -1\<rparr> = r" using suffix by simp
    moreover note Parse_nonneg [OF nn]
    ultimately show ?thesis
      using tcase unfolding s after_def
      by (elim disjE exE; subst ParseRangeHeader_loop.simps)
        (simp_all add: Let_def index_byte_notin format_no_comma index_byte_append)
  next
    case opened
    obtain k where k: "length (FormatUint (unat (Start r)) 10) = Suc k" by (rule length_FormatUint)
    have s: "s = FormatUint (unat (Start r)) 10 @ ''-''"
      using f opened by (auto simp: FormatRange_def word_sle_eq word_sless_alt)
    have "\<lparr>Start = of_nat (unat (Start r)), End = -1\<rparr> = r" using opened by simp
    moreover note Parse_nonneg [OF opened(1)]
    ultimately show ?thesis
      using tcase unfolding s after_def
      by (elim disjE exE; subst ParseRangeHeader_loop.simps)
        (simp_all add: Let_def k index_byte_notin format_no_comma index_byte_append)
  next
    case both
    obtain k where k: "length (FormatUint (unat (Start r)) 10) = Suc k" by (rule length_FormatUint)
    obtain j where j: "length (FormatUint (unat (End r)) 10) = Suc j" by (rule length_FormatUint)
    have s: "s = FormatUint (unat (Start r)) 10 @ CHR ''-'' # FormatUint (unat (End r)) 10"
      using f both by (auto simp: FormatRange_def word_sle_eq word_sless_alt)
    have eta: "\<lparr>Start = Start r, End = End r\<rparr> = r" by simp
    note p = Parse_nonneg [OF both(1)] Parse_nonneg [OF both(2)]
    show ?thesis
      using tcase unfolding s after_def
      by (elim disjE exE; subst ParseRangeHeader_loop.simps)
        (simp_all add: p Let_def k j eta index_byte_notin format_no_comma index_byte_append)
  qed
qed

subsection \<open>The whole value\<close>

text \<open>The formatted ranges, separated by commas.\<close>

definition range_text :: "Range \<Rightarrow> string" where
  "range_text r = fst (FormatRange r)"

lemma Format_representable: "representable r \<Longrightarrow> FormatRange r = (range_text r, None)"
  by (auto simp: representable_def range_text_def FormatRange_def word_sle_eq word_sless_alt)

lemma FormatRanges_loop_eq:
  "list_all representable rs \<Longrightarrow>
    FormatRanges_loop rs out = (out @ concat (map (\<lambda>r. '','' @ range_text r) rs), None)"
  by (induction rs arbitrary: out) (simp_all add: Format_representable)

lemma FormatRanges_eq:
  "list_all representable (r # rs) \<Longrightarrow>
    FormatRanges (r # rs) = (range_text r @ concat (map (\<lambda>r. '','' @ range_text r) rs), None)"
  by (simp add: Format_representable FormatRanges_loop_eq)

lemma parse_text:
  "list_all representable (r # rs) \<Longrightarrow>
    ParseRangeHeader_loop (range_text r @ concat (map (\<lambda>r. '','' @ range_text r) rs)) out
      = (out @ r # rs, None)"
proof (induction rs arbitrary: r out)
  case Nil
  then show ?case
    using parse_one [of r "range_text r" "[]" out] by (simp add: Format_representable after_def)
next
  case (Cons q rs)
  let ?t = "concat (map (\<lambda>r. '','' @ range_text r) (q # rs))"
  have "ParseRangeHeader_loop (range_text r @ ?t) out = after ?t (out @ [r])"
    using Cons.prems by (intro parse_one) (simp_all add: Format_representable)
  also have "\<dots> = (out @ r # q # rs, None)"
    using Cons.IH [of q "out @ [r]"] Cons.prems by (simp add: after_def)
  finally show ?case .
qed

lemma range_text_start: "representable r \<Longrightarrow> range_text r \<noteq> [] \<and> hd (range_text r) \<noteq> CHR ''b''"
  using hd_format_digits10 [of "unat (Start r)"]
  by (auto simp: representable_def range_text_def FormatRange_def FormatUint_def less_eq_char_def
      hd_append word_sle_eq word_sless_alt)

lemma ParseRangeHeader_bytes:
  "ParseRangeHeader (''bytes='' @ v) = (let (out, err) = ParseRangeHeader_loop v [] in Inr (Some out, err))"
  by (simp add: ParseRangeHeader_def)

subsection \<open>Properties\<close>

text \<open>
  C37: every list of representable ranges (closed, open at the end, or a suffix) that is formatted
  as the value of a Range header, behind the unit, is read back exactly by \<open>ParseRangeHeader\<close>,
  with no error and no panic.
\<close>

theorem ParseRangeHeader_FormatRanges:
  assumes "rs \<noteq> []" "list_all representable rs"
  shows "\<exists>s. FormatRanges rs = (s, None) \<and> ParseRangeHeader (''bytes='' @ s) = Inr (Some rs, None)"
proof -
  obtain r rs' where rs: "rs = r # rs'" using assms(1) by (cases rs) auto
  with assms(2) FormatRanges_eq [of r rs'] parse_text [of r rs' "[]"] show ?thesis
    by (intro exI [of _ "range_text r @ concat (map (\<lambda>r. '','' @ range_text r) rs')"])
      (simp only: ParseRangeHeader_bytes Let_def prod.case append_Nil)
qed

theorem ParseRangeHeader_FormatRanges_witness:
  "\<exists>s. FormatRanges [\<lparr>Start = 0, End = 499\<rparr>, \<lparr>Start = 500, End = -1\<rparr>, \<lparr>Start = -20, End = -1\<rparr>] = (s, None)
    \<and> ParseRangeHeader (''bytes='' @ s)
      = Inr (Some [\<lparr>Start = 0, End = 499\<rparr>, \<lparr>Start = 500, End = -1\<rparr>, \<lparr>Start = -20, End = -1\<rparr>], None)"
  by (rule ParseRangeHeader_FormatRanges)
    (simp_all add: representable_def min_int64_def word_sle_eq)

text \<open>
  What \<open>SetRanges\<close> writes (the same value without the unit) is not read back: the parser
  either panics on the short value or ignores it.
\<close>

theorem FormatRanges_without_unit:
  assumes "rs \<noteq> []" "list_all representable rs"
  shows "ParseRangeHeader (fst (FormatRanges rs)) \<in> {Inl SliceOutOfRange, Inr (None, None)}"
proof -
  obtain r rs' where rs: "rs = r # rs'" using assms(1) by (cases rs) auto
  define s where "s = fst (FormatRanges rs)"
  have "s = range_text r @ concat (map (\<lambda>r. '','' @ range_text r) rs')"
    using FormatRanges_eq [of r rs'] assms(2) rs by (simp add: s_def)
  then have s: "s \<noteq> []" "hd s \<noteq> CHR ''b''" using range_text_start [of r] assms(2) rs by auto
  then have "take 6 s \<noteq> ''bytes=''" by (cases s) auto
  then show ?thesis
    unfolding s_def [symmetric] by (simp add: ParseRangeHeader_def go_upto_def)
qed

theorem FormatRanges_without_unit_witness:
  "ParseRangeHeader (fst (FormatRanges [\<lparr>Start = 0, End = 9\<rparr>])) \<in> {Inl SliceOutOfRange, Inr (None, None)}"
  by (rule FormatRanges_without_unit) (simp_all add: representable_def min_int64_def word_sle_eq)

end
