(* ===== verification/Metadata.thy ===== *)
theory Metadata
  imports Media_Type Header Range_Header
begin

section \<open>Metadata of a message body: \<open>http/http1/metadata.go\<close>\<close>

text \<open>
  \<open>HeaderMetadata\<close> reads and writes the properties of a body (size, range, type, encodings,
  languages, location, times, entity tag) in the headers of its message. Every operation works on
  the header store of the theory \<open>Header\<close> with any processor \<open>p\<close>; the setters return the changed
  store. Times are counted as in \<open>Cache_Control\<close>, and the date functions of \<open>net/http\<close> are arguments.
\<close>

datatype meta_error = ErrRangeTooLarge | ErrMultipleContentRangeHeaders | ErrMalformedContentRangeHeader
  | ErrMultipleContentTypeHeaders | ErrMultipleContentLocationHeaders | ErrMultipleLastModifiedHeaders
  | MetaNum num_error | MetaHttp http_error | MetaMedia media_error | MetaQuoted quoted_error | MetaDate

type_synonym MetadataWanted = "8 word"

definition MetadataHasEffect :: MetadataWanted where "MetadataHasEffect = 1"
definition MetadataRecomended :: MetadataWanted where "MetadataRecomended = 2"
definition MetadataRequired :: MetadataWanted where "MetadataRequired = 6"
definition MetadataNoDefault :: MetadataWanted where "MetadataNoDefault = 8"

subsection \<open>Content-Range\<close>

definition setContentRange :: "Processor \<Rightarrow> string \<Rightarrow> string \<Rightarrow> Header \<Rightarrow> Header go" where
  "setContentRange p r sz h = Header_Set p ''Content-Range'' (''bytes '' @ r @ ''/'' @ sz) h"

definition splitContentRange ::
  "Processor \<Rightarrow> Header \<Rightarrow> (bool \<times> string \<times> string \<times> meta_error option) go" where
  "splitContentRange p h =
     (let crs = GetValues p h ''Content-Range'' in
      if length crs < 1 then Inr (False, '''', '''', None)
      else if length crs > 1 then Inr (True, '''', '''', Some ErrMultipleContentRangeHeaders)
      else (let cr = crs ! 0 in
        bind_go (go_upto cr 6) (\<lambda>unit.
          if unit \<noteq> ''bytes '' then Inr (True, '''', '''', None)
          else (let cr' = drop 6 cr in
            case index_byte cr' (CHR ''/'') of
              None \<Rightarrow> Inr (True, '''', '''', Some ErrMalformedContentRangeHeader)
            | Some i \<Rightarrow> Inr (True, take i cr', drop (i + 1) cr', None)))))"

subsection \<open>The size\<close>

definition Metadata_Size :: "Processor \<Rightarrow> Header \<Rightarrow> (int64 \<times> meta_error option) go" where
  "Metadata_Size p h =
     bind_go (splitContentRange p h) (\<lambda>(hasContentRange, rangeStr, sizeStr, err).
       if hasContentRange then
         (if sizeStr = ''*'' \<or> err \<noteq> None then
            Inr (-1, if rangeStr = ''*'' \<and> err = None then Some ErrMalformedContentRangeHeader else err)
          else (let (n, e) = ParseUint sizeStr 10 63 in Inr (of_nat n, map_option MetaNum e)))
       else
         (let lengths = GetValues p h ''Content-Length'' in
          if length lengths = 0 then Inr (-1, None)
          else if length lengths = 1 then
            (let (n, e) = ParseUint (lengths ! 0) 10 63 in
             Inr (of_nat n, map_option (\<lambda>err. MetaHttp (MakeErrMalformedContentLength (NumError err))) e))
          else Inr (-1, Some (MetaHttp ErrTooManyContentLength))))"

definition removeContentLength :: "Processor \<Rightarrow> Header \<Rightarrow> Header go" where
  "removeContentLength p h =
     (let h1 = Header_Del p ''Content-Length'' h;
          codes = GetValues p h1 ''Transfer-Encoding''
      in if length codes = 0 \<or> codes ! (length codes - 1) \<noteq> ''chunked'' then
           Header_Add p ''Transfer-Encoding'' ''chunked'' h1
         else Inr h1)"

definition setContentLength :: "Processor \<Rightarrow> int64 \<Rightarrow> Header \<Rightarrow> Header go" where
  "setContentLength p l h =
     bind_go (Header_Set p ''Content-Length'' (FormatInt (sint l) 10) h) (\<lambda>h1.
       let codes = GetValues p h1 ''Transfer-Encoding'' in
       if length codes > 0 \<and> codes ! (length codes - 1) = ''chunked'' then
         SetValues p ''Transfer-Encoding'' (take (length codes - 1) codes) h1
       else Inr h1)"

definition Metadata_SetSize :: "Processor \<Rightarrow> int64 \<Rightarrow> Header \<Rightarrow> (meta_error option \<times> Header) go" where
  "Metadata_SetSize p sz h =
     bind_go (splitContentRange p h) (\<lambda>(hasContentRange, rangeStr, _, err).
       if hasContentRange then
         (if sz <s 0 then
            (if sz \<noteq> -1 then Inl (Explicit ''size must be >= -1'')
             else bind_go (setContentRange p rangeStr ''*'' h) (\<lambda>h'. Inr (err, h')))
          else bind_go (setContentRange p rangeStr (FormatInt (sint sz) 10) h) (\<lambda>h'. Inr (err, h')))
       else if sz <s 0 then
         (if sz \<noteq> -1 then Inl (Explicit ''size must be >= -1'')
          else bind_go (removeContentLength p h) (\<lambda>h'. Inr (None, h')))
       else bind_go (setContentLength p sz h) (\<lambda>h'. Inr (None, h')))"

subsection \<open>The range\<close>

definition Metadata_Range :: "Processor \<Rightarrow> Header \<Rightarrow> (Range \<times> meta_error option) go" where
  "Metadata_Range p h =
     bind_go (splitContentRange p h) (\<lambda>(hasContentRange, rangeStr, _, err).
       if \<not> hasContentRange \<or> rangeStr = ''*'' \<or> err \<noteq> None then Inr (\<lparr>Start = 0, End = -1\<rparr>, err)
       else (case index_byte rangeStr (CHR ''-'') of
          None \<Rightarrow> Inr (\<lparr>Start = 0, End = -1\<rparr>, Some ErrMalformedContentRangeHeader)
        | Some i \<Rightarrow>
            (let (start, err1) = ParseUint (take i rangeStr) 10 63 in
             if err1 \<noteq> None \<and> err1 \<noteq> Some ErrRange then
               Inr (\<lparr>Start = of_nat start, End = -1\<rparr>, Some ErrMalformedContentRangeHeader)
             else
               (let (end', err2) = ParseUint (drop (i + 1) rangeStr) 10 63 in
                Inr (\<lparr>Start = of_nat start, End = of_nat end'\<rparr>,
                  map_option MetaNum (if err2 = None then err1 else err2))))))"

definition ErrCannotDetermineByteRangePositions :: cause where
  "ErrCannotDetermineByteRangePositions = NewError ''cannot determine byte range positions''"

definition Metadata_SetRange :: "Processor \<Rightarrow> Range \<Rightarrow> Header \<Rightarrow> (meta_error option \<times> Header) go" where
  "Metadata_SetRange p r h =
     bind_go (Metadata_Size p h) (\<lambda>(sz, err).
       if -1 <s sz then
         (let (start, end') = StartEnd r sz in
          if start <s 0 \<or> end' <s 0 then Inr (Some ErrRangeTooLarge, h)
          else bind_go (setContentRange p (FormatUint (unat start) 10 @ ''-'' @ FormatUint (unat end') 10)
                 (FormatUint (unat sz) 10) h) (\<lambda>h1.
               bind_go (setContentLength p (end' - start + 1) h1) (\<lambda>h2. Inr (err, h2))))
       else if Start r <s 0 \<or> End r <s 0 then
         (if err \<noteq> None then Inr (err, h)
          else bind_go (setContentRange p ''*'' ''*'' h) (\<lambda>h1.
            Inr (Some (MetaHttp (MakeErrRangeNotSatisfiable ErrCannotDetermineByteRangePositions)), h1)))
       else
         bind_go (setContentRange p (FormatUint (unat (Start r)) 10 @ ''-'' @ FormatUint (unat (End r)) 10)
           ''*'' h) (\<lambda>h1.
         bind_go (setContentLength p (End r - Start r + 1) h1) (\<lambda>h2. Inr (err, h2))))"

subsection \<open>The type\<close>

text \<open>
  With several values \<open>err\<close> is set, and then assigned again by the call of \<open>ParseMediaType\<close>.
\<close>

definition Metadata_Type :: "Processor \<Rightarrow> Header \<Rightarrow> (Media_Type option \<times> meta_error option) go" where
  "Metadata_Type p h =
     (let types = GetValues p h ''Content-Type'' in
      if length types = 0 then Inr (None, None)
      else bind_go (ParseMediaType (types ! 0)) (\<lambda>(mt, err). Inr (Some mt, map_option MetaMedia err)))"

definition TypeString :: "Processor \<Rightarrow> Header \<Rightarrow> string \<times> meta_error option" where
  "TypeString p h =
     (let types = GetValues p h ''Content-Type'' in
      if length types = 0 then ('''', None)
      else if length types \<noteq> 1 then (types ! 0, Some ErrMultipleContentTypeHeaders)
      else (types ! 0, None))"

definition SetType :: "Processor \<Rightarrow> Media_Type \<Rightarrow> Header \<Rightarrow> (meta_error option \<times> Header) go" where
  "SetType p mt h =
     (case FormatMediaType mt of
        Inl err \<Rightarrow> Inr (Some (MetaQuoted err), h)
      | Inr str \<Rightarrow> bind_go (Header_Set p ''Content-Type'' str h) (\<lambda>h'. Inr (None, h')))"

definition SetTypeString :: "Processor \<Rightarrow> string \<Rightarrow> Header \<Rightarrow> Header go" where
  "SetTypeString p mt h = Header_Set p ''Content-Type'' mt h"

subsection \<open>Encodings, languages, location, time and entity tag\<close>

definition Encodings :: "Processor \<Rightarrow> Header \<Rightarrow> string list" where
  "Encodings p h = GetValues p h ''Content-Encoding''"

definition SetEncodings :: "Processor \<Rightarrow> string list \<Rightarrow> Header \<Rightarrow> Header go" where
  "SetEncodings p codings h = SetValues p ''Content-Encoding'' codings h"

definition Languages :: "Processor \<Rightarrow> Header \<Rightarrow> string list" where
  "Languages p h = GetValues p h ''Content-Language''"

definition SetLanguages :: "Processor \<Rightarrow> string list \<Rightarrow> Header \<Rightarrow> Header go" where
  "SetLanguages p langs h = SetValues p ''Content-Language'' langs h"

definition Location :: "Processor \<Rightarrow> Header \<Rightarrow> string \<times> meta_error option" where
  "Location p h =
     (case GetValues p h ''Content-Location'' of
        [] \<Rightarrow> ('''', None)
      | [l] \<Rightarrow> (l, None)
      | l # _ \<Rightarrow> (l, Some ErrMultipleContentLocationHeaders))"

definition SetLocation :: "Processor \<Rightarrow> string \<Rightarrow> Header \<Rightarrow> Header go" where
  "SetLocation p location h = Header_Set p ''Content-Location'' location h"

definition MTime :: "(string \<Rightarrow> int option) \<Rightarrow> Processor \<Rightarrow> Header \<Rightarrow> int \<times> meta_error option" where
  "MTime parse_time p h =
     (let mtimes = GetValues p h ''Last-Modified'' in
      if length mtimes = 0 then (0, None)
      else (case parse_time (mtimes ! 0) of
          None \<Rightarrow> (0, Some MetaDate)
        | Some t \<Rightarrow> (t, if length mtimes \<noteq> 1 then Some ErrMultipleLastModifiedHeaders else None)))"

definition SetMTime :: "(int \<Rightarrow> string) \<Rightarrow> Processor \<Rightarrow> int \<Rightarrow> Header \<Rightarrow> Header go" where
  "SetMTime format_time p mtime h = Header_Set p ''Last-Modified'' (format_time mtime) h"

definition Metadata_ETag :: "Processor \<Rightarrow> Header \<Rightarrow> string \<times> bool" where
  "Metadata_ETag p h = (Header_Get p h ''etag'', True)"

definition SetETag :: "Processor \<Rightarrow> string \<Rightarrow> bool \<Rightarrow> Header \<Rightarrow> Header go" where
  "SetETag p etag strong h = Header_Set p ''etag'' etag h"

unbundle bit_operations_syntax

definition WantSize :: MetadataWanted where "WantSize = MetadataHasEffect"
definition WantRange :: MetadataWanted where "WantRange = MetadataHasEffect"
definition WantType :: MetadataWanted where
  "WantType = MetadataHasEffect OR MetadataRecomended OR MetadataNoDefault"
definition WantEncodings :: MetadataWanted where "WantEncodings = MetadataHasEffect OR MetadataRecomended"
definition WantLanguages :: MetadataWanted where "WantLanguages = MetadataHasEffect"
definition WantLocation :: MetadataWanted where "WantLocation = MetadataHasEffect"
definition WantMTime :: MetadataWanted where "WantMTime = MetadataHasEffect"
definition WantETag :: MetadataWanted where "WantETag = MetadataHasEffect"

subsection \<open>Keys and values\<close>

text \<open>The keys the metadata is kept under are different keys of the standard processor.\<close>

lemma metadata_keys [simp]:
  "GetKey standard_processor ''Content-Range'' = ''Content-Range''"
  "GetKey standard_processor ''Content-Length'' = ''Content-Length''"
  "GetKey standard_processor ''Transfer-Encoding'' = ''Transfer-Encoding''"
  by code_simp+

lemma lower_byte_low: "c \<le> CHR ''@'' \<Longrightarrow> lower_byte c = c"
  by (auto simp: lower_byte_def less_eq_char_def)

lemma lower_digits [simp]: "to_lower (format_digits 10 n) = format_digits 10 n"
proof -
  have "map lower_byte (format_digits 10 n) = map id (format_digits 10 n)"
  proof (rule map_cong [OF refl])
    fix c assume "c \<in> set (format_digits 10 n)"
    then have "c \<le> CHR ''9''" using set_format_digits10 by blast
    then show "lower_byte c = id c" by (simp add: lower_byte_low less_eq_char_def)
  qed
  then show ?thesis by (simp add: to_lower_def)
qed

lemma to_lower_append: "to_lower (a @ b) = to_lower a @ to_lower b"
  by (simp add: to_lower_def)

lemma low_symbols: "to_lower ''-'' = ''-''" "to_lower ''*'' = ''*''" "to_lower ''/'' = ''/''"
  by code_simp+

lemma to_lower_dash: "to_lower (CHR ''-'' # s) = CHR ''-'' # to_lower s"
  by (simp add: to_lower_def lower_byte_low less_eq_char_def)

lemma FormatInt_nonneg: "0 \<le> i \<Longrightarrow> FormatInt i 10 = FormatUint (nat i) 10"
  by (simp add: FormatInt_def FormatUint_def)

lemma lower_FormatUint [simp]: "to_lower (FormatUint n 10) = FormatUint n 10"
  by (simp add: FormatUint_def)

lemma FormatUint_not_special:
  "CHR ''/'' \<notin> set (FormatUint n 10)" "CHR ''-'' \<notin> set (FormatUint n 10)" "CHR ''*'' \<notin> set (FormatUint n 10)"
  by (auto simp: FormatUint_def intro!: not_digit_notin_format)

lemma FormatUint_not_star [simp]: "FormatUint n 10 \<noteq> ''*''"
  using FormatUint_not_special(3) [of n] by auto

lemma neg_not_nonneg: "x <s 0 \<longleftrightarrow> \<not> 0 \<le>s (x :: int64)"
  by (simp add: word_sless_alt word_sle_eq not_le)

lemma minus_one_less: "-1 <s x \<longleftrightarrow> 0 \<le>s (x :: int64)"
  by (simp add: word_sless_alt word_sle_eq) linarith

abbreviation values_of :: "Header \<Rightarrow> string \<Rightarrow> string list" where
  "values_of \<equiv> GetValues standard_processor"

lemma setContentRange_split:
  assumes "to_lower r = r" "to_lower sz = sz" "CHR ''/'' \<notin> set r"
  obtains h' where "setContentRange standard_processor r sz h = Inr h'"
    "splitContentRange standard_processor h' = Inr (True, r, sz, None)"
    "values_of h' ''Content-Length'' = values_of h ''Content-Length''"
    "values_of h' ''Transfer-Encoding'' = values_of h ''Transfer-Encoding''"
proof -
  let ?v = "''bytes '' @ r @ ''/'' @ sz"
  have l: "to_lower ?v = ?v"
    using assms(1,2) lower_byte_low by (simp add: to_lower_append) (simp add: to_lower_def lower_byte_def less_eq_char_def)
  obtain h' where h': "SetValues standard_processor ''Content-Range'' [?v] h = Inr h'"
    and g: "\<And>k'. values_of h' k' =
      (if GetKey standard_processor k' = GetKey standard_processor ''Content-Range'' then map to_lower [?v]
       else values_of h k')"
    using standard_store.set_total by blast
  have "index_byte (r @ CHR ''/'' # sz) (CHR ''/'') = Some (length r)" by (rule index_byte_append [OF assms(3)])
  then have "splitContentRange standard_processor h' = Inr (True, r, sz, None)"
    using g [of "''Content-Range''"] l by (simp add: splitContentRange_def Let_def)
  with h' g that show thesis by (simp add: setContentRange_def Header_Set_def)
qed

lemma setContentLength_values:
  assumes "0 \<le>s l"
  obtains h' where "setContentLength standard_processor l h = Inr h'"
    "values_of h' ''Content-Length'' = [FormatUint (unat l) 10]"
    "values_of h' ''Content-Range'' = values_of h ''Content-Range''"
    "values_of h' ''Transfer-Encoding'' =
      (let codes = values_of h ''Transfer-Encoding'' in
       if codes \<noteq> [] \<and> last codes = ''chunked'' then map to_lower (butlast codes) else codes)"
proof -
  let ?v = "FormatUint (unat l) 10" and ?T = "values_of h ''Transfer-Encoding''"
  have v: "FormatInt (sint l) 10 = ?v" using assms by (simp add: sint_unat FormatInt_nonneg)
  obtain h1 where h1: "SetValues standard_processor ''Content-Length'' [?v] h = Inr h1"
    and g1: "\<And>k'. values_of h1 k' =
      (if GetKey standard_processor k' = GetKey standard_processor ''Content-Length'' then map to_lower [?v]
       else values_of h k')"
    using standard_store.set_total by blast
  show thesis
  proof (cases "?T \<noteq> [] \<and> last ?T = ''chunked''")
    case True
    then have c: "length ?T > 0 \<and> ?T ! (length ?T - 1) = ''chunked''" using last_conv_nth [of ?T] by simp
    obtain h2 where h2: "SetValues standard_processor ''Transfer-Encoding'' (take (length ?T - 1) ?T) h1 = Inr h2"
      and g2: "\<And>k'. values_of h2 k' =
        (if GetKey standard_processor k' = GetKey standard_processor ''Transfer-Encoding''
         then map to_lower (take (length ?T - 1) ?T) else values_of h1 k')"
      using standard_store.set_total by blast
    have "setContentLength standard_processor l h = Inr h2"
      using h1 h2 c v g1 [of "''Transfer-Encoding''"]
      by (simp add: setContentLength_def Header_Set_def Let_def)
    with that [of h2] True g1 g2 show thesis by (simp add: butlast_conv_take Let_def)
  next
    case False
    then have c: "\<not> (length ?T > 0 \<and> ?T ! (length ?T - 1) = ''chunked'')" by (auto simp: last_conv_nth)
    have "setContentLength standard_processor l h = Inr h1"
      using h1 c v g1 [of "''Transfer-Encoding''"] by (auto simp: setContentLength_def Header_Set_def Let_def)
    with that [of h1] False g1 show thesis by (auto simp: Let_def)
  qed
qed

lemma SetValues_standard:
  "SetValues standard_processor k vs h = Inr (SetValuesRaw (GetKey standard_processor k) (map to_lower vs) h)"
  by (simp add: SetValues_def Let_def Processor_RLock_def Processor_RUnlock_def)

lemma split_none:
  "values_of h ''Content-Range'' = [] \<Longrightarrow> splitContentRange standard_processor h = Inr (False, [], [], None)"
  by (simp add: splitContentRange_def)

subsection \<open>Properties\<close>

text \<open>
  The size of a body without a Content-Range, on the standard processor. A size from 0 on is read
  back, and a chunked encoding at the end of the Transfer-Encoding is taken away. With the size -1
  (not known) the message ends up chunked and its size is not known; the one case in which this
  fails is a Transfer-Encoding that was set to no values, where adding one panics.
\<close>

theorem SetSize_Size:
  assumes cr: "GetValues standard_processor h ''Content-Range'' = []" and sz: "-1 \<le>s sz"
  shows "if sz = -1 \<and> Values h ''Transfer-Encoding'' = Some [] then
      Metadata_SetSize standard_processor sz h = Inl IndexOutOfRange
    else \<exists>h'. Metadata_SetSize standard_processor sz h = Inr (None, h')
      \<and> Metadata_Size standard_processor h' = Inr (sz, None)
      \<and> (let codes = GetValues standard_processor h ''Transfer-Encoding'';
             codes' = GetValues standard_processor h' ''Transfer-Encoding''
         in if sz = -1 then codes' \<noteq> [] \<and> last codes' = ''chunked''
            else if codes \<noteq> [] \<and> last codes = ''chunked'' then codes' = map to_lower (butlast codes)
            else codes' = codes)"
proof (cases "sz = -1")
  case True
  let ?h1 = "Header_Del standard_processor ''Content-Length'' h"
  let ?T = "values_of h ''Transfer-Encoding''"
  have neg: "(-1 :: int64) <s 0" by (simp add: word_sless_alt)
  have v1: "Values ?h1 ''Transfer-Encoding'' = Values h ''Transfer-Encoding''"
    by (simp add: Header_Del_def DelRawKey_def)
  have g1: "values_of ?h1 ''Transfer-Encoding'' = ?T" "values_of ?h1 ''Content-Range'' = []"
    "values_of ?h1 ''Content-Length'' = []"
    using cr by (simp_all add: standard_store.get_del)
  have T: "?T = (case Values h ''Transfer-Encoding'' of None \<Rightarrow> [] | Some vs \<Rightarrow> vs)"
    by (simp add: GetValues_def GetValuesRawKey_def split: option.split)
  show ?thesis
  proof (cases "?T \<noteq> [] \<and> last ?T = ''chunked''")
    case chunked: True
    then have "length ?T > 0 \<and> ?T ! (length ?T - 1) = ''chunked''" using last_conv_nth [of ?T] by simp
    then have "removeContentLength standard_processor h = Inr ?h1"
      using g1 by (simp add: removeContentLength_def Let_def)
    with chunked True cr g1 T neg show ?thesis
      by (auto simp: Metadata_SetSize_def split_none Metadata_Size_def Let_def)
  next
    case False
    then have "\<not> (length ?T > 0 \<and> ?T ! (length ?T - 1) = ''chunked'')" by (auto simp: last_conv_nth)
    then have r: "removeContentLength standard_processor h
        = Header_Add standard_processor ''Transfer-Encoding'' ''chunked'' ?h1"
      using g1 by (auto simp: removeContentLength_def Let_def)
    show ?thesis
    proof (cases "Values h ''Transfer-Encoding'' = Some []")
      case empty: True
      with True cr r neg v1 show ?thesis
        by (simp add: Metadata_SetSize_def split_none Header_Add_cases)
    next
      case ok: False
      obtain vs where a: "Header_Add standard_processor ''Transfer-Encoding'' ''chunked'' ?h1
          = Inr (SetValuesRaw ''Transfer-Encoding'' (vs @ [''chunked'']) ?h1)"
        using Header_Add_snoc [of ?h1 "''Transfer-Encoding''" "''chunked''"] ok v1
        by (auto simp: to_lower_def lower_byte_def less_eq_char_def)
      let ?h2 = "SetValuesRaw ''Transfer-Encoding'' (vs @ [''chunked'']) ?h1"
      have "values_of ?h2 ''Transfer-Encoding'' = vs @ [''chunked'']"
        "values_of ?h2 ''Content-Range'' = []" "values_of ?h2 ''Content-Length'' = []"
        using g1 by (simp_all add: GetValues_def GetValuesRawKey_def SetValuesRaw_def)
      with True cr r neg ok a show ?thesis
        by (auto simp: Metadata_SetSize_def split_none Metadata_Size_def Let_def)
    qed
  qed
next
  case False
  then have nn: "0 \<le>s sz" using sz sint64_eq_iff [of sz "-1"] by (simp add: word_sle_eq)
  obtain h' where h': "setContentLength standard_processor sz h = Inr h'"
    "values_of h' ''Content-Length'' = [FormatUint (unat sz) 10]"
    "values_of h' ''Content-Range'' = values_of h ''Content-Range''"
    "values_of h' ''Transfer-Encoding'' =
      (let codes = values_of h ''Transfer-Encoding'' in
       if codes \<noteq> [] \<and> last codes = ''chunked'' then map to_lower (butlast codes) else codes)"
    using setContentLength_values [OF nn] by blast
  have "Metadata_Size standard_processor h' = Inr (sz, None)"
    using h' cr Parse_nonneg [OF nn] by (simp add: Metadata_Size_def split_none Let_def)
  with False h' cr nn show ?thesis
    by (auto simp: Metadata_SetSize_def split_none neg_not_nonneg Let_def)
qed

theorem SetSize_Size_witness:
  "\<exists>h'. Metadata_SetSize standard_processor 5 New_Header = Inr (None, h')
    \<and> Metadata_Size standard_processor h' = Inr (5, None)"
proof -
  have "GetValues standard_processor New_Header ''Content-Range'' = []"
    by (simp add: GetValues_def GetValuesRawKey_def New_Header_def)
  moreover have "-1 \<le>s (5 :: int64)" by code_simp
  ultimately show ?thesis using SetSize_Size [of New_Header 5] by auto
qed

text \<open>
  C35: a range that is set is read back. When the size of the whole resource is known, \<open>Range\<close> gives
  the absolute positions of the range that was set, the size of the whole is still the same, and the
  Content-Length is the length of the part; when it is not known, an absolute range is read back
  as it is and the size stays unknown.
\<close>

theorem SetRange_Range:
  assumes "Metadata_Size standard_processor h = Inr (sz, None)" "-1 \<le>s sz"
    and pos: "if sz = -1 then q = r else q = (case StartEnd r sz of (a, b) \<Rightarrow> \<lparr>Start = a, End = b\<rparr>)"
    and nn: "0 \<le>s Start q" "0 \<le>s End q" "0 \<le>s End q - Start q + 1"
  shows "\<exists>h'. Metadata_SetRange standard_processor r h = Inr (None, h')
    \<and> Metadata_Range standard_processor h' = Inr (q, None)
    \<and> Metadata_Size standard_processor h' = Inr (sz, None)
    \<and> GetValues standard_processor h' ''Content-Length'' = [FormatUint (unat (End q - Start q + 1)) 10]"
proof -
  let ?r = "FormatUint (unat (Start q)) 10 @ ''-'' @ FormatUint (unat (End q)) 10"
  let ?sz = "if sz = -1 then ''*'' else FormatUint (unat sz) 10"
  have low: "to_lower ?r = ?r" "to_lower ?sz = ?sz" "CHR ''/'' \<notin> set ?r"
    using FormatUint_not_special(1) by (simp_all add: to_lower_append to_lower_dash low_symbols(2))
  obtain h1 where h1: "setContentRange standard_processor ?r ?sz h = Inr h1"
    "splitContentRange standard_processor h1 = Inr (True, ?r, ?sz, None)"
    using setContentRange_split [OF low] by metis
  obtain h2 where h2: "setContentLength standard_processor (End q - Start q + 1) h1 = Inr h2"
    "values_of h2 ''Content-Length'' = [FormatUint (unat (End q - Start q + 1)) 10]"
    "values_of h2 ''Content-Range'' = values_of h1 ''Content-Range''"
    using setContentLength_values [OF nn(3)] by metis
  have sp: "splitContentRange standard_processor h2 = Inr (True, ?r, ?sz, None)"
    using h1(2) h2(3) by (simp add: splitContentRange_def)
  have nsz: "0 \<le>s sz" if "sz \<noteq> -1"
    using that assms(2) sint64_eq_iff [of sz "-1"] by (simp add: word_sle_eq)
  have "Metadata_SetRange standard_processor r h = Inr (None, h2)"
  proof (cases "sz = -1")
    case True
    with assms(1) pos nn(1,2) h1(1) h2(1) show ?thesis
      by (simp add: Metadata_SetRange_def neg_not_nonneg)
  next
    case False
    obtain a b where ab: "StartEnd r sz = (a, b)" by fastforce
    with False assms(1) pos nn(1,2) h1(1) h2(1) nsz show ?thesis
      by (simp add: Metadata_SetRange_def minus_one_less neg_not_nonneg)
  qed
  moreover have star: "?r \<noteq> ''*''" by (cases "FormatUint (unat (Start q)) 10") auto
  moreover have "Metadata_Range standard_processor h2 = Inr (q, None)"
    using sp star index_byte_append [OF FormatUint_not_special(2), of "unat (Start q)" "FormatUint (unat (End q)) 10"]
      Parse_nonneg [OF nn(1)] Parse_nonneg [OF nn(2)]
    by (simp add: Metadata_Range_def)
  moreover have "Metadata_Size standard_processor h2 = Inr (sz, None)"
  proof (cases "sz = -1")
    case True
    with sp star show ?thesis by (simp add: Metadata_Size_def)
  next
    case False
    with sp Parse_nonneg [OF nsz] show ?thesis by (simp add: Metadata_Size_def)
  qed
  ultimately show ?thesis using h2(2) by blast
qed

theorem SetRange_Range_witness:
  "\<exists>h'. Metadata_SetRange standard_processor \<lparr>Start = 2, End = 5\<rparr> New_Header = Inr (None, h')
    \<and> Metadata_Range standard_processor h' = Inr (\<lparr>Start = 2, End = 5\<rparr>, None)
    \<and> GetValues standard_processor h' ''Content-Length'' = [''4'']"
proof -
  have "Metadata_Size standard_processor New_Header = Inr (-1, None)"
    by (simp add: Metadata_Size_def splitContentRange_def GetValues_def GetValuesRawKey_def New_Header_def Let_def)
  moreover have "0 \<le>s (2 :: int64)" "0 \<le>s (5 :: int64)" "0 \<le>s (5 :: int64) - 2 + 1" "-1 \<le>s (-1 :: int64)"
    "FormatUint (unat ((5 :: int64) - 2 + 1)) 10 = ''4''" by code_simp+
  ultimately show ?thesis
    using SetRange_Range [of New_Header "-1" "\<lparr>Start = 2, End = 5\<rparr>" "\<lparr>Start = 2, End = 5\<rparr>"] by simp blast
qed

text \<open>
  Turning the size off, on and off again panics: the second setting leaves a Transfer-Encoding with
  no values, and adding to it is the panic of \<open>Add\<close>.
\<close>

theorem SetSize_toggle_panics:
  assumes "Values h ''Transfer-Encoding'' = None" "Values h ''Content-Range'' = None" "0 \<le>s n"
  shows "\<exists>h1 h2. Metadata_SetSize standard_processor (-1) h = Inr (None, h1)
    \<and> Metadata_SetSize standard_processor n h1 = Inr (None, h2)
    \<and> Metadata_SetSize standard_processor (-1) h2 = Inl IndexOutOfRange"
proof -
  have neg: "(-1 :: int64) <s 0" "\<not> n <s 0" using assms(3) by (simp_all add: word_sless_alt word_sle_eq)
  let ?h1 = "SetValuesRaw ''Transfer-Encoding'' [''chunked''] (Header_Del standard_processor ''Content-Length'' h)"
  let ?h2 = "SetValuesRaw ''Transfer-Encoding'' []
      (SetValuesRaw ''Content-Length'' [to_lower (FormatInt (sint n) 10)] ?h1)"
  have c: "to_lower ''chunked'' = ''chunked''" by code_simp
  have 1: "Metadata_SetSize standard_processor (-1) h = Inr (None, ?h1)"
    using assms neg c by (simp add: Metadata_SetSize_def splitContentRange_def removeContentLength_def
        GetValues_def GetValuesRawKey_def Header_Del_def DelRawKey_def Header_Add_cases Let_def)
  have 2: "Metadata_SetSize standard_processor n ?h1 = Inr (None, ?h2)"
    using assms neg by (simp add: Metadata_SetSize_def splitContentRange_def setContentLength_def SetValues_standard
        GetValues_def GetValuesRawKey_def Header_Del_def DelRawKey_def Header_Set_def Let_def SetValuesRaw_def)
  have 3: "Metadata_SetSize standard_processor (-1) ?h2 = Inl IndexOutOfRange"
    using assms neg by (simp add: Metadata_SetSize_def splitContentRange_def removeContentLength_def
        GetValues_def GetValuesRawKey_def Header_Del_def DelRawKey_def Header_Add_cases Let_def SetValuesRaw_def)
  from 1 2 3 show ?thesis by blast
qed

theorem SetSize_toggle_panics_witness:
  "\<exists>h1 h2. Metadata_SetSize standard_processor (-1) New_Header = Inr (None, h1)
    \<and> Metadata_SetSize standard_processor 7 h1 = Inr (None, h2)
    \<and> Metadata_SetSize standard_processor (-1) h2 = Inl IndexOutOfRange"
  using SetSize_toggle_panics [of New_Header 7] by (simp add: New_Header_def word_sle_eq)

end
