(* ===== verification/Body_Reader.thy ===== *)
theory Body_Reader
  imports Bufio Encoding_List Metadata
begin

section \<open>Reading a body: \<open>http/http1/bodyReader.go\<close>\<close>

text \<open>
  A \<open>BodyReader\<close> decides from the headers how the body of a message ends and gives the reader for
  it: none, the transfer encodings of the message, so many bytes, or whatever the connection still
  delivers. The readers of Go are the constructors of \<open>body_source\<close>; the state they share (the
  buffered connection, the count of the limited reader) is in the state record, so that every
  holder of a reader sees the same bytes go. Readers of encodings are parameters: \<open>dec d\<close> reads
  through the decoder \<open>d\<close> when it is given the reads of the layer below.

  A read that asks for \<open>n\<close> bytes may get fewer from a connection. For the readers of this theory it
  is then the same as a read that asks for fewer, so the properties quantify over all sequences
  of sizes.
\<close>

subsection \<open>Readers\<close>

datatype body_error = BodyIO io_error | BodyHttp http_error | EncodingError string
  | ErrNoBody | ErrBodyLengthExceded | ErrClosedPipe | ErrShortWrite | HeadFailed body_error
  | ErrBodyAlreadyStarted

text \<open>
  \<open>NilPipe\<close> is the nil \<open>*ReaderPipe\<close> that \<open>pipe.From\<close> returns with an error. Stored in an interface
  it is not equal to nil.
\<close>

datatype 'd body_source = RawSource | EOFSource | LimitedSource
  | PipeSource "'d body_source list" | NilPipe | DecodedSource 'd "'d body_source"

record 'd body_in =
  in_stream :: bufio
  in_left :: int64
  br_header :: Header
  br_req :: "string option"
  br_hasBody :: bool
  br_reader :: "'d body_source option"
  br_length :: int64

type_synonym 'st read_result = "((string \<times> body_error option) \<times> 'st) go"

definition NewBodyReader :: "bufio \<Rightarrow> Header \<Rightarrow> string option \<Rightarrow> bool \<Rightarrow> 'd body_in" where
  "NewBodyReader rawReader h req hasBody =
     \<lparr>in_stream = rawReader, in_left = 0, br_header = h, br_req = req, br_hasBody = hasBody,
      br_reader = None, br_length = -2\<rparr>"

definition raw_Read :: "nat \<Rightarrow> ('d, 'x) body_in_scheme \<Rightarrow> ('d, 'x) body_in_scheme read_result" where
  "raw_Read n st =
     (let ((s, e), b) = bufio_Read n (in_stream st) in Inr ((s, map_option BodyIO e), st\<lparr>in_stream := b\<rparr>))"

text \<open>\<open>io.LimitReader\<close> of the standard library: what is left bounds the read.\<close>

definition limited_Read :: "nat \<Rightarrow> ('d, 'x) body_in_scheme \<Rightarrow> ('d, 'x) body_in_scheme read_result" where
  "limited_Read n st =
     (if in_left st \<le>s 0 then Inr (([], Some (BodyIO EOF)), st)
      else bind_go (raw_Read (min n (unat (in_left st))) st) (\<lambda>((s, e), st').
        Inr ((s, e), st'\<lparr>in_left := in_left st' - of_nat (length s)\<rparr>)))"

fun source_Read ::
  "('d \<Rightarrow> (nat \<Rightarrow> ('d, 'x) body_in_scheme \<Rightarrow> ('d, 'x) body_in_scheme read_result)
      \<Rightarrow> nat \<Rightarrow> ('d, 'x) body_in_scheme \<Rightarrow> ('d, 'x) body_in_scheme read_result)
   \<Rightarrow> 'd body_source \<Rightarrow> nat \<Rightarrow> ('d, 'x) body_in_scheme \<Rightarrow> ('d, 'x) body_in_scheme read_result" where
  "source_Read dec RawSource n st = raw_Read n st"
| "source_Read dec EOFSource n st = Inr (([], Some (BodyIO EOF)), st)"
| "source_Read dec LimitedSource n st = limited_Read n st"
| "source_Read dec (PipeSource []) n st = Inl IndexOutOfRange"
| "source_Read dec (PipeSource (r # rs)) n st = source_Read dec r n st"
| "source_Read dec NilPipe n st = Inl NilDereference"
| "source_Read dec (DecodedSource d r) n st = dec d (source_Read dec r) n st"

text \<open>
  \<open>Close\<close>: the raw and the limited reader close the connection (\<open>close_stream\<close>), a decoder closes
  nothing below it (\<open>close_dec\<close> is its own). A pipe closes its layers in turn until one fails.
\<close>

lemma ReaderPipe_Close_cong [fundef_cong]:
  assumes "rs = rs'" "s = s'" "\<And>r s. r \<in> set rs' \<Longrightarrow> close r s = close' r s"
  shows "ReaderPipe_Close close rs s = ReaderPipe_Close close' rs' s'"
proof -
  have "(\<forall>r \<in> set rs'. \<forall>s. close r s = close' r s) \<Longrightarrow> ReaderPipe_Close close rs' s = ReaderPipe_Close close' rs' s" for s
    by (induction rs' arbitrary: s) (auto split: prod.splits)
  with assms show ?thesis by blast
qed

fun source_Close ::
  "('st \<Rightarrow> (body_error option \<times> 'st)) \<Rightarrow> ('d \<Rightarrow> 'st \<Rightarrow> (body_error option \<times> 'st)) \<Rightarrow> 'd body_source
     \<Rightarrow> 'st go \<Rightarrow> body_error option \<times> 'st go" where
  "source_Close close_stream close_dec r (Inl p) = (None, Inl p)"
| "source_Close close_stream close_dec RawSource (Inr st) = apsnd Inr (close_stream st)"
| "source_Close close_stream close_dec EOFSource (Inr st) = (None, Inr st)"
| "source_Close close_stream close_dec LimitedSource (Inr st) = apsnd Inr (close_stream st)"
| "source_Close close_stream close_dec NilPipe (Inr st) = (None, Inl NilDereference)"
| "source_Close close_stream close_dec (DecodedSource d r) (Inr st) = apsnd Inr (close_dec d st)"
| "source_Close close_stream close_dec (PipeSource rs) (Inr st) =
     ReaderPipe_Close (\<lambda>r. source_Close close_stream close_dec r) rs (Inr st)"

subsection \<open>\<open>BodyReader\<close>\<close>

definition pipe_source :: "('d body_source, body_error) ReaderPipeGenerator list \<Rightarrow>
    (body_error option \<times> 'd body_source) go" where
  "pipe_source pipes =
     bind_go (From RawSource [pipes]) (\<lambda>res. case res of
       Inl err \<Rightarrow> Inr (Some err, NilPipe)
     | Inr readers \<Rightarrow> Inr (None, PipeSource readers))"

definition getBody ::
  "Processor \<Rightarrow> ('d body_source, 'w, body_error) List \<Rightarrow> ('d, 'x) body_in_scheme
     \<Rightarrow> (body_error option \<times> ('d, 'x) body_in_scheme) go" where
  "getBody p TransferEncodings r =
     (if \<not> br_hasBody r \<or> br_req r = Some ''HEAD'' then
        Inr (None, r\<lparr>br_length := 0, br_reader := Some EOFSource\<rparr>)
      else
        (let codes = GetValues p (br_header r) ''Transfer-Encoding'';
             lengths = GetValues p (br_header r) ''Content-Length''
         in if length codes \<ge> 1 then
              (if length lengths \<noteq> 0 then Inr (Some (BodyHttp ErrContentLengthAndTransferEncoding), r)
               else if list_ex (\<lambda>c. c = ''chunked'') (take (length codes - 1) codes) then
                 Inr (Some (BodyHttp ErrMustChunkLast), r)
               else (case GetReaderPipeGenerators TransferEncodings codes of
                   None \<Rightarrow> Inr (Some (BodyHttp ErrUnsupportedTransferEncoding), r)
                 | Some pipes \<Rightarrow>
                     bind_go (pipe_source pipes) (\<lambda>(err, reader).
                       let r1 = r\<lparr>br_reader := Some reader\<rparr> in
                       if err \<noteq> None then Inr (err, r1) else Inr (None, r1\<lparr>br_length := -1\<rparr>))))
            else if length lengths = 1 then
              (let (n, err) = ParseUint (lengths ! 0) 10 63 in
               case err of
                 Some e \<Rightarrow> Inr (Some (BodyHttp (MakeErrMalformedContentLength (NumError e))), r)
               | None \<Rightarrow> Inr (None, r\<lparr>br_length := of_nat n, in_left := of_nat n, br_reader := Some LimitedSource\<rparr>))
            else if length lengths > 1 then Inr (Some (BodyHttp ErrTooManyContentLength), r)
            else Inr (None, r\<lparr>br_reader := Some RawSource, br_length := -1\<rparr>)))"

definition reader_BodyLength ::
  "Processor \<Rightarrow> ('d body_source, 'w, body_error) List \<Rightarrow> ('d, 'x) body_in_scheme
     \<Rightarrow> ((int64 \<times> body_error option) \<times> ('d, 'x) body_in_scheme) go" where
  "reader_BodyLength p tes r =
     bind_go (if br_reader r = None then getBody p tes r else Inr (None, r))
       (\<lambda>(err, r'). Inr ((br_length r', err), r'))"

definition reader_Body ::
  "Processor \<Rightarrow> ('d body_source, 'w, body_error) List \<Rightarrow> ('d, 'x) body_in_scheme
     \<Rightarrow> (('d body_source option \<times> body_error option) \<times> ('d, 'x) body_in_scheme) go" where
  "reader_Body p tes r =
     bind_go (if br_reader r = None then getBody p tes r else Inr (None, r))
       (\<lambda>(err, r'). Inr ((br_reader r', err), r'))"

subsection \<open>Reading until the end\<close>

text \<open>Reads of the given sizes, one after the other, up to the first error.\<close>

fun read_sizes :: "(nat \<Rightarrow> 'st \<Rightarrow> 'st read_result) \<Rightarrow> nat list \<Rightarrow> 'st \<Rightarrow> ((string \<times> body_error option) \<times> 'st) go" where
  "read_sizes rd [] st = Inr (([], None), st)"
| "read_sizes rd (n # ns) st =
     bind_go (rd n st) (\<lambda>((s, e), st'). case e of
       Some err \<Rightarrow> Inr ((s, Some err), st')
     | None \<Rightarrow> bind_go (read_sizes rd ns st') (\<lambda>((s', e'), st''). Inr ((s @ s', e'), st'')))"

lemma unat_of_nat64: "n < 2 ^ 63 \<Longrightarrow> unat (of_nat n :: int64) = n"
  by (simp add: unat_of_nat take_bit_nat_eq_self)

lemma sint_of_nat64: "n < 2 ^ 63 \<Longrightarrow> sint (of_nat n :: int64) = int n"
  using sint64_of_int [of "int n"] by simp

text \<open>
  The limited reader over \<open>body\<close> and a rest: the reads deliver the bytes in order, then the end
  of the body, and never touch the rest.
\<close>

lemma limited_Read_end:
  "limited_Read n (st\<lparr>in_left := 0\<rparr>) = Inr (([], Some (BodyIO EOF)), st\<lparr>in_left := 0\<rparr>)"
  by (simp add: limited_Read_def)

lemma limited_Read_more:
  assumes "length body < 2 ^ 63" "body \<noteq> []" "0 < n"
  shows "limited_Read n (st\<lparr>in_stream := r\<lparr>pending := body @ rest\<rparr>, in_left := of_nat (length body)\<rparr>)
    = Inr ((take n body, None),
        st\<lparr>in_stream := r\<lparr>pending := drop n body @ rest\<rparr>, in_left := of_nat (length (drop n body))\<rparr>)"
proof -
  have l: "\<not> (of_nat (length body) :: int64) \<le>s 0" "unat (of_nat (length body) :: int64) = length body"
    using assms(1,2) sint_of_nat64 [OF assms(1)] by (simp_all add: word_sle_eq unat_of_nat64)
  have m: "(of_nat (length body) - of_nat (length (take n body)) :: int64) = of_nat (length (drop n body))"
    by (cases "n \<le> length body") (simp_all add: of_nat_diff min_def)
  have "take (min n (length body)) (body @ rest) = take n body" "drop (min n (length body)) (body @ rest) = drop n body @ rest"
    by (auto simp: min_def)
  with assms l m show ?thesis
    by (simp add: limited_Read_def raw_Read_def bufio_Read_def)
qed

lemma limited_reads:
  assumes "length body < 2 ^ 63" "0 \<notin> set ns"
  shows "read_sizes (source_Read dec LimitedSource) ns
        (st\<lparr>in_stream := r\<lparr>pending := body @ rest\<rparr>, in_left := of_nat (length body)\<rparr>)
      = Inr ((take (sum_list ns) body, if ns \<noteq> [] \<and> length body \<le> sum_list (butlast ns) then Some (BodyIO EOF) else None),
          st\<lparr>in_stream := r\<lparr>pending := drop (sum_list ns) body @ rest\<rparr>, in_left := of_nat (length (drop (sum_list ns) body))\<rparr>)"
  using assms
proof (induction ns arbitrary: body)
  case (Cons n ns)
  show ?case
  proof (cases "body = []")
    case True
    then show ?thesis using limited_Read_end [of n "st\<lparr>in_stream := r\<lparr>pending := rest\<rparr>\<rparr>"] by simp
  next
    case False
    have d: "length (drop n body) < 2 ^ 63" "0 \<notin> set ns" "0 < n" using Cons.prems by auto
    have e: "ns \<noteq> [] \<and> length (drop n body) \<le> sum_list (butlast ns) \<longleftrightarrow> length body \<le> sum_list (butlast (n # ns))"
      using False by auto
    have t: "take n body @ take (sum_list ns) (drop n body) = take (n + sum_list ns) body"
      "drop (sum_list ns) (drop n body) = drop (n + sum_list ns) body"
      by (simp_all add: take_add add.commute)
    show ?thesis
      using Cons.IH [OF d(1,2)] limited_Read_more [OF Cons.prems(1) False d(3), where st = st and r = r and rest = rest] e
      by (simp add: t del: butlast.simps drop_drop length_drop)
  qed
qed simp

subsection \<open>Properties\<close>

abbreviation transfer_codes :: "('d, 'x) body_in_scheme \<Rightarrow> string list" where
  "transfer_codes r \<equiv> GetValues standard_processor (br_header r) ''Transfer-Encoding''"

abbreviation length_values :: "('d, 'x) body_in_scheme \<Rightarrow> string list" where
  "length_values r \<equiv> GetValues standard_processor (br_header r) ''Content-Length''"

text \<open>
  C25: a body with a Content-Length: \<open>Body\<close> gives a reader without error and \<open>BodyLength\<close> the length;
  for every sequence of read sizes the reader delivers the first bytes of the body, then the end
  of the body, and the request that follows on the connection is left where it is.
\<close>

theorem sized_body_exact:
  assumes "br_reader st = None" "br_hasBody st" "br_req st \<noteq> Some ''HEAD''"
    and "transfer_codes st = []" "length_values st = [FormatUint (length body) 10]"
    and "length body < 2 ^ 63" "pending (in_stream st) = body @ rest" "0 \<notin> set ns"
  shows "\<exists>src st1 st2 e. reader_Body standard_processor tes st = Inr ((Some src, None), st1)
    \<and> reader_BodyLength standard_processor tes st1 = Inr ((of_nat (length body), None), st1)
    \<and> read_sizes (source_Read dec src) ns st1 = Inr ((take (sum_list ns) body, e), st2)
    \<and> (e = Some (BodyIO EOF) \<longleftrightarrow> ns \<noteq> [] \<and> length body \<le> sum_list (butlast ns))
    \<and> pending (in_stream st2) = drop (sum_list ns) body @ rest"
proof -
  let ?n = "of_nat (length body) :: int64"
  let ?st1 = "st\<lparr>br_length := ?n, in_left := ?n, br_reader := Some LimitedSource\<rparr>"
  have "getBody standard_processor tes st = Inr (None, ?st1)"
    using assms(2-5) ParseUint_FormatUint [of 10 "length body" 63] assms(6) by (simp add: getBody_def)
  then have "reader_Body standard_processor tes st = Inr ((Some LimitedSource, None), ?st1)"
    using assms(1) by (simp add: reader_Body_def)
  moreover have "?st1 = (?st1\<lparr>in_stream := (in_stream st)\<lparr>pending := body @ rest\<rparr>, in_left := ?n\<rparr>)"
    using assms(7) [symmetric] by simp
  moreover note limited_reads [OF assms(6,8), where dec = dec and st = "?st1" and r = "in_stream st" and rest = rest]
  ultimately show ?thesis by (auto simp: reader_BodyLength_def)
qed

theorem sized_body_exact_witness:
  "\<exists>src st1 st2. reader_Body standard_processor [] (NewBodyReader \<lparr>pending = ''abcGET'', end_error = EOF\<rparr>
        (SetValuesRaw ''Content-Length'' [''3''] New_Header) (Some ''PUT'') True :: unit body_in)
      = Inr ((Some src, None), st1)
    \<and> read_sizes (source_Read (\<lambda>_ rd. rd) src) [2, 2, 1] st1 = Inr ((''abc'', Some (BodyIO EOF)), st2)
    \<and> pending (in_stream st2) = ''GET''"
proof -
  let ?st = "NewBodyReader \<lparr>pending = ''abcGET'', end_error = EOF\<rparr>
    (SetValuesRaw ''Content-Length'' [''3''] New_Header) (Some ''PUT'') True :: unit body_in"
  have k: "GetKey standard_processor ''Transfer-Encoding'' = ''Transfer-Encoding''"
    "GetKey standard_processor ''Content-Length'' = ''Content-Length''" by code_simp+
  have f: "FormatUint (length ''abc'') 10 = ''3''" by code_simp
  have "transfer_codes ?st = []" "length_values ?st = [FormatUint (length ''abc'') 10]"
    unfolding f by (simp_all add: NewBodyReader_def GetValues_def GetValuesRawKey_def SetValuesRaw_def New_Header_def k)
  from sized_body_exact [OF _ _ _ this, of "''GET''" "[2, 2, 1]" "[]" "\<lambda>_ rd. rd"]
  show ?thesis by (fastforce simp: NewBodyReader_def)
qed

text \<open>
  When an encoding cannot start (here gzip, on data that is no gzip stream), the first \<open>Body\<close> reports
  the error, but every later one returns without an error a reader whose \<open>Read\<close> panics.
\<close>

theorem failed_encoding_forgotten:
  assumes "br_reader st = None" "br_hasBody st" "br_req st \<noteq> Some ''HEAD''"
    and "transfer_codes st = [''gzip'']" "length_values st = []" "gzip_NewReader RawSource = Inl err"
  shows "\<exists>src st1. reader_Body standard_processor (HTTPTransferEncodings zr zw gzip_NewReader gw ch) st
        = Inr ((Some src, Some err), st1)
    \<and> reader_Body standard_processor (HTTPTransferEncodings zr zw gzip_NewReader gw ch) st1
        = Inr ((Some src, None), st1)
    \<and> source_Read dec src n st1 = Inl NilDereference"
proof -
  let ?l = "HTTPTransferEncodings zr zw gzip_NewReader gw ch"
  let ?st1 = "st\<lparr>br_reader := Some NilPipe\<rparr>"
  have d: "descending ?l" by (rule HTTPTransferEncodings_descending)
  have g: "Get ?l ''gzip'' = Some (GzipEncoding gzip_NewReader gw)"
    by (rule Get_member [OF d]) (simp_all add: set_HTTPTransferEncodings predefined)
  have t: "to_lower ''gzip'' = ''gzip''" by code_simp
  have "GetReaderPipeGenerators ?l [''gzip''] = Some [Reader (GzipEncoding gzip_NewReader gw)]"
    using g t by (auto simp: GetReaderPipeGenerators_def Get_def split: prod.splits if_splits)
  moreover have "pipe_source [Reader (GzipEncoding gzip_NewReader gw)] = Inr (Some err, NilPipe)"
    using assms(6) by (simp add: pipe_source_def From_def GzipEncoding_def mk_generator_def)
  ultimately have "getBody standard_processor ?l st = Inr (Some err, ?st1)"
    using assms(2-5) by (simp add: getBody_def)
  then have "reader_Body standard_processor ?l st = Inr ((Some NilPipe, Some err), ?st1)"
    using assms(1) by (simp add: reader_Body_def)
  moreover have "reader_Body standard_processor ?l ?st1 = Inr ((Some NilPipe, None), ?st1)"
    by (simp add: reader_Body_def)
  moreover have "source_Read dec NilPipe n ?st1 = Inl NilDereference" by simp
  ultimately show ?thesis by blast
qed

theorem failed_encoding_forgotten_witness:
  "\<exists>src st1. reader_Body standard_processor (HTTPTransferEncodings Inr id (\<lambda>_. Inl (EncodingError ''gzip'')) id Inr)
        (NewBodyReader \<lparr>pending = ''abc'', end_error = EOF\<rparr>
          (SetValuesRaw ''Transfer-Encoding'' [''gzip''] New_Header) None True :: unit body_in)
      = Inr ((Some src, Some (EncodingError ''gzip'')), st1)
    \<and> source_Read (\<lambda>_ rd. rd) src 1 st1 = Inl NilDereference"
proof -
  let ?st = "NewBodyReader \<lparr>pending = ''abc'', end_error = EOF\<rparr>
    (SetValuesRaw ''Transfer-Encoding'' [''gzip''] New_Header) None True :: unit body_in"
  have k: "GetKey standard_processor ''Transfer-Encoding'' = ''Transfer-Encoding''"
    "GetKey standard_processor ''Content-Length'' = ''Content-Length''" by code_simp+
  have c: "transfer_codes ?st = [''gzip'']" "length_values ?st = []"
    by (simp_all add: NewBodyReader_def GetValues_def GetValuesRawKey_def SetValuesRaw_def New_Header_def k)
  show ?thesis
    using failed_encoding_forgotten [OF _ _ _ c, where gzip_NewReader = "\<lambda>_. Inl (EncodingError ''gzip'')"
        and err = "EncodingError ''gzip''" and zr = Inr and zw = id and gw = id and ch = Inr and dec = "\<lambda>_ rd. rd" and n = 1]
    by (fastforce simp: NewBodyReader_def)
qed

text \<open>
  A request without a Content-Length and a Transfer-Encoding, such as most GET requests, has no
  body. Its reader here is the connection itself, so reading the body takes the bytes of the next
  request.
\<close>

theorem unframed_body_takes_next_request:
  assumes "br_reader st = None" "br_hasBody st" "br_req st \<noteq> Some ''HEAD''"
    and "transfer_codes st = []" "length_values st = []" "pending (in_stream st) \<noteq> []" "0 < n"
  shows "\<exists>src st1. reader_Body standard_processor tes st = Inr ((Some src, None), st1)
    \<and> source_Read dec src n st1
        = Inr ((take n (pending (in_stream st)), None),
            st1\<lparr>in_stream := (in_stream st)\<lparr>pending := drop n (pending (in_stream st))\<rparr>\<rparr>)"
proof -
  have "reader_Body standard_processor tes st
      = Inr ((Some RawSource, None), st\<lparr>br_reader := Some RawSource, br_length := -1\<rparr>)"
    using assms(1-5) by (simp add: reader_Body_def getBody_def)
  then show ?thesis using assms(6,7) by (auto simp: raw_Read_def bufio_Read_def)
qed

theorem unframed_body_takes_next_request_witness:
  "\<exists>src st1. reader_Body standard_processor [] (NewBodyReader \<lparr>pending = ''GET / HTTP/1.1'', end_error = EOF\<rparr>
        New_Header (Some ''GET'') True :: unit body_in) = Inr ((Some src, None), st1)
    \<and> fst (projr (source_Read (\<lambda>_ rd. rd) src 5 st1)) = (''GET /'', None)"
proof -
  let ?st = "NewBodyReader \<lparr>pending = ''GET / HTTP/1.1'', end_error = EOF\<rparr> New_Header (Some ''GET'') True :: unit body_in"
  have c: "transfer_codes ?st = []" "length_values ?st = []"
    by (simp_all add: NewBodyReader_def GetValues_def GetValuesRawKey_def New_Header_def)
  show ?thesis
    using unframed_body_takes_next_request [OF _ _ _ c, where tes = "[]" and dec = "\<lambda>_ rd. rd" and n = 5]
    by (fastforce simp: NewBodyReader_def)
qed

end
