(* ===== verification/Header_Parser.thy ===== *)
theory Header_Parser
  imports Bufio Header Http_Error
begin

section \<open>The header block: \<open>http/http1/headerParser.go\<close>\<close>

text \<open>
  \<open>ParseHeaders\<close> reads line by line and hands every field to an adder. The code moves indexes over
  the line it holds; so do the definitions, with every index checked, because several of the
  reads have no bounds test and panic. A field that is folded over several lines makes the line
  longer while it is read.
\<close>

datatype header_error = ErrNoHeaderKey | ErrMalformedHeader | ErrIllegalCharacterInHeaderName
  | ErrIllegalCharacterInHeaderValue | ErrExpectingCarraigeReturnBeforeNewline | HeaderIO io_error

subsection \<open>The loops over one line\<close>

text \<open>\<open>for httpchars.IsWhitespace(line[i])\<close>: the index after the white space.\<close>

function skip_whitespace :: "string \<Rightarrow> nat \<Rightarrow> nat go" where
  "skip_whitespace line i =
     bind_go (go_index line i) (\<lambda>c. if IsWhitespace c then skip_whitespace line (i + 1) else Inr i)"
  by auto
termination
  by (relation "measure (\<lambda>(line, i). length line - i)") (auto simp: go_index_def split: if_splits)

declare skip_whitespace.simps [simp del]

text \<open>The end of the key, or \<^term>\<open>None\<close> when the line ends first.\<close>

function key_loop :: "string \<Rightarrow> nat \<Rightarrow> nat option go" where
  "key_loop line keyEnd =
     bind_go (go_index line keyEnd) (\<lambda>c.
       if IsTokenChar c then (if keyEnd + 1 = length line then Inr None else key_loop line (keyEnd + 1))
       else Inr (Some keyEnd))"
  by auto
termination
  by (relation "measure (\<lambda>(line, i). length line - i)") (auto simp: go_index_def split: if_splits)

declare key_loop.simps [simp del]

text \<open>
  The state of the loop over a value: the line, the two counters, the line read after it (nil is
  \<^term>\<open>None\<close>) and the reader. One round ends the value, stops with an error, or goes on.
\<close>

record value_state =
  vs_line :: string
  valueEnd :: nat
  whitespace :: nat
  nextLine :: "(string \<times> io_error option) option"
  vs_reader :: bufio

datatype value_round = EndOfValue value_state | ValueError header_error bufio | Continue value_state

definition value_step :: "value_state \<Rightarrow> value_round go" where
  "value_step st =
     (let line = vs_line st; i = valueEnd st in
      bind_go (go_index line i) (\<lambda>c.
        if IsVChar c then
          bind_go (go_index line (i + 1)) (\<lambda>c1.
            if \<not> IsWhitespace c1 then Inr (Continue (st\<lparr>valueEnd := i + 1, whitespace := 0\<rparr>))
            else bind_go (skip_whitespace line (i + 2)) (\<lambda>j.
              bind_go (go_index line j) (\<lambda>c2.
                if \<not> IsVChar c2 then
                  (if c2 = CHR 0x0D then
                     bind_go (go_index line (j + 1)) (\<lambda>c3.
                       if c3 = CHR 0x0A then
                         Inr (EndOfValue (st\<lparr>valueEnd := j, whitespace := j - (i + 1)\<rparr>))
                       else Inr (ValueError ErrIllegalCharacterInHeaderValue (vs_reader st)))
                   else Inr (ValueError ErrIllegalCharacterInHeaderValue (vs_reader st)))
                else Inr (Continue (st\<lparr>valueEnd := j + 1, whitespace := 0\<rparr>)))))
        else if c = CHR 0x0D then
          bind_go (go_index line (i + 1)) (\<lambda>c1.
            if c1 = CHR 0x0A then
              (let ((next, nextErr), r') = bufio_ReadBytes (CHR 0x0A) (vs_reader st);
                   st' = st\<lparr>nextLine := Some (next, nextErr), vs_reader := r'\<rparr>
               in bind_go (go_index next 0) (\<lambda>n.
                    if IsWhitespace n then
                      (let line' = line @ next in
                       bind_go (skip_whitespace line' (i + 3)) (\<lambda>j.
                         Inr (Continue (st'\<lparr>vs_line := line', valueEnd := j, whitespace := j - (i + 3)\<rparr>))))
                    else Inr (EndOfValue st')))
            else Inr (ValueError ErrIllegalCharacterInHeaderValue (vs_reader st)))
        else Inr (ValueError ErrIllegalCharacterInHeaderValue (vs_reader st))))"

text \<open>What is left to read in the line and in the stream bounds the number of rounds.\<close>

definition value_left :: "value_state \<Rightarrow> nat" where
  "value_left st = length (vs_line st) + length (pending (vs_reader st)) - valueEnd st"

lemma skip_whitespace_bounds:
  "skip_whitespace line i = Inr j \<Longrightarrow> i \<le> j \<and> j < length line"
proof (induction line i rule: skip_whitespace.induct)
  case (1 line i)
  then show ?case
    by (auto simp: skip_whitespace.simps [of line i] bind_go_eq_Inr go_index_def split: if_splits)
qed

lemma value_step_decreases:
  assumes "value_step st = Inr (Continue st')"
  shows "value_left st' < value_left st"
proof -
  let ?l = "vs_line st" and ?i = "valueEnd st"
  obtain next_line e r' where rb: "bufio_ReadBytes (CHR 0x0A) (vs_reader st) = ((next_line, e), r')"
    by (metis prod.exhaust)
  have len: "length (pending r') + length next_line = length (pending (vs_reader st))"
    by (rule ReadBytes_shorter [OF rb])
  from assms rb len show ?thesis
    by (auto simp: value_step_def Let_def value_left_def bind_go_eq_Inr go_index_def
        split: if_splits dest!: skip_whitespace_bounds)
qed

function value_loop :: "value_state \<Rightarrow> ((header_error \<times> bufio) + value_state) go" where
  "value_loop st =
     bind_go (value_step st) (\<lambda>r.
       case r of
         EndOfValue st' \<Rightarrow> Inr (Inr st')
       | ValueError err reader \<Rightarrow> Inr (Inl (err, reader))
       | Continue st' \<Rightarrow> value_loop st')"
  by auto
termination
  by (relation "measure value_left") (auto dest: value_step_decreases)

declare value_loop.simps [simp del]

subsection \<open>The loop over the fields\<close>

text \<open>
  One field: the value runs from \<open>valueStart\<close> to the index the loop found, less the white space at
  its end. Then the next line is the one read after the value, if any.
\<close>

datatype 'h headers_round = HeadersDone "header_error option" bool 'h bufio
  | NextField string "io_error option" 'h bufio

definition next_field :: "io_error option \<Rightarrow> value_state \<Rightarrow> 'h \<Rightarrow> 'h headers_round" where
  "next_field err st h =
     (if err \<noteq> None then HeadersDone (map_option HeaderIO err) False h (vs_reader st)
      else (case nextLine st of
          Some (next, nextErr) \<Rightarrow> NextField next nextErr h (vs_reader st)
        | None \<Rightarrow>
            (let ((next, nextErr), r') = bufio_ReadBytes (CHR 0x0A) (vs_reader st)
             in NextField next nextErr h r')))"

definition add_field ::
  "(string \<Rightarrow> string \<Rightarrow> 'h \<Rightarrow> 'h go) \<Rightarrow> nat \<Rightarrow> nat \<Rightarrow> 'h \<Rightarrow> value_state \<Rightarrow> 'h go" where
  "add_field add keyEnd valueStart h st =
     bind_go (go_upto (vs_line st) (valueEnd st - whitespace st)) (\<lambda>upto.
     bind_go (go_from upto valueStart) (\<lambda>v. add (take keyEnd (vs_line st)) v h))"

definition field_step ::
  "(string \<Rightarrow> string \<Rightarrow> 'h \<Rightarrow> 'h go) \<Rightarrow> string \<Rightarrow> io_error option \<Rightarrow> 'h \<Rightarrow> bufio \<Rightarrow> nat \<Rightarrow> 'h headers_round go" where
  "field_step add line err h r keyEnd =
     bind_go (skip_whitespace line (keyEnd + 1)) (\<lambda>valueStart.
     bind_go (value_loop \<lparr>vs_line = line, valueEnd = valueStart, whitespace = 0, nextLine = None,
                vs_reader = r\<rparr>) (\<lambda>res.
       case res of
         Inl (e, r') \<Rightarrow> Inr (HeadersDone (Some e) True h r')
       | Inr st \<Rightarrow> bind_go (add_field add keyEnd valueStart h st) (\<lambda>h'. Inr (next_field err st h'))))"

definition headers_step ::
  "(string \<Rightarrow> string \<Rightarrow> 'h \<Rightarrow> 'h go) \<Rightarrow> string \<Rightarrow> io_error option \<Rightarrow> 'h \<Rightarrow> bufio \<Rightarrow> 'h headers_round go" where
  "headers_step add line err h r =
     (if length line = 2 then
        (if err \<noteq> None \<and> err \<noteq> Some EOF then Inr (HeadersDone (map_option HeaderIO err) False h r)
         else if line ! 0 = CHR 0x0D then Inr (HeadersDone None False h r)
         else Inr (HeadersDone (Some ErrExpectingCarraigeReturnBeforeNewline) True h r))
      else if length line < 2 then
        (if err \<noteq> None then Inr (HeadersDone (map_option HeaderIO err) True h r)
         else Inr (HeadersDone (Some ErrExpectingCarraigeReturnBeforeNewline) False h r))
      else if \<not> IsTokenChar (line ! 0) then Inr (HeadersDone (Some ErrNoHeaderKey) True h r)
      else bind_go (key_loop line 1) (\<lambda>k.
        case k of
          None \<Rightarrow> Inr (HeadersDone (Some ErrMalformedHeader) True h r)
        | Some keyEnd \<Rightarrow>
            if line ! keyEnd \<noteq> CHR '':'' then
              Inr (HeadersDone (Some ErrIllegalCharacterInHeaderName) True h r)
            else field_step add line err h r keyEnd))"

definition next_left :: "value_state \<Rightarrow> nat" where
  "next_left st = (case nextLine st of None \<Rightarrow> 0 | Some (l, _) \<Rightarrow> length l) + length (pending (vs_reader st))"

lemma value_step_next_left:
  assumes "value_step st = Inr res" "res = Continue st' \<or> res = EndOfValue st'"
  shows "next_left st' \<le> next_left st"
proof -
  obtain next_line e r' where rb: "bufio_ReadBytes (CHR 0x0A) (vs_reader st) = ((next_line, e), r')"
    by (metis prod.exhaust)
  have len: "length (pending r') + length next_line = length (pending (vs_reader st))"
    by (rule ReadBytes_shorter [OF rb])
  from assms rb len show ?thesis
    by (auto simp: value_step_def Let_def next_left_def bind_go_eq_Inr split: if_splits option.splits)
qed

lemma value_loop_next_left: "value_loop st = Inr (Inr st') \<Longrightarrow> next_left st' \<le> next_left st"
proof (induction st rule: value_loop.induct)
  case (1 st)
  then obtain res where res: "value_step st = Inr res"
    by (cases "value_step st") (auto simp: value_loop.simps [of st])
  show ?case
  proof (cases res)
    case (Continue st1)
    with res "1.prems" have "value_loop st1 = Inr (Inr st')" by (simp add: value_loop.simps [of st])
    with "1.IH" [OF res] Continue value_step_next_left [OF res, of st1] show ?thesis by auto
  qed (use res "1.prems" value_step_next_left [OF res, of st'] in \<open>auto simp: value_loop.simps [of st]\<close>)
qed

lemma next_field_left:
  "next_field err st h = NextField l e h' r' \<Longrightarrow> length l + length (pending r') \<le> next_left st"
  by (auto simp: next_field_def next_left_def dest: ReadBytes_shorter split: if_splits option.splits prod.splits)

lemma field_step_left:
  assumes "field_step add line err h r keyEnd = Inr (NextField l e h' r')"
  shows "length l + length (pending r') \<le> length (pending r)"
proof -
  from assms obtain valueStart res where
    res: "value_loop \<lparr>vs_line = line, valueEnd = valueStart, whitespace = 0, nextLine = None, vs_reader = r\<rparr> = Inr res"
    and r: "(case res of Inl (e, r') \<Rightarrow> Inr (HeadersDone (Some e) True h r')
      | Inr st \<Rightarrow> bind_go (add_field add keyEnd valueStart h st) (\<lambda>h'. Inr (next_field err st h')))
        = Inr (NextField l e h' r')"
    unfolding field_step_def by (elim bind_goE)
  then obtain st where st: "res = Inr st" by (cases res) auto
  with r obtain h1 where "next_field err st h1 = NextField l e h' r'" by (auto elim!: bind_goE)
  then have "length l + length (pending r') \<le> next_left st" by (rule next_field_left)
  with value_loop_next_left [OF res [unfolded st]] show ?thesis by (simp add: next_left_def)
qed

lemma headers_step_shorter:
  assumes "headers_step add line err h r = Inr (NextField l e h' r')"
  shows "length l + length (pending r') < length line + length (pending r)"
proof -
  have "line \<noteq> [] \<and> (\<exists>k. field_step add line err h r k = Inr (NextField l e h' r'))"
    using assms by (auto simp: headers_step_def elim!: bind_goE split: if_splits option.splits)
  then obtain k where "0 < length line" "field_step add line err h r k = Inr (NextField l e h' r')" by auto
  with field_step_left [of add line err h r k l e h' r'] show ?thesis by linarith
qed

function ParseHeaders_loop ::
  "(string \<Rightarrow> string \<Rightarrow> 'h \<Rightarrow> 'h go) \<Rightarrow> string \<Rightarrow> io_error option \<Rightarrow> 'h \<Rightarrow> bufio
     \<Rightarrow> (header_error option \<times> bool \<times> 'h \<times> bufio) go" where
  "ParseHeaders_loop add line err h r =
     bind_go (headers_step add line err h r) (\<lambda>res.
       case res of
         HeadersDone e canRespond h' r' \<Rightarrow> Inr (e, canRespond, h', r')
       | NextField line' err' h' r' \<Rightarrow> ParseHeaders_loop add line' err' h' r')"
  by auto
termination
  by (relation "measure (\<lambda>(_, line, _, _, r). length line + length (pending r))")
    (auto dest: headers_step_shorter)

declare ParseHeaders_loop.simps [simp del]

definition ParseHeaders ::
  "(string \<Rightarrow> string \<Rightarrow> 'h \<Rightarrow> 'h go) \<Rightarrow> 'h \<Rightarrow> bufio \<Rightarrow> (header_error option \<times> bool \<times> 'h \<times> bufio) go" where
  "ParseHeaders add h r =
     (let ((line, err), r') = bufio_ReadBytes (CHR 0x0A) r in ParseHeaders_loop add line err h r')"

subsection \<open>Which values are accepted\<close>

text \<open>
  A field value in the sense of the grammar the code quotes: visible characters and white space,
  with visible characters at both ends. \<open>has_lone\<close> says that somewhere a single visible character
  stands between two white space characters.
\<close>

abbreviation field_end :: string where
  "field_end \<equiv> [CHR 0x0D, CHR 0x0A]"

definition valid_value :: "string \<Rightarrow> bool" where
  "valid_value v \<longleftrightarrow> list_all (\<lambda>c. IsVChar c \<or> IsWhitespace c) v
     \<and> (v \<noteq> [] \<longrightarrow> IsVChar (hd v) \<and> IsVChar (last v))"

fun has_lone :: "string \<Rightarrow> bool" where
  "has_lone (a # c # b # s) = ((IsWhitespace a \<and> \<not> IsWhitespace c \<and> IsWhitespace b) \<or> has_lone (c # b # s))"
| "has_lone _ = False"

lemma VChar_not_white: "IsVChar c \<Longrightarrow> \<not> IsWhitespace c"
  by (auto simp: class_codes)

lemma end_chars [simp]:
  "\<not> IsVChar (CHR 0x0D)" "\<not> IsVChar (CHR 0x0A)" "\<not> IsWhitespace (CHR 0x0D)" "\<not> IsWhitespace (CHR 0x0A)"
  by (simp_all add: class_codes)

lemma go_index_drop: "drop i xs = c # s \<Longrightarrow> go_index xs i = Inr c"
  by (cases "i < length xs") (auto simp: go_index_def nth_via_drop)

lemma drop_next: "drop i xs = c # s \<Longrightarrow> drop (i + 1) xs = s"
  by (metis Suc_eq_plus1 drop_Suc list.sel(3) tl_drop)

lemma drop_more: "drop i xs = a @ s \<Longrightarrow> drop (i + length a) xs = s"
  by (metis add.commute append_eq_conv_conj drop_drop)

lemma skip_whitespace_run:
  "drop i line = w @ c # s \<Longrightarrow> list_all IsWhitespace w \<Longrightarrow> \<not> IsWhitespace c \<Longrightarrow>
    skip_whitespace line i = Inr (i + length w)"
proof (induction w arbitrary: i)
  case Nil
  then show ?case by (simp add: skip_whitespace.simps [of line i] go_index_drop)
next
  case (Cons a w)
  then have "go_index line i = Inr a" "drop (i + 1) line = w @ c # s"
    using go_index_drop [of i line a] drop_next [of i line a] by auto
  with Cons show ?case by (simp add: skip_whitespace.simps [of line i])
qed

lemma key_loop_run:
  "drop i line = k @ c # s \<Longrightarrow> list_all IsTokenChar k \<Longrightarrow> \<not> IsTokenChar c \<Longrightarrow>
    key_loop line i = Inr (Some (i + length k))"
proof (induction k arbitrary: i)
  case Nil
  then show ?case by (simp add: key_loop.simps [of line i] go_index_drop)
next
  case (Cons a k)
  then have d: "go_index line i = Inr a" "drop (i + 1) line = k @ c # s"
    using go_index_drop [of i line a] drop_next [of i line a] by auto
  then have "i + 1 \<noteq> length line" by auto
  with Cons d show ?case by (simp add: key_loop.simps [of line i])
qed

lemma has_lone_visible: "\<not> IsWhitespace c \<Longrightarrow> has_lone (c # s) = has_lone s"
  by (cases s rule: has_lone.cases) auto

lemma has_lone_run:
  "list_all IsWhitespace w \<Longrightarrow> w \<noteq> [] \<Longrightarrow> \<not> IsWhitespace e \<Longrightarrow>
    has_lone (w @ e # u) \<longleftrightarrow> (u \<noteq> [] \<and> IsWhitespace (hd u)) \<or> has_lone u"
proof (induction w)
  case (Cons a w)
  show ?case
  proof (cases w)
    case Nil
    with Cons.prems show ?thesis by (cases u) (auto simp: has_lone_visible)
  next
    case (Cons b w')
    with Cons.prems Cons.IH show ?thesis by (cases "w' @ e # u") auto
  qed
qed simp

lemma list_all_takeWhile: "list_all P (takeWhile P s)"
  by (induction s) auto

text \<open>The value loop, on the rest of the value that starts at \<open>valueEnd\<close>.\<close>

lemma value_loop_scan:
  "drop (valueEnd st) (vs_line st) = v @ field_end \<Longrightarrow> valid_value v \<Longrightarrow> whitespace st = 0 \<Longrightarrow>
    value_loop st =
      (if has_lone v then Inr (Inl (ErrIllegalCharacterInHeaderValue, vs_reader st))
       else value_loop (st\<lparr>valueEnd := valueEnd st + length v, whitespace := 0\<rparr>))"
proof (induction v arbitrary: st rule: length_induct)
  case (1 v)
  let ?l = "vs_line st" and ?i = "valueEnd st"
  show ?case
  proof (cases v)
    case Nil
    have "st\<lparr>valueEnd := ?i, whitespace := 0\<rparr> = st" using "1.prems"(3) by simp
    with Nil show ?thesis by simp
  next
    case (Cons c s)
    have c: "IsVChar c" "\<not> IsWhitespace c" using "1.prems"(2) Cons VChar_not_white by (auto simp: valid_value_def)
    have i0: "go_index ?l ?i = Inr c" "drop (?i + 1) ?l = s @ field_end"
      using "1.prems"(1) Cons go_index_drop drop_next by auto
    note step = value_loop.simps [of st] value_step_def [of st] Let_def
    show ?thesis
    proof (cases "s = [] \<or> \<not> IsWhitespace (hd s)")
      case True
      then obtain d t where d: "s @ field_end = d # t" "\<not> IsWhitespace d" by (cases s) auto
      have vs: "valid_value s"
        using "1.prems"(2) Cons True by (cases s) (auto simp: valid_value_def)
      have "go_index ?l (?i + 1) = Inr d" using i0(2) d(1) go_index_drop by metis
      then have "value_loop st = value_loop (st\<lparr>valueEnd := ?i + 1, whitespace := 0\<rparr>)"
        using i0(1) c(1) d(2) by (simp add: step)
      moreover have "value_loop (st\<lparr>valueEnd := ?i + 1, whitespace := 0\<rparr>) =
        (if has_lone s then Inr (Inl (ErrIllegalCharacterInHeaderValue, vs_reader st))
         else value_loop (st\<lparr>valueEnd := ?i + 1 + length s, whitespace := 0\<rparr>))"
        using "1.IH" [rule_format, of s "st\<lparr>valueEnd := ?i + 1, whitespace := 0\<rparr>"] i0(2) vs Cons by simp
      ultimately show ?thesis using Cons c(2) by (simp add: has_lone_visible)
    next
      case False
      define w where "w = takeWhile IsWhitespace s"
      have "IsVChar (last s)" "s \<noteq> []" using "1.prems"(2) Cons False by (auto simp: valid_value_def)
      then have "last s \<in> set s" "\<not> IsWhitespace (last s)" using VChar_not_white by simp_all
      then have "dropWhile IsWhitespace s \<noteq> []" by (auto simp only: dropWhile_eq_Nil_conv)
      then obtain e u where eu: "dropWhile IsWhitespace s = e # u" by (cases "dropWhile IsWhitespace s") auto
      have s: "s = w @ e # u" using eu w_def takeWhile_dropWhile_id [of IsWhitespace s] by simp
      have w1: "list_all IsWhitespace w" by (simp add: w_def list_all_takeWhile)
      have w2: "w \<noteq> []" using False by (cases s) (auto simp: w_def)
      have w3: "\<not> IsWhitespace e" using hd_dropWhile [of IsWhitespace s] eu by simp
      note w = w1 w2 w3
      have e: "IsVChar e" using "1.prems"(2) Cons s w(3) by (simp add: valid_value_def)
      obtain a w' where aw: "w = a # w'" using w(2) by (cases w) auto
      have wh: "IsWhitespace a" "list_all IsWhitespace w'" using w(1) aw by simp_all
      have i1: "go_index ?l (?i + 1) = Inr a" "drop (?i + 1 + 1) ?l = w' @ e # u @ field_end"
        using i0(2) s aw go_index_drop [of "?i + 1"] drop_next [of "?i + 1"] by auto
      let ?j = "?i + 2 + length w'"
      have j: "skip_whitespace ?l (?i + 2) = Inr ?j"
        using skip_whitespace_run [of "?i + 2" ?l w' e "u @ field_end"] i1(2) wh(2) w(3) by simp
      have j2: "go_index ?l ?j = Inr e" "drop (?j + 1) ?l = u @ field_end"
        using drop_more [of "?i + 2" ?l w'] i1(2) go_index_drop [of ?j] drop_next [of ?j] by auto
      let ?st = "st\<lparr>valueEnd := ?j + 1, whitespace := 0\<rparr>"
      have go: "value_loop st = value_loop ?st"
        using i0(1) i1(1) j j2(1) c(1) wh(1) e by (simp add: step)
      have lone: "has_lone v \<longleftrightarrow> (u \<noteq> [] \<and> IsWhitespace (hd u)) \<or> has_lone u"
        using Cons s c(2) has_lone_run [OF w(1,2,3)] by (simp add: has_lone_visible)
      show ?thesis
      proof (cases "u \<noteq> [] \<and> IsWhitespace (hd u)")
        case True
        then obtain b u' where u: "u = b # u'" "IsWhitespace b" by (cases u) auto
        then have "go_index ?l (?j + 1) = Inr b" using j2(2) go_index_drop by auto
        moreover have "\<not> IsVChar b" "b \<noteq> CHR 0x0D" using u(2) VChar_not_white end_chars(3) by blast+
        ultimately have "value_loop ?st = Inr (Inl (ErrIllegalCharacterInHeaderValue, vs_reader st))"
          unfolding value_loop.simps [of ?st] value_step_def by simp
        with go lone True show ?thesis by simp
      next
        case False
        then have vu: "valid_value u"
          using "1.prems"(2) Cons s by (cases u) (auto simp: valid_value_def)
        have ih: "value_loop ?st =
          (if has_lone u then Inr (Inl (ErrIllegalCharacterInHeaderValue, vs_reader st))
           else value_loop (st\<lparr>valueEnd := ?j + 1 + length u, whitespace := 0\<rparr>))"
          using "1.IH" [rule_format, of u ?st] j2(2) vu Cons s by simp
        have len: "?j + 1 + length u = ?i + length v" using Cons s aw by simp
        from go lone False ih [unfolded len] show ?thesis by auto
      qed
    qed
  qed
qed

text \<open>The end of a value: the next line is read, and decides whether the field goes on.\<close>

lemma value_loop_end:
  assumes "drop (valueEnd st) (vs_line st) = field_end" "pending (vs_reader st) = c # s" "\<not> IsWhitespace c"
  shows "value_loop st =
    (let ((next, e), r') = bufio_ReadBytes (CHR 0x0A) (vs_reader st)
     in Inr (Inr (st\<lparr>nextLine := Some (next, e), vs_reader := r'\<rparr>)))"
proof -
  have i: "go_index (vs_line st) (valueEnd st) = Inr (CHR 0x0D)"
    "go_index (vs_line st) (valueEnd st + 1) = Inr (CHR 0x0A)"
    using assms(1) go_index_drop drop_next by metis+
  obtain nl e r' where rb: "bufio_ReadBytes (CHR 0x0A) (vs_reader st) = ((nl, e), r')"
    by (metis prod.exhaust)
  have "nl \<noteq> []" using rb assms(2) by (auto simp: bufio_ReadBytes_def split: option.splits)
  moreover have "nl @ pending r' = c # s" using ReadBytes_conserves [OF rb] assms(2) by simp
  ultimately have "go_index nl 0 = Inr c" by (cases nl) auto
  with i rb assms(3) show ?thesis
    by (simp add: value_loop.simps [of st] value_step_def Let_def)
qed

lemma value_loop_eof:
  assumes "drop (valueEnd st) (vs_line st) = field_end" "pending (vs_reader st) = []"
  shows "value_loop st = Inl IndexOutOfRange"
proof -
  have i: "go_index (vs_line st) (valueEnd st) = Inr (CHR 0x0D)"
    "go_index (vs_line st) (valueEnd st + 1) = Inr (CHR 0x0A)"
    using assms(1) go_index_drop drop_next by metis+
  with assms(2) show ?thesis
    by (simp add: value_loop.simps [of st] value_step_def Let_def bufio_ReadBytes_def go_index_def)
qed

lemma token_visible: "IsTokenChar c \<Longrightarrow> \<not> IsWhitespace c"
  by (auto simp: class_codes)

lemma token_chars [simp]: "\<not> IsTokenChar (CHR '':'')" "\<not> IsTokenChar (CHR 0x0D)" "\<not> IsTokenChar (CHR 0x0A)"
  by (simp_all add: class_codes)

text \<open>A whole field line: a key, a colon, optional white space, a value.\<close>

definition field_line :: "string \<Rightarrow> string \<Rightarrow> string \<Rightarrow> string" where
  "field_line k w v = k @ CHR '':'' # w @ v @ field_end"

definition valid_key :: "string \<Rightarrow> bool" where
  "valid_key k \<longleftrightarrow> k \<noteq> [] \<and> list_all IsTokenChar k"

lemma valid_value_start:
  "valid_value v \<Longrightarrow> \<exists>c t. v @ field_end = c # t \<and> \<not> IsWhitespace c"
  by (cases v) (auto simp: valid_value_def VChar_not_white)

lemma headers_step_field:
  fixes r :: bufio
  assumes k: "valid_key k" and w: "list_all IsWhitespace w" and v: "valid_value v"
    and n: "n = length k + 1 + length w"
  shows "headers_step add (field_line k w v) None h r =
    bind_go (value_loop \<lparr>vs_line = field_line k w v, valueEnd = n, whitespace = 0,
        nextLine = None, vs_reader = r\<rparr>) (\<lambda>res.
       case res of
         Inl (e, r') \<Rightarrow> Inr (HeadersDone (Some e) True h r')
       | Inr st \<Rightarrow> bind_go (add_field add (length k) n h st) (\<lambda>h'. Inr (next_field None st h')))"
proof -
  let ?l = "field_line k w v"
  obtain a k' where a: "k = a # k'" "IsTokenChar a" "list_all IsTokenChar k'"
    using k by (cases k) (auto simp: valid_key_def)
  have "key_loop ?l 1 = Inr (Some (1 + length k'))"
    using key_loop_run [of 1 ?l k' "CHR '':''"] a by (simp add: field_line_def)
  then have key: "key_loop ?l 1 = Inr (Some (length k))" using a by simp
  have colon: "?l ! length k = CHR '':''" by (simp add: field_line_def)
  obtain c t where ct: "v @ field_end = c # t" "\<not> IsWhitespace c" using valid_value_start [OF v] by blast
  have "drop (length k + 1) ?l = w @ c # t" using ct by (simp add: field_line_def)
  then have sk: "skip_whitespace ?l (length k + 1) = Inr n"
    using skip_whitespace_run w ct(2) n by metis
  have long: "length ?l \<noteq> 2" "\<not> length ?l < 2" "IsTokenChar (?l ! 0)" using a by (simp_all add: field_line_def)
  show ?thesis
    using long key colon sk by (simp add: headers_step_def field_step_def)
qed

lemma add_field_line:
  assumes "vs_line st = field_line k w v" "valueEnd st = length k + 1 + length w + length v" "whitespace st = 0"
  shows "add_field add (length k) (length k + 1 + length w) h st = add k v h"
proof -
  have "field_line k w v = (k @ CHR '':'' # w @ v) @ field_end"
    "length (k @ CHR '':'' # w @ v) = length k + 1 + length w + length v"
    by (simp_all add: field_line_def)
  then have "go_upto (vs_line st) (valueEnd st - whitespace st) = Inr (k @ CHR '':'' # w @ v)"
    using assms by (simp add: go_upto_def)
  moreover have "go_from (k @ CHR '':'' # w @ v) (length k + 1 + length w) = Inr v"
    by (simp add: go_from_def)
  moreover have "take (length k) (vs_line st) = k" using assms(1) by (simp add: field_line_def)
  ultimately show ?thesis by (simp add: add_field_def)
qed

lemma headers_step_line:
  assumes k: "valid_key k" and w: "list_all IsWhitespace w" and v: "valid_value v"
    and r: "pending r = c # s" "\<not> IsWhitespace c"
  shows "headers_step add (field_line k w v) None h r =
    (if has_lone v then Inr (HeadersDone (Some ErrIllegalCharacterInHeaderValue) True h r)
     else bind_go (add k v h) (\<lambda>h'.
       let ((next, e), r') = bufio_ReadBytes (CHR 0x0A) r in Inr (NextField next e h' r')))"
proof -
  let ?st = "\<lparr>vs_line = field_line k w v, valueEnd = length k + 1 + length w, whitespace = 0,
    nextLine = None, vs_reader = r\<rparr>"
  let ?st1 = "?st\<lparr>valueEnd := length k + 1 + length w + length v, whitespace := 0\<rparr>"
  have d: "drop (valueEnd ?st) (vs_line ?st) = v @ field_end" by (simp add: field_line_def)
  have scan: "value_loop ?st = (if has_lone v then Inr (Inl (ErrIllegalCharacterInHeaderValue, r))
      else value_loop ?st1)"
    using value_loop_scan [OF d v] by simp
  obtain nl e r' where rb: "bufio_ReadBytes (CHR 0x0A) r = ((nl, e), r')" by (metis prod.exhaust)
  have "drop (valueEnd ?st1) (vs_line ?st1) = field_end" by (simp add: field_line_def)
  then have fin: "value_loop ?st1 = Inr (Inr (?st1\<lparr>nextLine := Some (nl, e), vs_reader := r'\<rparr>))"
    using value_loop_end [of ?st1 c s] r rb by simp
  have "add_field add (length k) (length k + 1 + length w) h (?st1\<lparr>nextLine := Some (nl, e), vs_reader := r'\<rparr>)
      = add k v h"
    by (rule add_field_line) simp_all
  with scan fin rb show ?thesis
    by (simp add: headers_step_field [OF k w v refl] next_field_def)
qed

subsection \<open>A block of fields\<close>

fun add_all :: "(string \<Rightarrow> string \<Rightarrow> 'h \<Rightarrow> 'h go) \<Rightarrow> (string \<times> string \<times> string) list \<Rightarrow> 'h \<Rightarrow> 'h go" where
  "add_all add [] h = Inr h"
| "add_all add ((k, w, v) # fs) h = bind_go (add k v h) (add_all add fs)"

definition block_text :: "(string \<times> string \<times> string) list \<Rightarrow> string" where
  "block_text fs = concat (map (\<lambda>(k, w, v). field_line k w v) fs)"

lemma field_line_read:
  assumes "valid_key k" "list_all IsWhitespace w" "valid_value v"
  shows "bufio_ReadBytes (CHR 0x0A) (r\<lparr>pending := field_line k w v @ s\<rparr>)
    = ((field_line k w v, None), r\<lparr>pending := s\<rparr>)"
proof -
  have "CHR 0x0A \<notin> set (k @ CHR '':'' # w @ v @ [CHR 0x0D])"
    using assms by (auto simp: valid_key_def valid_value_def list_all_iff)
  from ReadBytes_line [OF this, of s r] show ?thesis by (simp add: field_line_def)
qed

lemma ParseHeaders_Nil:
  "ParseHeaders add h (r\<lparr>pending := field_end @ rest\<rparr>) = Inr (None, False, h, r\<lparr>pending := rest\<rparr>)"
  using ReadBytes_line [of "CHR 0x0A" "[CHR 0x0D]" rest r]
  by (simp add: ParseHeaders_def ParseHeaders_loop.simps headers_step_def)

lemma ParseHeaders_Cons:
  assumes v: "valid_key k" "list_all IsWhitespace w" "valid_value v"
    and s: "s = c # t" "\<not> IsWhitespace c"
  shows "ParseHeaders add h (r\<lparr>pending := field_line k w v @ s\<rparr>) =
    (if has_lone v then Inr (Some ErrIllegalCharacterInHeaderValue, True, h, r\<lparr>pending := s\<rparr>)
     else bind_go (add k v h) (\<lambda>h'. ParseHeaders add h' (r\<lparr>pending := s\<rparr>)))"
proof -
  let ?r = "r\<lparr>pending := s\<rparr>"
  have cs: "pending ?r = c # t" using s by simp
  obtain nl e r' where rb: "bufio_ReadBytes (CHR 0x0A) ?r = ((nl, e), r')" by (metis prod.exhaust)
  have "ParseHeaders add h (r\<lparr>pending := field_line k w v @ s\<rparr>) = ParseHeaders_loop add (field_line k w v) None h ?r"
    using field_line_read [OF v, of s r] by (simp add: ParseHeaders_def)
  also have "\<dots> = (if has_lone v then Inr (Some ErrIllegalCharacterInHeaderValue, True, h, ?r)
      else bind_go (add k v h) (\<lambda>h'. ParseHeaders_loop add nl e h' r'))"
    using headers_step_line [OF v cs s(2), of add h] rb
    by (simp add: ParseHeaders_loop.simps [of add "field_line k w v"] bind_go_assoc)
  finally show ?thesis using rb by (simp add: ParseHeaders_def)
qed

definition valid_syntax :: "string \<times> string \<times> string \<Rightarrow> bool" where
  "valid_syntax f \<longleftrightarrow> (case f of (k, w, v) \<Rightarrow> valid_key k \<and> list_all IsWhitespace w \<and> valid_value v)"

definition lone_field :: "string \<times> string \<times> string \<Rightarrow> bool" where
  "lone_field f = has_lone (snd (snd f))"

lemma block_start:
  "list_all valid_syntax fs \<Longrightarrow> \<exists>c s. block_text fs @ field_end @ rest = c # s \<and> \<not> IsWhitespace c"
proof (cases fs)
  case (Cons f fs')
  assume "list_all valid_syntax fs"
  with Cons obtain k w v where f: "f = (k, w, v)" "valid_key k" by (cases f) (auto simp: valid_syntax_def)
  then obtain a k' where "k = a # k'" "\<not> IsWhitespace a"
    using token_visible by (cases k) (auto simp: valid_key_def)
  with f Cons show ?thesis by (simp add: block_text_def field_line_def)
qed (simp add: block_text_def)

lemma ParseHeaders_block:
  "list_all valid_syntax fs \<Longrightarrow>
    ParseHeaders add h (r\<lparr>pending := block_text fs @ field_end @ rest\<rparr>) =
      bind_go (add_all add (takeWhile (\<lambda>f. \<not> lone_field f) fs) h) (\<lambda>h'.
        case dropWhile (\<lambda>f. \<not> lone_field f) fs of
          [] \<Rightarrow> Inr (None, False, h', r\<lparr>pending := rest\<rparr>)
        | _ # fs' \<Rightarrow> Inr (Some ErrIllegalCharacterInHeaderValue, True, h',
            r\<lparr>pending := block_text fs' @ field_end @ rest\<rparr>))"
proof (induction fs arbitrary: h)
  case Nil
  show ?case using ParseHeaders_Nil [of add h rest r] by (simp add: block_text_def)
next
  case (Cons f fs)
  obtain k w v where f: "f = (k, w, v)" by (cases f)
  have "valid_syntax (k, w, v)" and fs: "list_all valid_syntax fs" using Cons.prems f by simp_all
  then have v: "valid_key k" "list_all IsWhitespace w" "valid_value v" by (simp_all add: valid_syntax_def)
  obtain c s where cs: "block_text fs @ field_end @ rest = c # s" "\<not> IsWhitespace c"
    using block_start [OF fs, of rest] by auto
  have "block_text (f # fs) @ field_end @ rest = field_line k w v @ block_text fs @ field_end @ rest"
    by (simp add: block_text_def f)
  with ParseHeaders_Cons [OF v cs, of add h r] Cons.IH [OF fs] f show ?case
    by (simp add: lone_field_def bind_go_assoc)
qed

subsection \<open>Properties\<close>

text \<open>
  C22: what \<open>ParseHeaders\<close> does with every block of fields of valid syntax (a token, a colon, white space, and a
  value that is empty or visible ASCII characters with white space only between them, without a line fold),
  whatever follows it: the fields are handed to the adder in order, key and value exactly, and the reader stops
  right after the empty line, so that the body is untouched; but a field with a single visible character
  between white space ends the parse with an error at that field.
\<close>

theorem ParseHeaders_fields:
  assumes "list_all valid_syntax fs"
  shows "ParseHeaders add h (r\<lparr>pending := block_text fs @ field_end @ rest\<rparr>) =
    (if list_ex lone_field fs then
       bind_go (add_all add (takeWhile (\<lambda>f. \<not> lone_field f) fs) h) (\<lambda>h'.
         Inr (Some ErrIllegalCharacterInHeaderValue, True, h',
           r\<lparr>pending := block_text (tl (dropWhile (\<lambda>f. \<not> lone_field f) fs)) @ field_end @ rest\<rparr>))
     else bind_go (add_all add fs h) (\<lambda>h'. Inr (None, False, h', r\<lparr>pending := rest\<rparr>)))"
proof (cases "list_ex lone_field fs")
  case True
  then obtain f fs' where d: "dropWhile (\<lambda>f. \<not> lone_field f) fs = f # fs'"
    by (cases "dropWhile (\<lambda>f. \<not> lone_field f) fs") (auto simp: list_ex_iff dropWhile_eq_Nil_conv)
  show ?thesis unfolding ParseHeaders_block [OF assms] d using True by simp
next
  case False
  then have d: "dropWhile (\<lambda>f. \<not> lone_field f) fs = []" "takeWhile (\<lambda>f. \<not> lone_field f) fs = fs"
    by (auto simp: list_ex_iff dropWhile_eq_Nil_conv takeWhile_eq_all_conv)
  show ?thesis unfolding ParseHeaders_block [OF assms] d using False by simp
qed

theorem ParseHeaders_fields_witness:
  "ParseHeaders (\<lambda>k v h. Inr (h @ [(k, v)])) []
      (\<lparr>pending = ''Host: a.b'' @ field_end @ ''X: a b c'' @ field_end @ field_end @ ''body'', end_error = EOF\<rparr>)
    = Inr (Some ErrIllegalCharacterInHeaderValue, True, [(''Host'', ''a.b'')],
        \<lparr>pending = field_end @ ''body'', end_error = EOF\<rparr>)"
proof -
  let ?fs = "[(''Host'', '' '', ''a.b''), (''X'', '' '', ''a b c'')]"
  have v: "list_all valid_syntax ?fs" by code_simp
  have l: "lone_field (''X'', '' '', ''a b c'')" "\<not> lone_field (''Host'', '' '', ''a.b'')" by code_simp+
  from ParseHeaders_fields [OF v, of "\<lambda>k v h. Inr (h @ [(k, v)])" "[]"
      "''body''" "\<lparr>pending = [], end_error = EOF\<rparr>"] l
  show ?thesis by (simp add: block_text_def field_line_def)
qed

text \<open>
  A stream that ends after a complete field line, without the empty line, makes the parser panic: it
  looks at the first byte of the next line, which has none. Nothing in the program recovers from a
  panic.
\<close>

theorem ParseHeaders_eof_panics:
  assumes "valid_key k" "list_all IsWhitespace w" "valid_value v" "\<not> has_lone v"
  shows "ParseHeaders add h (r\<lparr>pending := field_line k w v\<rparr>) = Inl IndexOutOfRange"
proof -
  let ?r = "r\<lparr>pending := []\<rparr>" and ?n = "length k + 1 + length w"
  let ?st = "\<lparr>vs_line = field_line k w v, valueEnd = ?n, whitespace = 0, nextLine = None, vs_reader = ?r\<rparr>"
  have "drop (valueEnd ?st) (vs_line ?st) = v @ field_end" by (simp add: field_line_def)
  then have "value_loop ?st = value_loop (?st\<lparr>valueEnd := ?n + length v, whitespace := 0\<rparr>)"
    using value_loop_scan [of ?st v] assms(3,4) by simp
  also have "\<dots> = Inl IndexOutOfRange"
    by (rule value_loop_eof) (simp_all add: field_line_def)
  finally show ?thesis
    using field_line_read [OF assms(1-3), of "[]" r] headers_step_field [OF assms(1-3) refl, of add h ?r]
    by (simp add: ParseHeaders_def ParseHeaders_loop.simps)
qed

theorem ParseHeaders_eof_panics_witness:
  "ParseHeaders (\<lambda>k v h. Inr (h @ [(k, v)])) [] \<lparr>pending = ''Host: a.b'' @ field_end, end_error = EOF\<rparr>
    = Inl IndexOutOfRange"
proof -
  have "valid_key ''Host''" "list_all IsWhitespace '' ''" "valid_value ''a.b''" "\<not> has_lone ''a.b''"
    by code_simp+
  from ParseHeaders_eof_panics [OF this, of "\<lambda>k v h. Inr (h @ [(k, v)])" "[]" "\<lparr>pending = [], end_error = EOF\<rparr>"]
  show ?thesis by (simp add: field_line_def)
qed

text \<open>
  A value that is folded over two lines keeps the line break, and when the last line ends in white
  space that line is read a second time as a field of its own, which is refused.
\<close>

theorem folded_fields:
  "ParseHeaders (\<lambda>k v h. Inr (h @ [(k, v)])) []
      \<lparr>pending = ''A: x'' @ field_end @ '' y'' @ field_end @ field_end, end_error = EOF\<rparr>
    = Inr (None, False, [(''A'', ''x'' @ field_end @ '' y'')], \<lparr>pending = [], end_error = EOF\<rparr>)
  \<and> ParseHeaders (\<lambda>k v h. Inr (h @ [(k, v)])) []
      \<lparr>pending = ''A: x'' @ field_end @ '' y '' @ field_end @ field_end, end_error = EOF\<rparr>
    = Inr (Some ErrNoHeaderKey, True, [(''A'', ''x'' @ field_end @ '' y'')],
        \<lparr>pending = field_end, end_error = EOF\<rparr>)"
  by code_simp

end
