(* ===== verification/Cache_Control.thy ===== *)
theory Cache_Control
  imports Http_Chars Go_Strconv
begin

section \<open>Cache control: \<open>http/cache-control.go\<close>\<close>

text \<open>
  The directives of the Cache-Control header, the expiry of a resource (as an age, a time, or
  both), the settings of a resource and of a request, and the translation of both to header values
  and back. A duration is a signed 64-bit count of nanoseconds; a time is the \<^typ>\<open>int\<close> of
  nanoseconds since Go's zero time. The clock (\<open>now\<close>) and the HTTP date functions of \<open>net/http\<close>
  (\<open>format_time\<close>, \<open>parse_time\<close>) are arguments. A getter that fills a cached field returns the
  changed value too.
\<close>

subsection \<open>Directives\<close>

record CacheControlDirective =
  dir_Name :: string
  dir_Arg :: string

datatype cache_error = QuotedError quoted_error | NumberError num_error

definition HeaderString :: "CacheControlDirective \<Rightarrow> string \<times> quoted_error option" where
  "HeaderString ccd =
     (if length (dir_Arg ccd) = 0 then (to_lower (dir_Name ccd), None)
      else (let (arg, err) = FormatTokenOrQuotedString (dir_Arg ccd)
            in (dir_Name ccd @ ''='' @ arg, err)))"

text \<open>The argument that is stored is \<open>s[i+1:]\<close>; the parsed one only decides the error.\<close>

definition ParseCacheControlDirective ::
  "string \<Rightarrow> (CacheControlDirective \<times> quoted_error option) go" where
  "ParseCacheControlDirective s =
     (case index_byte s CHR ''='' of
        None \<Rightarrow> Inr (\<lparr>dir_Name = s, dir_Arg = ''''\<rparr>, None)
      | Some i \<Rightarrow>
          (let arg = drop (i + 1) s in
           if length arg \<noteq> 0 \<and> arg ! 0 = CHR 0x22 then
             bind_go (ParseFullQuotedStringNoStartingQuote (drop 1 arg)) (\<lambda>(argBytes, err).
               Inr (\<lparr>dir_Name = take i s, dir_Arg = drop (i + 1) s\<rparr>, err))
           else Inr (\<lparr>dir_Name = take i s, dir_Arg = drop (i + 1) s\<rparr>, None)))"

definition zero_directive :: CacheControlDirective where
  "zero_directive = \<lparr>dir_Name = '''', dir_Arg = ''''\<rparr>"

fun ParseCacheControlDirectives_loop ::
  "string list \<Rightarrow> CacheControlDirective list \<Rightarrow> (CacheControlDirective list \<times> quoted_error option) go" where
  "ParseCacheControlDirectives_loop [] ds = Inr (ds, None)"
| "ParseCacheControlDirectives_loop (dstr # dstrs) ds =
     bind_go (ParseCacheControlDirective dstr) (\<lambda>(d, err).
       if err \<noteq> None then Inr (ds @ [d], err)
       else ParseCacheControlDirectives_loop dstrs (ds @ [d]))"

text \<open>\<open>make\<close> with a length gives that many zero directives, and the loop appends to them.\<close>

definition ParseCacheControlDirectives ::
  "string list \<Rightarrow> (CacheControlDirective list \<times> quoted_error option) go" where
  "ParseCacheControlDirectives dstrs =
     ParseCacheControlDirectives_loop dstrs (replicate (length dstrs) zero_directive)"

subsection \<open>Expiry\<close>

datatype expiryTimeKind = expiryTimeNone | expiryTimeMaxAge | expiryTimeExpires | expiryTimeBoth

type_synonym duration = int64

record ExpiryTime =
  kind :: expiryTimeKind
  et_maxAge :: duration
  et_expires :: int

definition no_expiry :: ExpiryTime where
  "no_expiry = \<lparr>kind = expiryTimeNone, et_maxAge = 0, et_expires = 0\<rparr>"

text \<open>The 8th of May 2001, 12:00 UTC.\<close>

definition pastTime :: int where
  "pastTime = (62135596800 + 989323200) * 1000000000"

definition pastTimeStr :: string where
  "pastTimeStr = ''Tue, 08 May 2001 12:00:00 GMT''"

text \<open>\<open>time.Time.Sub\<close> saturates at the bounds of a duration.\<close>

definition time_Sub :: "int \<Rightarrow> int \<Rightarrow> duration" where
  "time_Sub t u =
     (if t - u > 2 ^ 63 - 1 then word_of_int (2 ^ 63 - 1)
      else if t - u < - (2 ^ 63) then min_int64 else word_of_int (t - u))"

definition ExpiryTime_SetMaxAge :: "duration \<Rightarrow> ExpiryTime \<Rightarrow> ExpiryTime" where
  "ExpiryTime_SetMaxAge d et = et\<lparr>et_maxAge := d, kind := expiryTimeMaxAge\<rparr>"

definition ExpiryTime_SetExpires :: "int \<Rightarrow> ExpiryTime \<Rightarrow> ExpiryTime" where
  "ExpiryTime_SetExpires t et = et\<lparr>et_expires := t, kind := expiryTimeExpires\<rparr>"

definition makeBothFromExpires :: "int \<Rightarrow> ExpiryTime \<Rightarrow> ExpiryTime" where
  "makeBothFromExpires now et =
     (let s = time_Sub now (et_expires et); s' = (if s <s 0 then 0 else s)
      in et\<lparr>et_maxAge := s', kind := expiryTimeBoth\<rparr>)"

definition makeBothFromMaxAge :: "int \<Rightarrow> ExpiryTime \<Rightarrow> ExpiryTime" where
  "makeBothFromMaxAge now et =
     (if et_maxAge et <s 0 then et\<lparr>et_expires := 0, kind := expiryTimeBoth\<rparr>
      else if et_maxAge et = 0 then et\<lparr>et_expires := pastTime, kind := expiryTimeBoth\<rparr>
      else et\<lparr>et_expires := now + sint (et_maxAge et), kind := expiryTimeBoth\<rparr>)"

definition MaxAge :: "int \<Rightarrow> ExpiryTime \<Rightarrow> duration \<times> ExpiryTime" where
  "MaxAge now et =
     (case kind et of
        expiryTimeBoth \<Rightarrow> (et_maxAge et, et)
      | expiryTimeMaxAge \<Rightarrow> (et_maxAge et, et)
      | expiryTimeExpires \<Rightarrow> (let et' = makeBothFromExpires now et in (et_maxAge et', et'))
      | expiryTimeNone \<Rightarrow> (-1, et))"

definition Expires :: "int \<Rightarrow> ExpiryTime \<Rightarrow> (int \<times> bool) \<times> ExpiryTime" where
  "Expires now et =
     (case kind et of
        expiryTimeBoth \<Rightarrow> ((et_expires et, 0 \<le>s et_maxAge et), et)
      | expiryTimeExpires \<Rightarrow> ((et_expires et, True), et)
      | expiryTimeMaxAge \<Rightarrow>
          (let et' = makeBothFromMaxAge now et in ((et_expires et', 0 \<le>s et_maxAge et'), et'))
      | expiryTimeNone \<Rightarrow> ((0, False), et))"

definition ExpiresString :: "(int \<Rightarrow> string) \<Rightarrow> int \<Rightarrow> ExpiryTime \<Rightarrow> string \<times> ExpiryTime" where
  "ExpiresString format_time now et =
     (let ((t, ok), et') = Expires now et in (if ok then format_time t else '''', et'))"

definition MaxAgeAndExpires :: "int \<Rightarrow> ExpiryTime \<Rightarrow> (duration \<times> int) \<times> ExpiryTime" where
  "MaxAgeAndExpires now et =
     (case kind et of
        expiryTimeBoth \<Rightarrow> ((et_maxAge et, et_expires et), et)
      | expiryTimeMaxAge \<Rightarrow>
          (let et' = makeBothFromMaxAge now et in ((et_maxAge et', et_expires et'), et'))
      | expiryTimeExpires \<Rightarrow>
          (let et' = makeBothFromExpires now et in ((et_maxAge et', et_expires et'), et'))
      | expiryTimeNone \<Rightarrow> ((-1, 0), et))"

definition MaxAgeAndExpiresString ::
  "(int \<Rightarrow> string) \<Rightarrow> int \<Rightarrow> ExpiryTime \<Rightarrow> (duration \<times> string) \<times> ExpiryTime" where
  "MaxAgeAndExpiresString format_time now et =
     (let ((maxAge, expires), et') = MaxAgeAndExpires now et in
      if maxAge <s 0 then ((maxAge, ''''), et') else ((maxAge, format_time expires), et'))"

subsection \<open>Settings of a resource\<close>

datatype ResourceCacheMode = ResourceCacheModeUnspecified | ResourceCacheModeCanCache
  | ResourceCacheModeMustRevalidate | ResourceCacheModeNoCache | ResourceCacheModeNoStore

record ResourceCacheControl =
  PrivateMode :: ResourceCacheMode
  PublicMode :: ResourceCacheMode
  CanTransform :: bool
  PublicExpiry :: ExpiryTime
  PrivateExpiry :: ExpiryTime
  Extras :: "CacheControlDirective list"

definition directive :: "string \<Rightarrow> string \<Rightarrow> CacheControlDirective" where
  "directive n a = \<lparr>dir_Name = n, dir_Arg = a\<rparr>"

definition noStore_d :: CacheControlDirective where "noStore_d = directive ''no-store'' ''''"
definition noCache_d :: CacheControlDirective where "noCache_d = directive ''no-cache'' ''''"
definition private_d :: CacheControlDirective where "private_d = directive ''private'' ''''"
definition public_d :: CacheControlDirective where "public_d = directive ''public'' ''''"
definition mustRevalidate_d :: CacheControlDirective where
  "mustRevalidate_d = directive ''must-revalidate'' ''''"
definition proxyRevalidate_d :: CacheControlDirective where
  "proxyRevalidate_d = directive ''proxy-revalidate'' ''''"
definition sMaxAge0_d :: CacheControlDirective where "sMaxAge0_d = directive ''s-maxage'' ''0''"
definition maxAge0_d :: CacheControlDirective where "maxAge0_d = directive ''max-age'' ''0''"

text \<open>\<open>int64(d / time.Second)\<close>: the division truncates towards zero.\<close>

definition seconds :: "duration \<Rightarrow> int" where
  "seconds d = (if 0 \<le> sint d then sint d div 1000000000 else - ((- sint d) div 1000000000))"

definition maxAge_d :: "duration \<Rightarrow> CacheControlDirective" where
  "maxAge_d d = directive ''max-age'' (FormatInt (seconds d) 10)"

definition sMaxAge_d :: "duration \<Rightarrow> CacheControlDirective" where
  "sMaxAge_d d = directive ''s-maxage'' (FormatInt (seconds d) 10)"

definition with_private_age ::
  "int \<Rightarrow> ResourceCacheControl \<Rightarrow> (duration \<Rightarrow> 'a) \<Rightarrow> 'a \<times> ResourceCacheControl" where
  "with_private_age now rcc f =
     (let (a, et) = MaxAge now (PrivateExpiry rcc) in (f a, rcc\<lparr>PrivateExpiry := et\<rparr>))"

text \<open>
  The four cases of the public mode. The last two read the public expiry first.
\<close>

definition headers1_NoStore ::
  "int \<Rightarrow> ResourceCacheControl \<Rightarrow> (CacheControlDirective list \<times> string) \<times> ResourceCacheControl" where
  "headers1_NoStore now rcc =
     (case PrivateMode rcc of
        ResourceCacheModeCanCache \<Rightarrow> with_private_age now rcc (\<lambda>privateMaxAge.
          if 0 \<le>s privateMaxAge then ([private_d, maxAge_d privateMaxAge], pastTimeStr)
          else ([private_d], pastTimeStr))
      | ResourceCacheModeUnspecified \<Rightarrow> with_private_age now rcc (\<lambda>privateMaxAge.
          if 0 \<le>s privateMaxAge then ([private_d, maxAge_d privateMaxAge], pastTimeStr)
          else ([private_d], pastTimeStr))
      | ResourceCacheModeMustRevalidate \<Rightarrow> with_private_age now rcc (\<lambda>privateMaxAge.
          if 0 <s privateMaxAge then
            ([private_d, mustRevalidate_d, maxAge_d privateMaxAge], pastTimeStr)
          else if privateMaxAge = 0 then ([private_d, noCache_d], pastTimeStr)
          else ([private_d], pastTimeStr))
      | ResourceCacheModeNoCache \<Rightarrow> (([private_d, noCache_d], pastTimeStr), rcc)
      | _ \<Rightarrow> (([noStore_d], pastTimeStr), rcc))"

definition headers1_NoCache ::
  "int \<Rightarrow> ResourceCacheControl \<Rightarrow> (CacheControlDirective list \<times> string) \<times> ResourceCacheControl" where
  "headers1_NoCache now rcc =
     (if PrivateMode rcc = ResourceCacheModeCanCache \<or> PrivateMode rcc = ResourceCacheModeMustRevalidate then
        with_private_age now rcc (\<lambda>privateMaxAge.
          if 0 <s privateMaxAge then ([mustRevalidate_d, maxAge_d privateMaxAge, sMaxAge0_d], pastTimeStr)
          else if privateMaxAge = 0 then ([noCache_d], pastTimeStr)
          else ([mustRevalidate_d, sMaxAge0_d], pastTimeStr))
      else if PrivateMode rcc = ResourceCacheModeNoCache \<or> PrivateMode rcc = ResourceCacheModeUnspecified then
        (([noCache_d], pastTimeStr), rcc)
      else (([noStore_d], pastTimeStr), rcc))"

definition headers1_MustRevalidate ::
  "(int \<Rightarrow> string) \<Rightarrow> int \<Rightarrow> ResourceCacheControl
     \<Rightarrow> (CacheControlDirective list \<times> string) \<times> ResourceCacheControl" where
  "headers1_MustRevalidate format_time now rcc0 =
     (let ((publicMaxAge, expires), et) = MaxAgeAndExpiresString format_time now (PublicExpiry rcc0);
          rcc = rcc0\<lparr>PublicExpiry := et\<rparr>
      in case PrivateMode rcc of
           ResourceCacheModeCanCache \<Rightarrow> with_private_age now rcc (\<lambda>privateMaxAge.
             if privateMaxAge = publicMaxAge then ([proxyRevalidate_d, maxAge_d publicMaxAge], expires)
             else ([proxyRevalidate_d, maxAge_d privateMaxAge, sMaxAge_d publicMaxAge], expires))
         | ResourceCacheModeMustRevalidate \<Rightarrow> with_private_age now rcc (\<lambda>privateMaxAge.
             if privateMaxAge = publicMaxAge then ([mustRevalidate_d, maxAge_d privateMaxAge], expires)
             else ([mustRevalidate_d, maxAge_d privateMaxAge, sMaxAge_d publicMaxAge], expires))
         | ResourceCacheModeUnspecified \<Rightarrow> with_private_age now rcc (\<lambda>privateMaxAge.
             if privateMaxAge = publicMaxAge then ([mustRevalidate_d, maxAge_d privateMaxAge], expires)
             else ([mustRevalidate_d, maxAge_d privateMaxAge, sMaxAge_d publicMaxAge], expires))
         | ResourceCacheModeNoCache \<Rightarrow>
             (if 0 <s publicMaxAge then
                (([mustRevalidate_d, maxAge0_d, sMaxAge_d publicMaxAge], pastTimeStr), rcc)
              else if publicMaxAge = 0 then (([noCache_d], pastTimeStr), rcc)
              else (([], ''''), rcc))
         | _ \<Rightarrow> (([noStore_d], pastTimeStr), rcc))"

definition headers1_CanCache ::
  "(int \<Rightarrow> string) \<Rightarrow> int \<Rightarrow> ResourceCacheControl
     \<Rightarrow> (CacheControlDirective list \<times> string) \<times> ResourceCacheControl" where
  "headers1_CanCache format_time now rcc0 =
     (let ((publicMaxAge, expires), et) = MaxAgeAndExpiresString format_time now (PublicExpiry rcc0);
          rcc = rcc0\<lparr>PublicExpiry := et\<rparr>
      in case PrivateMode rcc of
           ResourceCacheModeCanCache \<Rightarrow> with_private_age now rcc (\<lambda>privateMaxAge.
             if privateMaxAge = publicMaxAge then ([public_d, maxAge_d privateMaxAge], expires)
             else ([public_d, maxAge_d privateMaxAge, sMaxAge_d publicMaxAge], expires))
         | ResourceCacheModeUnspecified \<Rightarrow> with_private_age now rcc (\<lambda>privateMaxAge.
             if privateMaxAge = publicMaxAge then ([public_d, maxAge_d privateMaxAge], expires)
             else ([public_d, maxAge_d privateMaxAge, sMaxAge_d publicMaxAge], expires))
         | ResourceCacheModeMustRevalidate \<Rightarrow> with_private_age now rcc (\<lambda>privateMaxAge.
             if privateMaxAge = publicMaxAge then ([mustRevalidate_d, maxAge_d privateMaxAge], expires)
             else ([mustRevalidate_d, maxAge_d privateMaxAge, sMaxAge_d publicMaxAge], expires))
         | ResourceCacheModeNoCache \<Rightarrow>
             (([mustRevalidate_d, maxAge0_d, sMaxAge_d publicMaxAge], pastTimeStr), rcc)
         | ResourceCacheModeNoStore \<Rightarrow> (([noStore_d], pastTimeStr), rcc))"

definition headers1 ::
  "(int \<Rightarrow> string) \<Rightarrow> int \<Rightarrow> ResourceCacheControl
     \<Rightarrow> (CacheControlDirective list \<times> string) \<times> ResourceCacheControl" where
  "headers1 format_time now rcc =
     (case PublicMode rcc of
        ResourceCacheModeNoStore \<Rightarrow> headers1_NoStore now rcc
      | ResourceCacheModeNoCache \<Rightarrow> headers1_NoCache now rcc
      | ResourceCacheModeMustRevalidate \<Rightarrow> headers1_MustRevalidate format_time now rcc
      | ResourceCacheModeCanCache \<Rightarrow> headers1_CanCache format_time now rcc
      | ResourceCacheModeUnspecified \<Rightarrow> (([], ''''), rcc))"

definition headers2 ::
  "(int \<Rightarrow> string) \<Rightarrow> int \<Rightarrow> ResourceCacheControl
     \<Rightarrow> (CacheControlDirective list \<times> string) \<times> ResourceCacheControl" where
  "headers2 format_time now rcc =
     (let ((ds, expires), rcc') = headers1 format_time now rcc in ((ds @ Extras rcc', expires), rcc'))"

fun HeaderStrings :: "CacheControlDirective list \<Rightarrow> quoted_error + string list" where
  "HeaderStrings [] = Inr []"
| "HeaderStrings (d # ds) =
     (case HeaderString d of
        (_, Some err) \<Rightarrow> Inl err
      | (s, None) \<Rightarrow> (case HeaderStrings ds of Inl err \<Rightarrow> Inl err | Inr ss \<Rightarrow> Inr (s # ss)))"

definition ResourceCacheControl_Headers ::
  "(int \<Rightarrow> string) \<Rightarrow> int \<Rightarrow> ResourceCacheControl
     \<Rightarrow> (quoted_error + string list \<times> string) \<times> ResourceCacheControl" where
  "ResourceCacheControl_Headers format_time now rcc =
     (let ((ds, expires), rcc') = headers2 format_time now rcc in
      (case HeaderStrings ds of
         Inl err \<Rightarrow> Inl err
       | Inr sds \<Rightarrow> Inr (if \<not> CanTransform rcc' then sds @ [''no-transform''] else sds, expires), rcc'))"

subsection \<open>The setters of a resource's settings\<close>

definition CacheTransformAllowed :: "ResourceCacheControl \<Rightarrow> bool" where
  "CacheTransformAllowed rcc = CanTransform rcc"

definition SetCacheTransformAllowed :: "bool \<Rightarrow> ResourceCacheControl \<Rightarrow> ResourceCacheControl" where
  "SetCacheTransformAllowed b rcc = rcc\<lparr>CanTransform := b\<rparr>"

definition SetPublicCacheMode :: "ResourceCacheMode \<Rightarrow> ResourceCacheControl \<Rightarrow> ResourceCacheControl" where
  "SetPublicCacheMode m rcc = rcc\<lparr>PublicMode := m\<rparr>"

definition SetPrivateCacheMode :: "ResourceCacheMode \<Rightarrow> ResourceCacheControl \<Rightarrow> ResourceCacheControl" where
  "SetPrivateCacheMode m rcc = rcc\<lparr>PrivateMode := m\<rparr>"

definition SetCacheMode :: "ResourceCacheMode \<Rightarrow> ResourceCacheControl \<Rightarrow> ResourceCacheControl" where
  "SetCacheMode m rcc = rcc\<lparr>PrivateMode := m, PublicMode := m\<rparr>"

definition SetCacheMaxAge :: "duration \<Rightarrow> ResourceCacheControl \<Rightarrow> ResourceCacheControl" where
  "SetCacheMaxAge age rcc = rcc\<lparr>PrivateExpiry := ExpiryTime_SetMaxAge age (PrivateExpiry rcc),
     PublicExpiry := ExpiryTime_SetMaxAge age (PublicExpiry rcc)\<rparr>"

definition SetPublicCacheMaxAge :: "duration \<Rightarrow> ResourceCacheControl \<Rightarrow> ResourceCacheControl" where
  "SetPublicCacheMaxAge age rcc = rcc\<lparr>PublicExpiry := ExpiryTime_SetMaxAge age (PublicExpiry rcc)\<rparr>"

definition SetPrivateCacheMaxAge :: "duration \<Rightarrow> ResourceCacheControl \<Rightarrow> ResourceCacheControl" where
  "SetPrivateCacheMaxAge age rcc = rcc\<lparr>PrivateExpiry := ExpiryTime_SetMaxAge age (PrivateExpiry rcc)\<rparr>"

definition PublicCacheMaxAge :: "int \<Rightarrow> ResourceCacheControl \<Rightarrow> duration \<times> ResourceCacheControl" where
  "PublicCacheMaxAge now rcc =
     (let (a, et) = MaxAge now (PublicExpiry rcc) in (a, rcc\<lparr>PublicExpiry := et\<rparr>))"

definition PrivateCacheMaxAge :: "int \<Rightarrow> ResourceCacheControl \<Rightarrow> duration \<times> ResourceCacheControl" where
  "PrivateCacheMaxAge now rcc =
     (let (a, et) = MaxAge now (PrivateExpiry rcc) in (a, rcc\<lparr>PrivateExpiry := et\<rparr>))"

definition SetPublicCacheExpires :: "int \<Rightarrow> ResourceCacheControl \<Rightarrow> ResourceCacheControl" where
  "SetPublicCacheExpires t rcc = rcc\<lparr>PublicExpiry := ExpiryTime_SetExpires t (PublicExpiry rcc)\<rparr>"

definition SetPrivateCacheExpires :: "int \<Rightarrow> ResourceCacheControl \<Rightarrow> ResourceCacheControl" where
  "SetPrivateCacheExpires t rcc = rcc\<lparr>PrivateExpiry := ExpiryTime_SetExpires t (PrivateExpiry rcc)\<rparr>"

definition SetCacheExpires :: "int \<Rightarrow> ResourceCacheControl \<Rightarrow> ResourceCacheControl" where
  "SetCacheExpires t rcc = rcc\<lparr>PrivateExpiry := ExpiryTime_SetExpires t (PrivateExpiry rcc),
     PublicExpiry := ExpiryTime_SetExpires t (PublicExpiry rcc)\<rparr>"

definition SetCacheExpiry :: "int \<Rightarrow> ResourceCacheControl \<Rightarrow> ResourceCacheControl" where
  "SetCacheExpiry t rcc = rcc\<lparr>PrivateExpiry := ExpiryTime_SetExpires t (PrivateExpiry rcc),
     PublicExpiry := ExpiryTime_SetExpires t (PublicExpiry rcc)\<rparr>"

definition PublicCacheExpires :: "int \<Rightarrow> ResourceCacheControl \<Rightarrow> (int \<times> bool) \<times> ResourceCacheControl" where
  "PublicCacheExpires now rcc =
     (let (r, et) = Expires now (PublicExpiry rcc) in (r, rcc\<lparr>PublicExpiry := et\<rparr>))"

definition PrivateCacheExpires :: "int \<Rightarrow> ResourceCacheControl \<Rightarrow> (int \<times> bool) \<times> ResourceCacheControl" where
  "PrivateCacheExpires now rcc =
     (let (r, et) = Expires now (PrivateExpiry rcc) in (r, rcc\<lparr>PrivateExpiry := et\<rparr>))"

subsection \<open>Reading the settings of a resource\<close>

text \<open>The two conditionals are the same in the code, both on the private mode.\<close>

definition doExpiryStuff_half :: "int \<Rightarrow> ResourceCacheControl \<Rightarrow> ResourceCacheControl" where
  "doExpiryStuff_half now rcc =
     (if PrivateMode rcc = ResourceCacheModeMustRevalidate then
        (let (a, et) = MaxAge now (PrivateExpiry rcc); rcc' = rcc\<lparr>PrivateExpiry := et\<rparr>
         in if a = 0 then rcc'\<lparr>PrivateMode := ResourceCacheModeNoCache\<rparr> else rcc')
      else rcc)"

definition doExpiryStuff :: "int \<Rightarrow> ResourceCacheControl \<Rightarrow> ResourceCacheControl" where
  "doExpiryStuff now rcc = doExpiryStuff_half now (doExpiryStuff_half now rcc)"

record resource_flags =
  rf_maxAge :: "duration option"
  rf_sMaxAge :: "duration option"
  rf_private :: bool
  rf_public :: bool
  rf_noCache :: bool
  rf_noStore :: bool
  rf_mustRevalidate :: bool
  rf_proxyRevalidate :: bool

definition no_resource_flags :: resource_flags where
  "no_resource_flags = \<lparr>rf_maxAge = None, rf_sMaxAge = None, rf_private = False, rf_public = False,
     rf_noCache = False, rf_noStore = False, rf_mustRevalidate = False, rf_proxyRevalidate = False\<rparr>"

definition resource_start :: ResourceCacheControl where
  "resource_start = \<lparr>PrivateMode = ResourceCacheModeUnspecified, PublicMode = ResourceCacheModeUnspecified,
     CanTransform = True, PublicExpiry = no_expiry, PrivateExpiry = no_expiry, Extras = []\<rparr>"

text \<open>
  The loop over the directives; a pair \<open>hasX\<close>, \<open>x\<close> of the code is an option.
\<close>

fun resource_loop ::
  "CacheControlDirective list \<Rightarrow> ResourceCacheControl \<Rightarrow> resource_flags
     \<Rightarrow> ResourceCacheControl \<times> (num_error + resource_flags)" where
  "resource_loop [] out fl = (out, Inr fl)"
| "resource_loop (d # ds) out fl =
     (if dir_Name d = ''no-transform'' then resource_loop ds (out\<lparr>CanTransform := False\<rparr>) fl
      else if dir_Name d = ''max-age'' then
        (case ParseInt (dir_Arg d) 10 of
           (_, Some err) \<Rightarrow> (out, Inl err)
         | (maxAgeSecs, None) \<Rightarrow>
             resource_loop ds out (fl\<lparr>rf_maxAge := Some (word_of_int maxAgeSecs * 1000000000)\<rparr>))
      else if dir_Name d = ''s-maxage'' then
        (case ParseUint (dir_Arg d) 10 64 of
           (_, Some err) \<Rightarrow> (out, Inl err)
         | (sMaxAgeSecs, None) \<Rightarrow>
             resource_loop ds out (fl\<lparr>rf_sMaxAge := Some (of_nat sMaxAgeSecs * 1000000000)\<rparr>))
      else if dir_Name d = ''private'' then resource_loop ds out (fl\<lparr>rf_private := True\<rparr>)
      else if dir_Name d = ''public'' then resource_loop ds out (fl\<lparr>rf_public := True\<rparr>)
      else if dir_Name d = ''no-cache'' then resource_loop ds out (fl\<lparr>rf_noCache := True\<rparr>)
      else if dir_Name d = ''no-store'' then resource_loop ds out (fl\<lparr>rf_noStore := True\<rparr>)
      else if dir_Name d = ''must-revalidate'' then resource_loop ds out (fl\<lparr>rf_mustRevalidate := True\<rparr>)
      else if dir_Name d = ''proxy-revalidate'' then resource_loop ds out (fl\<lparr>rf_proxyRevalidate := True\<rparr>)
      else resource_loop ds (out\<lparr>Extras := Extras out @ [d]\<rparr>) fl)"

definition resource_modes :: "resource_flags \<Rightarrow> ResourceCacheControl \<Rightarrow> ResourceCacheControl" where
  "resource_modes fl out =
     (if rf_private fl then
        (let out1 = out\<lparr>PublicMode := ResourceCacheModeNoStore\<rparr> in
         if rf_noStore fl then out1\<lparr>PrivateMode := ResourceCacheModeNoStore\<rparr>
         else if rf_noCache fl then out1\<lparr>PrivateMode := ResourceCacheModeNoCache\<rparr>
         else if rf_mustRevalidate fl then out1\<lparr>PrivateMode := ResourceCacheModeMustRevalidate\<rparr>
         else out1)
      else if rf_noStore fl then
        out\<lparr>PrivateMode := ResourceCacheModeNoStore, PublicMode := ResourceCacheModeNoStore\<rparr>
      else if rf_noCache fl then
        out\<lparr>PrivateMode := ResourceCacheModeNoCache, PublicMode := ResourceCacheModeNoStore\<rparr>
      else if rf_mustRevalidate fl then
        out\<lparr>PrivateMode := ResourceCacheModeMustRevalidate, PublicMode := ResourceCacheModeNoStore\<rparr>
      else if rf_proxyRevalidate fl then
        (let out1 = out\<lparr>PublicMode := ResourceCacheModeMustRevalidate\<rparr> in
         if rf_public fl then out1\<lparr>PrivateMode := ResourceCacheModeCanCache\<rparr> else out1)
      else if rf_public fl then
        out\<lparr>PublicMode := ResourceCacheModeCanCache, PrivateMode := ResourceCacheModeCanCache\<rparr>
      else out)"

text \<open>
  \<open>parse_time\<close> gives the time of an HTTP date or \<^term>\<open>None\<close> for an error, with which Go returns
  the zero time. The code uses the time when there is an error.
\<close>

definition resource_expiry ::
  "(string \<Rightarrow> int option) \<Rightarrow> int \<Rightarrow> resource_flags \<Rightarrow> string \<Rightarrow> ResourceCacheControl \<Rightarrow> ResourceCacheControl" where
  "resource_expiry parse_time now fl expires out =
     (case rf_sMaxAge fl of
        Some sMaxAge \<Rightarrow>
          (let out1 = SetPublicCacheMaxAge sMaxAge out;
               out2 = (case rf_maxAge fl of
                         Some maxAge \<Rightarrow> SetPrivateCacheMaxAge maxAge out1
                       | None \<Rightarrow>
                           if length expires > 0 then
                             (if parse_time expires = None then SetPrivateCacheExpires 0 out1 else out1)
                           else out1)
           in doExpiryStuff now out2)
      | None \<Rightarrow>
          (case rf_maxAge fl of
             Some maxAge \<Rightarrow>
               doExpiryStuff now (SetPrivateCacheMaxAge maxAge (SetPublicCacheMaxAge maxAge out))
           | None \<Rightarrow>
               if length expires > 0 then
                 (if parse_time expires = None then doExpiryStuff now (SetPrivateCacheExpires 0 out) else out)
               else out))"

definition ParseResourceCacheControlDirectives ::
  "(string \<Rightarrow> int option) \<Rightarrow> int \<Rightarrow> CacheControlDirective list \<Rightarrow> string
     \<Rightarrow> ResourceCacheControl \<times> cache_error option" where
  "ParseResourceCacheControlDirectives parse_time now ds expires =
     (case resource_loop ds resource_start no_resource_flags of
        (out, Inl err) \<Rightarrow> (out, Some (NumberError err))
      | (out, Inr fl) \<Rightarrow> (resource_expiry parse_time now fl expires (resource_modes fl out), None))"

definition zero_resource :: ResourceCacheControl where
  "zero_resource = \<lparr>PrivateMode = ResourceCacheModeUnspecified, PublicMode = ResourceCacheModeUnspecified,
     CanTransform = False, PublicExpiry = no_expiry, PrivateExpiry = no_expiry, Extras = []\<rparr>"

definition ParseResourceCacheControlHeaders ::
  "(string \<Rightarrow> int option) \<Rightarrow> int \<Rightarrow> string list \<Rightarrow> string
     \<Rightarrow> (ResourceCacheControl \<times> cache_error option) go" where
  "ParseResourceCacheControlHeaders parse_time now cacheControl expires =
     bind_go (ParseCacheControlDirectives cacheControl) (\<lambda>(ds, err).
       case err of
         Some e \<Rightarrow> Inr (zero_resource, Some (QuotedError e))
       | None \<Rightarrow> Inr (ParseResourceCacheControlDirectives parse_time now ds expires))"

subsection \<open>Directives and their text\<close>

lemma equals_not_token [simp]: "\<not> IsTokenChar CHR ''=''" "\<not> IsTokenChar CHR 0x22"
  by (simp_all add: IsTokenChar_def IsAlpha_def IsDigit_def less_eq_char_def)

lemma parse_named:
  assumes "list_all IsTokenChar n" and "arg = [] \<or> arg ! 0 \<noteq> CHR 0x22"
  shows "ParseCacheControlDirective (n @ CHR ''='' # arg) = Inr (\<lparr>dir_Name = n, dir_Arg = arg\<rparr>, None)"
proof -
  have "CHR ''='' \<notin> set n" using assms(1) equals_not_token by (auto simp: list_all_iff)
  then have "index_byte (n @ CHR ''='' # arg) CHR ''='' = Some (length n)" by (rule index_byte_append)
  with assms(2) show ?thesis by (auto simp: ParseCacheControlDirective_def)
qed

lemma parse_named_quoted:
  assumes "list_all IsTokenChar n" and "ParseFullQuotedString (CHR 0x22 # arg) = Inr (v, None)"
  shows "ParseCacheControlDirective (n @ CHR ''='' # CHR 0x22 # arg)
    = Inr (\<lparr>dir_Name = n, dir_Arg = CHR 0x22 # arg\<rparr>, None)"
proof -
  have "CHR ''='' \<notin> set n" using assms(1) equals_not_token by (auto simp: list_all_iff)
  then have "index_byte (n @ CHR ''='' # CHR 0x22 # arg) CHR ''='' = Some (length n)"
    by (rule index_byte_append)
  with assms(2) show ?thesis by (simp add: ParseCacheControlDirective_def ParseFullQuotedString_def)
qed

lemma parse_bare:
  assumes "list_all IsTokenChar n"
  shows "ParseCacheControlDirective n = Inr (\<lparr>dir_Name = n, dir_Arg = ''''\<rparr>, None)"
proof -
  have "CHR ''='' \<notin> set n" using assms(1) equals_not_token by (auto simp: list_all_iff)
  then show ?thesis by (simp add: ParseCacheControlDirective_def index_byte_notin)
qed

lemma directive_text:
  assumes "list_all IsTokenChar (dir_Name d)" "to_lower (dir_Name d) = dir_Name d" "ascii (dir_Arg d)"
    and "HeaderString d = (s, None)"
  shows "ParseCacheControlDirective s
    = Inr (d\<lparr>dir_Arg := fst (FormatTokenOrQuotedString (dir_Arg d))\<rparr>, None)"
proof (cases "dir_Arg d = []")
  case True
  then have s: "s = dir_Name d" using assms by (simp add: HeaderString_def)
  have "FormatTokenOrQuotedString [] = ([], None)"
    by (simp add: FormatTokenOrQuotedString_def FormatTokenOrQuotedString_loop.simps)
  with True s parse_bare [OF assms(1)] show ?thesis by simp
next
  case False
  obtain arg where arg: "FormatTokenOrQuotedString (dir_Arg d) = (arg, None)"
    and s: "s = dir_Name d @ CHR ''='' # arg"
    using assms(4) False by (auto simp: HeaderString_def Let_def split: prod.splits)
  note f = Format_then_parse [OF assms(3) arg]
  show ?thesis
  proof (cases "list_all IsTokenChar (dir_Arg d)")
    case True
    then have "arg = dir_Arg d" using f by blast
    moreover have "dir_Arg d ! 0 \<noteq> CHR 0x22"
      using True False equals_not_token by (cases "dir_Arg d") auto
    ultimately show ?thesis using parse_named [OF assms(1), of arg] s arg by simp
  next
    case False
    then have p: "ParseFullQuotedString arg = Inr (dir_Arg d, None)" using f by blast
    then obtain a where "arg = CHR 0x22 # a"
      by (cases arg) (auto simp: ParseFullQuotedString_def split: if_splits)
    with parse_named_quoted [OF assms(1), of a] p s arg show ?thesis by simp
  qed
qed

lemma ParseDirectives_loop_ok:
  "list_all2 (\<lambda>s d. ParseCacheControlDirective s = Inr (d, None)) dstrs ds \<Longrightarrow>
    ParseCacheControlDirectives_loop dstrs acc = Inr (acc @ ds, None)"
  by (induction dstrs ds arbitrary: acc rule: list_all2_induct) simp_all

lemma ParseDirectives_ok:
  "list_all2 (\<lambda>s d. ParseCacheControlDirective s = Inr (d, None)) dstrs ds \<Longrightarrow>
    ParseCacheControlDirectives dstrs = Inr (replicate (length dstrs) zero_directive @ ds, None)"
  by (simp add: ParseCacheControlDirectives_def ParseDirectives_loop_ok)

subsection \<open>Reading back the directives of a resource\<close>

lemma seconds_bounds: "- (2 ^ 63) \<le> seconds d" "seconds d < 2 ^ 63"
  using sint64_bounds [of d] by (auto simp: seconds_def)

lemma ParseInt_seconds: "ParseInt (FormatInt (seconds d) 10) 10 = (seconds d, None)"
  by (rule ParseInt_FormatInt) (rule seconds_bounds)+

lemmas directive_defs = directive_def noStore_d_def noCache_d_def private_d_def public_d_def
  mustRevalidate_d_def proxyRevalidate_d_def sMaxAge0_d_def maxAge0_d_def maxAge_d_def sMaxAge_d_def

lemma MaxAge_modes [simp]:
  "PublicMode (doExpiryStuff_half now rcc) = PublicMode rcc"
  "PrivateMode rcc \<noteq> ResourceCacheModeMustRevalidate \<Longrightarrow> doExpiryStuff_half now rcc = rcc"
  by (simp_all add: doExpiryStuff_half_def Let_def split: prod.splits)

lemma resource_expiry_modes:
  "PublicMode (resource_expiry parse_time now fl ex out) = PublicMode out"
  "PrivateMode out = ResourceCacheModeNoStore \<Longrightarrow>
    PrivateMode (resource_expiry parse_time now fl ex out) = ResourceCacheModeNoStore"
  by (auto simp: resource_expiry_def doExpiryStuff_def Let_def SetPublicCacheMaxAge_def
      SetPrivateCacheMaxAge_def SetPrivateCacheExpires_def split: option.splits)

text \<open>What a list of directives must contain so that reading it gives a storage ban.\<close>

definition bans_shared :: "CacheControlDirective list \<Rightarrow> bool" where
  "bans_shared ds \<longleftrightarrow> private_d \<in> set ds \<or> noStore_d \<in> set ds"

lemma resource_modes_ban:
  "rf_private fl \<or> rf_noStore fl \<Longrightarrow> PublicMode (resource_modes fl out) = ResourceCacheModeNoStore"
  "rf_noStore fl \<Longrightarrow> PrivateMode (resource_modes fl out) = ResourceCacheModeNoStore"
  by (auto simp: resource_modes_def Let_def)

lemma resource_loop_flags:
  "resource_loop ds out fl = (out', Inr fl') \<Longrightarrow>
    (rf_private fl \<or> private_d \<in> set ds \<longrightarrow> rf_private fl')
    \<and> (rf_noStore fl \<or> noStore_d \<in> set ds \<longrightarrow> rf_noStore fl')"
proof (induction ds arbitrary: out fl)
  case (Cons d ds)
  have p: "dir_Name private_d = ''private''" "dir_Name noStore_d = ''no-store''"
    by (simp_all add: directive_defs)
  show ?case
    using Cons.prems p
    by (auto split: if_splits prod.splits option.splits dest!: Cons.IH)
qed simp

lemma parse_ban:
  assumes "snd (ParseResourceCacheControlDirectives parse_time now ds ex) = None"
  shows "(private_d \<in> set ds \<or> noStore_d \<in> set ds \<longrightarrow>
      PublicMode (fst (ParseResourceCacheControlDirectives parse_time now ds ex)) = ResourceCacheModeNoStore)
    \<and> (noStore_d \<in> set ds \<longrightarrow>
      PrivateMode (fst (ParseResourceCacheControlDirectives parse_time now ds ex)) = ResourceCacheModeNoStore)"
proof -
  obtain out fl where l: "resource_loop ds resource_start no_resource_flags = (out, Inr fl)"
    using assms by (auto simp: ParseResourceCacheControlDirectives_def split: prod.splits sum.splits)
  from resource_loop_flags [OF l] show ?thesis
    by (auto simp: ParseResourceCacheControlDirectives_def l resource_expiry_modes resource_modes_ban)
qed

lemma headers1_ban:
  "(PublicMode rcc = ResourceCacheModeNoStore \<longrightarrow> bans_shared (fst (fst (headers1 format_time now rcc))))
    \<and> (PrivateMode rcc = ResourceCacheModeNoStore \<and> PublicMode rcc \<noteq> ResourceCacheModeUnspecified \<longrightarrow>
        fst (fst (headers1 format_time now rcc)) = [noStore_d])"
  by (cases "PublicMode rcc"; cases "PrivateMode rcc")
    (auto simp: headers1_def headers1_NoStore_def headers1_NoCache_def headers1_MustRevalidate_def
      headers1_CanCache_def with_private_age_def bans_shared_def Let_def split: prod.splits)

text \<open>The directives written for a public mode of \<open>NoStore\<close> always parse.\<close>

lemma resource_loop_simps:
  "resource_loop (private_d # ds) out fl = resource_loop ds out (fl\<lparr>rf_private := True\<rparr>)"
  "resource_loop (noStore_d # ds) out fl = resource_loop ds out (fl\<lparr>rf_noStore := True\<rparr>)"
  "resource_loop (noCache_d # ds) out fl = resource_loop ds out (fl\<lparr>rf_noCache := True\<rparr>)"
  "resource_loop (mustRevalidate_d # ds) out fl = resource_loop ds out (fl\<lparr>rf_mustRevalidate := True\<rparr>)"
  "resource_loop (maxAge_d a # ds) out fl
    = resource_loop ds out (fl\<lparr>rf_maxAge := Some (word_of_int (seconds a) * 1000000000)\<rparr>)"
  by (simp_all add: directive_defs ParseInt_seconds)

declare resource_loop.simps(2) [simp del]

lemma headers1_NoStore_parses:
  "PublicMode rcc = ResourceCacheModeNoStore \<Longrightarrow>
    snd (ParseResourceCacheControlDirectives parse_time now' (fst (fst (headers1 format_time now rcc))) ex) = None"
  by (cases "PrivateMode rcc")
    (auto simp: headers1_def headers1_NoStore_def with_private_age_def Let_def
      ParseResourceCacheControlDirectives_def resource_loop_simps split: prod.splits)

lemma noStore_parses:
  "snd (ParseResourceCacheControlDirectives parse_time now [noStore_d] ex) = None"
  by (simp add: ParseResourceCacheControlDirectives_def resource_loop_simps)

subsection \<open>Properties\<close>

text \<open>
  A directive that is written and read again: the name comes back, and the argument comes back
  in the form in which it was written. A token argument (or none) is therefore unchanged, but a
  quoted one keeps its quotes and backslashes, because the parsed argument is dropped.
\<close>

theorem directive_roundtrip:
  assumes "list_all IsTokenChar (dir_Name d)" "to_lower (dir_Name d) = dir_Name d" "ascii (dir_Arg d)"
    and "HeaderString d = (s, None)"
  shows "ParseCacheControlDirective s
      = Inr (d\<lparr>dir_Arg := fst (FormatTokenOrQuotedString (dir_Arg d))\<rparr>, None)
    \<and> (list_all IsTokenChar (dir_Arg d) \<longrightarrow> ParseCacheControlDirective s = Inr (d, None))"
proof -
  obtain out q e where l: "FormatTokenOrQuotedString_loop (dir_Arg d) [] False = (out, q, e)" by (metis prod_cases3)
  have "list_all IsTokenChar (dir_Arg d) \<Longrightarrow> fst (FormatTokenOrQuotedString (dir_Arg d)) = dir_Arg d"
  proof (cases "dir_Arg d = []")
    case False
    assume t: "list_all IsTokenChar (dir_Arg d)"
    obtain arg where "FormatTokenOrQuotedString (dir_Arg d) = (arg, None)"
      using assms(4) False by (auto simp: HeaderString_def Let_def split: prod.splits)
    with t Format_then_parse [OF assms(3)] show ?thesis by simp
  qed (simp add: FormatTokenOrQuotedString_def FormatTokenOrQuotedString_loop.simps)
  with directive_text [OF assms] show ?thesis by auto
qed

theorem directive_roundtrip_witness:
  "ParseCacheControlDirective ''max-age=60'' = Inr (\<lparr>dir_Name = ''max-age'', dir_Arg = ''60''\<rparr>, None)"
proof -
  let ?d = "\<lparr>dir_Name = ''max-age'', dir_Arg = ''60''\<rparr>"
  have "list_all IsTokenChar (dir_Name ?d)" "to_lower (dir_Name ?d) = dir_Name ?d" "ascii (dir_Arg ?d)"
    "HeaderString ?d = (''max-age=60'', None)" "list_all IsTokenChar (dir_Arg ?d)"
    by code_simp+
  with directive_roundtrip show ?thesis by blast
qed

text \<open>
  What a server forbids stays forbidden across the wire. When the public mode is \<open>NoStore\<close> the
  directives written always parse, at any later time, to a public mode of \<open>NoStore\<close>; when the private
  mode is \<open>NoStore\<close> and the public mode is not left unspecified, both modes come back as \<open>NoStore\<close>.
\<close>

theorem ban_survives:
  "(PublicMode rcc = ResourceCacheModeNoStore \<longrightarrow>
      (\<exists>r. ParseResourceCacheControlDirectives parse_time later (fst (fst (headers1 format_time now rcc))) ex
          = (r, None) \<and> PublicMode r = ResourceCacheModeNoStore))
    \<and> (PrivateMode rcc = ResourceCacheModeNoStore \<and> PublicMode rcc \<noteq> ResourceCacheModeUnspecified \<longrightarrow>
      (\<exists>r. ParseResourceCacheControlDirectives parse_time later (fst (fst (headers1 format_time now rcc))) ex
          = (r, None) \<and> PublicMode r = ResourceCacheModeNoStore \<and> PrivateMode r = ResourceCacheModeNoStore))"
proof (intro conjI impI)
  let ?ds = "fst (fst (headers1 format_time now rcc))"
  let ?p = "ParseResourceCacheControlDirectives parse_time later ?ds ex"
  {
    assume m: "PublicMode rcc = ResourceCacheModeNoStore"
    have ok: "snd ?p = None" by (rule headers1_NoStore_parses [OF m])
    then have "PublicMode (fst ?p) = ResourceCacheModeNoStore"
      using parse_ban [OF ok] headers1_ban [of rcc format_time now] m by (auto simp: bans_shared_def)
    with ok show "\<exists>r. ?p = (r, None) \<and> PublicMode r = ResourceCacheModeNoStore"
      by (intro exI [of _ "fst ?p"]) (simp add: prod_eq_iff)
  next
    assume m: "PrivateMode rcc = ResourceCacheModeNoStore \<and> PublicMode rcc \<noteq> ResourceCacheModeUnspecified"
    then have ds: "?ds = [noStore_d]" using headers1_ban [of rcc format_time now] by blast
    then have ok: "snd ?p = None" by (simp add: noStore_parses)
    with parse_ban [OF ok] ds show "\<exists>r. ?p = (r, None) \<and> PublicMode r = ResourceCacheModeNoStore
        \<and> PrivateMode r = ResourceCacheModeNoStore"
      by (intro exI [of _ "fst ?p"]) (simp add: prod_eq_iff)
  }
qed

theorem ban_survives_witness:
  "\<exists>r. ParseResourceCacheControlDirectives (\<lambda>_. None) 5
      (fst (fst (headers1 (\<lambda>_. '''') 0 (resource_start\<lparr>PublicMode := ResourceCacheModeNoStore\<rparr>)))) '''' = (r, None)
    \<and> PublicMode r = ResourceCacheModeNoStore"
  using ban_survives [of "resource_start\<lparr>PublicMode := ResourceCacheModeNoStore\<rparr>"] by simp

text \<open>
  An expiry time set by \<open>SetExpires\<close> is turned into the wrong age: a resource that expires in the
  future gets the age 0 (stale at once), one that expired some time ago gets the time since then
  as its remaining age.
\<close>

theorem expires_age_reversed:
  assumes "\<bar>now - t\<bar> < 2 ^ 63"
  shows "sint (fst (MaxAge now (ExpiryTime_SetExpires t et))) = max 0 (now - t)"
proof -
  have b: "\<not> now - t > 2 ^ 63 - 1" "\<not> now - t < - (2 ^ 63)" "- (2 ^ 63) \<le> now - t" "now - t < 2 ^ 63"
    using assms by linarith+
  have s: "sint (time_Sub now t) = now - t"
    unfolding time_Sub_def if_not_P [OF b(1)] if_not_P [OF b(2)] by (rule sint64_of_int [OF b(3,4)])
  then show ?thesis
    by (simp add: MaxAge_def ExpiryTime_SetExpires_def makeBothFromExpires_def Let_def word_sless_alt)
qed

theorem expires_age_reversed_witness:
  "sint (fst (MaxAge 1000 (ExpiryTime_SetExpires 5000 no_expiry))) = 0
    \<and> sint (fst (MaxAge 5000 (ExpiryTime_SetExpires 1000 no_expiry))) = 4000"
  using expires_age_reversed [of 1000 5000 no_expiry] expires_age_reversed [of 5000 1000 no_expiry] by simp

text \<open>
  Without age directives, an Expires value is used only when it cannot be parsed: a valid date is
  ignored, and an invalid one sets the zero time.
\<close>

theorem Expires_only_if_invalid:
  assumes "ex \<noteq> ''''"
  shows "PrivateExpiry (fst (ParseResourceCacheControlDirectives parse_time now [] ex)) =
    (case parse_time ex of
       Some t \<Rightarrow> no_expiry
     | None \<Rightarrow> ExpiryTime_SetExpires 0 no_expiry)"
  using assms
  by (simp add: ParseResourceCacheControlDirectives_def resource_expiry_def no_resource_flags_def
      resource_start_def resource_modes_def doExpiryStuff_def doExpiryStuff_half_def
      SetPrivateCacheExpires_def split: option.split)

theorem Expires_only_if_invalid_witness:
  "PrivateExpiry (fst (ParseResourceCacheControlDirectives (\<lambda>_. Some 7) now [] pastTimeStr)) = no_expiry"
  using Expires_only_if_invalid [of pastTimeStr "\<lambda>_. Some 7" now] by (simp add: pastTimeStr_def)

end
