(* ===== verification/Request_Response.thy ===== *)
theory Request_Response
  imports Cache_Control Header Range_Header
begin

section \<open>Requests and responses: \<open>http/request.go\<close> and the request half of \<open>http/cache-control.go\<close>\<close>

text \<open>
  The cache settings of a request, and the methods of \<open>Request\<close> and \<open>Response\<close> that read and write
  their headers: ranges, cache settings (parsed once and kept until they are discarded) and the
  age of a cached response. The header store is the one of the theory \<open>Header\<close>, with any
  processor \<open>p\<close>; a panic of the store or of a parser goes through.
\<close>

subsection \<open>Cache settings of a request\<close>

datatype RequestCacheMode = RequestCacheModeUnspecified | RequestCacheModeNoCache
  | RequestCacheModeNoStore | RequestCacheModeOnlyIfCached

datatype PragmaNoCache = PragmaNoCacheDoesntMatter | PragmaNoCacheNo | PragmaNoCacheYes

record RequestCacheControl =
  rq_Mode :: RequestCacheMode
  rq_MaxAge :: duration
  rq_MinFresh :: duration
  rq_MaxStale :: duration
  rq_CanTransform :: bool
  rq_Extras :: "CacheControlDirective list"

definition defaultRequestCacheControl :: RequestCacheControl where
  "defaultRequestCacheControl = \<lparr>rq_Mode = RequestCacheModeUnspecified, rq_MaxAge = -1,
     rq_MinFresh = -1, rq_MaxStale = -1, rq_CanTransform = True, rq_Extras = []\<rparr>"

definition modeHeaders :: "RequestCacheControl \<Rightarrow> string list \<times> PragmaNoCache" where
  "modeHeaders rcc =
     (case rq_Mode rcc of
        RequestCacheModeNoCache \<Rightarrow> ([''no-cache''], PragmaNoCacheYes)
      | RequestCacheModeNoStore \<Rightarrow> ([''no-store''], PragmaNoCacheNo)
      | RequestCacheModeOnlyIfCached \<Rightarrow> ([''only-if-cached''], PragmaNoCacheNo)
      | RequestCacheModeUnspecified \<Rightarrow> ([], PragmaNoCacheDoesntMatter))"

fun extra_headers :: "CacheControlDirective list \<Rightarrow> string list \<Rightarrow> string list \<times> quoted_error option" where
  "extra_headers [] ds = (ds, None)"
| "extra_headers (extra # extras) ds =
     (case HeaderString extra of
        (_, Some err) \<Rightarrow> (ds, Some err)
      | (extraStr, None) \<Rightarrow> extra_headers extras (ds @ [extraStr]))"

definition RequestCacheControl_Headers ::
  "RequestCacheControl \<Rightarrow> string list \<times> PragmaNoCache \<times> quoted_error option" where
  "RequestCacheControl_Headers rcc =
     (let (ds, prag) = modeHeaders rcc;
          ds1 = (if \<not> rq_CanTransform rcc then ds @ [''no-transform''] else ds);
          (ds2, err) = extra_headers (rq_Extras rcc) ds1
      in (ds2, prag, err))"

definition rq_SetCacheMode :: "RequestCacheMode \<Rightarrow> RequestCacheControl \<Rightarrow> RequestCacheControl" where
  "rq_SetCacheMode mode rcc = rcc\<lparr>rq_Mode := mode\<rparr>"

definition rq_SetCacheMaxAge :: "duration \<Rightarrow> RequestCacheControl \<Rightarrow> RequestCacheControl" where
  "rq_SetCacheMaxAge d rcc = rcc\<lparr>rq_MaxAge := d\<rparr>"

definition rq_SetCacheMinFresh :: "duration \<Rightarrow> RequestCacheControl \<Rightarrow> RequestCacheControl" where
  "rq_SetCacheMinFresh d rcc = rcc\<lparr>rq_MinFresh := d\<rparr>"

definition rq_SetCacheMaxStale :: "duration \<Rightarrow> RequestCacheControl \<Rightarrow> RequestCacheControl" where
  "rq_SetCacheMaxStale d rcc = rcc\<lparr>rq_MaxStale := d\<rparr>"

definition rq_SetCacheTransformAllowed :: "bool \<Rightarrow> RequestCacheControl \<Rightarrow> RequestCacheControl" where
  "rq_SetCacheTransformAllowed b rcc = rcc\<lparr>rq_CanTransform := b\<rparr>"

record request_flags =
  qf_noStore :: bool
  qf_noCache :: bool
  qf_onlyIfCached :: bool

definition no_request_flags :: request_flags where
  "no_request_flags = \<lparr>qf_noStore = False, qf_noCache = False, qf_onlyIfCached = False\<rparr>"

text \<open>A duration is stored before the error of its number is looked at.\<close>

fun request_loop ::
  "CacheControlDirective list \<Rightarrow> RequestCacheControl \<Rightarrow> request_flags
     \<Rightarrow> RequestCacheControl \<times> (num_error + request_flags)" where
  "request_loop [] out fl = (out, Inr fl)"
| "request_loop (d # ds) out fl =
     (if dir_Name d = ''no-transform'' then request_loop ds (out\<lparr>rq_CanTransform := False\<rparr>) fl
      else if dir_Name d = ''max-age'' then
        (let (secs, err) = ParseInt (dir_Arg d) 10;
             out' = out\<lparr>rq_MaxAge := word_of_int secs * 1000000000\<rparr>
         in case err of Some e \<Rightarrow> (out', Inl e) | None \<Rightarrow> request_loop ds out' fl)
      else if dir_Name d = ''min-fresh'' then
        (let (secs, err) = ParseInt (dir_Arg d) 10;
             out' = out\<lparr>rq_MinFresh := word_of_int secs * 1000000000\<rparr>
         in case err of Some e \<Rightarrow> (out', Inl e) | None \<Rightarrow> request_loop ds out' fl)
      else if dir_Name d = ''max-stale'' then
        (let (secs, err) = ParseInt (dir_Arg d) 10;
             out' = out\<lparr>rq_MaxStale := word_of_int secs * 1000000000\<rparr>
         in case err of Some e \<Rightarrow> (out', Inl e) | None \<Rightarrow> request_loop ds out' fl)
      else if dir_Name d = ''no-cache'' then request_loop ds out (fl\<lparr>qf_noCache := True\<rparr>)
      else if dir_Name d = ''no-store'' then request_loop ds out (fl\<lparr>qf_noStore := True\<rparr>)
      else if dir_Name d = ''only-if-cached'' then request_loop ds out (fl\<lparr>qf_onlyIfCached := True\<rparr>)
      else request_loop ds (out\<lparr>rq_Extras := rq_Extras out @ [d]\<rparr>) fl)"

definition ParseRequestCacheControlDirectives ::
  "CacheControlDirective list \<Rightarrow> RequestCacheControl \<times> cache_error option" where
  "ParseRequestCacheControlDirectives ds =
     (case request_loop ds defaultRequestCacheControl no_request_flags of
        (out, Inl err) \<Rightarrow> (out, Some (NumberError err))
      | (out, Inr fl) \<Rightarrow>
          (if qf_onlyIfCached fl then out\<lparr>rq_Mode := RequestCacheModeOnlyIfCached\<rparr>
           else if qf_noStore fl then out\<lparr>rq_Mode := RequestCacheModeNoStore\<rparr>
           else if qf_noCache fl then out\<lparr>rq_Mode := RequestCacheModeNoCache\<rparr>
           else out, None))"

definition ParseRequestCacheControlHeaders ::
  "string list \<Rightarrow> string list \<Rightarrow> (RequestCacheControl \<times> cache_error option) go" where
  "ParseRequestCacheControlHeaders cacheControl pragma =
     bind_go (ParseCacheControlDirectives cacheControl) (\<lambda>(ds, err).
       case err of
         Some e \<Rightarrow> Inr (defaultRequestCacheControl, Some (QuotedError e))
       | None \<Rightarrow> Inr (ParseRequestCacheControlDirectives ds))"

subsection \<open>\<open>Request\<close>\<close>

record Request =
  MethodStr :: string
  req_Header :: Header
  req_hasCacheControl :: bool
  req_cacheControl :: RequestCacheControl

definition Request_ParseCacheControl :: "Processor \<Rightarrow> Request \<Rightarrow> (cache_error option \<times> Request) go" where
  "Request_ParseCacheControl p r =
     (let cc = GetValues p (req_Header r) ''cache-control'' in
      if length cc > 0 then
        bind_go (ParseRequestCacheControlHeaders cc (GetValues p (req_Header r) ''pragma'')) (\<lambda>(c, err).
          let r1 = r\<lparr>req_cacheControl := c\<rparr> in
          if err \<noteq> None then Inr (err, r1) else Inr (None, r1\<lparr>req_hasCacheControl := True\<rparr>))
      else Inr (None, r\<lparr>req_cacheControl := defaultRequestCacheControl, req_hasCacheControl := True\<rparr>))"

definition Request_CacheControl ::
  "Processor \<Rightarrow> Request \<Rightarrow> (RequestCacheControl \<times> cache_error option \<times> Request) go" where
  "Request_CacheControl p r =
     (if \<not> req_hasCacheControl r then
        bind_go (Request_ParseCacheControl p r) (\<lambda>(err, r'). Inr (req_cacheControl r', err, r'))
      else Inr (req_cacheControl r, None, r))"

definition Request_FormatCacheControl :: "Processor \<Rightarrow> Request \<Rightarrow> (quoted_error option \<times> Request) go" where
  "Request_FormatCacheControl p r =
     (if req_hasCacheControl r then
        (let (cc, prag, err) = RequestCacheControl_Headers (req_cacheControl r) in
         bind_go (SetValues p ''cache-control'' cc (req_Header r)) (\<lambda>h1.
           case prag of
             PragmaNoCacheYes \<Rightarrow>
               bind_go (Has p ''pragma'' [''no-cache''] h1) (\<lambda>(has, h2).
                 if \<not> has then
                   bind_go (Header_Add p ''pragma'' ''no-cache'' h2) (\<lambda>h3. Inr (err, r\<lparr>req_Header := h3\<rparr>))
                 else Inr (err, r\<lparr>req_Header := h2\<rparr>))
           | PragmaNoCacheNo \<Rightarrow> Inr (err, r\<lparr>req_Header := Header_Del p ''pragma'' h1\<rparr>)
           | PragmaNoCacheDoesntMatter \<Rightarrow> Inr (err, r\<lparr>req_Header := h1\<rparr>)))
      else Inr (None, r))"

definition Request_DiscardCacheControl :: "Request \<Rightarrow> Request" where
  "Request_DiscardCacheControl r = r\<lparr>req_hasCacheControl := False\<rparr>"

definition Request_Ranges :: "Processor \<Rightarrow> Request \<Rightarrow> (Range list option \<times> http_error option) go" where
  "Request_Ranges p r =
     (if MethodStr r = ''GET'' then
        (let rhs = GetValues p (req_Header r) ''Range'' in
         if length rhs \<noteq> 0 then ParseRangeHeader (rhs ! (length rhs - 1)) else Inr (None, None))
      else Inr (None, None))"

definition Request_SetRanges ::
  "Processor \<Rightarrow> Range list \<Rightarrow> Request \<Rightarrow> (range_format_error option \<times> Request) go" where
  "Request_SetRanges p ranges r =
     (let (val, err) = FormatRanges ranges in
      if val = '''' then Inr (err, r\<lparr>req_Header := Header_Del p ''Range'' (req_Header r)\<rparr>)
      else bind_go (Header_Set p ''Range'' val (req_Header r)) (\<lambda>h. Inr (err, r\<lparr>req_Header := h\<rparr>)))"

subsection \<open>\<open>Response\<close>\<close>

record Response =
  resp_Header :: Header
  resp_hasCacheControl :: bool
  resp_cacheControl :: ResourceCacheControl

definition Response_ParseCacheControl ::
  "(string \<Rightarrow> int option) \<Rightarrow> int \<Rightarrow> Processor \<Rightarrow> 'x Response_scheme \<Rightarrow> (cache_error option \<times> 'x Response_scheme) go" where
  "Response_ParseCacheControl parse_time now p r =
     (let cc = GetValues p (resp_Header r) ''cache-control'' in
      if length cc > 0 then
        bind_go (ParseResourceCacheControlHeaders parse_time now cc (Header_Get p (resp_Header r) ''expires''))
          (\<lambda>(c, err). let r1 = r\<lparr>resp_cacheControl := c\<rparr> in
             if err \<noteq> None then Inr (err, r1) else Inr (None, r1\<lparr>resp_hasCacheControl := True\<rparr>))
      else Inr (None, r\<lparr>resp_cacheControl := resource_start, resp_hasCacheControl := True\<rparr>))"

definition Response_CacheControl ::
  "(string \<Rightarrow> int option) \<Rightarrow> int \<Rightarrow> Processor \<Rightarrow> 'x Response_scheme
     \<Rightarrow> (ResourceCacheControl \<times> cache_error option \<times> 'x Response_scheme) go" where
  "Response_CacheControl parse_time now p r =
     (if \<not> resp_hasCacheControl r then
        bind_go (Response_ParseCacheControl parse_time now p r) (\<lambda>(err, r'). Inr (resp_cacheControl r', err, r'))
      else Inr (resp_cacheControl r, None, r))"

definition Response_FormatCacheControl ::
  "(int \<Rightarrow> string) \<Rightarrow> int \<Rightarrow> Processor \<Rightarrow> 'x Response_scheme \<Rightarrow> (quoted_error option \<times> 'x Response_scheme) go" where
  "Response_FormatCacheControl format_time now p r =
     (if resp_hasCacheControl r then
        (let (res, c) = ResourceCacheControl_Headers format_time now (resp_cacheControl r);
             (cc, expires, err) = (case res of Inl e \<Rightarrow> ([], '''', Some e) | Inr (sds, ex) \<Rightarrow> (sds, ex, None))
         in bind_go (SetValues p ''cache-control'' cc (resp_Header r)) (\<lambda>h1.
              if expires \<noteq> '''' then
                bind_go (Header_Set p ''expires'' expires h1) (\<lambda>h2.
                  Inr (err, r\<lparr>resp_Header := h2, resp_cacheControl := c\<rparr>))
              else Inr (err, r\<lparr>resp_Header := Header_Del p ''expires'' h1, resp_cacheControl := c\<rparr>)))
      else Inr (None, r))"

definition Response_DiscardCacheControl :: "'x Response_scheme \<Rightarrow> 'x Response_scheme" where
  "Response_DiscardCacheControl r = r\<lparr>resp_hasCacheControl := False\<rparr>"

definition WasCached :: "Processor \<Rightarrow> 'x Response_scheme \<Rightarrow> bool" where
  "WasCached p r = (length (GetValues p (resp_Header r) ''Age'') \<noteq> 0)"

definition SetCachedAge :: "Processor \<Rightarrow> duration \<Rightarrow> 'x Response_scheme \<Rightarrow> 'x Response_scheme go" where
  "SetCachedAge p t r =
     bind_go (Header_Set p ''Age'' (FormatInt (seconds t) 10) (resp_Header r)) (\<lambda>h. Inr (r\<lparr>resp_Header := h\<rparr>))"

text \<open>
  \<open>for ageStr := range ages\<close> runs over the indices, and \<open>string(ageStr)\<close> is the UTF-8 text of the
  rune with that number. The body is written for an index; only index 0 is ever reached.
\<close>

definition rune_text :: "nat \<Rightarrow> string" where
  "rune_text i = (if i < 0x80 then [char_of i]
     else if i < 0x800 then [char_of (0xC0 + i div 64), char_of (0x80 + i mod 64)]
     else if 0xD800 \<le> i \<and> i \<le> 0xDFFF \<or> 0x10FFFF < i then [CHR 0xEF, CHR 0xBF, CHR 0xBD]
     else if i < 0x10000 then
       [char_of (0xE0 + i div 4096), char_of (0x80 + (i div 64) mod 64), char_of (0x80 + i mod 64)]
     else [char_of (0xF0 + i div 262144), char_of (0x80 + (i div 4096) mod 64),
           char_of (0x80 + (i div 64) mod 64), char_of (0x80 + i mod 64)])"

fun CachedAge_loop :: "nat \<Rightarrow> nat \<Rightarrow> duration \<Rightarrow> duration \<times> num_error option" where
  "CachedAge_loop i 0 secs = (secs * 1000000000, None)"
| "CachedAge_loop i (Suc n) secs =
     (let (t, err) = ParseUint (rune_text i) 10 63; ts = of_nat t in
      if err \<noteq> None then (secs * 1000000000, err)
      else CachedAge_loop (i + 1) n (if secs <s ts then ts else secs))"

definition CachedAge :: "Processor \<Rightarrow> 'x Response_scheme \<Rightarrow> duration \<times> num_error option" where
  "CachedAge p r = CachedAge_loop 0 (length (GetValues p (resp_Header r) ''Age'')) 0"

subsection \<open>Reading back the cache settings of a request\<close>

definition known_request_names :: "string list" where
  "known_request_names = [''no-transform'', ''max-age'', ''min-fresh'', ''max-stale'', ''no-cache'',
     ''no-store'', ''only-if-cached'']"

text \<open>
  An extra directive that can be written and is none of the settings: its name is a token in lower case, as the
  comment of the type asks, and its argument any ASCII text that \<open>HeaderString\<close> accepts. It is read back with
  its argument in the form in which it was written.
\<close>

definition sendable_extra :: "CacheControlDirective \<Rightarrow> bool" where
  "sendable_extra d \<longleftrightarrow> list_all IsTokenChar (dir_Name d) \<and> to_lower (dir_Name d) = dir_Name d
     \<and> ascii (dir_Arg d) \<and> snd (HeaderString d) = None \<and> dir_Name d \<notin> set known_request_names"

definition read_back :: "CacheControlDirective \<Rightarrow> CacheControlDirective" where
  "read_back d = d\<lparr>dir_Arg := fst (FormatTokenOrQuotedString (dir_Arg d))\<rparr>"

definition directive_text_of :: "CacheControlDirective \<Rightarrow> string" where
  "directive_text_of d = fst (HeaderString d)"

lemma Format_token: "list_all IsTokenChar s \<Longrightarrow> FormatTokenOrQuotedString s = (s, None)"
proof -
  have "list_all IsTokenChar s \<Longrightarrow> FormatTokenOrQuotedString_loop s out False = (out @ s, False, None)" for out
  proof (induction s arbitrary: out)
    case (Cons c s)
    then have "decode_rune (c # s) = (of_char c, 1)" by (simp add: decode_rune_ascii token_ascii)
    with Cons show ?case by (simp add: FormatTokenOrQuotedString_loop.simps [of "c # s"])
  qed (simp add: FormatTokenOrQuotedString_loop.simps)
  from this [of "[]"] show "list_all IsTokenChar s \<Longrightarrow> FormatTokenOrQuotedString s = (s, None)"
    by (simp add: FormatTokenOrQuotedString_def)
qed

lemma tokens_ascii: "list_all IsTokenChar s \<Longrightarrow> ascii s"
  by (auto simp: ascii_def list_all_iff token_ascii)

lemma sendable_extra_text:
  assumes "sendable_extra d"
  shows "HeaderString d = (directive_text_of d, None)"
    and "ParseCacheControlDirective (directive_text_of d) = Inr (read_back d, None)"
proof -
  show h: "HeaderString d = (directive_text_of d, None)"
    using assms by (cases "HeaderString d") (simp add: sendable_extra_def directive_text_of_def)
  show "ParseCacheControlDirective (directive_text_of d) = Inr (read_back d, None)"
    using directive_text [OF _ _ _ h] assms by (simp add: sendable_extra_def read_back_def)
qed

lemma sendable_extra_arg:
  assumes "sendable_extra d"
  shows "if list_all IsTokenChar (dir_Arg d) then read_back d = d
    else ParseFullQuotedString (dir_Arg (read_back d)) = Inr (dir_Arg d, None)"
proof (cases "dir_Arg d = []")
  case True
  then show ?thesis by (simp add: read_back_def FormatTokenOrQuotedString_def FormatTokenOrQuotedString_loop.simps)
next
  case False
  then obtain arg where arg: "FormatTokenOrQuotedString (dir_Arg d) = (arg, None)"
    using assms by (auto simp: sendable_extra_def HeaderString_def Let_def split: prod.splits)
  have "ascii (dir_Arg d)" using assms by (simp add: sendable_extra_def)
  from Format_then_parse [OF this arg] arg show ?thesis by (simp add: read_back_def)
qed

lemma extra_headers_sendable:
  "list_all sendable_extra es \<Longrightarrow> extra_headers es ds = (ds @ map directive_text_of es, None)"
  by (induction es arbitrary: ds) (simp_all add: sendable_extra_text)

lemma request_loop_extras:
  "list_all (\<lambda>d. dir_Name d \<notin> set known_request_names) es \<Longrightarrow>
    request_loop (es @ ds) out fl = request_loop ds (out\<lparr>rq_Extras := rq_Extras out @ es\<rparr>) fl"
  by (induction es arbitrary: out) (simp_all add: known_request_names_def)

text \<open>The directives that the mode and the transform flag are written as.\<close>

definition mode_directives :: "RequestCacheControl \<Rightarrow> CacheControlDirective list" where
  "mode_directives rcc =
     map (\<lambda>n. \<lparr>dir_Name = n, dir_Arg = ''''\<rparr>)
       (fst (modeHeaders rcc) @ (if rq_CanTransform rcc then [] else [''no-transform'']))"

lemma mode_tokens:
  "n \<in> set (fst (modeHeaders rcc) @ (if rq_CanTransform rcc then [] else [''no-transform''])) \<Longrightarrow>
    list_all IsTokenChar n"
proof -
  have t: "list_all IsTokenChar ''no-cache''" "list_all IsTokenChar ''no-store''"
    "list_all IsTokenChar ''only-if-cached''" "list_all IsTokenChar ''no-transform''"
    by code_simp+
  show "n \<in> set (fst (modeHeaders rcc) @ (if rq_CanTransform rcc then [] else [''no-transform''])) \<Longrightarrow>
    list_all IsTokenChar n"
    using t by (cases "rq_Mode rcc") (auto simp only: modeHeaders_def fst_conv append.simps list.set set_append
        Un_iff insert_iff empty_iff RequestCacheMode.case prod.case split: if_splits)
qed

lemma zero_not_known: "dir_Name zero_directive \<notin> set known_request_names"
  by (simp add: zero_directive_def known_request_names_def)

lemma parse_mode_directives:
  "list_all (\<lambda>d. dir_Name d \<notin> set known_request_names) es \<Longrightarrow>
    ParseRequestCacheControlDirectives (replicate n zero_directive @ mode_directives rcc @ es)
    = (rcc\<lparr>rq_MaxAge := -1, rq_MinFresh := -1, rq_MaxStale := -1,
         rq_Extras := replicate n zero_directive @ es\<rparr>, None)"
  using zero_not_known request_loop_extras [of es "[]"]
  by (cases "rq_Mode rcc"; cases "rq_CanTransform rcc")
    (simp_all add: ParseRequestCacheControlDirectives_def request_loop_extras list_all_iff
      mode_directives_def modeHeaders_def defaultRequestCacheControl_def no_request_flags_def)

subsection \<open>Properties\<close>

text \<open>
  C39: the cache settings of a request that are written as header values and read back: mode and
  transform flag are exact, the three durations are lost (they are never written), and the
  extra directives come back in their order behind one empty directive per header value, which the directive
  parser puts in front of its result. An extra whose argument is a token, or that has none, comes back as it was;
  any other one comes back with its argument quoted. The extras are directives that can be written, by a name in
  lower case that is none of the settings' own.
\<close>

theorem request_cache_roundtrip:
  assumes "list_all sendable_extra (rq_Extras rcc)"
  shows "\<exists>ss prag. RequestCacheControl_Headers rcc = (ss, prag, None)
    \<and> ParseRequestCacheControlHeaders ss pragma
      = Inr (rcc\<lparr>rq_MaxAge := -1, rq_MinFresh := -1, rq_MaxStale := -1,
          rq_Extras := replicate (length ss) zero_directive @ map read_back (rq_Extras rcc)\<rparr>, None)
    \<and> list_all (\<lambda>d. if list_all IsTokenChar (dir_Arg d) then read_back d = d
        else ParseFullQuotedString (dir_Arg (read_back d)) = Inr (dir_Arg d, None)) (rq_Extras rcc)"
proof -
  define ms where "ms = fst (modeHeaders rcc) @ (if rq_CanTransform rcc then [] else [''no-transform''])"
  define ss where "ss = ms @ map directive_text_of (rq_Extras rcc)"
  have h: "RequestCacheControl_Headers rcc = (ss, snd (modeHeaders rcc), None)"
    using assms by (cases "modeHeaders rcc")
      (simp add: RequestCacheControl_Headers_def extra_headers_sendable ss_def ms_def)
  have "list_all2 (\<lambda>s d. ParseCacheControlDirective s = Inr (d, None)) ms (mode_directives rcc)"
    unfolding mode_directives_def ms_def [symmetric] list_all2_map2
    by (rule list.rel_refl_strong) (use mode_tokens ms_def parse_bare in auto)
  moreover have "list_all2 (\<lambda>s d. ParseCacheControlDirective s = Inr (d, None))
      (map directive_text_of (rq_Extras rcc)) (map read_back (rq_Extras rcc))"
    unfolding list_all2_map1 list_all2_map2
    by (rule list.rel_refl_strong) (use assms sendable_extra_text in \<open>auto simp: list_all_iff\<close>)
  ultimately have "ParseCacheControlDirectives ss
      = Inr (replicate (length ss) zero_directive @ mode_directives rcc @ map read_back (rq_Extras rcc), None)"
    unfolding ss_def by (intro ParseDirectives_ok list_all2_appendI)
  moreover have "list_all (\<lambda>d. dir_Name d \<notin> set known_request_names) (map read_back (rq_Extras rcc))"
    using assms by (auto simp: list_all_iff sendable_extra_def read_back_def)
  ultimately have "ParseRequestCacheControlHeaders ss pragma
      = Inr (rcc\<lparr>rq_MaxAge := -1, rq_MinFresh := -1, rq_MaxStale := -1,
          rq_Extras := replicate (length ss) zero_directive @ map read_back (rq_Extras rcc)\<rparr>, None)"
    by (simp add: ParseRequestCacheControlHeaders_def parse_mode_directives)
  moreover have "list_all (\<lambda>d. if list_all IsTokenChar (dir_Arg d) then read_back d = d
        else ParseFullQuotedString (dir_Arg (read_back d)) = Inr (dir_Arg d, None)) (rq_Extras rcc)"
    using assms sendable_extra_arg unfolding list_all_iff by blast
  ultimately show ?thesis using h by blast
qed

theorem request_cache_roundtrip_witness:
  "\<exists>ss prag. RequestCacheControl_Headers
      (defaultRequestCacheControl\<lparr>rq_Mode := RequestCacheModeNoStore, rq_MaxAge := 60,
        rq_Extras := [\<lparr>dir_Name = ''x'', dir_Arg = ''1''\<rparr>, \<lparr>dir_Name = ''y'', dir_Arg = ''a b''\<rparr>]\<rparr>) = (ss, prag, None)
    \<and> ParseRequestCacheControlHeaders ss [] = Inr
        (defaultRequestCacheControl\<lparr>rq_Mode := RequestCacheModeNoStore,
          rq_Extras := replicate (length ss) zero_directive
            @ [\<lparr>dir_Name = ''x'', dir_Arg = ''1''\<rparr>, \<lparr>dir_Name = ''y'', dir_Arg = CHR 0x22 # ''a b'' @ [CHR 0x22]\<rparr>]\<rparr>, None)"
proof -
  let ?es = "[\<lparr>dir_Name = ''x'', dir_Arg = ''1''\<rparr>, \<lparr>dir_Name = ''y'', dir_Arg = ''a b''\<rparr>]"
  let ?r = "defaultRequestCacheControl\<lparr>rq_Mode := RequestCacheModeNoStore, rq_MaxAge := 60, rq_Extras := ?es\<rparr>"
  have "sendable_extra \<lparr>dir_Name = ''x'', dir_Arg = ''1''\<rparr>" "sendable_extra \<lparr>dir_Name = ''y'', dir_Arg = ''a b''\<rparr>" by code_simp+
  then have s: "list_all sendable_extra (rq_Extras ?r)" by simp
  have b: "map read_back ?es = [\<lparr>dir_Name = ''x'', dir_Arg = ''1''\<rparr>, \<lparr>dir_Name = ''y'', dir_Arg = CHR 0x22 # ''a b'' @ [CHR 0x22]\<rparr>]"
    by code_simp
  from request_cache_roundtrip [OF s, of "[]"] obtain ss prag where "RequestCacheControl_Headers ?r = (ss, prag, None)"
    "ParseRequestCacheControlHeaders ss [] = Inr (?r\<lparr>rq_MaxAge := -1, rq_MinFresh := -1, rq_MaxStale := -1,
          rq_Extras := replicate (length ss) zero_directive @ map read_back ?es\<rparr>, None)"
    by (simp del: list.map) blast
  then show ?thesis unfolding b by (intro exI [of _ ss] exI [of _ prag]) (simp add: defaultRequestCacheControl_def)
qed

text \<open>
  \<open>CachedAge\<close> never reads an age: with any Age value present it reports a syntax error, because
  it parses the index of the value (as a rune) instead of the value.
\<close>

theorem CachedAge_never_reads:
  "CachedAge p r =
    (if GetValues p (resp_Header r) ''Age'' = [] then (0, None) else (0, Some ErrSyntax))"
proof (cases "GetValues p (resp_Header r) ''Age''")
  case (Cons a as)
  have "ParseUint (rune_text 0) 10 63 = (0, Some ErrSyntax)"
    by (simp add: rune_text_def ParseUint_def digit_val_def less_eq_char_def)
  with Cons show ?thesis by (simp add: CachedAge_def Let_def)
qed (simp add: CachedAge_def)

text \<open>
  Ranges that are set are not read back: with the standard processor the parser panics on the
  stored value or ignores it.
\<close>

theorem SetRanges_not_read:
  assumes "rs \<noteq> []" "list_all representable rs" "MethodStr r = ''GET''"
  shows "\<exists>r'. Request_SetRanges standard_processor rs r = Inr (None, r')
    \<and> Request_Ranges standard_processor r' = ParseRangeHeader (to_lower (fst (FormatRanges rs)))"
proof -
  obtain q qs where rs: "rs = q # qs" using assms(1) by (cases rs) auto
  with FormatRanges_eq [of q qs] assms(2) range_text_start [of q] obtain s where
    s: "FormatRanges rs = (s, None)" "s \<noteq> []" by auto
  obtain h where h: "SetValues standard_processor ''Range'' [s] (req_Header r) = Inr h"
    and g: "\<And>k'. GetValues standard_processor h k' =
      (if GetKey standard_processor k' = GetKey standard_processor ''Range'' then map to_lower [s]
       else GetValues standard_processor (req_Header r) k')"
    using standard_store.set_total by blast
  then show ?thesis
    using s assms(3) by (simp add: Request_SetRanges_def Header_Set_def Request_Ranges_def g)
qed

end
