(* ===== verification/Version_Method.thy ===== *)
theory Version_Method
  imports Http_Error
begin

section \<open>Versions and methods: \<open>http/version.go\<close>, \<open>http/methods.go\<close>, \<open>jps/methods.go\<close>\<close>

text \<open>
  The parser and the formatter of \<open>HTTP/<major>.<minor>\<close>, with the parser's short cuts for the
  versions in use, and the two translations between HTTP method names and the server's methods.
\<close>

record Version =
  Major :: "16 word"
  Minor :: "16 word"

definition Version_Format :: "Version \<Rightarrow> string" where
  "Version_Format v = ''HTTP/'' @ FormatUint (unat (Major v)) 10 @ ''.'' @ FormatUint (unat (Minor v)) 10"

text \<open>The part after the two switches, which fall through to it when no case matches.\<close>

definition ParseHTTPVersion_slow :: "string \<Rightarrow> Version \<times> http_error option" where
  "ParseHTTPVersion_slow s =
     (case index_byte s CHR ''.'' of
        None \<Rightarrow> (\<lparr>Major = 0, Minor = 0\<rparr>, Some ErrMalformedHTTPVersionNoDot)
      | Some dot \<Rightarrow>
          (case ParseUint (take dot s) 10 16 of
             (_, Some err) \<Rightarrow> (\<lparr>Major = 0, Minor = 0\<rparr>, Some (MakeErrMalformedHTTPVersion (NumError err)))
           | (major, None) \<Rightarrow>
               (case ParseUint (drop (dot + 1) s) 10 16 of
                  (_, Some err) \<Rightarrow>
                    (\<lparr>Major = of_nat major, Minor = 0\<rparr>, Some (MakeErrMalformedHTTPVersion (NumError err)))
                | (minor, None) \<Rightarrow> (\<lparr>Major = of_nat major, Minor = of_nat minor\<rparr>, None))))"

definition ParseHTTPVersion :: "string \<Rightarrow> Version \<times> http_error option" where
  "ParseHTTPVersion s0 =
     (if \<not> has_prefix s0 ''HTTP/'' then
        (\<lparr>Major = 0, Minor = 0\<rparr>, Some ErrMalformedHTTPVersionDoesNotStartWithHTTP)
      else (let s = drop 5 s0 in
        if length s = 0 then (\<lparr>Major = 0, Minor = 0\<rparr>, Some ErrMalformedHTTPVersionNoVersion)
        else if s ! 0 = CHR ''1'' \<and> drop 1 s = ''.1'' then (\<lparr>Major = 1, Minor = 1\<rparr>, None)
        else if s ! 0 = CHR ''1'' \<and> drop 1 s = ''.0'' then (\<lparr>Major = 1, Minor = 0\<rparr>, None)
        else if s ! 0 = CHR ''2'' \<and> drop 1 s = ''.0'' then (\<lparr>Major = 2, Minor = 0\<rparr>, None)
        else if s ! 0 = CHR ''3'' \<and> drop 1 s = ''.0'' then (\<lparr>Major = 3, Minor = 0\<rparr>, None)
        else ParseHTTPVersion_slow s))"

subsection \<open>Methods\<close>

datatype Method = MethodUnknown | MethodOptions | MethodStat | MethodRead | MethodReadDir
  | MethodReadFile | MethodReadLink | MethodPost | MethodMkdir | MethodMkfile | MethodWrite
  | MethodMove | MethodRemove | MethodRemoveAll | MethodLink | MethodChown | MethodChmod
  | MethodChtimes

definition GetMethod :: "string \<Rightarrow> Method" where
  "GetMethod str =
     (if str = ''GET'' then MethodRead
      else if str = ''POST'' then MethodPost
      else if str = ''PUT'' then MethodWrite
      else if str = ''HEAD'' then MethodStat
      else if str = ''OPTIONS'' then MethodOptions
      else if str = ''DELETE'' then MethodRemove
      else MethodUnknown)"

fun GetMethodStr :: "Method \<Rightarrow> string" where
  "GetMethodStr MethodRead = ''GET''"
| "GetMethodStr MethodPost = ''POST''"
| "GetMethodStr MethodWrite = ''PUT''"
| "GetMethodStr MethodStat = ''HEAD''"
| "GetMethodStr MethodOptions = ''OPTIONS''"
| "GetMethodStr MethodRemove = ''DELETE''"
| "GetMethodStr _ = ''''"

datatype method_error = ErrMethodNotSupported

text \<open>\<open>Request.SetMethod\<close> gives the error and the new method string of the request.\<close>

definition SetMethod :: "Method \<Rightarrow> method_error option \<times> string" where
  "SetMethod method =
     (let str = GetMethodStr method in (if str = '''' then Some ErrMethodNotSupported else None, str))"

subsection \<open>Lemmas\<close>

lemma slow_Format:
  "ParseHTTPVersion_slow (FormatUint (unat (Major v)) 10 @ ''.'' @ FormatUint (unat (Minor v)) 10) = (v, None)"
proof -
  have dot: "CHR ''.'' \<notin> set (FormatUint n 10)" for n
    unfolding FormatUint_def by (rule not_digit_notin_format) (simp add: less_eq_char_def)
  have i: "index_byte (FormatUint m 10 @ CHR ''.'' # s) CHR ''.'' = Some (length (FormatUint m 10))" for m s
    using dot by (rule index_byte_append)
  have lt: "unat x < 2 ^ 16" for x :: "16 word" using unsigned_less [of x] by simp
  have p: "ParseUint (FormatUint (unat x) 10) 10 16 = (unat x, None)" for x :: "16 word"
    using lt [of x] by (intro ParseUint_FormatUint) auto
  show ?thesis by (simp add: ParseHTTPVersion_slow_def i p)
qed

text \<open>The short cuts of the two switches give what the general path gives.\<close>

lemma ParseHTTPVersion_short_cuts:
  assumes "s \<noteq> []"
  shows "ParseHTTPVersion (''HTTP/'' @ s) = ParseHTTPVersion_slow s"
proof -
  have eq: "s ! 0 = c \<and> drop 1 s = t \<longleftrightarrow> s = c # t" for c t using assms by (cases s) auto
  have d: "drop 5 (''HTTP/'' @ s) = s" "has_prefix (''HTTP/'' @ s) ''HTTP/''" "length s \<noteq> 0"
    using assms by (simp_all add: has_prefix_def)
  have fast: "ParseHTTPVersion_slow ''1.1'' = (\<lparr>Major = 1, Minor = 1\<rparr>, None)"
    "ParseHTTPVersion_slow ''1.0'' = (\<lparr>Major = 1, Minor = 0\<rparr>, None)"
    "ParseHTTPVersion_slow ''2.0'' = (\<lparr>Major = 2, Minor = 0\<rparr>, None)"
    "ParseHTTPVersion_slow ''3.0'' = (\<lparr>Major = 3, Minor = 0\<rparr>, None)"
    by (simp_all add: ParseHTTPVersion_slow_def ParseUint_def digit_val_def less_eq_char_def)
  show ?thesis
    unfolding ParseHTTPVersion_def d Let_def eq
    by (simp only: d if_False if_True not_True_eq_False fast [symmetric] split: if_split) blast
qed

subsection \<open>Properties\<close>

text \<open>
  The version parser reads back every version the formatter prints, all pairs of 16-bit
  numbers, through its short cuts and through the general path alike.
\<close>

theorem ParseHTTPVersion_Format: "ParseHTTPVersion (Version_Format v) = (v, None)"
  unfolding Version_Format_def using slow_Format by (subst ParseHTTPVersion_short_cuts) simp_all

text \<open>
  The two translations agree: a method that \<open>SetMethod\<close> accepts is the one \<open>GetMethod\<close> reads
  from the string it sets, and a string that \<open>GetMethod\<close> knows is the string of its method.
\<close>

theorem method_roundtrip:
  "(fst (SetMethod m) = None \<longrightarrow> GetMethod (snd (SetMethod m)) = m)
    \<and> (GetMethod s \<noteq> MethodUnknown \<longrightarrow> SetMethod (GetMethod s) = (None, s))"
  by (cases m) (auto simp: SetMethod_def GetMethod_def)

theorem method_roundtrip_witness:
  "GetMethod (snd (SetMethod MethodStat)) = MethodStat \<and> SetMethod (GetMethod ''PUT'') = (None, ''PUT'')"
  using method_roundtrip [of MethodStat "''PUT''"] by (simp add: SetMethod_def GetMethod_def)

end
