(* ===== verification/Request_Parser.thy ===== *)
theory Request_Parser
  imports Header_Parser Request_Response Version_Method
begin

section \<open>Requests and responses on the wire: \<open>requestParser.go\<close>, \<open>headerFormatter.go\<close>, \<open>reponseFormatter.go\<close>\<close>

text \<open>
  The formatters write a header store field by field, joining the values of a field with commas; the
  order of the keys, which Go leaves open, is an argument. The request parser reads the request
  line, then the fields with an adder that holds the read lock of the header processor. The URL parser
  of \<open>net/url\<close> is an argument: of its result the code uses the scheme and the host, the rest stays
  abstract.
\<close>

subsection \<open>Formatting\<close>

fun format_values :: "string list \<Rightarrow> string go" where
  "format_values [] = Inl IndexOutOfRange"
| "format_values [v] = Inr v"
| "format_values (v # vs) = bind_go (format_values vs) (\<lambda>s. Inr (v @ '', '' @ s))"

definition CRLF :: string where "CRLF = [CHR 0x0D, CHR 0x0A]"

definition FormatHeaders_cb :: "string \<Rightarrow> string list \<Rightarrow> string go \<Rightarrow> io_error option \<times> string go" where
  "FormatHeaders_cb key values s =
     (None, bind_go s (\<lambda>s'. bind_go (format_values values) (\<lambda>v. Inr (s' @ key @ '': '' @ v @ CRLF))))"

definition FormatHeaders :: "Header \<Rightarrow> string list \<Rightarrow> string go" where
  "FormatHeaders h keys = snd (ForEach FormatHeaders_cb h keys None (Inr []))"

text \<open>
  The two writers send the same pieces one by one to a writer \<open>w\<close>, which takes a piece and its state;
  the first stops a field at an error, the second ignores errors.
\<close>

fun write_pieces :: "(string \<Rightarrow> 'w \<Rightarrow> io_error option \<times> 'w) \<Rightarrow> string list \<Rightarrow> 'w \<Rightarrow> io_error option \<times> 'w" where
  "write_pieces w [] st = (None, st)"
| "write_pieces w (s # ss) st =
     (case w s st of
        (Some err, st') \<Rightarrow> (Some err, st')
      | (None, st') \<Rightarrow> write_pieces w ss st')"

fun write_all :: "(string \<Rightarrow> 'w \<Rightarrow> io_error option \<times> 'w) \<Rightarrow> string list \<Rightarrow> 'w \<Rightarrow> 'w" where
  "write_all w [] st = st"
| "write_all w (s # ss) st = write_all w ss (snd (w s st))"

fun value_pieces :: "string list \<Rightarrow> string list go" where
  "value_pieces [] = Inl IndexOutOfRange"
| "value_pieces [v] = Inr [v]"
| "value_pieces (v # vs) = bind_go (value_pieces vs) (\<lambda>ps. Inr (v # '', '' # ps))"

definition WriteHeaders_cb ::
  "(string \<Rightarrow> 'w \<Rightarrow> io_error option \<times> 'w) \<Rightarrow> string \<Rightarrow> string list \<Rightarrow> 'w go \<Rightarrow> io_error option \<times> 'w go" where
  "WriteHeaders_cb w key values st =
     (case st of
        Inl p \<Rightarrow> (None, Inl p)
      | Inr st' \<Rightarrow>
          (case value_pieces values of
             Inl p \<Rightarrow> (None, Inl p)
           | Inr ps \<Rightarrow> (let (err, st'') = write_pieces w (key # '': '' # ps @ [CRLF]) st' in (err, Inr st''))))"

definition WriteHeaders ::
  "(string \<Rightarrow> 'w \<Rightarrow> io_error option \<times> 'w) \<Rightarrow> Header \<Rightarrow> string list \<Rightarrow> 'w \<Rightarrow> io_error option \<times> 'w go" where
  "WriteHeaders w h keys st = ForEach (WriteHeaders_cb w) h keys None (Inr st)"

definition WriteHeadersNoError_cb ::
  "(string \<Rightarrow> 'w \<Rightarrow> io_error option \<times> 'w) \<Rightarrow> string \<Rightarrow> string list \<Rightarrow> 'w go \<Rightarrow> io_error option \<times> 'w go" where
  "WriteHeadersNoError_cb w key values st =
     (None, bind_go st (\<lambda>st'. bind_go (value_pieces values) (\<lambda>ps.
        Inr (write_all w (key # '': '' # ps @ [CRLF]) st'))))"

definition WriteHeadersNoError ::
  "(string \<Rightarrow> 'w \<Rightarrow> io_error option \<times> 'w) \<Rightarrow> Header \<Rightarrow> string list \<Rightarrow> 'w \<Rightarrow> io_error option \<times> 'w go" where
  "WriteHeadersNoError w h keys st = ForEach (WriteHeadersNoError_cb w) h keys None (Inr st)"

text \<open>\<open>status_text\<close> is the table of \<open>net/http\<close>.\<close>

record http_response = Response +
  StatusCode :: "16 word"
  StatusTextOf :: string
  resp_Version :: Version

definition FormatResponse :: "(nat \<Rightarrow> string) \<Rightarrow> 'x http_response_scheme \<Rightarrow> string list \<Rightarrow> string go" where
  "FormatResponse status_text resp keys =
     (let statusTxt = (if StatusTextOf resp = '''' then status_text (unat (StatusCode resp)) else StatusTextOf resp) in
      bind_go (FormatHeaders (resp_Header resp) keys) (\<lambda>hs.
        Inr (Version_Format (resp_Version resp) @ '' '' @ FormatUint (unat (StatusCode resp)) 10 @ '' ''
          @ statusTxt @ CRLF @ hs @ CRLF)))"

definition WriteResponse ::
  "(nat \<Rightarrow> string) \<Rightarrow> (string \<Rightarrow> 'w \<Rightarrow> io_error option \<times> 'w) \<Rightarrow> 'x http_response_scheme \<Rightarrow> string list \<Rightarrow> 'w
     \<Rightarrow> (io_error option \<times> 'w) go" where
  "WriteResponse status_text w resp keys st =
     bind_go (FormatResponse status_text resp keys) (\<lambda>s. Inr (w s st))"

subsection \<open>Parsing a request\<close>

record 'u URL =
  url_Scheme :: string
  url_Host :: string
  url_Rest :: 'u

record 'u http_request = Request +
  req_Version :: Version
  URLp :: "'u URL"

datatype request_error = ReqIO io_error | ReqHttp http_error | ReqHeaders header_error

definition KeepAlive :: "Processor \<Rightarrow> Version \<Rightarrow> Header \<Rightarrow> (bool \<times> Header) go" where
  "KeepAlive p v h =
     (if \<not> 1 \<le> Major v then Inr (False, h)
      else bind_go (Has p ''Connection'' [''close''] h) (\<lambda>(close, h1).
        if close then Inr (False, h1)
        else if \<not> (Minor v = 0 \<and> Major v = 1) then Inr (True, h1)
        else Has p ''Connection'' [''keep-alive''] h1))"

text \<open>
  The request line: its method, its URI and its version. With fewer than two spaces the index of the
  second is -1, whatever the first.
\<close>

datatype request_line = BadLine request_error | RequestLine string string Version

definition parse_request_line :: "string \<Rightarrow> request_line" where
  "parse_request_line reqLine =
     (if length reqLine < 2 \<or> reqLine ! (length reqLine - 2) \<noteq> CHR 0x0D then
        BadLine (ReqHttp ErrMalformedHTTPRequestExpectingCarraigeReturnBeforeNewline)
      else (let URIStart = (case index_byte reqLine (CHR '' '') of None \<Rightarrow> 0 | Some i \<Rightarrow> i + 1) in
        case index_byte (drop URIStart reqLine) (CHR '' '') of
          None \<Rightarrow> BadLine (ReqHttp ErrMalformedHTTPRequestExpecting2SpacesOnFirstRequestLine)
        | Some j \<Rightarrow>
            (let URIEnd = j + URIStart;
                 (v, err) = ParseHTTPVersion (take (length reqLine - 2 - (URIEnd + 1)) (drop (URIEnd + 1) reqLine))
             in case err of
                  Some e \<Rightarrow> BadLine (ReqHttp e)
                | None \<Rightarrow> RequestLine (take (URIStart - 1) reqLine) (take j (drop URIStart reqLine)) v)))"

text \<open>
  \<open>parse_uri\<close> gives the URL or the text of the error, with which Go returns a nil pointer. After a
  failed parse of the target of a CONNECT request the code writes through that pointer.
\<close>

definition parse_target ::
  "(string \<Rightarrow> string + 'u URL) \<Rightarrow> string \<Rightarrow> string \<Rightarrow> (string + 'u URL) go" where
  "parse_target parse_uri meth uri =
     (if meth = ''CONNECT'' \<and> (uri = [] \<or> uri ! 0 \<noteq> CHR ''/'') then
        (case parse_uri (''http://'' @ uri) of
           Inl e \<Rightarrow> Inl NilDereference
         | Inr u \<Rightarrow> Inr (Inr (u\<lparr>url_Scheme := ''''\<rparr>)))
      else Inr (parse_uri uri))"

text \<open>The result: the request or nil, the close flag, the error, and whether one can respond.\<close>

type_synonym 'u parse_result = "'u http_request option \<times> bool \<times> request_error option \<times> bool"

definition finish_request ::
  "Processor \<Rightarrow> string \<Rightarrow> Version \<Rightarrow> 'u URL \<Rightarrow> Header \<Rightarrow> 'u parse_result go" where
  "finish_request p meth v u h =
     (let hosts = GetValues p h ''Host'' in
      if length hosts \<noteq> 1 \<and> (Major v = 1 \<and> Minor v > 0 \<or> Major v > 1) then
        Inr (None, True, Some (ReqHttp ErrMustBe1HostHeader), True)
      else
        (let u' = (if length hosts = 1 \<and> url_Host u = '''' then u\<lparr>url_Host := hosts ! 0\<rparr> else u) in
         bind_go (KeepAlive p v h) (\<lambda>(keep, h').
           Inr (Some \<lparr>MethodStr = meth, req_Header = h', req_hasCacheControl = False,
                  req_cacheControl = defaultRequestCacheControl, req_Version = v, URLp = u'\<rparr>,
             \<not> keep, None, False))))"

definition ParseRequest ::
  "Processor \<Rightarrow> (string \<Rightarrow> string + 'u URL) \<Rightarrow> bufio \<Rightarrow> ('u parse_result \<times> bufio) go" where
  "ParseRequest p parse_uri reader =
     (let ((reqLine, err), r1) = bufio_ReadBytes (CHR 0x0A) reader in
      case err of
        Some e \<Rightarrow> Inr ((None, True, Some (ReqIO e), False), r1)
      | None \<Rightarrow>
          (case parse_request_line reqLine of
             BadLine e \<Rightarrow> Inr ((None, True, Some e, True), r1)
           | RequestLine meth uri v \<Rightarrow>
               bind_go (parse_target parse_uri meth uri) (\<lambda>target.
                 case target of
                   Inl e \<Rightarrow> Inr ((None, True, Some (ReqHttp (MakeErrMalformedURI (NewError e))), True), r1)
                 | Inr u \<Rightarrow>
                     bind_go (ParseHeaders (AddUnsafe p) (Processor_RLock New_Header) r1)
                       (\<lambda>(herr, canRespond, h, r2).
                         case herr of
                           Some e \<Rightarrow> Inr ((None, True, Some (ReqHeaders e), canRespond), r2)
                         | None \<Rightarrow>
                             bind_go (finish_request p meth v u (Processor_RUnlock h)) (\<lambda>res. Inr (res, r2))))))"

fun ParsePipes_loop :: "string list \<Rightarrow> bool \<Rightarrow> http_error option" where
  "ParsePipes_loop [] chunked = None"
| "ParsePipes_loop (c # cs) chunked =
     (if c = ''chunked'' then
        (if chunked then Some ErrCannotChunkAnAlreadyChunkedBody else ParsePipes_loop cs True)
      else ParsePipes_loop cs chunked)"

definition ParsePipes :: "Header \<Rightarrow> http_error option" where
  "ParsePipes h = ParsePipes_loop (GetValuesRawKey h ''Transfer-Encoding'') False"

subsection \<open>What the formatter writes\<close>

fun join_values :: "string list \<Rightarrow> string" where
  "join_values [] = []"
| "join_values [v] = v"
| "join_values (v # vs) = v @ '', '' @ join_values vs"

lemma format_values_join: "vs \<noteq> [] \<Longrightarrow> format_values vs = Inr (join_values vs)"
  by (induction vs rule: join_values.induct) auto

definition field_of :: "Header \<Rightarrow> string \<Rightarrow> string \<times> string \<times> string" where
  "field_of h k = (k, '' '', join_values (GetValuesRawKey h k))"

definition fields_of :: "Header \<Rightarrow> string list \<Rightarrow> (string \<times> string \<times> string) list" where
  "fields_of h keys = map (field_of h) (filter (\<lambda>k. GetValuesRawKey h k \<noteq> []) keys)"

lemma FormatHeaders_cb_field:
  "vs \<noteq> [] \<Longrightarrow> FormatHeaders_cb k vs (Inr s) = (None, Inr (s @ field_line k '' '' (join_values vs)))"
  by (simp add: FormatHeaders_cb_def format_values_join field_line_def CRLF_def)

lemma FormatHeaders_text:
  "snd (ForEach FormatHeaders_cb h keys err (Inr s)) = Inr (s @ block_text (fields_of h keys))"
proof (induction keys arbitrary: err s)
  case (Cons k keys)
  show ?case
  proof (cases "GetValuesRawKey h k = []")
    case True
    then show ?thesis using Cons.IH
      by (auto simp: GetValuesRawKey_def fields_of_def split: option.splits if_splits)
  next
    case False
    then obtain vs where vs: "Values h k = Some vs" "vs \<noteq> []" "GetValuesRawKey h k = vs"
      by (auto simp: GetValuesRawKey_def split: option.splits if_splits)
    with Cons.IH show ?thesis
      by (simp add: FormatHeaders_cb_field fields_of_def field_of_def block_text_def)
  qed
qed (simp add: fields_of_def block_text_def)

lemma FormatHeaders_eq: "FormatHeaders h keys = Inr (block_text (fields_of h keys))"
  using FormatHeaders_text [of h keys None "[]"] by (simp add: FormatHeaders_def)

subsection \<open>What the adder builds\<close>

text \<open>A store in which no key has an empty list, on which adding cannot panic.\<close>

definition no_empty :: "Header \<Rightarrow> bool" where
  "no_empty h \<longleftrightarrow> (\<forall>k. Values h k \<noteq> Some [])"

text \<open>
  The values of a key in the fields of a block, and what the adder makes of them: a value is turned to lower case
  when it is the first of its key, or when another one follows.
\<close>

definition raw_values_for :: "(string \<times> string \<times> string) list \<Rightarrow> string \<Rightarrow> string list" where
  "raw_values_for fs key = map (\<lambda>f. snd (snd f)) (filter (\<lambda>f. GetKey standard_processor (fst f) = key) fs)"

definition stored_values :: "string list \<Rightarrow> string list" where
  "stored_values vs = (if length vs < 2 then map to_lower vs else map to_lower (butlast vs) @ [last vs])"

definition values_for :: "(string \<times> string \<times> string) list \<Rightarrow> string \<Rightarrow> string list" where
  "values_for fs key = map (\<lambda>f. to_lower (snd (snd f))) (filter (\<lambda>f. GetKey standard_processor (fst f) = key) fs)"

lemma values_for_raw: "values_for fs key = map to_lower (raw_values_for fs key)"
  by (simp add: values_for_def raw_values_for_def)

lemma stored_values_lower: "map to_lower (stored_values vs) = map to_lower vs"
  by (cases vs rule: rev_cases) (auto simp: stored_values_def)

lemma stored_values_Nil [simp]: "stored_values vs = [] \<longleftrightarrow> vs = []"
  by (cases vs rule: rev_cases) (auto simp: stored_values_def)

lemma stored_values_last:
  assumes "vs \<noteq> []"
  shows "butlast (stored_values vs) @ [to_lower (last (stored_values vs))] = map to_lower vs"
proof (cases "length vs < 2")
  case True
  with assms obtain v where "vs = [v]" by (cases vs) auto
  then show ?thesis by (simp add: stored_values_def)
next
  case False
  with assms have "map to_lower vs = map to_lower (butlast vs) @ [to_lower (last vs)]"
    by (metis append_butlast_last_id list.simps(8,9) map_append)
  with False show ?thesis by (simp add: stored_values_def)
qed

lemma stored_values_snoc: "vs \<noteq> [] \<Longrightarrow> stored_values (vs @ [v]) = map to_lower vs @ [v]"
  by (cases vs) (auto simp: stored_values_def)

text \<open>A store that holds, under each key, what the adder makes of the values \<open>raw key\<close>.\<close>

definition stores :: "(string \<Rightarrow> string list) \<Rightarrow> Header \<Rightarrow> bool" where
  "stores raw h \<longleftrightarrow> no_empty h \<and> (\<forall>key. GetValuesRawKey h key = stored_values (raw key))"

lemma AddUnsafe_stores:
  assumes "stores raw h"
  shows "\<exists>h'. AddUnsafe standard_processor k v h = Inr h' \<and> processor_readers h' = processor_readers h
    \<and> stores (raw(GetKey standard_processor k := raw (GetKey standard_processor k) @ [v])) h'"
proof (cases "Values h (GetKey standard_processor k)")
  case None
  then have "GetValuesRawKey h (GetKey standard_processor k) = []" by (simp add: GetValuesRawKey_def)
  with assms have "raw (GetKey standard_processor k) = []" by (simp add: stores_def)
  with None assms show ?thesis
    by (auto simp: AddUnsafe_def AddRawKeyUnsafe_def no_empty_def GetValuesRawKey_def stores_def stored_values_def)
next
  case (Some ws)
  let ?vs = "raw (GetKey standard_processor k)"
  have ws: "ws \<noteq> []" "ws = stored_values ?vs"
    using Some assms by (auto simp: stores_def no_empty_def GetValuesRawKey_def dest: spec [of _ "GetKey standard_processor k"])
  then have vs: "?vs \<noteq> []" by auto
  have new: "butlast ws @ [to_lower (last ws), v] = stored_values (?vs @ [v])"
    using stored_values_last [OF vs] ws(2) stored_values_snoc [OF vs, of v] by simp
  let ?h = "h\<lparr>Values := (Values h)(GetKey standard_processor k \<mapsto> stored_values (?vs @ [v]))\<rparr>"
  have "AddUnsafe standard_processor k v h = Inr ?h"
    using Some ws(1) new by (simp add: AddUnsafe_def AddRawKeyUnsafe_def standard_ProcessValues_add)
  moreover have "stores (raw(GetKey standard_processor k := ?vs @ [v])) ?h"
    using assms by (auto simp: stores_def no_empty_def GetValuesRawKey_def)
  ultimately show ?thesis by (intro exI [of _ ?h]) simp
qed

lemma add_all_stores:
  "stores raw h \<Longrightarrow> \<exists>h'. add_all (AddUnsafe standard_processor) fs h = Inr h' \<and> processor_readers h' = processor_readers h
    \<and> stores (\<lambda>key. raw key @ raw_values_for fs key) h'"
proof (induction fs arbitrary: h raw)
  case (Cons f fs)
  obtain k w v where f: "f = (k, w, v)" by (cases f)
  let ?raw = "raw(GetKey standard_processor k := raw (GetKey standard_processor k) @ [v])"
  obtain h1 where h1: "AddUnsafe standard_processor k v h = Inr h1" "processor_readers h1 = processor_readers h" "stores ?raw h1"
    using AddUnsafe_stores [OF Cons.prems, of k v] by blast
  have "?raw key @ raw_values_for fs key = raw key @ raw_values_for (f # fs) key" for key
    using f by (simp add: raw_values_for_def)
  with Cons.IH [OF h1(3)] h1(1,2) f show ?case by simp
qed (simp add: raw_values_for_def)

subsection \<open>The connection after a request\<close>

lemma Has_one:
  assumes "to_lower c = c"
  shows "\<exists>h'. Has standard_processor k [c] h = Inr (c \<in> set (GetValues standard_processor h k), h')
    \<and> Values h' = Values h"
proof -
  obtain h' where h': "Has standard_processor k [c] h
      = Inr (mset (map to_lower [c]) \<subseteq># mset (GetValues standard_processor h k), h')"
    using Has_standard by blast
  moreover from h' have "Values h' = Values h"
    by (auto simp: Has_def Let_def bind_go_eq_Inr Processor_RLock_def Processor_RUnlock_def split: if_splits)
  ultimately show ?thesis using assms by (simp add: single_subset_iff)
qed

definition keeps_alive :: "Version \<Rightarrow> string list \<Rightarrow> bool" where
  "keeps_alive v conn \<longleftrightarrow> 1 \<le> Major v \<and> ''close'' \<notin> set conn
     \<and> (v = \<lparr>Major = 1, Minor = 0\<rparr> \<longrightarrow> ''keep-alive'' \<in> set conn)"

lemma connection_names: "to_lower ''close'' = ''close''" "to_lower ''keep-alive'' = ''keep-alive''"
  by code_simp+

lemma KeepAlive_ok:
  "\<exists>h'. KeepAlive standard_processor v h
      = Inr (keeps_alive v (GetValues standard_processor h ''Connection''), h') \<and> Values h' = Values h"
proof -
  obtain h1 where h1: "Has standard_processor ''Connection'' [''close''] h
      = Inr (''close'' \<in> set (GetValues standard_processor h ''Connection''), h1)" "Values h1 = Values h"
    using Has_one connection_names(1) by blast
  obtain h2 where h2: "Has standard_processor ''Connection'' [''keep-alive''] h1
      = Inr (''keep-alive'' \<in> set (GetValues standard_processor h1 ''Connection''), h2)" "Values h2 = Values h1"
    using Has_one connection_names(2) by blast
  have "GetValues standard_processor h1 ''Connection'' = GetValues standard_processor h ''Connection''"
    using h1(2) by (simp add: GetValues_def GetValuesRawKey_def)
  moreover have "v = \<lparr>Major = 1, Minor = 0\<rparr> \<longleftrightarrow> Minor v = 0 \<and> Major v = 1" by (cases v) auto
  ultimately show ?thesis
    using h1 h2 by (auto simp: KeepAlive_def keeps_alive_def)
qed

subsection \<open>A well-formed request line\<close>

lemma CRLF_end: "CRLF = field_end"
  by (simp add: CRLF_def)

lemma version_text: "set (Version_Format v) \<inter> {CHR '' '', CHR 0x0A} = {}"
proof -
  have n: "c \<notin> set (FormatUint n 10)" if "c = CHR '' '' \<or> c = CHR 0x0A" for c n
    unfolding FormatUint_def by (rule not_digit_notin_format) (use that in \<open>auto simp: less_eq_char_def\<close>)
  then have "CHR '' '' \<notin> set (Version_Format v)" "CHR 0x0A \<notin> set (Version_Format v)"
    by (auto simp: Version_Format_def)
  then show ?thesis by auto
qed

definition line_text :: "string \<Rightarrow> string \<Rightarrow> Version \<Rightarrow> string" where
  "line_text m u v = m @ CHR '' '' # u @ CHR '' '' # Version_Format v @ CRLF"

lemma parse_request_line_text:
  assumes "CHR '' '' \<notin> set m" "CHR '' '' \<notin> set u"
  shows "parse_request_line (line_text m u v) = RequestLine m u v"
proof -
  let ?l = "line_text m u v"
  have i: "index_byte ?l (CHR '' '') = Some (length m)"
    unfolding line_text_def by (rule index_byte_append [OF assms(1)])
  have d: "drop (length m + 1) ?l = u @ CHR '' '' # Version_Format v @ CRLF" by (simp add: line_text_def)
  have j: "index_byte (u @ CHR '' '' # Version_Format v @ CRLF) (CHR '' '') = Some (length u)"
    by (rule index_byte_append [OF assms(2)])
  have e: "drop (length u + (length m + 1) + 1) ?l = Version_Format v @ CRLF"
    "length ?l - 2 - (length u + (length m + 1) + 1) = length (Version_Format v)"
    by (simp_all add: line_text_def CRLF_def)
  have l: "\<not> length ?l < 2" "?l ! (length ?l - 2) = CHR 0x0D"
    by (simp_all add: line_text_def CRLF_def nth_append)
  have "ParseHTTPVersion (Version_Format v) = (v, None)"
    unfolding Version_Format_def using slow_Format by (subst ParseHTTPVersion_short_cuts) simp_all
  moreover have "take (length m) ?l = m" by (simp add: line_text_def)
  ultimately show ?thesis
    unfolding parse_request_line_def i option.case d Let_def j e using l by simp
qed

lemma ParseRequest_exact:
  assumes m: "CHR '' '' \<notin> set m" "CHR 0x0A \<notin> set m" "m \<noteq> ''CONNECT''"
    and u: "CHR '' '' \<notin> set u" "CHR 0x0A \<notin> set u" "parse_uri u = Inr url"
    and fs: "list_all valid_syntax fs"
    and host: "raw_values_for fs ''Host'' = [hv]"
  shows "if list_ex lone_field fs then
      ParseRequest standard_processor parse_uri (r\<lparr>pending := line_text m u v @ block_text fs @ CRLF @ rest\<rparr>)
        = Inr ((None, True, Some (ReqHeaders ErrIllegalCharacterInHeaderValue), True),
            r\<lparr>pending := block_text (tl (dropWhile (\<lambda>f. \<not> lone_field f) fs)) @ CRLF @ rest\<rparr>)
    else \<exists>req. ParseRequest standard_processor parse_uri (r\<lparr>pending := line_text m u v @ block_text fs @ CRLF @ rest\<rparr>)
        = Inr ((Some req, \<not> keeps_alive v (stored_values (raw_values_for fs ''Connection'')), None, False), r\<lparr>pending := rest\<rparr>)
      \<and> MethodStr req = m \<and> req_Version req = v
      \<and> URLp req = (if url_Host url = [] then url\<lparr>url_Host := to_lower hv\<rparr> else url)
      \<and> (\<forall>key. GetValuesRawKey (req_Header req) key = stored_values (raw_values_for fs key))"
proof -
  let ?sp = standard_processor and ?h0 = "Processor_RLock New_Header"
  have lf: "CHR 0x0A \<notin> set (m @ CHR '' '' # u @ CHR '' '' # Version_Format v @ [CHR 0x0D])"
    using m(2) u(2) version_text [of v] by auto
  have line: "bufio_ReadBytes (CHR 0x0A) (r\<lparr>pending := line_text m u v @ s\<rparr>)
      = ((line_text m u v, None), r\<lparr>pending := s\<rparr>)" for s
    using ReadBytes_line [OF lf, of s r] by (simp add: line_text_def CRLF_def)
  have target: "parse_target parse_uri m u = Inr (Inr url)" using m(3) u(3) by (simp add: parse_target_def)
  have h0: "stores (\<lambda>_. []) ?h0"
    by (simp add: stores_def no_empty_def GetValuesRawKey_def Processor_RLock_def New_Header_def stored_values_def)
  have added: "\<exists>h. add_all (AddUnsafe ?sp) gs ?h0 = Inr h \<and> stores (raw_values_for gs) h" for gs
    using add_all_stores [OF h0, of gs] by auto
  note block = ParseHeaders_block [OF fs, of "AddUnsafe ?sp" ?h0 rest r]
  show ?thesis
  proof (cases "list_ex lone_field fs")
    case True
    then obtain f fs' where d: "dropWhile (\<lambda>f. \<not> lone_field f) fs = f # fs'"
      by (cases "dropWhile (\<lambda>f. \<not> lone_field f) fs") (auto simp: list_ex_iff dropWhile_eq_Nil_conv)
    obtain h where "add_all (AddUnsafe ?sp) (takeWhile (\<lambda>f. \<not> lone_field f) fs) ?h0 = Inr h" using added by blast
    with block d have "ParseHeaders (AddUnsafe ?sp) ?h0 (r\<lparr>pending := block_text fs @ CRLF @ rest\<rparr>)
        = Inr (Some ErrIllegalCharacterInHeaderValue, True, h, r\<lparr>pending := block_text fs' @ CRLF @ rest\<rparr>)"
      by (simp add: CRLF_end)
    then show ?thesis using True d target by (simp add: ParseRequest_def line parse_request_line_text [OF m(1) u(1)])
  next
    case False
    obtain h where h: "add_all (AddUnsafe ?sp) fs ?h0 = Inr h" "stores (raw_values_for fs) h" using added by blast
    have "dropWhile (\<lambda>f. \<not> lone_field f) fs = []" "takeWhile (\<lambda>f. \<not> lone_field f) fs = fs"
      using False by (auto simp: list_ex_iff dropWhile_eq_Nil_conv takeWhile_eq_all_conv)
    with block h(1) have hs: "ParseHeaders (AddUnsafe ?sp) ?h0 (r\<lparr>pending := block_text fs @ CRLF @ rest\<rparr>)
        = Inr (None, False, h, r\<lparr>pending := rest\<rparr>)" by (simp add: CRLF_end)
    let ?h = "Processor_RUnlock h"
    have raw: "GetValuesRawKey ?h key = stored_values (raw_values_for fs key)" for key
      using h(2) by (simp add: GetValuesRawKey_def Processor_RUnlock_def stores_def)
    have keys: "GetKey ?sp ''Host'' = ''Host''" "GetKey ?sp ''Connection'' = ''Connection''" by code_simp+
    have host': "GetValues ?sp ?h ''Host'' = [to_lower hv]"
      using raw keys(1) host by (simp add: GetValues_def stored_values_def)
    obtain h2 where h2: "KeepAlive ?sp v ?h = Inr (keeps_alive v (GetValues ?sp ?h ''Connection''), h2)"
      "Values h2 = Values ?h" using KeepAlive_ok by blast
    have raw2: "GetValuesRawKey h2 key = stored_values (raw_values_for fs key)" for key
      using h2(2) raw [of key] by (simp add: GetValuesRawKey_def)
    let ?u = "if url_Host url = '''' then url\<lparr>url_Host := to_lower hv\<rparr> else url"
    let ?req = "\<lparr>MethodStr = m, req_Header = h2, req_hasCacheControl = False,
      req_cacheControl = defaultRequestCacheControl, req_Version = v, URLp = ?u\<rparr>"
    have "finish_request ?sp m v url ?h
        = Inr (Some ?req, \<not> keeps_alive v (GetValues ?sp ?h ''Connection''), None, False)"
      using host' h2 by (simp add: finish_request_def Let_def)
    moreover have "GetValues ?sp ?h ''Connection'' = stored_values (raw_values_for fs ''Connection'')"
      using raw keys(2) by (simp add: GetValues_def)
    ultimately have "ParseRequest ?sp parse_uri (r\<lparr>pending := line_text m u v @ block_text fs @ CRLF @ rest\<rparr>)
        = Inr ((Some ?req, \<not> keeps_alive v (stored_values (raw_values_for fs ''Connection'')), None, False), r\<lparr>pending := rest\<rparr>)"
      using hs target by (simp add: ParseRequest_def line parse_request_line_text [OF m(1) u(1)])
    then show ?thesis using False raw2 by (simp add: exI [of _ ?req])
  qed
qed

text \<open>The same with the values in lower case, for servers that do not look at the case of letters.\<close>

lemma ParseRequest_wellformed:
  assumes m: "CHR '' '' \<notin> set m" "CHR 0x0A \<notin> set m" "m \<noteq> ''CONNECT''"
    and u: "CHR '' '' \<notin> set u" "CHR 0x0A \<notin> set u" "parse_uri u = Inr url"
    and fs: "list_all valid_syntax fs" "\<not> list_ex lone_field fs"
    and host: "values_for fs ''Host'' = [hv]"
  shows "\<exists>req. ParseRequest standard_processor parse_uri
        (r\<lparr>pending := line_text m u v @ block_text fs @ CRLF @ rest\<rparr>)
      = Inr ((Some req, \<not> keeps_alive v (GetValuesRawKey (req_Header req) ''Connection''), None, False),
          r\<lparr>pending := rest\<rparr>)
    \<and> MethodStr req = m \<and> url_Rest (URLp req) = url_Rest url
    \<and> (\<forall>key. map to_lower (GetValuesRawKey (req_Header req) key) = values_for fs key)"
proof -
  obtain hv' where "raw_values_for fs ''Host'' = [hv']" using host by (auto simp: values_for_raw)
  from ParseRequest_exact [where parse_uri = parse_uri and m = m and u = u and url = url and r = r and v = v and rest = rest,
      OF m u fs(1) this] fs(2)
  obtain req where "ParseRequest standard_processor parse_uri (r\<lparr>pending := line_text m u v @ block_text fs @ CRLF @ rest\<rparr>)
      = Inr ((Some req, \<not> keeps_alive v (stored_values (raw_values_for fs ''Connection'')), None, False), r\<lparr>pending := rest\<rparr>)"
    "MethodStr req = m" "URLp req = (if url_Host url = [] then url\<lparr>url_Host := to_lower hv'\<rparr> else url)"
    "\<And>key. GetValuesRawKey (req_Header req) key = stored_values (raw_values_for fs key)"
    by auto
  then show ?thesis by (intro exI [of _ req]) (simp add: stored_values_lower values_for_raw)
qed

subsection \<open>Properties\<close>

text \<open>
  C21: what \<open>FormatHeaders\<close> writes of a store whose keys are tokens and whose values, joined, are visible text, in
  any order of its keys, is read back field by field, each key with its values joined, and what follows the header
  block is left in the reader; but if a value has a single character between white space, the parser stops
  there with an error, though the formatter wrote it.
\<close>

theorem headers_roundtrip:
  assumes "list_all (\<lambda>k. GetValuesRawKey h k \<noteq> [] \<longrightarrow> valid_syntax (field_of h k)) keys"
  shows "\<exists>s. FormatHeaders h keys = Inr s \<and>
    ParseHeaders add acc (r\<lparr>pending := s @ CRLF @ rest\<rparr>)
      = (if list_ex lone_field (fields_of h keys) then
           bind_go (add_all add (takeWhile (\<lambda>f. \<not> lone_field f) (fields_of h keys)) acc) (\<lambda>h'.
             Inr (Some ErrIllegalCharacterInHeaderValue, True, h',
               r\<lparr>pending := block_text (tl (dropWhile (\<lambda>f. \<not> lone_field f) (fields_of h keys))) @ CRLF @ rest\<rparr>))
         else bind_go (add_all add (fields_of h keys) acc) (\<lambda>h'. Inr (None, False, h', r\<lparr>pending := rest\<rparr>)))"
proof -
  let ?fs = "fields_of h keys"
  have v: "list_all valid_syntax ?fs" using assms by (auto simp: fields_of_def list_all_iff)
  note block = ParseHeaders_block [OF v, of add acc rest r]
  have "ParseHeaders add acc (r\<lparr>pending := block_text ?fs @ CRLF @ rest\<rparr>)
      = bind_go (add_all add (takeWhile (\<lambda>f. \<not> lone_field f) ?fs) acc) (\<lambda>h'.
          Inr (Some ErrIllegalCharacterInHeaderValue, True, h',
            r\<lparr>pending := block_text (tl (dropWhile (\<lambda>f. \<not> lone_field f) ?fs)) @ CRLF @ rest\<rparr>))"
    if ex: "list_ex lone_field ?fs"
  proof -
    obtain f fs' where "dropWhile (\<lambda>f. \<not> lone_field f) ?fs = f # fs'"
      using ex by (cases "dropWhile (\<lambda>f. \<not> lone_field f) ?fs") (auto simp: list_ex_iff dropWhile_eq_Nil_conv)
    with block show ?thesis by (simp add: CRLF_end)
  qed
  moreover have "ParseHeaders add acc (r\<lparr>pending := block_text ?fs @ CRLF @ rest\<rparr>)
      = bind_go (add_all add ?fs acc) (\<lambda>h'. Inr (None, False, h', r\<lparr>pending := rest\<rparr>))"
    if "\<not> list_ex lone_field ?fs"
  proof -
    have "dropWhile (\<lambda>f. \<not> lone_field f) ?fs = []" "takeWhile (\<lambda>f. \<not> lone_field f) ?fs = ?fs"
      using that by (auto simp: list_ex_iff dropWhile_eq_Nil_conv takeWhile_eq_all_conv)
    with block show ?thesis by (simp add: CRLF_end)
  qed
  ultimately show ?thesis by (simp add: FormatHeaders_eq)
qed

theorem headers_roundtrip_witness:
  "\<exists>s. FormatHeaders (SetValuesRaw ''Via'' [''a.b'', ''c.d''] New_Header) [''Via''] = Inr s \<and>
    ParseHeaders (\<lambda>k v h. Inr (h @ [(k, v)])) [] \<lparr>pending = s @ CRLF @ ''body'', end_error = EOF\<rparr>
      = Inr (None, False, [(''Via'', ''a.b, c.d'')], \<lparr>pending = ''body'', end_error = EOF\<rparr>)"
proof -
  let ?h = "SetValuesRaw ''Via'' [''a.b'', ''c.d''] New_Header"
  have g: "GetValuesRawKey ?h ''Via'' = [''a.b'', ''c.d'']"
    by (simp add: GetValuesRawKey_def SetValuesRaw_def)
  have "valid_syntax (''Via'', '' '', ''a.b, c.d'')" "\<not> lone_field (''Via'', '' '', ''a.b, c.d'')" by code_simp+
  then have v: "list_all (\<lambda>k. GetValuesRawKey ?h k \<noteq> [] \<longrightarrow> valid_syntax (field_of ?h k)) [''Via'']"
    and l: "\<not> list_ex lone_field (fields_of ?h [''Via''])"
    using g by (simp_all add: field_of_def fields_of_def)
  from headers_roundtrip [OF v, of "\<lambda>k v h. Inr (h @ [(k, v)])" "[]" "''body''" "\<lparr>pending = [], end_error = EOF\<rparr>"]
  show ?thesis unfolding if_not_P [OF l] using g by (simp add: fields_of_def field_of_def)
qed

text \<open>
  C7: a request with a method other than CONNECT, a target that parses, and fields of valid syntax, one of them the
  host, is parsed into what it says: method, version, the target with the host of the Host field (in lower case)
  when it has none of its own, under every key the values of its fields in order, and whether the connection stays
  open; the bytes after it (a body, the next request) are left in the reader. The values are in lower case, but
  for the last of several under one key. If a value has a single character between white space the request is
  refused at that field.
\<close>

theorem ParseRequest_correct:
  assumes "CHR '' '' \<notin> set m" "CHR 0x0A \<notin> set m" "m \<noteq> ''CONNECT''"
    and "CHR '' '' \<notin> set u" "CHR 0x0A \<notin> set u" "parse_uri u = Inr url"
    and "list_all valid_syntax fs"
    and "raw_values_for fs ''Host'' = [hv]"
  shows "if list_ex lone_field fs then
      ParseRequest standard_processor parse_uri (r\<lparr>pending := line_text m u v @ block_text fs @ CRLF @ rest\<rparr>)
        = Inr ((None, True, Some (ReqHeaders ErrIllegalCharacterInHeaderValue), True),
            r\<lparr>pending := block_text (tl (dropWhile (\<lambda>f. \<not> lone_field f) fs)) @ CRLF @ rest\<rparr>)
    else \<exists>req. ParseRequest standard_processor parse_uri (r\<lparr>pending := line_text m u v @ block_text fs @ CRLF @ rest\<rparr>)
        = Inr ((Some req, \<not> keeps_alive v (stored_values (raw_values_for fs ''Connection'')), None, False), r\<lparr>pending := rest\<rparr>)
      \<and> MethodStr req = m \<and> req_Version req = v
      \<and> URLp req = (if url_Host url = [] then url\<lparr>url_Host := to_lower hv\<rparr> else url)
      \<and> (\<forall>key. GetValuesRawKey (req_Header req) key = stored_values (raw_values_for fs key))"
  using assms by (rule ParseRequest_exact)

theorem ParseRequest_correct_witness:
  "\<exists>req. ParseRequest standard_processor (\<lambda>u. Inr \<lparr>url_Scheme = [], url_Host = [], url_Rest = u\<rparr>)
      \<lparr>pending = line_text ''GET'' ''/x'' \<lparr>Major = 1, Minor = 1\<rparr>
          @ block_text [(''host'', '' '', ''A.b''), (''Via'', [], ''Q''), (''via'', [], ''R'')] @ CRLF @ ''rest'', end_error = EOF\<rparr>
      = Inr ((Some req, False, None, False), \<lparr>pending = ''rest'', end_error = EOF\<rparr>)
    \<and> MethodStr req = ''GET'' \<and> URLp req = \<lparr>url_Scheme = [], url_Host = ''a.b'', url_Rest = ''/x''\<rparr>
    \<and> GetValuesRawKey (req_Header req) ''Via'' = [''q'', ''R'']"
proof -
  let ?fs = "[(''host'', '' '', ''A.b''), (''Via'', [], ''Q''), (''via'', [], ''R'')]" and ?v = "\<lparr>Major = 1, Minor = 1\<rparr> :: Version"
  let ?p = "\<lambda>u. Inr \<lparr>url_Scheme = [], url_Host = [], url_Rest = u\<rparr> :: string + string URL"
  have c: "CHR '' '' \<notin> set ''GET''" "CHR 0x0A \<notin> set ''GET''" "''GET'' \<noteq> ''CONNECT''"
    "CHR '' '' \<notin> set ''/x''" "CHR 0x0A \<notin> set ''/x''" by simp_all
  have f: "list_all valid_syntax ?fs" "\<not> list_ex lone_field ?fs" by code_simp+
  have vf: "raw_values_for ?fs ''Host'' = [''A.b'']" "stored_values (raw_values_for ?fs ''Connection'') = []"
    "stored_values (raw_values_for ?fs ''Via'') = [''q'', ''R'']" "to_lower ''A.b'' = ''a.b''" by code_simp+
  have keep: "keeps_alive ?v []" by (simp add: keeps_alive_def)
  from ParseRequest_correct [OF c, where parse_uri = ?p, OF refl f(1) vf(1), where v = ?v
      and r = "\<lparr>pending = [], end_error = EOF\<rparr>" and rest = "''rest''", unfolded if_not_P [OF f(2)] vf(2)]
  obtain req where req: "ParseRequest standard_processor ?p
        \<lparr>pending = line_text ''GET'' ''/x'' ?v @ block_text ?fs @ CRLF @ ''rest'', end_error = EOF\<rparr>
      = Inr ((Some req, \<not> keeps_alive ?v [], None, False), \<lparr>pending = ''rest'', end_error = EOF\<rparr>)"
    "MethodStr req = ''GET''" "URLp req = \<lparr>url_Scheme = [], url_Host = to_lower ''A.b'', url_Rest = ''/x''\<rparr>"
    "\<forall>key. GetValuesRawKey (req_Header req) key = stored_values (raw_values_for ?fs key)"
    by auto
  from req(1,2,3) spec [OF req(4), of "''Via''"] vf(3,4) keep show ?thesis by (intro exI [of _ req]) simp
qed

text \<open>
  The target of a CONNECT request that does not parse makes the parser write through a nil URL, and
  panic.
\<close>

theorem CONNECT_panics:
  assumes "CHR '' '' \<notin> set u" "CHR 0x0A \<notin> set u" "u = [] \<or> hd u \<noteq> CHR ''/''"
    and "parse_uri (''http://'' @ u) = Inl e"
  shows "ParseRequest p parse_uri (r\<lparr>pending := line_text ''CONNECT'' u v @ rest\<rparr>) = Inl NilDereference"
proof -
  have lf: "CHR 0x0A \<notin> set (''CONNECT'' @ CHR '' '' # u @ CHR '' '' # Version_Format v @ [CHR 0x0D])"
    using assms(2) version_text [of v] by auto
  have line: "bufio_ReadBytes (CHR 0x0A) (r\<lparr>pending := line_text ''CONNECT'' u v @ rest\<rparr>)
      = ((line_text ''CONNECT'' u v, None), r\<lparr>pending := rest\<rparr>)"
    using ReadBytes_line [OF lf, of rest r] by (simp add: line_text_def CRLF_def)
  have "parse_target parse_uri ''CONNECT'' u = Inl NilDereference"
    using assms(3,4) by (cases u) (auto simp: parse_target_def)
  moreover have "parse_request_line (line_text ''CONNECT'' u v) = RequestLine ''CONNECT'' u v"
    by (rule parse_request_line_text) (use assms(1) in simp_all)
  ultimately show ?thesis by (simp add: ParseRequest_def line)
qed

theorem CONNECT_panics_witness:
  "ParseRequest standard_processor (\<lambda>_. Inl ''bad'' :: string + unit URL)
      (\<lparr>pending = line_text ''CONNECT'' ''%'' \<lparr>Major = 1, Minor = 1\<rparr>, end_error = EOF\<rparr>) = Inl NilDereference"
  using CONNECT_panics [where u = "''%''" and parse_uri = "\<lambda>_. Inl ''bad'' :: string + unit URL" and e = "''bad''"
      and p = standard_processor and r = "\<lparr>pending = [], end_error = EOF\<rparr>"
      and v = "\<lparr>Major = 1, Minor = 1\<rparr>" and rest = "[]"] by simp

end
