(* ===== verification/Body_Writer.thy ===== *)
theory Body_Writer
  imports Body_Reader Request_Parser
begin

section \<open>Writing a body: \<open>http/http1/bodyWriter.go\<close>\<close>

text \<open>
  The writer of a response sends the head before the first bytes of the body (\<open>writerWrapper\<close>),
  bounds a body of known length (\<open>LimitWriteFlushCloser\<close>), or puts the transfer encodings of the
  header around it. The writers of Go are the constructors of \<open>body_sink\<close>; what they share is in the
  state: the response, whose header the body writer, the metadata and the head formatter all hold,
  and the flag that the head is out. What the session provides, the connection and the two
  closures, is in a record of operations, \<open>sink_ops\<close>. Writers of encodings are parameters.
\<close>

datatype 'g body_sink = FinalSink | NoBodySink | LimitSink int64 int64
  | SinkPipe "'g body_sink list" | NilSink | EncodedSink 'g "'g body_sink"

record 'g body_out = http_response +
  HeadWritten :: bool
  bw_req :: "string option"
  bw_hasBody :: bool
  bw_writer :: "'g body_sink option"

type_synonym 'st write_result = "((int \<times> body_error option) \<times> 'st) go"
type_synonym 'st close_result = "(body_error option \<times> 'st) go"

record 'st sink_ops =
  raw_Write :: "string \<Rightarrow> 'st \<Rightarrow> (int \<times> body_error option) \<times> 'st"
  raw_Flush :: "'st \<Rightarrow> body_error option \<times> 'st"
  HeaderCB :: "'st \<Rightarrow> (string \<times> 'st) go"
  Closer :: "'st \<Rightarrow> 'st close_result"

subsection \<open>The head goes first\<close>

definition writeHeader :: "('g, 'x) body_out_scheme sink_ops \<Rightarrow> ('g, 'x) body_out_scheme
    \<Rightarrow> ('g, 'x) body_out_scheme close_result" where
  "writeHeader ops st =
     bind_go (HeaderCB ops st) (\<lambda>(head, st1).
       let ((n, err), st2) = raw_Write ops head st1 in
       case err of
         Some e \<Rightarrow> Inr (Some (HeadFailed e), st2)
       | None \<Rightarrow> if n \<noteq> int (length head) then Inr (Some (HeadFailed ErrShortWrite), st2)
           else Inr (None, st2\<lparr>HeadWritten := True\<rparr>))"

definition writerWrapper_Write :: "('g, 'x) body_out_scheme sink_ops \<Rightarrow> string \<Rightarrow> ('g, 'x) body_out_scheme
    \<Rightarrow> ('g, 'x) body_out_scheme write_result" where
  "writerWrapper_Write ops src st =
     (if \<not> HeadWritten st then
        bind_go (HeaderCB ops st) (\<lambda>(head, st1).
          let ((n, err), st2) = raw_Write ops (head @ src) st1; n' = n - int (length head) in
          if n' < 0 then Inr ((n', if err = None then Some (HeadFailed ErrShortWrite) else err), st2)
          else Inr ((n', err), st2\<lparr>HeadWritten := True\<rparr>))
      else Inr (raw_Write ops src st))"

definition writerWrapper_Flush :: "('g, 'x) body_out_scheme sink_ops \<Rightarrow> ('g, 'x) body_out_scheme
    \<Rightarrow> ('g, 'x) body_out_scheme close_result" where
  "writerWrapper_Flush ops st =
     bind_go (if \<not> HeadWritten st then writeHeader ops st else Inr (None, st)) (\<lambda>(err, st1).
       let (err2, st2) = raw_Flush ops st1 in
       if err \<noteq> None then Inr (err, st2) else Inr (err2, st2))"

definition writerWrapper_Close :: "('g, 'x) body_out_scheme sink_ops \<Rightarrow> ('g, 'x) body_out_scheme
    \<Rightarrow> ('g, 'x) body_out_scheme close_result" where
  "writerWrapper_Close ops st =
     bind_go (if \<not> HeadWritten st then writeHeader ops st else Inr (None, st)) (\<lambda>(err, st1).
       bind_go (Closer ops st1) (\<lambda>(err2, st2).
         if err \<noteq> None then Inr (err, st2) else Inr (err2, st2)))"

subsection \<open>Writers over it\<close>

text \<open>
  \<open>LimitWriteFlushCloser\<close> has value receivers, so the count \<open>i\<close> it updates is lost after each call:
  the constructor keeps its arguments. The slice is bounded by the capacity of \<open>buf\<close>, at least its
  length; with a limit from 0 on it stays within the length.
\<close>

definition limit_Write :: "('g, 'x) body_out_scheme sink_ops \<Rightarrow> int64 \<Rightarrow> int64 \<Rightarrow> string
    \<Rightarrow> ('g, 'x) body_out_scheme \<Rightarrow> ('g, 'x) body_out_scheme write_result" where
  "limit_Write ops i l buf st =
     (let i1 = i + of_nat (length buf) in
      if l <s i1 then
        (let overflow = int (length buf) - sint (i1 - l);
             toWrite = int (length buf) - overflow
         in if toWrite = 0 then Inr ((0, Some ErrBodyLengthExceded), st)
            else if toWrite < 0 \<or> int (length buf) < toWrite then Inl SliceOutOfRange
            else bind_go (writerWrapper_Write ops (take (nat toWrite) buf) st) (\<lambda>((n, err), st').
              Inr ((n, if n = toWrite \<or> err = None then Some ErrBodyLengthExceded else err), st')))
      else writerWrapper_Write ops buf st)"

fun sink_Write ::
  "('g \<Rightarrow> (string \<Rightarrow> ('g, 'x) body_out_scheme \<Rightarrow> ('g, 'x) body_out_scheme write_result)
      \<Rightarrow> string \<Rightarrow> ('g, 'x) body_out_scheme \<Rightarrow> ('g, 'x) body_out_scheme write_result)
   \<Rightarrow> ('g, 'x) body_out_scheme sink_ops \<Rightarrow> 'g body_sink \<Rightarrow> string \<Rightarrow> ('g, 'x) body_out_scheme
   \<Rightarrow> ('g, 'x) body_out_scheme write_result" where
  "sink_Write enc ops FinalSink src st = writerWrapper_Write ops src st"
| "sink_Write enc ops NoBodySink src st = Inr ((0, Some ErrNoBody), st)"
| "sink_Write enc ops (LimitSink i l) src st = limit_Write ops i l src st"
| "sink_Write enc ops (SinkPipe []) src st = Inl IndexOutOfRange"
| "sink_Write enc ops (SinkPipe (w # ws)) src st = sink_Write enc ops w src st"
| "sink_Write enc ops NilSink src st = Inl NilDereference"
| "sink_Write enc ops (EncodedSink g w) src st = enc g (sink_Write enc ops w) src st"

text \<open>\<open>lift_close\<close> runs an operation inside \<open>WriterPipe_Close\<close>, where a panic is a state.\<close>

definition lift_close :: "('st \<Rightarrow> 'st close_result) \<Rightarrow> 'st go \<Rightarrow> body_error option \<times> 'st go" where
  "lift_close f s = (case s of Inl p \<Rightarrow> (None, Inl p)
     | Inr st \<Rightarrow> (case f st of Inl p \<Rightarrow> (None, Inl p) | Inr (e, st') \<Rightarrow> (e, Inr st')))"

definition unlift_close :: "body_error option \<times> 'st go \<Rightarrow> 'st close_result" where
  "unlift_close r = (case r of (e, s) \<Rightarrow> bind_go s (\<lambda>st. Inr (e, st)))"

lemma WriterPipe_Close_cong [fundef_cong]:
  assumes "ws = ws'" "s = s'" "\<And>w s. w \<in> set ws' \<Longrightarrow> close w s = close' w s"
  shows "WriterPipe_Close close ws s = WriterPipe_Close close' ws' s'"
proof -
  have "(\<forall>w \<in> set ws'. \<forall>s. close w s = close' w s) \<Longrightarrow> WriterPipe_Close close ws' s = WriterPipe_Close close' ws' s" for s
    by (induction ws' arbitrary: s) (auto split: prod.splits)
  with assms show ?thesis by blast
qed

lemma WriterPipe_Flush_cong [fundef_cong]:
  assumes "ws = ws'" "s = s'" "\<And>w. w \<in> set ws' \<Longrightarrow> flusher w = flusher' w"
  shows "WriterPipe_Flush flusher ws s = WriterPipe_Flush flusher' ws' s'"
proof -
  have "(\<forall>w \<in> set ws'. flusher w = flusher' w) \<Longrightarrow> WriterPipe_Flush flusher ws' s = WriterPipe_Flush flusher' ws' s" for s
    by (induction ws' arbitrary: s) (auto split: prod.splits option.splits)
  with assms show ?thesis by blast
qed

text \<open>The closing of an encoding (\<open>close_enc\<close>) writes what it still holds to the writer below.\<close>

fun sink_Close ::
  "('g \<Rightarrow> 'g body_sink \<Rightarrow> ('g, 'x) body_out_scheme \<Rightarrow> ('g, 'x) body_out_scheme close_result)
   \<Rightarrow> ('g, 'x) body_out_scheme sink_ops \<Rightarrow> 'g body_sink \<Rightarrow> ('g, 'x) body_out_scheme
   \<Rightarrow> ('g, 'x) body_out_scheme close_result" where
  "sink_Close close_enc ops FinalSink st = writerWrapper_Close ops st"
| "sink_Close close_enc ops NoBodySink st = writerWrapper_Close ops st"
| "sink_Close close_enc ops (LimitSink i l) st = writerWrapper_Close ops st"
| "sink_Close close_enc ops NilSink st = Inl NilDereference"
| "sink_Close close_enc ops (EncodedSink g w) st = close_enc g w st"
| "sink_Close close_enc ops (SinkPipe ws) st =
     unlift_close (WriterPipe_Close (\<lambda>w. lift_close (\<lambda>st'. sink_Close close_enc ops w st')) ws (Inr st))"

fun sink_Flush ::
  "('g \<Rightarrow> 'g body_sink \<Rightarrow> (('g, 'x) body_out_scheme \<Rightarrow> ('g, 'x) body_out_scheme close_result) option)
   \<Rightarrow> ('g, 'x) body_out_scheme sink_ops \<Rightarrow> 'g body_sink
   \<Rightarrow> (('g, 'x) body_out_scheme \<Rightarrow> ('g, 'x) body_out_scheme close_result) option" where
  "sink_Flush flush_enc ops FinalSink = Some (writerWrapper_Flush ops)"
| "sink_Flush flush_enc ops NoBodySink = Some (writerWrapper_Flush ops)"
| "sink_Flush flush_enc ops (LimitSink i l) = Some (writerWrapper_Flush ops)"
| "sink_Flush flush_enc ops NilSink = Some (\<lambda>st. Inl NilDereference)"
| "sink_Flush flush_enc ops (EncodedSink g w) = flush_enc g w"
| "sink_Flush flush_enc ops (SinkPipe ws) = Some (\<lambda>st.
     unlift_close (WriterPipe_Flush (\<lambda>w. map_option lift_close (sink_Flush flush_enc ops w)) ws (Inr st)))"

text \<open>
  \<open>CloseCBWriteFlushCloser\<close> passes writes on until its \<open>close\<close> closure has been called and says so;
  \<open>write\<close> and \<open>flush\<close> are those of the writer behind it.
\<close>

definition closeCB_Write :: "(string \<Rightarrow> 's \<Rightarrow> (nat \<times> body_error option) \<times> 's) \<Rightarrow> string \<Rightarrow> bool \<times> 's
    \<Rightarrow> (nat \<times> body_error option) \<times> bool \<times> 's" where
  "closeCB_Write write src w =
     (if fst w then ((0, Some ErrClosedPipe), w) else apsnd (Pair (fst w)) (write src (snd w)))"

definition closeCB_Flush :: "('s \<Rightarrow> body_error option \<times> 's) \<Rightarrow> bool \<times> 's \<Rightarrow> body_error option \<times> bool \<times> 's" where
  "closeCB_Flush flush w = (if fst w then (Some ErrClosedPipe, w) else apsnd (Pair (fst w)) (flush (snd w)))"

definition closeCB_Close :: "('s \<Rightarrow> (body_error option \<times> bool) \<times> 's) \<Rightarrow> bool \<times> 's \<Rightarrow> body_error option \<times> bool \<times> 's" where
  "closeCB_Close close w =
     (if fst w then (Some ErrClosedPipe, w)
      else (let ((err, closed), s) = close (snd w) in (err, closed, s)))"

subsection \<open>\<open>BodyWriter\<close>\<close>

definition NewBodyWriter :: "http_response \<Rightarrow> string option \<Rightarrow> bool \<Rightarrow> 'g body_out" where
  "NewBodyWriter resp req hasBody =
     http_response.extend resp
       (body_out.fields False req hasBody None)"

definition BodyWriter_BodyLength ::
  "Processor \<Rightarrow> ('g, 'x) body_out_scheme \<Rightarrow> int64 \<times> body_error option" where
  "BodyWriter_BodyLength p w =
     (if bw_req w = Some ''HEAD'' then (0, None)
      else (let lens = GetValues p (resp_Header w) ''Content-Length'' in
        if length lens = 0 then (-1, None)
        else if length lens = 1 then
          (let (l, err) = ParseUint (lens ! 0) 10 63 in
           case err of
             Some e \<Rightarrow> (-2, Some (BodyHttp (MakeErrMalformedContentLength (NumError e))))
           | None \<Rightarrow> (of_nat l, None))
        else (-2, Some (BodyHttp ErrTooManyContentLength))))"

text \<open>The name \<open>Transfer-Encodings\<close> in the second branch is the code's.\<close>

definition SetBodyLength ::
  "Processor \<Rightarrow> int64 \<Rightarrow> ('g, 'x) body_out_scheme \<Rightarrow> ('g, 'x) body_out_scheme close_result" where
  "SetBodyLength p len w =
     (if 0 \<le>s len then
        bind_go (Header_Set p ''Content-Length'' (FormatUint (unat len) 10) (resp_Header w)) (\<lambda>h1.
          let codes = GetValues p h1 ''Transfer-Encoding'' in
          bind_go (if length codes > 0 \<and> codes ! (length codes - 1) = ''chunked''
                   then SetValues p ''Transfer-Encoding'' (take (length codes - 1) codes) h1 else Inr h1)
            (\<lambda>h2. Inr (None, w\<lparr>resp_Header := h2\<rparr>)))
      else if len = -1 then
        (let h1 = Header_Del p ''Content-Length'' (resp_Header w);
             codes = GetValues p h1 ''Transfer-Encoding''
         in bind_go (if length codes = 0 \<or> codes ! (length codes - 1) \<noteq> ''chunked''
                     then Header_Add p ''Transfer-Encodings'' ''chunked'' h1 else Inr h1)
              (\<lambda>h2. Inr (None, w\<lparr>resp_Header := h2\<rparr>)))
      else Inl (Explicit ''body length cannot be less than -1''))"

definition sink_pipe ::
  "'g body_sink \<Rightarrow> ('g body_sink, body_error) WriterPipeGenerator option list \<Rightarrow> (body_error option \<times> 'g body_sink) go" where
  "sink_pipe w pipes =
     (case those pipes of
        None \<Rightarrow> Inl NilDereference
      | Some ps \<Rightarrow> bind_go (To w [ps]) (\<lambda>res. case res of
          Inl err \<Rightarrow> Inr (Some err, NilSink)
        | Inr writers \<Rightarrow> Inr (None, SinkPipe writers)))"

definition BodyWriter_Body ::
  "Processor \<Rightarrow> ('r, 'g body_sink, body_error) List \<Rightarrow> ('g, 'x) body_out_scheme
     \<Rightarrow> (('g body_sink option \<times> body_error option) \<times> ('g, 'x) body_out_scheme) go" where
  "BodyWriter_Body p TransferEncodings w =
     (if bw_writer w \<noteq> None then Inr ((bw_writer w, None), w)
      else if \<not> bw_hasBody w then
        Inr ((Some NoBodySink, None), w\<lparr>bw_writer := Some NoBodySink\<rparr>)
      else (case BodyWriter_BodyLength p w of
          (_, Some err) \<Rightarrow> Inr ((None, Some err), w)
        | (l, None) \<Rightarrow>
            if l = -1 then
              (let codes = GetValuesRawKey (resp_Header w) ''Transfer-Encoding'' in
               if list_ex (\<lambda>c. c = ''chunked'') (take (length codes - 1) codes) then
                 Inr ((None, Some (BodyHttp ErrMustChunkLast)), w)
               else (let (pipes, ok) = GetWriterPipeGenerators TransferEncodings codes in
                 if \<not> ok then Inr ((None, Some (BodyHttp ErrUnsupportedTransferEncoding)), w)
                 else bind_go (sink_pipe FinalSink pipes) (\<lambda>(err, writer).
                   Inr ((Some writer, err), w\<lparr>bw_writer := Some writer\<rparr>))))
            else Inr ((Some (LimitSink 0 l), None), w\<lparr>bw_writer := Some (LimitSink 0 l)\<rparr>)))"

subsection \<open>The limit of a body\<close>

lemma limit_Write_over:
  assumes "l < length buf" "length buf < 2 ^ 63"
  shows "limit_Write ops 0 (of_nat l) buf f
    = bind_go (writerWrapper_Write ops (take (length buf - l) buf) f) (\<lambda>((n, err), f').
        Inr ((n, if n = int (length buf - l) \<or> err = None then Some ErrBodyLengthExceded else err), f'))"
proof -
  have l: "l < 2 ^ 63" using assms by simp
  have s: "sint (of_nat (length buf) - of_nat l :: int64) = int (length buf - l)"
    using sint64_sub [of "of_nat (length buf)" "of_nat l"] sint_of_nat64 [OF assms(2)] sint_of_nat64 [OF l] assms
    by (simp add: of_nat_diff)
  have "(of_nat l :: int64) <s of_nat (length buf)"
    using assms(1) sint_of_nat64 [OF assms(2)] sint_of_nat64 [OF l] by (simp add: word_sless_alt)
  then show ?thesis
    using assms(1) by (simp add: limit_Write_def s Let_def nat_diff_distrib of_nat_diff)
qed

text \<open>Writes one after the other, up to the first error.\<close>

fun write_bodies ::
  "(string \<Rightarrow> 'st \<Rightarrow> 'st write_result) \<Rightarrow> string list \<Rightarrow> 'st \<Rightarrow> (body_error option \<times> 'st) go" where
  "write_bodies w [] st = Inr (None, st)"
| "write_bodies w (b # bs) st =
     bind_go (w b st) (\<lambda>((n, err), st'). if err \<noteq> None then Inr (err, st') else write_bodies w bs st')"

lemma limit_Write_within:
  assumes "length s \<le> l" "l < 2 ^ 63"
  shows "limit_Write ops 0 (of_nat l) s f = writerWrapper_Write ops s f"
  using assms sint_of_nat64 [of l] sint_of_nat64 [of "length s"]
  by (simp add: limit_Write_def word_sless_alt)

subsection \<open>Properties\<close>

text \<open>
  C26: the limit of a body of length \<open>l\<close> does not hold. Writes of at most \<open>l\<close> bytes all pass as if there
  were no limit, however much was written before; and of a longer write, not the first \<open>l\<close> bytes
  are sent but as many as it is too long, with the error that the length was exceeded.
\<close>

theorem limit_not_kept:
  assumes "l < 2 ^ 63"
  shows "((\<forall>b \<in> set bufs. length b \<le> l) \<longrightarrow>
      write_bodies (sink_Write enc ops (LimitSink 0 (of_nat l))) bufs f
        = write_bodies (sink_Write enc ops FinalSink) bufs f)
    \<and> (l < length buf \<longrightarrow> length buf < 2 ^ 63 \<longrightarrow>
      sink_Write enc ops (LimitSink 0 (of_nat l)) buf f
        = bind_go (sink_Write enc ops FinalSink (take (length buf - l) buf) f) (\<lambda>((n, err), f').
            Inr ((n, if n = int (length buf - l) \<or> err = None then Some ErrBodyLengthExceded else err), f')))"
proof -
  have "(\<forall>b \<in> set bufs. length b \<le> l) \<Longrightarrow>
      write_bodies (sink_Write enc ops (LimitSink 0 (of_nat l))) bufs f
        = write_bodies (sink_Write enc ops FinalSink) bufs f"
  proof (induction bufs arbitrary: f)
    case (Cons b bufs)
    then show ?case
      using limit_Write_within [OF _ assms, of b ops f] by (auto simp: bind_go_def split: sum.splits)
  qed simp
  then show ?thesis by (simp add: limit_Write_over)
qed

theorem limit_not_kept_witness:
  "(let ops = \<lparr>raw_Write = \<lambda>b f. ((int (length b), None), f\<lparr>StatusTextOf := StatusTextOf f @ b\<rparr>), raw_Flush = \<lambda>f. (None, f),
        HeaderCB = \<lambda>f. Inr ([], f), Closer = \<lambda>f. Inr (None, f)\<rparr>;
      f = NewBodyWriter \<lparr>resp_Header = New_Header, resp_hasCacheControl = False, resp_cacheControl = zero_resource,
        StatusCode = 200, StatusTextOf = [], resp_Version = \<lparr>Major = 1, Minor = 1\<rparr>\<rparr> None True :: unit body_out
    in map_sum id (StatusTextOf \<circ> snd) (write_bodies (sink_Write (\<lambda>_ w. w) ops (LimitSink 0 3)) [''abc'', ''def''] f)
          = Inr ''abcdef''
      \<and> map_sum id (StatusTextOf \<circ> snd) (sink_Write (\<lambda>_ w. w) ops (LimitSink 0 3) ''abcdefghij'' f)
          = Inr ''abcdefg'')"
proof -
  define ops :: "unit body_out sink_ops" where
    "ops = \<lparr>raw_Write = \<lambda>b f. ((int (length b), None), f\<lparr>StatusTextOf := StatusTextOf f @ b\<rparr>), raw_Flush = \<lambda>f. (None, f),
        HeaderCB = \<lambda>f. Inr ([], f), Closer = \<lambda>f. Inr (None, f)\<rparr>"
  define f :: "unit body_out" where
    "f = NewBodyWriter \<lparr>resp_Header = New_Header, resp_hasCacheControl = False, resp_cacheControl = zero_resource,
        StatusCode = 200, StatusTextOf = [], resp_Version = \<lparr>Major = 1, Minor = 1\<rparr>\<rparr> None True"
  have "map_sum id (StatusTextOf \<circ> snd) (write_bodies (sink_Write (\<lambda>_ w. w) ops (LimitSink 0 3)) [''abc'', ''def''] f)
      = Inr ''abcdef''
    \<and> map_sum id (StatusTextOf \<circ> snd) (sink_Write (\<lambda>_ w. w) ops (LimitSink 0 3) ''abcdefghij'' f) = Inr ''abcdefg''"
    using limit_not_kept [of 3 "[''abc'', ''def'']" "\<lambda>_ w. w" ops f "''abcdefghij''"]
    by (simp add: writerWrapper_Write_def NewBodyWriter_def http_response.defs body_out.defs ops_def f_def)
  then show ?thesis by (simp add: ops_def f_def Let_def)
qed

end
