(* ===== verification/Buffer_Sources.thy ===== *)
theory Buffer_Sources
  imports Prelude
begin

section \<open>Pools of buffered readers and writers: \<open>jps/readerSource.go\<close>\<close>

text \<open>
  A source hands out buffered readers (writers) and takes used ones back. They are pointers: the buffers lie
  in a store, and a pool holds addresses, so that one buffer may be in two places. A buffer is what the
  pools see of a \<open>bufio.Reader\<close>: the size of its buffer, what it reads from, and the bytes it holds.
  \<open>bufio.NewReaderSize\<close> and its writer twin are the ones of the standard library: an argument that
  already is a buffered reader of at least that size is returned as it is (\<open>as_bufio\<close> gives its address),
  and small sizes are replaced by 16 (for writers, sizes that are not positive by 4096). The lock of a pool
  is taken and released inside every method.
\<close>

record 'r buffered_io =
  buf_size :: int
  buf_over :: "'r option"
  buf_bytes :: string

type_synonym 'r buffer_store = "'r buffered_io list"

definition new_buffer :: "'r buffered_io \<Rightarrow> 'r buffer_store \<Rightarrow> nat \<times> 'r buffer_store" where
  "new_buffer b st = (length st, st @ [b])"

definition NewReaderSize :: "('r \<Rightarrow> nat option) \<Rightarrow> 'r option \<Rightarrow> int \<Rightarrow> 'r buffer_store \<Rightarrow> nat \<times> 'r buffer_store" where
  "NewReaderSize as_bufio r sz st =
     (case Option.bind r as_bufio of
        Some a \<Rightarrow> if sz \<le> buf_size (st ! a) then (a, st)
          else new_buffer \<lparr>buf_size = max sz 16, buf_over = r, buf_bytes = []\<rparr> st
      | None \<Rightarrow> new_buffer \<lparr>buf_size = max sz 16, buf_over = r, buf_bytes = []\<rparr> st)"

definition NewWriterSize :: "('r \<Rightarrow> nat option) \<Rightarrow> 'r option \<Rightarrow> int \<Rightarrow> 'r buffer_store \<Rightarrow> nat \<times> 'r buffer_store" where
  "NewWriterSize as_bufio w sz st =
     (let n = (if sz \<le> 0 then 4096 else sz) in
      case Option.bind w as_bufio of
        Some a \<Rightarrow> if sz \<le> buf_size (st ! a) then (a, st) else new_buffer \<lparr>buf_size = n, buf_over = w, buf_bytes = []\<rparr> st
      | None \<Rightarrow> new_buffer \<lparr>buf_size = n, buf_over = w, buf_bytes = []\<rparr> st)"

definition Reset :: "'r \<Rightarrow> nat \<Rightarrow> 'r buffer_store \<Rightarrow> 'r buffer_store" where
  "Reset r a st = st[a := (st ! a)\<lparr>buf_over := Some r, buf_bytes := []\<rparr>]"

record BasicBufioSource =
  ReaderBufSize :: int
  WriterBufSize :: int

definition Basic_NewReader ::
  "('r \<Rightarrow> nat option) \<Rightarrow> BasicBufioSource \<Rightarrow> 'r \<Rightarrow> 'r buffer_store \<Rightarrow> nat \<times> 'r buffer_store" where
  "Basic_NewReader as_bufio s r = NewReaderSize as_bufio (Some r) (ReaderBufSize s)"

definition Basic_NewWriter ::
  "('r \<Rightarrow> nat option) \<Rightarrow> BasicBufioSource \<Rightarrow> 'r \<Rightarrow> 'r buffer_store \<Rightarrow> nat \<times> 'r buffer_store" where
  "Basic_NewWriter as_bufio s w = NewWriterSize as_bufio (Some w) (WriterBufSize s)"

definition Basic_Recycle :: "nat \<Rightarrow> BasicBufioSource \<Rightarrow> BasicBufioSource" where
  "Basic_Recycle a s = s"

subsection \<open>The cached sources\<close>

text \<open>One record for both pools; its slice holds addresses.\<close>

record pool =
  pool_Slice :: "nat list"
  pool_cap :: nat
  BufSize :: int

definition NewCachedBufioReaderSource :: "nat \<Rightarrow> int \<Rightarrow> pool" where
  "NewCachedBufioReaderSource cacheSize bufSize = \<lparr>pool_Slice = [], pool_cap = cacheSize, BufSize = bufSize\<rparr>"

definition NewCachedBufioWriterSource :: "nat \<Rightarrow> int \<Rightarrow> pool" where
  "NewCachedBufioWriterSource cacheSize bufSize = \<lparr>pool_Slice = [], pool_cap = cacheSize, BufSize = bufSize\<rparr>"

function Reader_Fill :: "pool \<Rightarrow> 'r buffer_store \<Rightarrow> pool \<times> 'r buffer_store" where
  "Reader_Fill p st =
     (if length (pool_Slice p) < pool_cap p then
        (let (a, st') = NewReaderSize (\<lambda>_. None) None (BufSize p) st
         in Reader_Fill (p\<lparr>pool_Slice := pool_Slice p @ [a]\<rparr>) st')
      else (p, st))"
  by auto
termination by (relation "measure (\<lambda>(p, st). pool_cap p - length (pool_Slice p))") auto

function Writer_Fill :: "pool \<Rightarrow> 'r buffer_store \<Rightarrow> pool \<times> 'r buffer_store" where
  "Writer_Fill p st =
     (if length (pool_Slice p) < pool_cap p then
        (let (a, st') = NewWriterSize (\<lambda>_. None) None (BufSize p) st
         in Writer_Fill (p\<lparr>pool_Slice := pool_Slice p @ [a]\<rparr>) st')
      else (p, st))"
  by auto
termination by (relation "measure (\<lambda>(p, st). pool_cap p - length (pool_Slice p))") auto

declare Reader_Fill.simps [simp del] Writer_Fill.simps [simp del]

definition NewFilledCachedBufioReaderSource :: "nat \<Rightarrow> int \<Rightarrow> 'r buffer_store \<Rightarrow> pool \<times> 'r buffer_store" where
  "NewFilledCachedBufioReaderSource cacheSize bufSize = Reader_Fill \<lparr>pool_Slice = [], pool_cap = cacheSize, BufSize = bufSize\<rparr>"

definition NewFilledCachedBufioWriterSource :: "nat \<Rightarrow> int \<Rightarrow> 'r buffer_store \<Rightarrow> pool \<times> 'r buffer_store" where
  "NewFilledCachedBufioWriterSource cacheSize bufSize = Writer_Fill \<lparr>pool_Slice = [], pool_cap = cacheSize, BufSize = bufSize\<rparr>"

definition Cached_NewReader ::
  "('r \<Rightarrow> nat option) \<Rightarrow> 'r \<Rightarrow> pool \<Rightarrow> 'r buffer_store \<Rightarrow> nat \<times> pool \<times> 'r buffer_store" where
  "Cached_NewReader as_bufio r p st =
     (let i = length (pool_Slice p) in
      if i = 0 then (let (a, st') = NewReaderSize as_bufio (Some r) (BufSize p) st in (a, p, st'))
      else (let rv = pool_Slice p ! (i - 1)
            in (rv, p\<lparr>pool_Slice := take (i - 1) (pool_Slice p)\<rparr>, Reset r rv st)))"

definition Cached_NewWriter ::
  "('r \<Rightarrow> nat option) \<Rightarrow> 'r \<Rightarrow> pool \<Rightarrow> 'r buffer_store \<Rightarrow> nat \<times> pool \<times> 'r buffer_store" where
  "Cached_NewWriter as_bufio w p st =
     (let i = length (pool_Slice p) in
      if i = 0 then (let (a, st') = NewWriterSize as_bufio (Some w) (BufSize p) st in (a, p, st'))
      else (let rv = pool_Slice p ! (i - 1)
            in (rv, p\<lparr>pool_Slice := take (i - 1) (pool_Slice p)\<rparr>, Reset w rv st)))"

definition RecycleReader :: "nat \<Rightarrow> pool \<Rightarrow> 'r buffer_store \<Rightarrow> pool" where
  "RecycleReader a p st =
     (if length (pool_Slice p) < pool_cap p \<and> buf_size (st ! a) = BufSize p
      then p\<lparr>pool_Slice := pool_Slice p @ [a]\<rparr> else p)"

definition RecycleWriter :: "nat \<Rightarrow> pool \<Rightarrow> 'r buffer_store \<Rightarrow> pool" where
  "RecycleWriter a p st =
     (if length (pool_Slice p) < pool_cap p \<and> buf_size (st ! a) = BufSize p
      then p\<lparr>pool_Slice := pool_Slice p @ [a]\<rparr> else p)"

text \<open>Both pools together; readers and writers have stores of their own.\<close>

record CachedBufioSource =
  reader_pool :: pool
  writer_pool :: pool

definition CachedBufioSource_Fill ::
  "CachedBufioSource \<Rightarrow> 'r buffer_store \<Rightarrow> 'w buffer_store \<Rightarrow> CachedBufioSource \<times> 'r buffer_store \<times> 'w buffer_store" where
  "CachedBufioSource_Fill s rst wst =
     (let (rp, rst') = Reader_Fill (reader_pool s) rst; (wp, wst') = Writer_Fill (writer_pool s) wst
      in (s\<lparr>reader_pool := rp, writer_pool := wp\<rparr>, rst', wst'))"

definition NewCachedBufioSource :: "nat \<Rightarrow> nat \<Rightarrow> int \<Rightarrow> int \<Rightarrow> CachedBufioSource" where
  "NewCachedBufioSource rCacheSize wCacheSize rBufSize wBufSize =
     \<lparr>reader_pool = \<lparr>pool_Slice = [], pool_cap = rCacheSize, BufSize = rBufSize\<rparr>,
      writer_pool = \<lparr>pool_Slice = [], pool_cap = wCacheSize, BufSize = wBufSize\<rparr>\<rparr>"

definition NewFilledCachedBufioSource ::
  "nat \<Rightarrow> nat \<Rightarrow> int \<Rightarrow> int \<Rightarrow> 'r buffer_store \<Rightarrow> 'w buffer_store
     \<Rightarrow> CachedBufioSource \<times> 'r buffer_store \<times> 'w buffer_store" where
  "NewFilledCachedBufioSource rCacheSize wCacheSize rBufSize wBufSize =
     CachedBufioSource_Fill (NewCachedBufioSource rCacheSize wCacheSize rBufSize wBufSize)"

subsection \<open>Users of a pool\<close>

text \<open>
  A user takes a buffer for a connection (one that is not a buffered reader itself), leaves bytes in it, and
  gives it back; then it has it no more. \<open>pu_bytes\<close> are the bytes its user left in the buffer.
\<close>

record 'r pool_user =
  pu_addr :: nat
  pu_over :: 'r
  pu_bytes :: string

record 'r pool_system =
  ps_pool :: pool
  ps_store :: "'r buffer_store"
  ps_users :: "'r pool_user list"

datatype 'r pool_op = OpTake 'r | OpBuffer nat string | OpRecycle nat | OpFill

fun pool_step ::
  "('r \<Rightarrow> nat option) \<Rightarrow> ('r \<Rightarrow> pool \<Rightarrow> 'r buffer_store \<Rightarrow> nat \<times> pool \<times> 'r buffer_store) \<Rightarrow> (nat \<Rightarrow> pool \<Rightarrow> 'r buffer_store \<Rightarrow> pool)
     \<Rightarrow> (pool \<Rightarrow> 'r buffer_store \<Rightarrow> pool \<times> 'r buffer_store) \<Rightarrow> 'r pool_op \<Rightarrow> 'r pool_system \<Rightarrow> 'r pool_system option" where
  "pool_step as_bufio take_one give_back fill (OpTake r) w =
     (if as_bufio r = None then
        (let (a, p, st) = take_one r (ps_pool w) (ps_store w)
         in Some \<lparr>ps_pool = p, ps_store = st, ps_users = ps_users w @ [\<lparr>pu_addr = a, pu_over = r, pu_bytes = []\<rparr>]\<rparr>)
      else None)"
| "pool_step as_bufio take_one give_back fill (OpBuffer i bs) w =
     (if i < length (ps_users w) then
        (let u = ps_users w ! i; a = pu_addr u
         in Some (w\<lparr>ps_store := (ps_store w)[a := (ps_store w ! a)\<lparr>buf_bytes := bs\<rparr>],
              ps_users := (ps_users w)[i := u\<lparr>pu_bytes := bs\<rparr>]\<rparr>))
      else None)"
| "pool_step as_bufio take_one give_back fill (OpRecycle i) w =
     (if i < length (ps_users w) then
        Some (w\<lparr>ps_pool := give_back (pu_addr (ps_users w ! i)) (ps_pool w) (ps_store w),
          ps_users := take i (ps_users w) @ drop (Suc i) (ps_users w)\<rparr>)
      else None)"
| "pool_step as_bufio take_one give_back fill OpFill w =
     (let (p, st) = fill (ps_pool w) (ps_store w) in Some (w\<lparr>ps_pool := p, ps_store := st\<rparr>))"

fun pool_run ::
  "('r pool_op \<Rightarrow> 'r pool_system \<Rightarrow> 'r pool_system option) \<Rightarrow> 'r pool_op list \<Rightarrow> 'r pool_system \<Rightarrow> 'r pool_system option" where
  "pool_run step [] w = Some w"
| "pool_run step (op # ops) w = Option.bind (step op w) (pool_run step ops)"

definition reader_step :: "('r \<Rightarrow> nat option) \<Rightarrow> 'r pool_op \<Rightarrow> 'r pool_system \<Rightarrow> 'r pool_system option" where
  "reader_step as_bufio = pool_step as_bufio (Cached_NewReader as_bufio) RecycleReader Reader_Fill"

definition writer_step :: "('r \<Rightarrow> nat option) \<Rightarrow> 'r pool_op \<Rightarrow> 'r pool_system \<Rightarrow> 'r pool_system option" where
  "writer_step as_bufio = pool_step as_bufio (Cached_NewWriter as_bufio) RecycleWriter Writer_Fill"

text \<open>A pool that was made filled, and nobody has a buffer of it.\<close>

definition pool_start :: "pool \<times> 'r buffer_store \<Rightarrow> 'r pool_system" where
  "pool_start f = \<lparr>ps_pool = fst f, ps_store = snd f, ps_users = []\<rparr>"

text \<open>
  What a pool and its users have: buffers of the size of the pool, at most as many pooled as the capacity; no
  buffer is pooled twice, used twice, or pooled and used; and a used one reads from the connection of its user
  and holds the bytes its user left there.
\<close>

definition good_buffer :: "(int \<Rightarrow> int) \<Rightarrow> int \<Rightarrow> 'r buffered_io \<Rightarrow> bool" where
  "good_buffer fresh_size n b \<longleftrightarrow> buf_size b = n \<or> buf_size b = fresh_size n"

definition pool_owned :: "(int \<Rightarrow> int) \<Rightarrow> nat \<Rightarrow> int \<Rightarrow> 'r pool_system \<Rightarrow> bool" where
  "pool_owned fresh_size n sz w \<longleftrightarrow> pool_cap (ps_pool w) = n \<and> BufSize (ps_pool w) = sz
     \<and> length (pool_Slice (ps_pool w)) \<le> n
     \<and> distinct (pool_Slice (ps_pool w) @ map pu_addr (ps_users w))
     \<and> list_all (\<lambda>a. a < length (ps_store w) \<and> good_buffer fresh_size sz (ps_store w ! a)) (pool_Slice (ps_pool w) @ map pu_addr (ps_users w))
     \<and> list_all (\<lambda>u. buf_over (ps_store w ! pu_addr u) = Some (pu_over u) \<and> buf_bytes (ps_store w ! pu_addr u) = pu_bytes u) (ps_users w)"

subsection \<open>The contract of a pool\<close>

text \<open>For readers and writers alike: \<open>fresh_size\<close> is the size \<open>new\<close> gives.\<close>

locale buffer_pool =
  fixes new :: "('r \<Rightarrow> nat option) \<Rightarrow> 'r option \<Rightarrow> int \<Rightarrow> 'r buffer_store \<Rightarrow> nat \<times> 'r buffer_store"
    and take_one :: "('r \<Rightarrow> nat option) \<Rightarrow> 'r \<Rightarrow> pool \<Rightarrow> 'r buffer_store \<Rightarrow> nat \<times> pool \<times> 'r buffer_store"
    and give_back :: "nat \<Rightarrow> pool \<Rightarrow> 'r buffer_store \<Rightarrow> pool"
    and fill :: "pool \<Rightarrow> 'r buffer_store \<Rightarrow> pool \<times> 'r buffer_store"
    and fresh_size :: "int \<Rightarrow> int"
  assumes new_plain: "Option.bind ro as_bufio = None \<Longrightarrow>
      new as_bufio ro n st = (length st, st @ [\<lparr>buf_size = fresh_size n, buf_over = ro, buf_bytes = []\<rparr>])"
    and take_empty: "pool_Slice p = [] \<Longrightarrow>
      take_one as_bufio r p st = (fst (new as_bufio (Some r) (BufSize p) st), p, snd (new as_bufio (Some r) (BufSize p) st))"
    and take_last: "take_one as_bufio r (p\<lparr>pool_Slice := as @ [a]\<rparr>) st = (a, p\<lparr>pool_Slice := as\<rparr>, Reset r a st)"
    and give_back_def: "give_back a p st = (if length (pool_Slice p) < pool_cap p \<and> buf_size (st ! a) = BufSize p
      then p\<lparr>pool_Slice := pool_Slice p @ [a]\<rparr> else p)"
    and fill_full: "\<not> length (pool_Slice p) < pool_cap p \<Longrightarrow> fill p st = (p, st)"
    and fill_step: "length (pool_Slice p) < pool_cap p \<Longrightarrow> fill p st
      = fill (p\<lparr>pool_Slice := pool_Slice p @ [fst (new (\<lambda>_. None) None (BufSize p) st)]\<rparr>) (snd (new (\<lambda>_. None) None (BufSize p) st))"
begin

text \<open>A new buffer at the end of the store, in the pool or with a user.\<close>

lemma owned_new:
  assumes "pool_owned fresh_size n sz w"
  shows "length (pool_Slice (ps_pool w)) < n \<Longrightarrow> pool_owned fresh_size n sz
      (w\<lparr>ps_pool := (ps_pool w)\<lparr>pool_Slice := pool_Slice (ps_pool w) @ [length (ps_store w)]\<rparr>,
         ps_store := ps_store w @ [\<lparr>buf_size = fresh_size sz, buf_over = r, buf_bytes = []\<rparr>]\<rparr>)"
    and "pool_owned fresh_size n sz
      (w\<lparr>ps_store := ps_store w @ [\<lparr>buf_size = fresh_size sz, buf_over = Some c, buf_bytes = []\<rparr>],
         ps_users := ps_users w @ [\<lparr>pu_addr = length (ps_store w), pu_over = c, pu_bytes = []\<rparr>]\<rparr>)"
  using assms by (auto simp: pool_owned_def list_all_iff nth_append good_buffer_def ball_Un less_Suc_eq)

lemma owned_fill:
  "pool_owned fresh_size n sz w \<Longrightarrow> fill (ps_pool w) (ps_store w) = (p, st) \<Longrightarrow>
    pool_owned fresh_size n sz (w\<lparr>ps_pool := p, ps_store := st\<rparr>)"
proof (induction "n - length (pool_Slice (ps_pool w))" arbitrary: w)
  case 0
  then have "\<not> length (pool_Slice (ps_pool w)) < pool_cap (ps_pool w)" by (simp add: pool_owned_def)
  with fill_full [OF this] 0 show ?case by (cases w) auto
next
  case (Suc k)
  let ?b = "\<lparr>buf_size = fresh_size sz, buf_over = None, buf_bytes = []\<rparr>"
  let ?w = "w\<lparr>ps_pool := (ps_pool w)\<lparr>pool_Slice := pool_Slice (ps_pool w) @ [length (ps_store w)]\<rparr>, ps_store := ps_store w @ [?b]\<rparr>"
  have lt: "length (pool_Slice (ps_pool w)) < n" "pool_cap (ps_pool w) = n" "BufSize (ps_pool w) = sz"
    using Suc.prems(1) Suc.hyps(2) by (simp_all add: pool_owned_def)
  have "fill (ps_pool w) (ps_store w) = fill (ps_pool ?w) (ps_store ?w)"
    using fill_step [of "ps_pool w" "ps_store w"] new_plain [of None "\<lambda>_. None"] lt by simp
  with Suc.prems(2) have "fill (ps_pool ?w) (ps_store ?w) = (p, st)" by simp
  moreover have "k = n - length (pool_Slice (ps_pool ?w))" using Suc.hyps(2) by simp
  ultimately show ?case using Suc.hyps(1) [of ?w] owned_new(1) [OF Suc.prems(1) lt(1), of None] by simp
qed

lemma owned_take:
  assumes "pool_owned fresh_size n sz w" "as_bufio r = None" "take_one as_bufio r (ps_pool w) (ps_store w) = (a, p, st)"
  shows "pool_owned fresh_size n sz \<lparr>ps_pool = p, ps_store = st, ps_users = ps_users w @ [\<lparr>pu_addr = a, pu_over = r, pu_bytes = []\<rparr>]\<rparr>"
proof (cases "pool_Slice (ps_pool w)" rule: rev_cases)
  case Nil
  have "BufSize (ps_pool w) = sz" using assms(1) by (simp add: pool_owned_def)
  with take_empty [OF Nil, of as_bufio r "ps_store w"] new_plain [of "Some r" as_bufio sz "ps_store w"] assms(2,3)
  have "a = length (ps_store w)" "p = ps_pool w" "st = ps_store w @ [\<lparr>buf_size = fresh_size sz, buf_over = Some r, buf_bytes = []\<rparr>]"
    by simp_all
  with owned_new(2) [OF assms(1), of r] show ?thesis by (cases w) simp
next
  case (snoc as b)
  have "ps_pool w = (ps_pool w)\<lparr>pool_Slice := as @ [b]\<rparr>" using snoc by simp
  with take_last [where p = "ps_pool w" and as = as and a = b, of as_bufio r "ps_store w"] assms(3)
  have "a = b" "p = (ps_pool w)\<lparr>pool_Slice := as\<rparr>" "st = Reset r b (ps_store w)" by simp_all
  with assms(1) snoc show ?thesis by (auto simp: pool_owned_def list_all_iff Reset_def nth_list_update good_buffer_def)
qed

lemma owned_step:
  assumes "pool_owned fresh_size n sz w" "pool_step as_bufio (take_one as_bufio) give_back fill op w = Some w'"
  shows "pool_owned fresh_size n sz w'"
proof (cases op)
  case (OpTake r)
  with assms owned_take [OF assms(1), of as_bufio r] show ?thesis by (auto split: if_splits prod.splits)
next
  case (OpBuffer i bs)
  let ?u = "ps_users w ! i"
  have i: "i < length (ps_users w)" and w': "w' = w\<lparr>ps_store := (ps_store w)[pu_addr ?u := (ps_store w ! pu_addr ?u)\<lparr>buf_bytes := bs\<rparr>],
      ps_users := (ps_users w)[i := ?u\<lparr>pu_bytes := bs\<rparr>]\<rparr>"
    using assms(2) OpBuffer by (auto simp: Let_def split: if_splits)
  have d: "distinct (map pu_addr (ps_users w))" using assms(1) by (simp add: pool_owned_def)
  have addrs: "map pu_addr ((ps_users w)[i := ?u\<lparr>pu_bytes := bs\<rparr>]) = map pu_addr (ps_users w)"
    using i by (simp add: map_update list_update_id [of "map pu_addr (ps_users w)" i, simplified nth_map [OF i]])
  have other: "pu_addr (ps_users w ! j) \<noteq> pu_addr ?u" if "j < length (ps_users w)" "j \<noteq> i" for j
    using d i that by (metis distinct_conv_nth length_map nth_map)
  have lt: "pu_addr ?u < length (ps_store w)" using assms(1) i by (simp add: pool_owned_def list_all_iff ball_Un)
  have "list_all (\<lambda>u. buf_over (ps_store w' ! pu_addr u) = Some (pu_over u) \<and> buf_bytes (ps_store w' ! pu_addr u) = pu_bytes u) (ps_users w')"
    unfolding list_all_length
  proof (intro allI impI)
    fix j
    assume "j < length (ps_users w')"
    then have j: "j < length (ps_users w)" unfolding w' by simp
    have "buf_over (ps_store w ! pu_addr (ps_users w ! j)) = Some (pu_over (ps_users w ! j))
        \<and> buf_bytes (ps_store w ! pu_addr (ps_users w ! j)) = pu_bytes (ps_users w ! j)"
      using assms(1) j by (simp add: pool_owned_def list_all_length)
    with other [OF j] lt i j show "buf_over (ps_store w' ! pu_addr (ps_users w' ! j)) = Some (pu_over (ps_users w' ! j))
        \<and> buf_bytes (ps_store w' ! pu_addr (ps_users w' ! j)) = pu_bytes (ps_users w' ! j)"
      unfolding w' by (cases "j = i") simp_all
  qed
  moreover have "good_buffer fresh_size sz (ps_store w' ! a) = good_buffer fresh_size sz (ps_store w ! a)" for a
    unfolding w' by (cases "a = pu_addr ?u") (use lt in \<open>simp_all add: good_buffer_def\<close>)
  ultimately show ?thesis using assms(1) addrs unfolding w' by (simp add: pool_owned_def)
next
  case (OpRecycle i)
  then have i: "i < length (ps_users w)" and w': "w' = w\<lparr>ps_pool := give_back (pu_addr (ps_users w ! i)) (ps_pool w) (ps_store w),
      ps_users := take i (ps_users w) @ drop (Suc i) (ps_users w)\<rparr>"
    using assms(2) by (auto split: if_splits)
  define us vs where "us = take i (ps_users w)" and "vs = drop (Suc i) (ps_users w)"
  have "ps_users w = us @ ps_users w ! i # vs" using i by (simp add: us_def vs_def id_take_nth_drop)
  with assms(1) show ?thesis unfolding w' us_def [symmetric] vs_def [symmetric]
    by (cases w; cases "ps_users w ! i") (auto simp: pool_owned_def give_back_def)
next
  case OpFill
  with assms owned_fill [OF assms(1)] show ?thesis by (auto split: prod.splits)
qed

lemma owned_run:
  "pool_run (pool_step as_bufio (take_one as_bufio) give_back fill) ops w = Some w' \<Longrightarrow> pool_owned fresh_size n sz w \<Longrightarrow>
    pool_owned fresh_size n sz w'"
  by (induction ops arbitrary: w) (auto split: bind_splits dest: owned_step)

lemma owned_start: "pool_owned fresh_size n sz (pool_start (fill \<lparr>pool_Slice = [], pool_cap = n, BufSize = sz\<rparr> []))"
proof -
  let ?w = "\<lparr>ps_pool = \<lparr>pool_Slice = [], pool_cap = n, BufSize = sz\<rparr>, ps_store = [], ps_users = []\<rparr> :: 'r pool_system"
  have "pool_owned fresh_size n sz ?w" by (simp add: pool_owned_def)
  from owned_fill [OF this] show ?thesis by (cases "fill (ps_pool ?w) (ps_store ?w)") (simp add: pool_start_def)
qed

end

interpretation readers: buffer_pool NewReaderSize Cached_NewReader RecycleReader Reader_Fill "\<lambda>n. max n 16"
  by unfold_locales
    (simp_all add: NewReaderSize_def new_buffer_def Cached_NewReader_def RecycleReader_def Reader_Fill.simps
      Let_def split: prod.splits)

interpretation writers: buffer_pool NewWriterSize Cached_NewWriter RecycleWriter Writer_Fill "\<lambda>n. if n \<le> 0 then 4096 else n"
  by unfold_locales
    (simp_all add: NewWriterSize_def new_buffer_def Cached_NewWriter_def RecycleWriter_def Writer_Fill.simps
      Let_def split: prod.splits)

subsection \<open>Properties\<close>

text \<open>
  C32: whatever readers (or writers) the users of a pool take for connections that are not buffered themselves,
  use and give back, each once, a pool that was made filled stays within its capacity, its buffers have its size
  (or the least one of \<open>bufio\<close>), no buffer has two users or is in the pool while it is used, and the buffer of a
  user reads from (writes to) its connection and holds exactly the bytes this user left there.
\<close>

theorem reader_pool_invariant:
  assumes "pool_run (reader_step as_bufio) rops (pool_start (NewFilledCachedBufioReaderSource n sz [])) = Some rw"
    and "pool_run (writer_step as_bufiow) wops (pool_start (NewFilledCachedBufioWriterSource m sw [])) = Some ww"
  shows "pool_owned (\<lambda>k. max k 16) n sz rw \<and> pool_owned (\<lambda>k. if k \<le> 0 then 4096 else k) m sw ww"
proof
  show "pool_owned (\<lambda>k. max k 16) n sz rw"
    by (rule readers.owned_run [OF assms(1) [unfolded reader_step_def NewFilledCachedBufioReaderSource_def] readers.owned_start])
  show "pool_owned (\<lambda>k. if k \<le> 0 then 4096 else k) m sw ww"
    by (rule writers.owned_run [OF assms(2) [unfolded writer_step_def NewFilledCachedBufioWriterSource_def] writers.owned_start])
qed

theorem reader_pool_invariant_witness:
  "\<exists>w :: string pool_system. pool_run (reader_step (\<lambda>_. None))
      [OpTake ''a'', OpBuffer 0 ''secret'', OpTake ''b'', OpRecycle 0, OpTake ''c''] (pool_start (NewFilledCachedBufioReaderSource 2 32 [])) = Some w
    \<and> map pu_addr (ps_users w) = [0, 1] \<and> map pu_over (ps_users w) = [''b'', ''c''] \<and> buf_bytes (ps_store w ! 1) = []
    \<and> pool_owned (\<lambda>k. max k 16) 2 32 w"
proof -
  let ?ops = "[OpTake ''a'', OpBuffer 0 ''secret'', OpTake ''b'', OpRecycle 0, OpTake ''c'']"
  let ?b = "\<lparr>buf_size = 32, buf_over = None, buf_bytes = []\<rparr> :: string buffered_io"
  have start: "pool_start (NewFilledCachedBufioReaderSource 2 32 [])
      = \<lparr>ps_pool = \<lparr>pool_Slice = [0, 1], pool_cap = 2, BufSize = 32\<rparr>, ps_store = [?b, ?b], ps_users = []\<rparr>"
    by (simp add: pool_start_def NewFilledCachedBufioReaderSource_def readers.fill_step readers.fill_full NewReaderSize_def new_buffer_def)
  have "\<exists>w. pool_run (reader_step (\<lambda>_. None)) ?ops (pool_start (NewFilledCachedBufioReaderSource 2 32 [])) = Some w
      \<and> map pu_addr (ps_users w) = [0, 1] \<and> map pu_over (ps_users w) = [''b'', ''c''] \<and> buf_bytes (ps_store w ! 1) = []"
    unfolding start by (simp add: reader_step_def Cached_NewReader_def RecycleReader_def Reset_def Let_def)
  then obtain w :: "string pool_system" where w: "pool_run (reader_step (\<lambda>_. None)) ?ops (pool_start (NewFilledCachedBufioReaderSource 2 32 [])) = Some w"
    "map pu_addr (ps_users w) = [0, 1]" "map pu_over (ps_users w) = [''b'', ''c'']" "buf_bytes (ps_store w ! 1) = []" by (elim exE conjE) (rule that)
  have "pool_run (writer_step (\<lambda>_. None)) [] (pool_start (NewFilledCachedBufioWriterSource 0 32 []))
      = Some (pool_start (NewFilledCachedBufioWriterSource 0 32 []) :: string pool_system)" by simp
  from conjunct1 [OF reader_pool_invariant [OF w(1) this]] w show ?thesis by (intro exI [of _ w] conjI)
qed

text \<open>
  The pool does not look for the buffer it is given: one that is given back twice goes to two connections, and
  the first of them then reads from the second.
\<close>

theorem recycled_twice_shared:
  "let p0 = NewCachedBufioReaderSource 2 32; (a, p1, st1) = Cached_NewReader (\<lambda>_. None) ''a'' p0 [];
       p2 = RecycleReader a (RecycleReader a p1 st1) st1;
       (b, p3, st3) = Cached_NewReader (\<lambda>_. None) ''b'' p2 st1; (c, p4, st4) = Cached_NewReader (\<lambda>_. None) ''c'' p3 st3
   in b = c \<and> buf_over (st4 ! b) = Some ''c''"
  by (simp add: NewCachedBufioReaderSource_def Cached_NewReader_def RecycleReader_def NewReaderSize_def new_buffer_def Reset_def)


end
