(* ===== verification/Cache_Key.thy ===== *)
theory Cache_Key
  imports Prelude
begin

section \<open>Cache keys: \<open>cache/key.go\<close>\<close>

text \<open>
  A table of cached responses: by host, then by path and query in one string, then a list of extra
  strings to compare one by one.
\<close>

record Key =
  key_Host :: string
  key_Path :: string
  RawQuery :: string
  Extra :: "string list"

type_synonym 'r ExtraMap = "(string list \<times> 'r) list"
type_synonym 'r CacheTable = "string \<rightharpoonup> (string \<rightharpoonup> 'r ExtraMap)"

fun slicesOfStringsEqual_loop :: "nat \<Rightarrow> nat \<Rightarrow> string list \<Rightarrow> string list \<Rightarrow> bool go" where
  "slicesOfStringsEqual_loop i 0 a b = Inr True"
| "slicesOfStringsEqual_loop i (Suc n) a b =
     bind_go (go_index a i) (\<lambda>x. bind_go (go_index b i) (\<lambda>y.
       if x \<noteq> y then Inr False else slicesOfStringsEqual_loop (i + 1) n a b))"

definition slicesOfStringsEqual :: "string list \<Rightarrow> string list \<Rightarrow> bool go" where
  "slicesOfStringsEqual a b =
     (if length a \<noteq> length b then Inr False else slicesOfStringsEqual_loop 0 (length a) a b)"

fun ExtraMap_Get :: "'r ExtraMap \<Rightarrow> string list \<Rightarrow> 'r option go" where
  "ExtraMap_Get [] k = Inr None"
| "ExtraMap_Get ((e, v) # em) k =
     bind_go (slicesOfStringsEqual e k) (\<lambda>eq. if eq then Inr (Some v) else ExtraMap_Get em k)"

definition CacheTable_Get :: "'r CacheTable \<Rightarrow> Key \<Rightarrow> 'r option go" where
  "CacheTable_Get ct k =
     (case ct (key_Host k) of
        None \<Rightarrow> Inr None
      | Some m \<Rightarrow>
          (case m (key_Path k @ ''?'' @ RawQuery k) of
             None \<Rightarrow> Inr None
           | Some em \<Rightarrow> ExtraMap_Get em (Extra k)))"

lemma slicesOfStringsEqual_loop_iff:
  "length a = i + n \<Longrightarrow> length b = i + n \<Longrightarrow> slicesOfStringsEqual_loop i n a b = Inr (drop i a = drop i b)"
proof (induction n arbitrary: i)
  case (Suc n)
  then have "drop i a = a ! i # drop (Suc i) a" "drop i b = b ! i # drop (Suc i) b"
    by (simp_all add: Cons_nth_drop_Suc)
  with Suc.IH [of "Suc i"] Suc.prems show ?case by simp
qed simp

lemma slicesOfStringsEqual_iff: "slicesOfStringsEqual a b = Inr (a = b)"
  using slicesOfStringsEqual_loop_iff [of a 0 "length a" b] by (auto simp: slicesOfStringsEqual_def)

lemma ExtraMap_Get_map_of: "ExtraMap_Get em k = Inr (map_of em k)"
  by (induction em) (auto simp: slicesOfStringsEqual_iff)

text \<open>
  \<open>Get\<close> never panics and finds the first entry whose extra strings are those of the key. It cannot tell
  apart two keys that have a question mark at different places between path and query: the entry of
  one page is served for the other.
\<close>

theorem cache_lookup:
  "CacheTable_Get ct k =
      Inr (Option.bind (ct (key_Host k)) (\<lambda>m. Option.bind (m (key_Path k @ ''?'' @ RawQuery k)) (\<lambda>em. map_of em (Extra k))))
    \<and> CacheTable_Get ct \<lparr>key_Host = h, key_Path = p @ ''?'' @ q, RawQuery = r, Extra = e\<rparr>
      = CacheTable_Get ct \<lparr>key_Host = h, key_Path = p, RawQuery = q @ ''?'' @ r, Extra = e\<rparr>"
  by (simp add: CacheTable_Get_def ExtraMap_Get_map_of split: option.splits)

end
