(* ===== verification/Chunked.thy ===== *)
theory Chunked
  imports Body_Reader Util
begin

section \<open>Chunked bodies: \<open>http/http1/encoding/chunked/chunkedParser.go\<close>\<close>

text \<open>
  The reader of a chunked body on top of any source. A source is its \<open>Read\<close>, and \<open>ReadBytes\<close> and
  \<open>ReadByte\<close> when it is a \<open>*bufio.Reader\<close>. The time spent in \<open>time.Sleep\<close> is part of the state, in
  nanoseconds. Reads that wait for ever are \<^term>\<open>None\<close>. The scratch buffer of the reader is never read
  before it is filled, so the reads return the bytes instead.
\<close>

datatype 'e chunk_error = ErrMalformedChunks | ChunkEOF | ChunkIO 'e | ChunkSize num_error

record ('s, 'e) chunk_source =
  src_Read :: "nat \<Rightarrow> 's \<Rightarrow> (string \<times> 'e option) \<times> 's"
  src_lines :: "((char \<Rightarrow> 's \<Rightarrow> (string \<times> 'e option) \<times> 's) \<times> ('s \<Rightarrow> (char \<times> 'e option) \<times> 's)) option"

type_synonym 's timed = "'s \<times> nat"

definition IsTemp :: "('e \<Rightarrow> bool option) \<Rightarrow> 'e \<Rightarrow> bool" where
  "IsTemp net_Temporary err = (case net_Temporary err of Some b \<Rightarrow> b | None \<Rightarrow> False)"

definition ZeroReadSleep :: nat where "ZeroReadSleep = 2000000000"

definition sleep :: "nat \<Rightarrow> 's timed \<Rightarrow> 's timed" where
  "sleep d st = (fst st, snd st + d)"

lemma byte_succ: "(w :: 8 word) \<noteq> 255 \<Longrightarrow> unat (w + 1) = Suc (unat w) \<and> unat w < 255"
proof -
  assume "w \<noteq> 255"
  then have "unat w \<noteq> unat (255 :: 8 word)" by (metis word_unat_eq_iff)
  then have "unat w \<noteq> 255" by simp
  moreover have "unat w < 256" using unsigned_less [of w, where ?'a = nat] by simp
  ultimately have "unat w < 255" by simp
  then show ?thesis by (simp add: unat_word_ariths)
qed

lemma small_power: "\<not> 250 < (2 :: nat) ^ k \<Longrightarrow> k < 8"
proof (rule ccontr)
  assume "\<not> 250 < (2 :: nat) ^ k" "\<not> k < 8"
  moreover from this have "(2 :: nat) ^ 8 \<le> 2 ^ k" by (intro power_increasing) auto
  ultimately show False by simp
qed

text \<open>The timeout is a millisecond, doubled \<open>k\<close> times. \<open>tmp\<close> is \<open>IsTemp\<close>.\<close>

function readSource_loop ::
  "('s, 'e) chunk_source \<Rightarrow> ('e \<Rightarrow> bool) \<Rightarrow> nat \<Rightarrow> 8 word \<Rightarrow> nat \<Rightarrow> 's timed \<Rightarrow> (string \<times> 'e option) \<times> 's timed" where
  "readSource_loop src tmp k waits n st =
     (let ((d, err), s') = src_Read src n (fst st);
          timeout = 1000000 * 2 ^ k;
          st' = sleep timeout (s', snd st)
      in if err = None \<and> d \<noteq> [] then ((d, err), (s', snd st))
         else if err \<noteq> None \<and> tmp (the err) \<and> d \<noteq> [] then ((d, None), (s', snd st))
         else if err \<noteq> None \<and> \<not> tmp (the err) then ((d, err), (s', snd st))
         else if timeout > 250000000 then
           (if waits = 255 then ((d, err), st') else readSource_loop src tmp k (waits + 1) n st')
         else readSource_loop src tmp (k + 1) waits n st')"
  by auto
termination
  by (relation "measure (\<lambda>(src, tmp, k, waits, n, st). (255 - unat waits) + (9 - k))")
    (auto dest: byte_succ small_power)

declare readSource_loop.simps [simp del]

definition readSource :: "('s, 'e) chunk_source \<Rightarrow> ('e \<Rightarrow> bool) \<Rightarrow> nat \<Rightarrow> 's timed \<Rightarrow> (string \<times> 'e option) \<times> 's timed" where
  "readSource src tmp n st = readSource_loop src tmp 0 0 n st"

partial_function (option) read1 ::
  "('s, 'e) chunk_source \<Rightarrow> ('e \<Rightarrow> bool) \<Rightarrow> 's timed \<Rightarrow> ((string \<times> 'e option) \<times> 's timed) option" where
  "read1 src tmp st =
     (case readSource src tmp 1 st of ((d, err), st') \<Rightarrow>
        if length d = 1 \<or> err \<noteq> None then Some ((d, err), st')
        else read1 src tmp (sleep ZeroReadSleep st'))"

partial_function (option) read2 ::
  "('s, 'e) chunk_source \<Rightarrow> ('e \<Rightarrow> bool) \<Rightarrow> 's timed \<Rightarrow> ((string \<times> 'e option) \<times> 's timed) option" where
  "read2 src tmp st =
     (case readSource src tmp 2 st of ((d, err), st') \<Rightarrow>
        if length d = 2 \<or> err \<noteq> None then Some ((d, err), st')
        else if length d = 1 then
          Option.bind (read1 src tmp st') (\<lambda>((d', err'), st''). Some ((d @ d', err'), st''))
        else if length d = 0 then read2 src tmp (sleep ZeroReadSleep st')
        else read2 src tmp st')"

text \<open>\<open>left\<close> is the length of the part of the buffer that is still to be filled, \<open>acc\<close> the part that is.\<close>

partial_function (option) fill ::
  "('s, 'e) chunk_source \<Rightarrow> ('e \<Rightarrow> bool) \<Rightarrow> nat \<Rightarrow> string \<Rightarrow> 's timed \<Rightarrow> ((string \<times> 'e option) \<times> 's timed) option" where
  "fill src tmp left acc st =
     (case readSource src tmp left st of ((d, err), st') \<Rightarrow>
        if length d = left \<or> err \<noteq> None then Some ((acc @ d, err), st')
        else if length d = 0 then fill src tmp left acc (sleep ZeroReadSleep st')
        else fill src tmp (left - length d) (acc @ d) st')"

partial_function (option) readLine_loop ::
  "('s, 'e) chunk_source \<Rightarrow> ('e \<Rightarrow> bool) \<Rightarrow> string \<Rightarrow> 's timed \<Rightarrow> ((string \<times> 'e chunk_error option) \<times> 's timed) option" where
  "readLine_loop src tmp line st =
     Option.bind (read2 src tmp st) (\<lambda>((d, err), st').
       if err \<noteq> None then Some ((line, map_option ChunkIO err), st')
       else if d ! 0 = CHR 0x0D then
         Some ((line, if d ! 1 \<noteq> CHR 0x0A then Some ErrMalformedChunks else None), st')
       else if d ! 1 = CHR 0x0D then
         Option.bind (read1 src tmp st') (\<lambda>((d', err'), st'').
           if err' \<noteq> None then Some ((line, map_option ChunkIO err'), st'')
           else if d' ! 0 \<noteq> CHR 0x0A then Some ((line, Some ErrMalformedChunks), st'')
           else Some ((line @ [d ! 0], None), st''))
       else readLine_loop src tmp (line @ d) st')"

definition readLine ::
  "('s, 'e) chunk_source \<Rightarrow> ('e \<Rightarrow> bool) \<Rightarrow> 's timed \<Rightarrow> ((string \<times> 'e chunk_error option) \<times> 's timed) option" where
  "readLine src tmp st =
     (case src_lines src of
        Some (ReadBytes, ReadByte) \<Rightarrow>
          (let ((line, err), s1) = ReadBytes (CHR 0x0D) (fst st) in
           if err \<noteq> None then Some ((line, map_option ChunkIO err), (s1, snd st))
           else (let ((c, err'), s2) = ReadByte s1; line' = butlast line @ [c] in
             if err' \<noteq> None then Some ((line', map_option ChunkIO err'), (s2, snd st))
             else Some ((butlast line', if c \<noteq> CHR 0x0A then Some ErrMalformedChunks else None), (s2, snd st))))
      | None \<Rightarrow> readLine_loop src tmp [] st)"

subsection \<open>The reader\<close>

record 's chunk_reader =
  cr_source :: "'s timed"
  bytesLeft :: int

definition NewPipe :: "'s timed \<Rightarrow> 's chunk_reader" where
  "NewPipe st = \<lparr>cr_source = st, bytesLeft = 0\<rparr>"

definition chunk_Close :: "'s chunk_reader \<Rightarrow> 'e chunk_error option" where
  "chunk_Close r = None"

definition readBytesLeft ::
  "('s, 'e) chunk_source \<Rightarrow> ('e \<Rightarrow> bool) \<Rightarrow> 's chunk_reader \<Rightarrow> ('e chunk_error option \<times> 's chunk_reader) option" where
  "readBytesLeft src tmp r =
     map_option (\<lambda>((line, err), st).
       if err \<noteq> None then (err, r\<lparr>cr_source := st\<rparr>)
       else (let sz = (case index_byte line (CHR '';'') of None \<Rightarrow> line | Some i \<Rightarrow> take i line);
                 (temp, nerr) = ParseUint sz 16 31
             in (map_option ChunkSize nerr, r\<lparr>cr_source := st, bytesLeft := int temp\<rparr>)))
       (readLine src tmp (cr_source r))"

definition ConsumeCRLF ::
  "('s, 'e) chunk_source \<Rightarrow> ('e \<Rightarrow> bool) \<Rightarrow> 's chunk_reader \<Rightarrow> ('e chunk_error option \<times> 's chunk_reader) option" where
  "ConsumeCRLF src tmp r =
     map_option (\<lambda>((d, err), st).
       if err \<noteq> None then (map_option ChunkIO err, r\<lparr>cr_source := st\<rparr>)
       else (if d ! 0 \<noteq> CHR 0x0D \<or> d ! 1 \<noteq> CHR 0x0A then Some ErrMalformedChunks else None, r\<lparr>cr_source := st\<rparr>))
       (read2 src tmp (cr_source r))"

text \<open>The first part of \<open>Read\<close>: the size of the next chunk where one is due. An error ends the call.\<close>

definition chunk_start ::
  "('s, 'e) chunk_source \<Rightarrow> ('e \<Rightarrow> bool) \<Rightarrow> 's chunk_reader \<Rightarrow> ('e chunk_error option \<times> 's chunk_reader) option" where
  "chunk_start src tmp r =
     (if bytesLeft r < 0 then Some (Some ChunkEOF, r)
      else if bytesLeft r = 0 then
        Option.bind (readBytesLeft src tmp r) (\<lambda>(err, r1).
          if err \<noteq> None then Some (err, r1\<lparr>bytesLeft := -1\<rparr>)
          else if bytesLeft r1 = 0 then
            Option.bind (ConsumeCRLF src tmp (r1\<lparr>bytesLeft := -1\<rparr>)) (\<lambda>(err', r2).
              Some (if err' = None then Some ChunkEOF else err', r2))
          else Some (None, r1))
      else Some (None, r))"

partial_function (option) chunk_Read ::
  "('s, 'e) chunk_source \<Rightarrow> ('e \<Rightarrow> bool) \<Rightarrow> nat \<Rightarrow> 's chunk_reader \<Rightarrow> ((string \<times> 'e chunk_error option) \<times> 's chunk_reader) option" where
  "chunk_Read src tmp n r =
     Option.bind (chunk_start src tmp r) (\<lambda>(stop, r1).
       if stop \<noteq> None then Some (([], stop), r1)
       else (case readSource src tmp (nat (MinInt (bytesLeft r1) (int n))) (cr_source r1) of ((d, err), st) \<Rightarrow>
         if err \<noteq> None then Some ((d, map_option ChunkIO err), r1\<lparr>cr_source := st, bytesLeft := -1\<rparr>)
         else (let r2 = r1\<lparr>cr_source := st, bytesLeft := bytesLeft r1 - int (length d)\<rparr> in
           if bytesLeft r2 \<noteq> 0 then Some ((d, None), r2)
           else Option.bind (ConsumeCRLF src tmp r2) (\<lambda>(err', r3).
             if err' \<noteq> None then Some ((d, err'), r3)
             else Option.bind (chunk_Read src tmp (n - length d) r3) (\<lambda>((d', err''), r4).
               Some ((d @ d', err''), r4))))))"

subsection \<open>The text of a chunked body\<close>

text \<open>A chunk: the text of its size, an extension, its data.\<close>

record chunk =
  ch_size :: string
  ch_ext :: string
  ch_data :: string

definition size_line_ok :: "chunk \<Rightarrow> bool" where
  "size_line_ok c \<longleftrightarrow> ParseUint (ch_size c) 16 31 = (length (ch_data c), None)
     \<and> CHR '';'' \<notin> set (ch_size c) \<and> CHR 0x0D \<notin> set (ch_size c) \<and> CHR 0x0D \<notin> set (ch_ext c)
     \<and> (ch_ext c = [] \<or> hd (ch_ext c) = CHR '';'')"

definition size_line :: "chunk \<Rightarrow> string" where
  "size_line c = ch_size c @ ch_ext c @ [CHR 0x0D, CHR 0x0A]"

definition chunk_text :: "chunk \<Rightarrow> string" where
  "chunk_text c = size_line c @ ch_data c @ [CHR 0x0D, CHR 0x0A]"

text \<open>A last chunk has no data.\<close>

definition chunks_ok :: "chunk list \<Rightarrow> chunk \<Rightarrow> bool" where
  "chunks_ok cs end_chunk \<longleftrightarrow> list_all (\<lambda>c. size_line_ok c \<and> ch_data c \<noteq> []) cs \<and> size_line_ok end_chunk \<and> ch_data end_chunk = []"

definition chunked_text :: "chunk list \<Rightarrow> chunk \<Rightarrow> string" where
  "chunked_text cs end_chunk = concat (map chunk_text cs) @ chunk_text end_chunk"

definition plain_chunk :: "string \<Rightarrow> chunk" where
  "plain_chunk d = \<lparr>ch_size = FormatUint (length d) 16, ch_ext = [], ch_data = d\<rparr>"

lemma digits16_values: "c \<in> set (format_digits 16 n) \<Longrightarrow> digit_val c \<noteq> None"
proof (induction n rule: less_induct)
  case (less n)
  show ?case
  proof (cases "n < 16")
    case True
    with less.prems show ?thesis by (simp add: format_digits.simps [of 16 n])
  next
    case False
    then have "n div 16 < n" by simp
    with less.IH [of "n div 16"] less.prems False show ?thesis
      by (auto simp: format_digits.simps [of 16 n])
  qed
qed

lemma plain_chunk_ok: "length d < 2 ^ 31 \<Longrightarrow> size_line_ok (plain_chunk d)"
proof -
  assume "length d < 2 ^ 31"
  then have "ParseUint (FormatUint (length d) 16) 16 31 = (length d, None)" by (intro ParseUint_FormatUint) auto
  moreover have "digit_val (CHR '';'') = None" "digit_val (CHR 0x0D) = None" by code_simp+
  then have "CHR '';'' \<notin> set (FormatUint (length d) 16)" "CHR 0x0D \<notin> set (FormatUint (length d) 16)"
    using digits16_values [of "CHR '';''" "length d"] digits16_values [of "CHR 0x0D" "length d"] by (auto simp: FormatUint_def)
  ultimately show ?thesis by (simp add: size_line_ok_def plain_chunk_def)
qed

subsection \<open>Sources that deliver their bytes\<close>

text \<open>
  What the reader relies on: a read of a source that still has bytes gives some of them, at least one
  and no more than asked for; an empty read gives nothing and no error. How many bytes a read gives
  is up to the source.
\<close>

locale byte_source =
  fixes src :: "('s, 'e) chunk_source" and bytes :: "'s \<Rightarrow> string"
  assumes Read_some: "0 < n \<Longrightarrow> bytes s \<noteq> [] \<Longrightarrow>
      \<exists>k s'. src_Read src n s = ((take k (bytes s), None), s') \<and> 0 < k \<and> k \<le> n \<and> k \<le> length (bytes s)
        \<and> bytes s' = drop k (bytes s)"
    and Read_nothing: "bytes s \<noteq> [] \<Longrightarrow> \<exists>s'. src_Read src 0 s = (([], None), s') \<and> bytes s' = bytes s"
    and ReadBytes_line: "src_lines src = Some (rbs, rb) \<Longrightarrow> bytes s = l @ CHR 0x0D # u \<Longrightarrow> CHR 0x0D \<notin> set l \<Longrightarrow>
      \<exists>s'. rbs (CHR 0x0D) s = ((l @ [CHR 0x0D], None), s') \<and> bytes s' = u"
    and ReadByte_next: "src_lines src = Some (rbs, rb) \<Longrightarrow> bytes s = c # u \<Longrightarrow>
      \<exists>s'. rb s = ((c, None), s') \<and> bytes s' = u"
begin

lemma readSource_some:
  assumes "0 < n" "bytes (fst st) \<noteq> []"
  shows "\<exists>k s'. readSource src tmp n st = ((take k (bytes (fst st)), None), (s', snd st)) \<and> 0 < k \<and> k \<le> n
    \<and> k \<le> length (bytes (fst st)) \<and> bytes s' = drop k (bytes (fst st))"
proof -
  obtain k s' where "src_Read src n (fst st) = ((take k (bytes (fst st)), None), s')" "0 < k" "k \<le> n"
    "k \<le> length (bytes (fst st))" "bytes s' = drop k (bytes (fst st))"
    using Read_some [OF assms] by blast
  with assms(2) show ?thesis
    by (intro exI [of _ k] exI [of _ s']) (simp add: readSource_def readSource_loop.simps)
qed

lemma read1_next:
  assumes "bytes (fst st) = c # u"
  shows "\<exists>s'. read1 src tmp st = Some (([c], None), (s', snd st)) \<and> bytes s' = u"
proof -
  obtain k s' where "readSource src tmp 1 st = ((take k (c # u), None), (s', snd st))" "0 < k" "k \<le> 1"
    "bytes s' = drop k (c # u)"
    using readSource_some [of 1 st tmp] assms by auto
  moreover from this have "k = 1" by simp
  ultimately show ?thesis by (subst read1.simps) simp
qed

lemma read2_next:
  assumes "bytes (fst st) = c # d # u"
  shows "\<exists>s'. read2 src tmp st = Some (([c, d], None), (s', snd st)) \<and> bytes s' = u"
proof -
  obtain k s' where s': "readSource src tmp 2 st = ((take k (c # d # u), None), (s', snd st))" "0 < k" "k \<le> 2"
    "bytes s' = drop k (c # d # u)"
    using readSource_some [of 2 st tmp] assms by auto
  show ?thesis
  proof (cases "k = 1")
    case True
    then obtain s'' where "read1 src tmp (s', snd st) = Some (([d], None), (s'', snd st))" "bytes s'' = u"
      using read1_next [of "(s', snd st)" d u tmp] s'(4) by auto
    with s'(1) True show ?thesis by (subst read2.simps) simp
  next
    case False
    with s' have "k = 2" by simp
    with s' show ?thesis by (subst read2.simps) (simp add: numeral_2_eq_2)
  qed
qed

lemma readLine_loop_line:
  "CHR 0x0D \<notin> set l \<Longrightarrow> bytes (fst st) = l @ CHR 0x0D # CHR 0x0A # u \<Longrightarrow>
    \<exists>s'. readLine_loop src tmp line st = Some ((line @ l, None), (s', snd st)) \<and> bytes s' = u"
proof (induction "length l" arbitrary: l line st rule: less_induct)
  case less
  note loop = readLine_loop.simps [of src tmp line st]
  consider "l = []" | c where "l = [c]" | c d l' where "l = c # d # l'"
    by (cases l; cases "tl l") auto
  then show ?case
  proof cases
    case 1
    then show ?thesis using read2_next [of st "CHR 0x0D" "CHR 0x0A" u tmp] less.prems(2) loop by auto
  next
    case 2
    then obtain s' where s': "read2 src tmp st = Some (([c, CHR 0x0D], None), (s', snd st))" "bytes s' = CHR 0x0A # u"
      using read2_next [of st c "CHR 0x0D" "CHR 0x0A # u" tmp] less.prems(2) by auto
    then obtain s'' where "read1 src tmp (s', snd st) = Some (([CHR 0x0A], None), (s'', snd st))" "bytes s'' = u"
      using read1_next [of "(s', snd st)"] by auto
    with s'(1) 2 less.prems(1) loop show ?thesis by auto
  next
    case 3
    then obtain s' where s': "read2 src tmp st = Some (([c, d], None), (s', snd st))"
      "bytes s' = l' @ CHR 0x0D # CHR 0x0A # u"
      using read2_next [of st c d] less.prems(2) by auto
    moreover have "length l' < length l" "CHR 0x0D \<notin> set l'" using 3 less.prems(1) by auto
    ultimately show ?thesis using less.hyps [of l' "(s', snd st)" "line @ [c, d]"] 3 less.prems(1) loop by auto
  qed
qed

lemma readLine_line:
  assumes "CHR 0x0D \<notin> set l" "bytes (fst st) = l @ CHR 0x0D # CHR 0x0A # u"
  shows "\<exists>s'. readLine src tmp st = Some ((l, None), (s', snd st)) \<and> bytes s' = u"
proof (cases "src_lines src")
  case None
  then show ?thesis using readLine_loop_line [OF assms, of tmp "[]"] by (simp add: readLine_def)
next
  case (Some ops)
  obtain rbs rb where ops: "src_lines src = Some (rbs, rb)" using Some by (cases ops) auto
  obtain s1 where s1: "rbs (CHR 0x0D) (fst st) = ((l @ [CHR 0x0D], None), s1)" "bytes s1 = CHR 0x0A # u"
    using ReadBytes_line [OF ops assms(2,1)] by auto
  obtain s2 where "rb s1 = ((CHR 0x0A, None), s2)" "bytes s2 = u" using ReadByte_next [OF ops s1(2)] by auto
  with s1 ops show ?thesis by (simp add: readLine_def)
qed

lemma readSource_nothing_loop:
  "bytes (fst st) = bs \<Longrightarrow> bs \<noteq> [] \<Longrightarrow> 8 \<le> k \<Longrightarrow>
    \<exists>s'. readSource_loop src tmp k waits 0 st = (([], None), (s', snd st + (256 - unat waits) * (1000000 * 2 ^ k)))
      \<and> bytes s' = bs"
proof (induction "255 - unat waits" arbitrary: waits st)
  case 0
  obtain s' where s': "src_Read src 0 (fst st) = (([], None), s')" "bytes s' = bs"
    using Read_nothing [of "fst st"] 0(2,3) by auto
  have "250 < (2 :: nat) ^ k" using 0(4) small_power by (meson not_le)
  moreover have "waits = 255" using 0(1) byte_succ by force
  ultimately show ?case using s' by (subst readSource_loop.simps) (simp add: sleep_def)
next
  case (Suc m)
  obtain s' where s': "src_Read src 0 (fst st) = (([], None), s')" "bytes s' = bs"
    using Read_nothing [of "fst st"] Suc.prems(1,2) by auto
  let ?st = "sleep (1000000 * 2 ^ k) (s', snd st)"
  have w: "waits \<noteq> 255" using Suc.hyps(2) by auto
  note succ = byte_succ [OF w]
  have p: "250 < (2 :: nat) ^ k" using Suc.prems(3) small_power by (meson not_le)
  have "m = 255 - unat (waits + 1)" using Suc.hyps(2) succ by simp
  from Suc.hyps(1) [OF this, of ?st] s'(2) Suc.prems(2,3) obtain s'' where
    "readSource_loop src tmp k (waits + 1) 0 ?st = (([], None), (s'', snd ?st + (256 - unat (waits + 1)) * (1000000 * 2 ^ k)))"
    "bytes s'' = bs" by (auto simp: sleep_def)
  moreover have "256 - unat waits = Suc (256 - unat (waits + 1))" using succ by linarith
  ultimately show ?case using s'(1) w p by (subst readSource_loop.simps) (simp add: sleep_def)
qed

text \<open>The time the reader waits for a source that has nothing to give.\<close>

lemma readSource_nothing:
  assumes "bytes (fst st) \<noteq> []"
  shows "\<exists>s'. readSource src tmp 0 st = (([], None), (s', snd st + 65791000000)) \<and> bytes s' = bytes (fst st)"
proof -
  have "\<exists>s'. readSource_loop src tmp 0 0 0 st = readSource_loop src tmp k 0 0 (s', snd st + 1000000 * (2 ^ k - 1)) \<and> bytes s' = bytes (fst st)"
    if "k \<le> 8" for k
    using that
  proof (induction k)
    case 0
    show ?case by (intro exI [of _ "fst st"]) simp
  next
    case (Suc k)
    then obtain s' where IH: "readSource_loop src tmp 0 0 0 st = readSource_loop src tmp k 0 0 (s', snd st + 1000000 * (2 ^ k - 1))"
      "bytes s' = bytes (fst st)" by auto
    obtain s'' where s'': "src_Read src 0 s' = (([], None), s'')" "bytes s'' = bytes s'"
      using Read_nothing [of s'] IH(2) assms by auto
    have "(2 :: nat) ^ k \<le> 2 ^ 7" using Suc.prems by (intro power_increasing) auto
    then have "\<not> 250 < (2 :: nat) ^ k" by simp
    moreover have "snd st + 1000000 * (2 ^ k - 1) + 1000000 * 2 ^ k = snd st + 1000000 * (2 ^ Suc k - (1 :: nat))"
    proof -
      have "a + 1000000 * (p - 1) + 1000000 * p = a + 1000000 * (2 * p - 1)" if "1 \<le> p" for a p :: nat
        using that by (cases p) auto
      from this [of "2 ^ k" "snd st"] show ?thesis by simp
    qed
    ultimately show ?case
      using IH s''
      by (intro exI [of _ s'']) (simp add: readSource_loop.simps [of src tmp k] sleep_def add.assoc del: power_Suc)
  qed
  from this [of 8] obtain s' where s': "readSource_loop src tmp 0 0 0 st = readSource_loop src tmp 8 0 0 (s', snd st + 255000000)"
    "bytes s' = bytes (fst st)" by auto
  from readSource_nothing_loop [of "(s', snd st + 255000000)" "bytes s'" 8 tmp 0] s' assms show ?thesis
    by (auto simp: readSource_def)
qed

lemma readBytesLeft_line:
  assumes "size_line_ok c" "bytes (fst (cr_source r)) = size_line c @ u"
  shows "\<exists>s'. readBytesLeft src tmp r = Some (None, r\<lparr>cr_source := (s', snd (cr_source r)), bytesLeft := int (length (ch_data c))\<rparr>)
    \<and> bytes s' = u"
proof -
  let ?l = "ch_size c @ ch_ext c"
  have "CHR 0x0D \<notin> set ?l" "bytes (fst (cr_source r)) = ?l @ CHR 0x0D # CHR 0x0A # u"
    using assms by (simp_all add: size_line_ok_def size_line_def)
  then obtain s' where s': "readLine src tmp (cr_source r) = Some ((?l, None), (s', snd (cr_source r)))" "bytes s' = u"
    using readLine_line by blast
  have "(case index_byte ?l (CHR '';'') of None \<Rightarrow> ?l | Some i \<Rightarrow> take i ?l) = ch_size c"
  proof (cases "ch_ext c = []")
    case True
    with assms(1) show ?thesis by (simp add: size_line_ok_def index_byte_notin)
  next
    case False
    then obtain e where "ch_ext c = CHR '';'' # e" using assms(1) by (cases "ch_ext c") (auto simp: size_line_ok_def)
    with assms(1) show ?thesis by (simp add: size_line_ok_def index_byte_append)
  qed
  with s' assms(1) show ?thesis
    by (intro exI [of _ s']) (simp add: readBytesLeft_def Let_def size_line_ok_def)
qed

lemma ConsumeCRLF_end:
  assumes "bytes (fst (cr_source r)) = CHR 0x0D # CHR 0x0A # u"
  shows "\<exists>s'. ConsumeCRLF src tmp r = Some (None, r\<lparr>cr_source := (s', snd (cr_source r))\<rparr>) \<and> bytes s' = u"
proof -
  obtain s' where "read2 src tmp (cr_source r) = Some (([CHR 0x0D, CHR 0x0A], None), (s', snd (cr_source r)))" "bytes s' = u"
    using read2_next [OF assms] by blast
  then show ?thesis by (intro exI [of _ s']) (simp add: ConsumeCRLF_def)
qed

text \<open>The reader in the middle of a body: \<open>cur\<close> is what is left of the chunk it is in.\<close>

definition inside :: "'s chunk_reader \<Rightarrow> string \<Rightarrow> chunk list \<Rightarrow> chunk \<Rightarrow> string \<Rightarrow> bool" where
  "inside r cur cs end_chunk rest \<longleftrightarrow> bytesLeft r = int (length cur) \<and> chunks_ok cs end_chunk
     \<and> bytes (fst (cr_source r)) =
        (if cur = [] then [] else cur @ [CHR 0x0D, CHR 0x0A]) @ chunked_text cs end_chunk @ rest"

lemma chunk_start_end:
  assumes "inside r [] [] e rest"
  shows "\<exists>r'. chunk_start src tmp r = Some (Some ChunkEOF, r') \<and> bytesLeft r' = -1 \<and> bytes (fst (cr_source r')) = rest"
proof -
  have e: "size_line_ok e" "ch_data e = []" "bytes (fst (cr_source r)) = size_line e @ CHR 0x0D # CHR 0x0A # rest"
    "bytesLeft r = 0"
    using assms by (simp_all add: inside_def chunks_ok_def chunked_text_def chunk_text_def)
  then obtain s' where s': "readBytesLeft src tmp r = Some (None, r\<lparr>cr_source := (s', snd (cr_source r)), bytesLeft := 0\<rparr>)"
    "bytes s' = CHR 0x0D # CHR 0x0A # rest"
    using readBytesLeft_line [OF e(1,3)] by auto
  let ?r = "r\<lparr>cr_source := (s', snd (cr_source r)), bytesLeft := -1\<rparr>"
  have "bytes (fst (cr_source ?r)) = CHR 0x0D # CHR 0x0A # rest" using s'(2) by simp
  then obtain s'' where "ConsumeCRLF src tmp ?r = Some (None, ?r\<lparr>cr_source := (s'', snd (cr_source ?r))\<rparr>)" "bytes s'' = rest"
    using ConsumeCRLF_end by blast
  with s'(1) e(4) show ?thesis by (simp add: chunk_start_def)
qed

lemma chunk_start_next:
  assumes "inside r [] (c # cs) e rest"
  shows "\<exists>r'. chunk_start src tmp r = Some (None, r') \<and> inside r' (ch_data c) cs e rest \<and> ch_data c \<noteq> []
    \<and> snd (cr_source r') = snd (cr_source r)"
proof -
  have c: "size_line_ok c" "ch_data c \<noteq> []" "bytesLeft r = 0" "chunks_ok cs e"
    "bytes (fst (cr_source r)) = size_line c @ ch_data c @ [CHR 0x0D, CHR 0x0A] @ chunked_text cs e @ rest"
    using assms by (simp_all add: inside_def chunks_ok_def chunked_text_def chunk_text_def)
  then obtain s' where "readBytesLeft src tmp r
      = Some (None, r\<lparr>cr_source := (s', snd (cr_source r)), bytesLeft := int (length (ch_data c))\<rparr>)"
    "bytes s' = ch_data c @ [CHR 0x0D, CHR 0x0A] @ chunked_text cs e @ rest"
    using readBytesLeft_line [OF c(1,5)] by auto
  with c(2-4) show ?thesis by (simp add: chunk_start_def inside_def)
qed

text \<open>What a call of \<open>Read\<close> does, by induction on the chunks it may go through.\<close>

definition read_outcome :: "nat \<Rightarrow> string \<Rightarrow> chunk \<Rightarrow> string \<Rightarrow> (string \<times> 'e chunk_error option) \<times> 's chunk_reader \<Rightarrow> bool" where
  "read_outcome n content e rest res \<longleftrightarrow> (case res of ((d, err), r') \<Rightarrow>
     (err = None \<and> (0 < n \<longrightarrow> d \<noteq> []) \<and> (\<exists>cur cs. inside r' cur cs e rest \<and> content = d @ cur @ concat (map ch_data cs)))
     \<or> (err = Some ChunkEOF \<and> d = content \<and> bytesLeft r' = -1 \<and> bytes (fst (cr_source r')) = rest))"

lemma chunk_Read_outcome:
  "inside r cur cs e rest \<Longrightarrow>
    \<exists>res. chunk_Read src tmp n r = Some res \<and> read_outcome n (cur @ concat (map ch_data cs)) e rest res"
proof (induction "2 * length cs + (if cur = [] then 0 else 1)" arbitrary: r cur cs n rule: less_induct)
  case less
  show ?case
  proof (cases "cur = [] \<and> cs = []")
    case True
    then show ?thesis using chunk_start_end [of r e rest tmp] less.prems
      by (subst chunk_Read.simps) (auto simp: read_outcome_def)
  next
    case False
    obtain r1 cur1 cs1 where st: "chunk_start src tmp r = Some (None, r1)" "inside r1 cur1 cs1 e rest" "cur1 \<noteq> []"
      "cur @ concat (map ch_data cs) = cur1 @ concat (map ch_data cs1)"
      "2 * length cs1 < 2 * length cs + (if cur = [] then 0 else 1)"
    proof (cases "cur = []")
      case True
      then obtain c cs' where "cs = c # cs'" using False by (cases cs) auto
      with chunk_start_next [of r c cs' e rest tmp] less.prems True that show ?thesis by auto
    next
      case c: False
      then have "chunk_start src tmp r = Some (None, r)" using less.prems by (simp add: chunk_start_def inside_def)
      with c less.prems that show ?thesis by auto
    qed
    let ?u = "[CHR 0x0D, CHR 0x0A] @ chunked_text cs1 e @ rest"
    have b: "bytesLeft r1 = int (length cur1)" "bytes (fst (cr_source r1)) = cur1 @ ?u" "chunks_ok cs1 e"
      using st(2,3) by (simp_all add: inside_def)
    let ?m = "nat (MinInt (bytesLeft r1) (int n))"
    have m: "?m = min (length cur1) n" using b(1) by (auto simp: MinInt_def min_def)
    obtain k s' t where rd: "readSource src tmp ?m (cr_source r1) = ((take k cur1, None), (s', t))"
      "bytes s' = drop k (cur1 @ ?u)" "k \<le> ?m" "0 < n \<longrightarrow> 0 < k"
    proof (cases "n = 0")
      case True
      with readSource_nothing [of "cr_source r1" tmp] b m st(3) that [of 0] show ?thesis by auto
    next
      case n: False
      with st(3) m b(2) have "0 < ?m" "bytes (fst (cr_source r1)) \<noteq> []" by simp_all
      from readSource_some [OF this, of tmp] b(2) m that show ?thesis by auto
    qed
    have k: "k \<le> length cur1" using rd(3) m by simp
    let ?r2 = "r1\<lparr>cr_source := (s', t), bytesLeft := bytesLeft r1 - int k\<rparr>"
    have len: "length (take k cur1) = k" using k by simp
    show ?thesis
    proof (cases "k = length cur1")
      case False
      then have "bytesLeft ?r2 \<noteq> 0" using b(1) k by simp
      moreover have "inside ?r2 (drop k cur1) cs1 e rest" using False k b rd(2) by (simp add: inside_def)
      moreover have "cur1 @ concat (map ch_data cs1) = take k cur1 @ drop k cur1 @ concat (map ch_data cs1)" by simp
      ultimately show ?thesis using st(1,3,4) rd(1,4) len
        by (subst chunk_Read.simps) (fastforce simp: read_outcome_def)
    next
      case True
      then have "bytes (fst (cr_source ?r2)) = CHR 0x0D # CHR 0x0A # chunked_text cs1 e @ rest" using rd(2) by simp
      then obtain s'' where c: "ConsumeCRLF src tmp ?r2 = Some (None, ?r2\<lparr>cr_source := (s'', t)\<rparr>)"
        "bytes s'' = chunked_text cs1 e @ rest" using ConsumeCRLF_end [of ?r2] by auto
      let ?r3 = "?r2\<lparr>cr_source := (s'', t)\<rparr>"
      have "inside ?r3 [] cs1 e rest" using c(2) True b(1,3) by (simp add: inside_def)
      then obtain res where res: "chunk_Read src tmp (n - k) ?r3 = Some res" "read_outcome (n - k) (concat (map ch_data cs1)) e rest res"
        using less.hyps [of cs1 "[]" ?r3 "n - k"] st(5) by auto
      obtain d err r4 where d: "res = ((d, err), r4)" by (metis surj_pair)
      have "bytesLeft ?r2 = 0" using True b(1) by simp
      then have "chunk_Read src tmp n r = Some ((cur1 @ d, err), r4)"
        using st(1) rd(1) c(1) res(1) d True by (subst chunk_Read.simps) simp
      moreover have "read_outcome n (cur1 @ concat (map ch_data cs1)) e rest ((cur1 @ d, err), r4)"
        using res(2) d st(3) by (auto simp: read_outcome_def)
      ultimately show ?thesis using st(4) by simp
    qed
  qed
qed

text \<open>Reading on until an error: \<open>ns\<close> are the lengths of the buffers.\<close>

end

fun read_all ::
  "('s, 'e) chunk_source \<Rightarrow> ('e \<Rightarrow> bool) \<Rightarrow> nat list \<Rightarrow> 's chunk_reader \<Rightarrow> ((string \<times> 'e chunk_error option) \<times> 's chunk_reader) option" where
  "read_all src tmp [] r = Some (([], None), r)"
| "read_all src tmp (n # ns) r =
     Option.bind (chunk_Read src tmp n r) (\<lambda>((d, err), r').
       if err \<noteq> None then Some ((d, err), r')
       else Option.bind (read_all src tmp ns r') (\<lambda>((d', err'), r''). Some ((d @ d', err'), r'')))"

context byte_source
begin

lemma read_all_body:
  "inside r cur cs e rest \<Longrightarrow> list_all (\<lambda>n. 0 < n) ns \<Longrightarrow> length (cur @ concat (map ch_data cs)) < length ns \<Longrightarrow>
    \<exists>r'. read_all src tmp ns r = Some ((cur @ concat (map ch_data cs), Some ChunkEOF), r')
      \<and> bytesLeft r' = -1 \<and> bytes (fst (cr_source r')) = rest"
proof (induction ns arbitrary: r cur cs)
  case (Cons n ns)
  let ?c = "cur @ concat (map ch_data cs)"
  obtain d err r' where rd: "chunk_Read src tmp n r = Some ((d, err), r')" "read_outcome n ?c e rest ((d, err), r')"
    using chunk_Read_outcome [OF Cons.prems(1), of tmp n] by (metis surj_pair)
  show ?case
  proof (cases "err = None")
    case True
    then obtain cur' cs' where i: "inside r' cur' cs' e rest" "?c = d @ cur' @ concat (map ch_data cs')" "d \<noteq> []"
      using rd(2) Cons.prems(2) by (auto simp: read_outcome_def)
    then have "length (cur' @ concat (map ch_data cs')) < length ?c" by (cases d) auto
    with Cons.prems(3) have "length (cur' @ concat (map ch_data cs')) < length ns" by simp
    from Cons.IH [OF i(1) _ this] Cons.prems(2) rd(1) True i(2) show ?thesis by auto
  next
    case False
    with rd show ?thesis by (auto simp: read_outcome_def)
  qed
qed simp

text \<open>A read that takes the rest of a chunk goes on to the next one with an empty buffer.\<close>

lemma full_buffer_waits:
  assumes r: "inside r d (c # cs) e rest" "d \<noteq> []"
    and rd: "readSource src tmp (length d) (cr_source r) = ((d, None), (s', t))"
      "bytes s' = [CHR 0x0D, CHR 0x0A] @ chunked_text (c # cs) e @ rest"
  shows "\<exists>r'. chunk_Read src tmp (length d) r = Some ((d, None), r') \<and> snd (cr_source r') = t + 65791000000"
proof -
  let ?r2 = "r\<lparr>cr_source := (s', t), bytesLeft := 0\<rparr>"
  have "bytes (fst (cr_source ?r2)) = CHR 0x0D # CHR 0x0A # chunked_text (c # cs) e @ rest" using rd(2) by simp
  then obtain s'' where s'': "ConsumeCRLF src tmp ?r2 = Some (None, ?r2\<lparr>cr_source := (s'', snd (cr_source ?r2))\<rparr>)"
    "bytes s'' = chunked_text (c # cs) e @ rest" using ConsumeCRLF_end by blast
  let ?r3 = "?r2\<lparr>cr_source := (s'', t)\<rparr>"
  have "inside ?r3 [] (c # cs) e rest" using s''(2) r(1) by (simp add: inside_def)
  then obtain r4 where r4: "chunk_start src tmp ?r3 = Some (None, r4)" "inside r4 (ch_data c) cs e rest" "ch_data c \<noteq> []"
    "snd (cr_source r4) = t" using chunk_start_next [of ?r3 c cs e rest tmp] by auto
  obtain s5 where "readSource src tmp 0 (cr_source r4) = (([], None), (s5, t + 65791000000))"
    using readSource_nothing [of "cr_source r4" tmp] r4(2,3,4) by (auto simp: inside_def)
  moreover have "0 < bytesLeft r4" using r4(2,3) by (simp add: inside_def)
  ultimately have "\<exists>r5. chunk_Read src tmp 0 ?r3 = Some (([], None), r5) \<and> snd (cr_source r5) = t + 65791000000"
    using r4(1) by (subst chunk_Read.simps) (auto simp: MinInt_def)
  moreover have "chunk_start src tmp r = Some (None, r)" "bytesLeft r = int (length d)"
    using r by (simp_all add: chunk_start_def inside_def)
  ultimately show ?thesis using rd(1) s''(1) by (subst chunk_Read.simps) (auto simp: MinInt_def)
qed

end

subsection \<open>The two sources of the server\<close>

definition bufio_source :: "(bufio, io_error) chunk_source" where
  "bufio_source = \<lparr>src_Read = bufio_Read, src_lines = Some (bufio_ReadBytes, bufio_ReadByte)\<rparr>"

text \<open>
  The body reader passes its raw reader, a struct around the buffered reader of the session, so the
  reader of chunks does not see a \<open>*bufio.Reader\<close>.
\<close>

definition body_chunk_source :: "(('d, 'x) body_in_scheme, io_error) chunk_source" where
  "body_chunk_source =
     \<lparr>src_Read = (\<lambda>n st. let (r, b) = bufio_Read n (in_stream st) in (r, st\<lparr>in_stream := b\<rparr>)), src_lines = None\<rparr>"

lemma body_chunk_source_raw:
  "raw_Read n st = Inr (apfst (apsnd (map_option BodyIO)) (src_Read body_chunk_source n st))"
  by (simp add: raw_Read_def body_chunk_source_def split: prod.splits)

interpretation buffered: byte_source bufio_source pending
proof
  fix n :: nat and s :: bufio
  assume "0 < n" "pending s \<noteq> []"
  then show "\<exists>k s'. src_Read bufio_source n s = ((take k (pending s), None), s') \<and> 0 < k \<and> k \<le> n
      \<and> k \<le> length (pending s) \<and> pending s' = drop k (pending s)"
    by (intro exI [of _ "min n (length (pending s))"]) (auto simp: bufio_source_def bufio_Read_def min_def)
qed (auto simp: bufio_source_def bufio_Read_def bufio_ReadBytes_def bufio_ReadByte_def index_byte_append)

interpretation raw_body: byte_source body_chunk_source "\<lambda>st. pending (in_stream st)"
proof
  fix n :: nat and s :: "('d, 'x) body_in_scheme"
  assume "0 < n" "pending (in_stream s) \<noteq> []"
  then show "\<exists>k s'. src_Read body_chunk_source n s = ((take k (pending (in_stream s)), None), s') \<and> 0 < k \<and> k \<le> n
      \<and> k \<le> length (pending (in_stream s)) \<and> pending (in_stream s') = drop k (pending (in_stream s))"
    by (intro exI [of _ "min n (length (pending (in_stream s)))"]) (auto simp: body_chunk_source_def bufio_Read_def min_def)
qed (auto simp: body_chunk_source_def bufio_Read_def)

subsection \<open>Properties\<close>

text \<open>
  A chunked body on a connection: for every valid sequence of chunks, extensions included, and every
  sequence of buffer sizes, the reader delivers exactly the data of the chunks, then the end, and
  leaves the next request on the connection.
\<close>

theorem chunked_body_exact:
  assumes "chunks_ok cs e" "pending (in_stream st) = chunked_text cs e @ rest"
    and "list_all (\<lambda>n. 0 < n) ns" "length (concat (map ch_data cs)) < length ns"
  shows "\<exists>r'. read_all body_chunk_source tmp ns (NewPipe (st, t)) = Some ((concat (map ch_data cs), Some ChunkEOF), r')
    \<and> pending (in_stream (fst (cr_source r'))) = rest"
proof -
  have "raw_body.inside (NewPipe (st, t)) [] cs e rest"
    using assms(1,2) by (simp add: raw_body.inside_def NewPipe_def)
  from raw_body.read_all_body [OF this assms(3), of tmp] assms(4) show ?thesis by auto
qed

theorem chunked_body_exact_witness:
  "\<exists>r'. read_all body_chunk_source (\<lambda>_. False) [1, 2, 3, 4, 5, 6, 7]
        (NewPipe (NewBodyReader \<lparr>pending = chunked_text [plain_chunk ''abc'', plain_chunk ''de''] (plain_chunk []) @ ''GET'', end_error = EOF\<rparr>
          New_Header None True, 0))
      = Some ((''abcde'', Some ChunkEOF), r')
    \<and> pending (in_stream (fst (cr_source r'))) = ''GET''"
proof -
  let ?cs = "[plain_chunk ''abc'', plain_chunk ''de'']"
  have d: "concat (map ch_data ?cs) = ''abcde''" by (simp add: plain_chunk_def)
  have "chunks_ok ?cs (plain_chunk [])"
    using plain_chunk_ok [of "''abc''"] plain_chunk_ok [of "''de''"] plain_chunk_ok [of "[]"]
    by (simp add: chunks_ok_def) (simp add: plain_chunk_def)
  from chunked_body_exact [OF this, of "NewBodyReader \<lparr>pending = chunked_text ?cs (plain_chunk []) @ ''GET'', end_error = EOF\<rparr>
      New_Header None True" "''GET''" "[1, 2, 3, 4, 5, 6, 7]" "\<lambda>_. False" 0]
  show ?thesis unfolding d by (simp add: NewBodyReader_def)
qed

text \<open>
  C28: a read whose buffer ends with a chunk does not return what it has: it starts the next chunk with an
  empty buffer, and waits 65.791 seconds for that empty read to give something, even when the next chunk
  is already there.
\<close>

theorem full_buffer_read_waits:
  assumes "chunks_ok (c # cs) e" "bytesLeft r = int (length d)" "d \<noteq> []"
    and "pending (in_stream (fst (cr_source r))) = d @ [CHR 0x0D, CHR 0x0A] @ chunked_text (c # cs) e @ rest"
  shows "\<exists>r'. chunk_Read body_chunk_source tmp (length d) r = Some ((d, None), r')
    \<and> snd (cr_source r') = snd (cr_source r) + 65791000000"
proof -
  let ?u = "[CHR 0x0D, CHR 0x0A] @ chunked_text (c # cs) e @ rest"
  have "raw_body.inside r d (c # cs) e rest" using assms by (simp add: raw_body.inside_def)
  moreover have "readSource body_chunk_source tmp (length d) (cr_source r)
      = ((d, None), (fst (cr_source r)\<lparr>in_stream := (in_stream (fst (cr_source r)))\<lparr>pending := ?u\<rparr>\<rparr>, snd (cr_source r)))"
    using assms(3,4) by (simp add: readSource_def readSource_loop.simps body_chunk_source_def bufio_Read_def)
  ultimately show ?thesis by (rule raw_body.full_buffer_waits [OF _ assms(3)]) simp
qed

theorem full_buffer_read_waits_witness:
  "\<exists>r'. chunk_Read body_chunk_source (\<lambda>_. False) 3
        \<lparr>cr_source = (NewBodyReader \<lparr>pending = ''abc'' @ [CHR 0x0D, CHR 0x0A] @ chunked_text [plain_chunk ''de''] (plain_chunk []),
          end_error = EOF\<rparr> New_Header None True, 0), bytesLeft = 3\<rparr> = Some ((''abc'', None), r')
    \<and> snd (cr_source r') = 65791000000"
proof -
  have "chunks_ok [plain_chunk ''de''] (plain_chunk [])"
    using plain_chunk_ok [of "''de''"] plain_chunk_ok [of "[]"] by (simp add: chunks_ok_def) (simp add: plain_chunk_def)
  from full_buffer_read_waits [OF this, of "\<lparr>cr_source = (NewBodyReader \<lparr>pending = ''abc'' @ [CHR 0x0D, CHR 0x0A] @
      chunked_text [plain_chunk ''de''] (plain_chunk []), end_error = EOF\<rparr> New_Header None True, 0), bytesLeft = 3\<rparr>"
    "''abc''" "[]" "\<lambda>_. False"]
  show ?thesis by (simp add: NewBodyReader_def numeral_3_eq_3)
qed

end
