(* ===== verification/Reader_Writer.thy ===== *)
theory Reader_Writer
  imports Body_Writer
begin

section \<open>The bodies a handler sees: \<open>jps/outgoing.go\<close> and \<open>jps/reader.go\<close>\<close>

text \<open>
  \<open>Writer\<close> and \<open>Reader\<close> stand between a handler and the body of a protocol. They ask the protocol for
  the body once, put the handler's pipes around it, and mean to buffer it on demand. The protocol's
  side is an interface of the code (\<open>UnderlyingWriter\<close>, \<open>UnderlyingReader\<close>, with the methods of the
  writers and readers it returns); here it is a record of operations on a state \<open>'st\<close>. A body writer or
  reader is a \<open>'k\<close>, a pipe generator a \<open>'p\<close>, a buffer of the session's \<open>BufioSource\<close> a \<open>'b\<close>.
\<close>

record ('st, 'k, 'p, 'b) underlying_writer =
  U_BodyLength :: "'st \<Rightarrow> ((int64 \<times> body_error option) \<times> 'st) go"
  U_SetBodyLength :: "int64 \<Rightarrow> 'st \<Rightarrow> (body_error option \<times> 'st) go"
  U_Body :: "'st \<Rightarrow> (('k option \<times> body_error option) \<times> 'st) go"
  U_pipe :: "'k option \<Rightarrow> 'p list \<Rightarrow> (body_error option \<times> 'k) go"
  U_Write :: "'k \<Rightarrow> string \<Rightarrow> 'st \<Rightarrow> ((int \<times> body_error option) \<times> 'st) go"
  U_Flush :: "'k \<Rightarrow> 'st \<Rightarrow> (body_error option \<times> 'st) go"
  U_Close :: "'k \<Rightarrow> 'st \<Rightarrow> (body_error option \<times> 'st) go"
  U_NewWriter :: "'k option \<Rightarrow> 'st \<Rightarrow> 'b \<times> 'st"
  U_RecycleWriter :: "'b \<Rightarrow> 'st \<Rightarrow> 'st"
  U_buf_Write :: "'b \<Rightarrow> string \<Rightarrow> 'st \<Rightarrow> ((int \<times> body_error option) \<times> 'st) go"
  U_buf_Flush :: "'b \<Rightarrow> 'st \<Rightarrow> (body_error option \<times> 'st) go"

record ('k, 'p, 'b) jps_writer =
  wr_Pipes :: "'p list"
  wr_rawBody :: "'k option"
  wr_pipedBody :: "'k option"
  wr_buf :: "'b option"
  wr_bufferBody :: bool
  wr_closed :: bool

definition NewWriter :: "('k, 'p, 'b) jps_writer" where
  "NewWriter = \<lparr>wr_Pipes = [], wr_rawBody = None, wr_pipedBody = None, wr_buf = None,
     wr_bufferBody = False, wr_closed = False\<rparr>"

subsection \<open>\<open>Writer\<close>\<close>

definition Writer_SetLength ::
  "('st, 'k, 'p, 'b) underlying_writer \<Rightarrow> int64 \<Rightarrow> ('k, 'p, 'b) jps_writer \<times> 'st
     \<Rightarrow> (body_error option \<times> ('k, 'p, 'b) jps_writer \<times> 'st) go" where
  "Writer_SetLength U l ws = bind_go (U_SetBodyLength U l (snd ws)) (\<lambda>(err, st). Inr (err, fst ws, st))"

definition Writer_Length ::
  "('st, 'k, 'p, 'b) underlying_writer \<Rightarrow> ('k, 'p, 'b) jps_writer \<times> 'st
     \<Rightarrow> ((int64 \<times> body_error option) \<times> ('k, 'p, 'b) jps_writer \<times> 'st) go" where
  "Writer_Length U ws = bind_go (U_BodyLength U (snd ws)) (\<lambda>(r, st). Inr (r, fst ws, st))"

definition Writer_getRawBody ::
  "('st, 'k, 'p, 'b) underlying_writer \<Rightarrow> ('k, 'p, 'b) jps_writer \<times> 'st
     \<Rightarrow> (('k option \<times> body_error option) \<times> ('k, 'p, 'b) jps_writer \<times> 'st) go" where
  "Writer_getRawBody U ws =
     (case wr_rawBody (fst ws) of
        Some raw \<Rightarrow> Inr ((Some raw, None), ws)
      | None \<Rightarrow>
          if wr_closed (fst ws) then Inl (Explicit ''Writer: body closed'')
          else bind_go (U_Body U (snd ws)) (\<lambda>((raw, err), st).
            Inr ((raw, err), (fst ws)\<lparr>wr_rawBody := raw\<rparr>, st)))"

definition Writer_getPipedBody ::
  "('st, 'k, 'p, 'b) underlying_writer \<Rightarrow> ('k, 'p, 'b) jps_writer \<times> 'st
     \<Rightarrow> (('k option \<times> body_error option) \<times> ('k, 'p, 'b) jps_writer \<times> 'st) go" where
  "Writer_getPipedBody U ws =
     (case wr_pipedBody (fst ws) of
        Some piped \<Rightarrow> Inr ((Some piped, None), ws)
      | None \<Rightarrow>
          bind_go (Writer_getRawBody U ws) (\<lambda>((raw, err), w, st).
            case err of
              Some e \<Rightarrow> Inr ((None, Some e), w, st)
            | None \<Rightarrow> bind_go (U_pipe U raw (wr_Pipes w)) (\<lambda>(err, piped).
                Inr ((Some piped, err), w\<lparr>wr_pipedBody := Some piped\<rparr>, st))))"

definition getBufioWriter ::
  "('st, 'k, 'p, 'b) underlying_writer \<Rightarrow> ('k, 'p, 'b) jps_writer \<times> 'st
     \<Rightarrow> (('b option \<times> body_error option) \<times> ('k, 'p, 'b) jps_writer \<times> 'st) go" where
  "getBufioWriter U ws =
     (if wr_buf (fst ws) \<noteq> None then
        bind_go (Writer_getPipedBody U ws) (\<lambda>((piped, err), w, st).
          case err of
            Some e \<Rightarrow> Inr ((None, Some e), w, st)
          | None \<Rightarrow> (let (b, st') = U_NewWriter U piped st in Inr ((Some b, None), w\<lparr>wr_buf := Some b\<rparr>, st')))
      else Inr ((wr_buf (fst ws), None), ws))"

text \<open>
  The two results of \<open>getWriter\<close>: a \<open>*bufio.Writer\<close> in an interface, even when the pointer is nil, or the
  piped body.
\<close>

datatype ('k, 'b) io_writer = Buffered "'b option" | Unbuffered "'k option"

definition getWriter ::
  "('st, 'k, 'p, 'b) underlying_writer \<Rightarrow> ('k, 'p, 'b) jps_writer \<times> 'st
     \<Rightarrow> ((('k, 'b) io_writer \<times> body_error option) \<times> ('k, 'p, 'b) jps_writer \<times> 'st) go" where
  "getWriter U ws =
     (if wr_bufferBody (fst ws) then
        bind_go (getBufioWriter U ws) (\<lambda>((b, err), ws'). Inr ((Buffered b, err), ws'))
      else bind_go (Writer_getPipedBody U ws) (\<lambda>((k, err), ws'). Inr ((Unbuffered k, err), ws')))"

definition Writer_IsBuffered :: "('k, 'p, 'b) jps_writer \<Rightarrow> bool" where
  "Writer_IsBuffered w = wr_bufferBody w"

definition Writer_SetBuffered :: "bool \<Rightarrow> ('k, 'p, 'b) jps_writer \<Rightarrow> bool \<times> ('k, 'p, 'b) jps_writer" where
  "Writer_SetBuffered buffer w =
     (if wr_buf w \<noteq> None then (True, w) else (buffer, w\<lparr>wr_bufferBody := buffer\<rparr>))"

definition Writer_Write ::
  "('st, 'k, 'p, 'b) underlying_writer \<Rightarrow> string \<Rightarrow> ('k, 'p, 'b) jps_writer \<times> 'st
     \<Rightarrow> ((int \<times> body_error option) \<times> ('k, 'p, 'b) jps_writer \<times> 'st) go" where
  "Writer_Write U src ws =
     bind_go (getWriter U ws) (\<lambda>((writer, err), w, st).
       case err of
         Some e \<Rightarrow> Inr ((0, Some e), w, st)
       | None \<Rightarrow>
           (case writer of
              Buffered None \<Rightarrow> Inl NilDereference
            | Buffered (Some b) \<Rightarrow> bind_go (U_buf_Write U b src st) (\<lambda>(r, st'). Inr (r, w, st'))
            | Unbuffered None \<Rightarrow> Inl NilDereference
            | Unbuffered (Some k) \<Rightarrow> bind_go (U_Write U k src st) (\<lambda>(r, st'). Inr (r, w, st'))))"

definition GetBufioWriter ::
  "('st, 'k, 'p, 'b) underlying_writer \<Rightarrow> ('k, 'p, 'b) jps_writer \<times> 'st
     \<Rightarrow> (('b option \<times> body_error option) \<times> ('k, 'p, 'b) jps_writer \<times> 'st) go" where
  "GetBufioWriter U ws =
     (if wr_buf (fst ws) = None then getBufioWriter U ((fst ws)\<lparr>wr_bufferBody := True\<rparr>, snd ws)
      else Inr ((wr_buf (fst ws), None), ws))"

text \<open>
  \<open>Close\<close> gives back the buffer, makes sure there is a writer (so that a body never written still
  sends its head), and closes the outer of the two bodies. The first error in this order counts.
\<close>

definition Writer_Close_buffer ::
  "('st, 'k, 'p, 'b) underlying_writer \<Rightarrow> ('k, 'p, 'b) jps_writer \<times> 'st
     \<Rightarrow> (body_error option \<times> ('k, 'p, 'b) jps_writer \<times> 'st) go" where
  "Writer_Close_buffer U ws =
     (case wr_buf (fst ws) of
        None \<Rightarrow> Inr (None, ws)
      | Some b \<Rightarrow> bind_go (U_buf_Flush U b (snd ws)) (\<lambda>(err, st).
          Inr (err, (fst ws)\<lparr>wr_buf := None\<rparr>, U_RecycleWriter U b st)))"

definition Writer_Close ::
  "('st, 'k, 'p, 'b) underlying_writer \<Rightarrow> ('k, 'p, 'b) jps_writer \<times> 'st
     \<Rightarrow> (body_error option \<times> ('k, 'p, 'b) jps_writer \<times> 'st) go" where
  "Writer_Close U ws =
     bind_go (Writer_Close_buffer U ws) (\<lambda>(err, ws1).
     bind_go (getWriter U ws1) (\<lambda>((_, err2), w, st).
     bind_go (case wr_pipedBody w of
        Some piped \<Rightarrow> bind_go (U_Close U piped st) (\<lambda>(err3, st').
          Inr (err3, w\<lparr>wr_pipedBody := None, wr_rawBody := None\<rparr>, st'))
      | None \<Rightarrow>
          (case wr_rawBody w of
             Some raw \<Rightarrow> bind_go (U_Close U raw st) (\<lambda>(err4, st'). Inr (err4, w\<lparr>wr_rawBody := None\<rparr>, st'))
           | None \<Rightarrow> Inr (None, w, st)))
       (\<lambda>(err34, ws3).
          Inr (if err \<noteq> None then err else if err2 \<noteq> None then err2 else err34, ws3))))"

definition Writer_Flush ::
  "('st, 'k, 'p, 'b) underlying_writer \<Rightarrow> ('k, 'p, 'b) jps_writer \<times> 'st
     \<Rightarrow> (body_error option \<times> ('k, 'p, 'b) jps_writer \<times> 'st) go" where
  "Writer_Flush U ws =
     bind_go (case wr_buf (fst ws) of None \<Rightarrow> Inr (None, snd ws) | Some b \<Rightarrow> U_buf_Flush U b (snd ws)) (\<lambda>(err, st).
       if err \<noteq> None then Inr (err, fst ws, st)
       else bind_go (case wr_pipedBody (fst ws) of
           Some piped \<Rightarrow> U_Flush U piped st
         | None \<Rightarrow> (case wr_rawBody (fst ws) of Some raw \<Rightarrow> U_Flush U raw st | None \<Rightarrow> Inr (None, st)))
         (\<lambda>(err, st'). Inr (err, fst ws, st')))"

definition BytesBody ::
  "('st, 'k, 'p, 'b) underlying_writer \<Rightarrow> string \<Rightarrow> ('k, 'p, 'b) jps_writer \<times> 'st
     \<Rightarrow> (body_error option \<times> ('k, 'p, 'b) jps_writer \<times> 'st) go" where
  "BytesBody U s ws =
     (if wr_rawBody (fst ws) \<noteq> None then Inr (Some ErrBodyAlreadyStarted, ws)
      else bind_go (Writer_SetLength U (of_nat (length s)) ws) (\<lambda>(err, ws1).
        if err \<noteq> None then Inr (err, ws1)
        else bind_go (Writer_Write U s ws1) (\<lambda>((n, err), ws2).
          if err \<noteq> None then Inr (err, ws2)
          else if n \<noteq> int (length s) then Inr (Some ErrShortWrite, ws2)
          else Writer_Close U ws2)))"

definition StringBody ::
  "('st, 'k, 'p, 'b) underlying_writer \<Rightarrow> string \<Rightarrow> ('k, 'p, 'b) jps_writer \<times> 'st
     \<Rightarrow> (body_error option \<times> ('k, 'p, 'b) jps_writer \<times> 'st) go" where
  "StringBody U s ws =
     (if wr_rawBody (fst ws) \<noteq> None then Inr (Some ErrBodyAlreadyStarted, ws)
      else bind_go (Writer_SetLength U (of_nat (length s)) ws) (\<lambda>(err, ws1).
        if err \<noteq> None then Inr (err, ws1)
        else bind_go (Writer_Write U s ws1) (\<lambda>((n, err), ws2).
          if err \<noteq> None then Inr (err, ws2)
          else if n \<noteq> int (length s) then Inr (Some ErrShortWrite, ws2)
          else Writer_Close U ws2)))"

subsection \<open>\<open>Reader\<close>\<close>

record ('st, 'k, 'p, 'b) underlying_reader =
  R_BodyLength :: "'st \<Rightarrow> ((int64 \<times> body_error option) \<times> 'st) go"
  R_Body :: "'st \<Rightarrow> (('k option \<times> body_error option) \<times> 'st) go"
  R_pipe :: "'k option \<Rightarrow> 'p list \<Rightarrow> (body_error option \<times> 'k) go"
  R_Read :: "'k \<Rightarrow> nat \<Rightarrow> 'st \<Rightarrow> ((string \<times> body_error option) \<times> 'st) go"
  R_Close :: "'k \<Rightarrow> 'st \<Rightarrow> (body_error option \<times> 'st) go"
  R_NewReader :: "'k option \<Rightarrow> 'st \<Rightarrow> 'b \<times> 'st"
  R_RecycleReader :: "'b \<Rightarrow> 'st \<Rightarrow> 'st"

record ('k, 'p, 'b) jps_reader =
  rd_Pipes :: "'p list"
  rd_rawBody :: "'k option"
  rd_pipedBody :: "'k option"
  rd_buf :: "'b option"
  rd_bufferBody :: bool
  rd_closed :: bool

definition NewReader :: "('k, 'p, 'b) jps_reader" where
  "NewReader = \<lparr>rd_Pipes = [], rd_rawBody = None, rd_pipedBody = None, rd_buf = None,
     rd_bufferBody = False, rd_closed = False\<rparr>"

definition Reader_IsBuffered :: "('k, 'p, 'b) jps_reader \<Rightarrow> bool" where
  "Reader_IsBuffered r = rd_bufferBody r"

definition Reader_SetBuffered :: "bool \<Rightarrow> ('k, 'p, 'b) jps_reader \<Rightarrow> bool \<times> ('k, 'p, 'b) jps_reader" where
  "Reader_SetBuffered buffer r =
     (if rd_buf r \<noteq> None then (True, r) else (buffer, r\<lparr>rd_bufferBody := buffer\<rparr>))"

definition Reader_Length ::
  "('st, 'k, 'p, 'b) underlying_reader \<Rightarrow> ('k, 'p, 'b) jps_reader \<times> 'st
     \<Rightarrow> ((int64 \<times> body_error option) \<times> ('k, 'p, 'b) jps_reader \<times> 'st) go" where
  "Reader_Length U rs = bind_go (R_BodyLength U (snd rs)) (\<lambda>(r, st). Inr (r, fst rs, st))"

definition Reader_getRawBody ::
  "('st, 'k, 'p, 'b) underlying_reader \<Rightarrow> ('k, 'p, 'b) jps_reader \<times> 'st
     \<Rightarrow> (('k option \<times> body_error option) \<times> ('k, 'p, 'b) jps_reader \<times> 'st) go" where
  "Reader_getRawBody U rs =
     (case rd_rawBody (fst rs) of
        Some raw \<Rightarrow> Inr ((Some raw, None), rs)
      | None \<Rightarrow>
          if rd_closed (fst rs) then Inl (Explicit ''Reader: body closed'')
          else bind_go (R_Body U (snd rs)) (\<lambda>((raw, err), st).
            Inr ((raw, err), (fst rs)\<lparr>rd_rawBody := raw\<rparr>, st)))"

definition Reader_getPipedBody ::
  "('st, 'k, 'p, 'b) underlying_reader \<Rightarrow> ('k, 'p, 'b) jps_reader \<times> 'st
     \<Rightarrow> (('k option \<times> body_error option) \<times> ('k, 'p, 'b) jps_reader \<times> 'st) go" where
  "Reader_getPipedBody U rs =
     (case rd_pipedBody (fst rs) of
        Some piped \<Rightarrow> Inr ((Some piped, None), rs)
      | None \<Rightarrow>
          bind_go (Reader_getRawBody U rs) (\<lambda>((raw, err), r, st).
            case err of
              Some e \<Rightarrow> Inr ((None, Some e), r, st)
            | None \<Rightarrow> bind_go (R_pipe U raw (rd_Pipes r)) (\<lambda>(err, piped).
                Inr ((Some piped, err), r\<lparr>rd_pipedBody := Some piped\<rparr>, st))))"

definition getBufioReader ::
  "('st, 'k, 'p, 'b) underlying_reader \<Rightarrow> ('k, 'p, 'b) jps_reader \<times> 'st
     \<Rightarrow> (('b option \<times> body_error option) \<times> ('k, 'p, 'b) jps_reader \<times> 'st) go" where
  "getBufioReader U rs =
     (if rd_buf (fst rs) \<noteq> None then
        bind_go (Reader_getPipedBody U rs) (\<lambda>((piped, err), r, st).
          case err of
            Some e \<Rightarrow> Inr ((None, Some e), r, st)
          | None \<Rightarrow> (let (b, st') = R_NewReader U piped st in Inr ((Some b, None), r\<lparr>rd_buf := Some b\<rparr>, st')))
      else Inr ((rd_buf (fst rs), None), rs))"

text \<open>\<open>getReader\<close> asks for the buffer and drops it.\<close>

definition getReader ::
  "('st, 'k, 'p, 'b) underlying_reader \<Rightarrow> ('k, 'p, 'b) jps_reader \<times> 'st
     \<Rightarrow> (('k option \<times> body_error option) \<times> ('k, 'p, 'b) jps_reader \<times> 'st) go" where
  "getReader U rs =
     bind_go (if Reader_IsBuffered (fst rs) then bind_go (getBufioReader U rs) (\<lambda>(_, rs'). Inr rs') else Inr rs)
       (Reader_getPipedBody U)"

definition Reader_Read ::
  "('st, 'k, 'p, 'b) underlying_reader \<Rightarrow> nat \<Rightarrow> ('k, 'p, 'b) jps_reader \<times> 'st
     \<Rightarrow> ((string \<times> body_error option) \<times> ('k, 'p, 'b) jps_reader \<times> 'st) go" where
  "Reader_Read U n rs =
     bind_go (getReader U rs) (\<lambda>((reader, err), r, st).
       case err of
         Some e \<Rightarrow> Inr (([], Some e), r, st)
       | None \<Rightarrow>
           (case reader of
              None \<Rightarrow> Inl NilDereference
            | Some k \<Rightarrow> bind_go (R_Read U k n st) (\<lambda>(res, st'). Inr (res, r, st'))))"

definition GetBufioReader ::
  "('st, 'k, 'p, 'b) underlying_reader \<Rightarrow> ('k, 'p, 'b) jps_reader \<times> 'st
     \<Rightarrow> (('b option \<times> body_error option) \<times> ('k, 'p, 'b) jps_reader \<times> 'st) go" where
  "GetBufioReader U rs =
     (if rd_buf (fst rs) = None then getBufioReader U ((fst rs)\<lparr>rd_bufferBody := True\<rparr>, snd rs)
      else Inr ((rd_buf (fst rs), None), rs))"

definition Reader_Close ::
  "('st, 'k, 'p, 'b) underlying_reader \<Rightarrow> ('k, 'p, 'b) jps_reader \<times> 'st
     \<Rightarrow> (body_error option \<times> ('k, 'p, 'b) jps_reader \<times> 'st) go" where
  "Reader_Close U rs =
     (let (r, st) = (case rd_buf (fst rs) of None \<Rightarrow> rs
        | Some b \<Rightarrow> ((fst rs)\<lparr>rd_buf := None\<rparr>, R_RecycleReader U b (snd rs)))
      in case rd_pipedBody r of
           Some piped \<Rightarrow> bind_go (R_Close U piped st) (\<lambda>(err, st').
             Inr (err, r\<lparr>rd_pipedBody := None, rd_rawBody := None\<rparr>, st'))
         | None \<Rightarrow>
             (case rd_rawBody r of
                Some raw \<Rightarrow> bind_go (R_Close U raw st) (\<lambda>(err, st'). Inr (err, r\<lparr>rd_rawBody := None\<rparr>, st'))
              | None \<Rightarrow> Inr (None, r, st)))"

subsection \<open>A whole body through a \<open>Writer\<close>\<close>

text \<open>
  What a protocol promises the writer of a body whose length is known: after \<open>SetBodyLength\<close> it gives
  a writer that takes the whole body in one write, and closing it completes the message. The four
  predicates are the stages of one message; \<open>sent s st st'\<close> relates the state before to the one after.
\<close>

locale message_writer =
  fixes U :: "('st, 'k, 'p, 'b) underlying_writer"
    and fresh :: "'st \<Rightarrow> bool"
    and sized :: "nat \<Rightarrow> 'st \<Rightarrow> 'st \<Rightarrow> bool"
    and ready :: "'k \<Rightarrow> nat \<Rightarrow> 'st \<Rightarrow> 'st \<Rightarrow> bool"
    and written :: "'k \<Rightarrow> string \<Rightarrow> 'st \<Rightarrow> 'st \<Rightarrow> bool"
    and sent :: "string \<Rightarrow> 'st \<Rightarrow> 'st \<Rightarrow> bool"
  assumes set_length: "fresh st \<Longrightarrow> n < 2 ^ 63 \<Longrightarrow> \<exists>st'. U_SetBodyLength U (of_nat n) st = Inr (None, st') \<and> sized n st st'"
    and get_body: "sized n st st1 \<Longrightarrow> \<exists>raw k st'. U_Body U st1 = Inr ((Some raw, None), st')
      \<and> U_pipe U (Some raw) [] = Inr (None, k) \<and> ready k n st st'"
    and write_body: "ready k (length s) st st1 \<Longrightarrow> \<exists>st'. U_Write U k s st1 = Inr ((int (length s), None), st') \<and> written k s st st'"
    and close_body: "written k s st st1 \<Longrightarrow> \<exists>st'. U_Close U k st1 = Inr (None, st') \<and> sent s st st'"
begin

lemma BytesBody_sends:
  assumes "fresh st" "length s < 2 ^ 63"
  shows "\<exists>st'. BytesBody U s (NewWriter, st) = Inr (None, NewWriter, st') \<and> sent s st st'"
proof -
  obtain st1 where st1: "U_SetBodyLength U (of_nat (length s)) st = Inr (None, st1)" "sized (length s) st st1"
    using set_length assms by blast
  obtain raw k st2 where st2: "U_Body U st1 = Inr ((Some raw, None), st2)"
    "U_pipe U (Some raw) [] = Inr (None, k)" "ready k (length s) st st2"
    using get_body st1(2) by blast
  obtain st3 where st3: "U_Write U k s st2 = Inr ((int (length s), None), st3)" "written k s st st3"
    using write_body st2(3) by blast
  obtain st4 where st4: "U_Close U k st3 = Inr (None, st4)" "sent s st st4"
    using close_body st3(2) by blast
  let ?w = "\<lparr>wr_Pipes = [], wr_rawBody = Some raw, wr_pipedBody = Some k, wr_buf = None,
    wr_bufferBody = False, wr_closed = False\<rparr> :: ('k, 'p, 'b) jps_writer"
  have w: "Writer_Write U s (NewWriter, st1) = Inr ((int (length s), None), ?w, st3)"
    using st2(1,2) st3(1)
    by (simp add: Writer_Write_def getWriter_def Writer_getPipedBody_def Writer_getRawBody_def NewWriter_def)
  have c: "Writer_Close U (?w, st3) = Inr (None, NewWriter, st4)"
    using st4(1) by (simp add: Writer_Close_def Writer_Close_buffer_def getWriter_def Writer_getPipedBody_def NewWriter_def)
  have "Writer_SetLength U (of_nat (length s)) (NewWriter, st) = Inr (None, NewWriter, st1)"
    using st1(1) by (simp add: Writer_SetLength_def)
  with w c st4(2) show ?thesis by (simp add: BytesBody_def NewWriter_def)
qed

end

subsection \<open>Properties\<close>

text \<open>The operations a handler has on a writer, and their results as far as the buffer goes.\<close>

datatype writer_op = OpWrite string | OpClose | OpFlush | OpSetBuffered bool | OpGetBufio
  | OpBytes string | OpSetLength int64

definition run_writer_op ::
  "('st, 'k, 'p, 'b) underlying_writer \<Rightarrow> writer_op \<Rightarrow> ('k, 'p, 'b) jps_writer \<times> 'st
     \<Rightarrow> (('k, 'p, 'b) jps_writer \<times> 'st) go" where
  "run_writer_op U op ws =
     (case op of
        OpWrite s \<Rightarrow> bind_go (Writer_Write U s ws) (\<lambda>(_, ws'). Inr ws')
      | OpClose \<Rightarrow> bind_go (Writer_Close U ws) (\<lambda>(_, ws'). Inr ws')
      | OpFlush \<Rightarrow> bind_go (Writer_Flush U ws) (\<lambda>(_, ws'). Inr ws')
      | OpSetBuffered b \<Rightarrow> Inr (snd (Writer_SetBuffered b (fst ws)), snd ws)
      | OpGetBufio \<Rightarrow> bind_go (GetBufioWriter U ws) (\<lambda>(_, ws'). Inr ws')
      | OpBytes s \<Rightarrow> bind_go (BytesBody U s ws) (\<lambda>(_, ws'). Inr ws')
      | OpSetLength l \<Rightarrow> bind_go (Writer_SetLength U l ws) (\<lambda>(_, ws'). Inr ws'))"

fun run_writer_ops ::
  "('st, 'k, 'p, 'b) underlying_writer \<Rightarrow> writer_op list \<Rightarrow> ('k, 'p, 'b) jps_writer \<times> 'st
     \<Rightarrow> (('k, 'p, 'b) jps_writer \<times> 'st) go" where
  "run_writer_ops U [] ws = Inr ws"
| "run_writer_ops U (op # ops) ws = bind_go (run_writer_op U op ws) (run_writer_ops U ops)"

text \<open>\<open>keeps f\<close>: a call that starts without a buffer and does not panic ends without one.\<close>

definition unbuffered :: "('k, 'p, 'b) jps_writer \<times> 'st \<Rightarrow> bool" where
  "unbuffered ws \<longleftrightarrow> wr_buf (fst ws) = None"

lemma getRawBody_unbuffered: "Writer_getRawBody U ws = Inr (r, ws') \<Longrightarrow> unbuffered ws \<Longrightarrow> unbuffered ws'"
  by (auto simp: Writer_getRawBody_def unbuffered_def elim!: bind_goE split: option.splits if_splits)

lemma getPipedBody_unbuffered:
  assumes "Writer_getPipedBody U ws = Inr (r, ws')" "unbuffered ws"
  shows "unbuffered ws'"
proof (cases "wr_pipedBody (fst ws)")
  case None
  with assms(1) obtain raw err w st where raw: "Writer_getRawBody U ws = Inr ((raw, err), w, st)"
    and rest: "(case err of Some e \<Rightarrow> Inr ((None, Some e), w, st)
            | None \<Rightarrow> bind_go (U_pipe U raw (wr_Pipes w)) (\<lambda>(err, piped).
                Inr ((Some piped, err), w\<lparr>wr_pipedBody := Some piped\<rparr>, st))) = Inr (r, ws')"
    by (auto simp: Writer_getPipedBody_def elim!: bind_goE)
  have "unbuffered (w, st)" using getRawBody_unbuffered [OF raw assms(2)] .
  with rest show ?thesis by (auto simp: unbuffered_def elim!: bind_goE split: option.splits)
qed (use assms in \<open>auto simp: Writer_getPipedBody_def\<close>)

lemma getBufioWriter_unbuffered: "unbuffered ws \<Longrightarrow> getBufioWriter U ws = Inr ((None, None), ws)"
  by (simp add: getBufioWriter_def unbuffered_def)

lemma getWriter_unbuffered: "getWriter U ws = Inr (r, ws') \<Longrightarrow> unbuffered ws \<Longrightarrow> unbuffered ws'"
  by (auto simp: getWriter_def getBufioWriter_unbuffered elim!: bind_goE dest: getPipedBody_unbuffered split: if_splits)

lemma Write_unbuffered:
  assumes "Writer_Write U s ws = Inr (r, ws')" "unbuffered ws"
  shows "unbuffered ws'"
proof -
  obtain writer err w st where g: "getWriter U ws = Inr ((writer, err), w, st)"
    and rest: "(case err of Some e \<Rightarrow> Inr ((0, Some e), w, st)
       | None \<Rightarrow> (case writer of
              Buffered None \<Rightarrow> Inl NilDereference
            | Buffered (Some b) \<Rightarrow> bind_go (U_buf_Write U b s st) (\<lambda>(r, st'). Inr (r, w, st'))
            | Unbuffered None \<Rightarrow> Inl NilDereference
            | Unbuffered (Some k) \<Rightarrow> bind_go (U_Write U k s st) (\<lambda>(r, st'). Inr (r, w, st')))) = Inr (r, ws')"
    using assms(1) unfolding Writer_Write_def by (auto elim!: bind_goE)
  have "unbuffered (w, st)" using getWriter_unbuffered [OF g assms(2)] .
  with rest show ?thesis
    by (auto simp: unbuffered_def elim!: bind_goE split: option.splits io_writer.splits)
qed

lemma Close_unbuffered:
  assumes "Writer_Close U ws = Inr (r, ws')" "unbuffered ws"
  shows "unbuffered ws'"
proof -
  have "Writer_Close_buffer U ws = Inr (None, ws)"
    using assms(2) by (simp add: Writer_Close_buffer_def unbuffered_def)
  with assms(1) obtain g w st where g: "getWriter U ws = Inr (g, w, st)"
    and rest: "\<exists>e. (case wr_pipedBody w of
        Some piped \<Rightarrow> bind_go (U_Close U piped st) (\<lambda>(err3, st').
          Inr (err3, w\<lparr>wr_pipedBody := None, wr_rawBody := None\<rparr>, st'))
      | None \<Rightarrow>
          (case wr_rawBody w of
             Some raw \<Rightarrow> bind_go (U_Close U raw st) (\<lambda>(err4, st'). Inr (err4, w\<lparr>wr_rawBody := None\<rparr>, st'))
           | None \<Rightarrow> Inr (None, w, st))) = Inr (e, ws')"
    unfolding Writer_Close_def by (auto elim!: bind_goE)
  have "unbuffered (w, st)" using getWriter_unbuffered [OF g assms(2)] .
  with rest show ?thesis by (auto simp: unbuffered_def elim!: bind_goE split: option.splits)
qed

lemma SetLength_unbuffered: "Writer_SetLength U l ws = Inr (r, ws') \<Longrightarrow> unbuffered ws \<Longrightarrow> unbuffered ws'"
  by (auto simp: Writer_SetLength_def unbuffered_def elim!: bind_goE)

lemma Flush_unbuffered: "Writer_Flush U ws = Inr (r, ws') \<Longrightarrow> unbuffered ws \<Longrightarrow> unbuffered ws'"
  by (auto simp: Writer_Flush_def unbuffered_def elim!: bind_goE split: option.splits if_splits)

lemma BytesBody_unbuffered:
  assumes "BytesBody U s ws = Inr (r, ws')" "unbuffered ws"
  shows "unbuffered ws'"
proof (cases "wr_rawBody (fst ws)")
  case None
  with assms(1) obtain e1 ws1 where l: "Writer_SetLength U (of_nat (length s)) ws = Inr (e1, ws1)"
    and rest: "(if e1 \<noteq> None then Inr (e1, ws1)
        else bind_go (Writer_Write U s ws1) (\<lambda>((n, err), ws2).
          if err \<noteq> None then Inr (err, ws2)
          else if n \<noteq> int (length s) then Inr (Some ErrShortWrite, ws2)
          else Writer_Close U ws2)) = Inr (r, ws')"
    unfolding BytesBody_def by (auto elim!: bind_goE)
  have u1: "unbuffered ws1" using SetLength_unbuffered [OF l assms(2)] .
  from rest consider "ws' = ws1" | n e ws2 where "Writer_Write U s ws1 = Inr ((n, e), ws2)"
    "ws' = ws2 \<or> Writer_Close U ws2 = Inr (r, ws')"
    by (auto elim!: bind_goE split: if_splits)
  then show ?thesis
    by cases (use u1 Write_unbuffered Close_unbuffered in blast)+
qed (use assms in \<open>auto simp: BytesBody_def\<close>)

lemma run_writer_op_unbuffered: "run_writer_op U op ws = Inr ws' \<Longrightarrow> unbuffered ws \<Longrightarrow> unbuffered ws'"
proof (cases op)
  case (OpSetBuffered b)
  assume "run_writer_op U op ws = Inr ws'" "unbuffered ws"
  with OpSetBuffered show ?thesis by (auto simp: run_writer_op_def unbuffered_def Writer_SetBuffered_def)
next
  case OpGetBufio
  assume "run_writer_op U op ws = Inr ws'" "unbuffered ws"
  with OpGetBufio show ?thesis
    by (auto simp: run_writer_op_def GetBufioWriter_def unbuffered_def getBufioWriter_def elim!: bind_goE)
qed (auto simp: run_writer_op_def elim!: bind_goE intro: Write_unbuffered Close_unbuffered Flush_unbuffered
    BytesBody_unbuffered SetLength_unbuffered)

lemma run_writer_ops_unbuffered: "run_writer_ops U ops ws = Inr ws' \<Longrightarrow> unbuffered ws \<Longrightarrow> unbuffered ws'"
  by (induction ops arbitrary: ws) (auto elim!: bind_goE dest: run_writer_op_unbuffered)

text \<open>
  C27: a writer never has a buffer: whatever a handler does with it, \<open>GetBufioWriter\<close> returns a nil
  pointer and no error, and once buffering is on, the next \<open>Write\<close> panics.
\<close>

theorem buffered_writer_panics:
  assumes "run_writer_ops U ops (NewWriter, st) = Inr ws"
  shows "GetBufioWriter U ws = Inr ((None, None), (fst ws)\<lparr>wr_bufferBody := True\<rparr>, snd ws)
    \<and> run_writer_ops U [OpSetBuffered True, OpWrite s] ws = Inl NilDereference"
proof -
  have u: "wr_buf (fst ws) = None"
    using run_writer_ops_unbuffered [OF assms] by (simp add: unbuffered_def NewWriter_def)
  then show ?thesis
    by (simp add: GetBufioWriter_def getBufioWriter_def run_writer_op_def Writer_SetBuffered_def Writer_Write_def getWriter_def)
qed

theorem buffered_writer_panics_witness:
  "run_writer_ops \<lparr>U_BodyLength = \<lambda>st. Inr ((0, None), st), U_SetBodyLength = \<lambda>l st. Inr (None, st),
      U_Body = \<lambda>st. Inr ((Some (), None), st), U_pipe = \<lambda>k ps. Inr (None, ()),
      U_Write = \<lambda>k s st. Inr ((int (length s), None), st @ s), U_Flush = \<lambda>k st. Inr (None, st),
      U_Close = \<lambda>k st. Inr (None, st), U_NewWriter = \<lambda>k st. ((), st), U_RecycleWriter = \<lambda>b st. st,
      U_buf_Write = \<lambda>b s st. Inr ((int (length s), None), st), U_buf_Flush = \<lambda>b st. Inr (None, st)\<rparr>
      [OpSetBuffered True, OpWrite ''late'']
      (NewWriter\<lparr>wr_rawBody := Some (), wr_pipedBody := Some ()\<rparr> :: (unit, unit, unit) jps_writer, ''head'')
    = Inl NilDereference"
proof -
  let ?U = "\<lparr>U_BodyLength = \<lambda>st. Inr ((0, None), st), U_SetBodyLength = \<lambda>l st. Inr (None, st),
      U_Body = \<lambda>st. Inr ((Some (), None), st), U_pipe = \<lambda>k ps. Inr (None, ()),
      U_Write = \<lambda>k s st. Inr ((int (length s), None), st @ s), U_Flush = \<lambda>k st. Inr (None, st),
      U_Close = \<lambda>k st. Inr (None, st), U_NewWriter = \<lambda>k st. ((), st), U_RecycleWriter = \<lambda>b st. st,
      U_buf_Write = \<lambda>b s st. Inr ((int (length s), None), st), U_buf_Flush = \<lambda>b st. Inr (None, st)\<rparr>
      :: (string, unit, unit, unit) underlying_writer"
  have "run_writer_ops ?U [OpWrite ''head''] (NewWriter, [])
      = Inr (NewWriter\<lparr>wr_rawBody := Some (), wr_pipedBody := Some ()\<rparr>, ''head'')"
    by (simp add: run_writer_op_def Writer_Write_def getWriter_def Writer_getPipedBody_def Writer_getRawBody_def NewWriter_def)
  from buffered_writer_panics [OF this, of "''late''"] show ?thesis by blast
qed

end
