(* ===== verification/Http_Session.thy ===== *)
theory Http_Session
  imports Reader_Writer Media_Type
begin

section \<open>The HTTP/1 session: \<open>http/http1/handler.go\<close>\<close>

text \<open>
  A session owns the connection. \<open>Frame\<close> takes the lock, skips empty lines, parses a request and makes
  the body reader and writer of the frame; the two closures it gives to the body writer finish the
  head of the response and release the lock or close the connection. The session record extends the
  state of the body reader, because both read from the same buffered connection; the frame record
  extends the state of the body writer by the session.

  The connection is a \<open>net.Conn\<close>: what was sent, how many bytes the peer still takes before it breaks
  the connection (\<^term>\<open>None\<close> for a peer that takes all), and whether it was closed. Unlocking a
  mutex that is not locked ends a Go program; here it is a panic.
\<close>

record stream =
  sent_bytes :: string
  conn_room :: "nat option"
  stream_closed :: bool

definition stream_Write :: "string \<Rightarrow> stream \<Rightarrow> (int \<times> body_error option) \<times> stream" where
  "stream_Write b c =
     (if stream_closed c then ((0, Some (BodyIO (OtherIO ''use of closed network connection''))), c)
      else (case conn_room c of
          None \<Rightarrow> ((int (length b), None), c\<lparr>sent_bytes := sent_bytes c @ b\<rparr>)
        | Some r \<Rightarrow>
            if length b \<le> r then
              ((int (length b), None), c\<lparr>sent_bytes := sent_bytes c @ b, conn_room := Some (r - length b)\<rparr>)
            else ((int r, Some (BodyIO (OtherIO ''broken pipe''))),
              c\<lparr>sent_bytes := sent_bytes c @ take r b, conn_room := Some 0\<rparr>)))"

definition stream_Close :: "stream \<Rightarrow> body_error option \<times> stream" where
  "stream_Close c =
     (if stream_closed c then (Some (BodyIO (OtherIO ''use of closed network connection'')), c)
      else (None, c\<lparr>stream_closed := True\<rparr>))"

subsection \<open>Sessions and frames\<close>

record 'd session = "'d body_in" +
  ses_stream :: stream
  ses_closing :: bool
  ses_eos :: bool
  hyjacked :: bool
  conLock :: bool

record ('d, 'g) frame = "'g body_out" +
  ses :: "'d session"

text \<open>
  What the session uses from elsewhere: the configuration (processor, transfer encodings), the tables
  and clocks of the standard library, the order in which Go's map iteration gives the keys, and how the
  writers of encodings behave.
\<close>

record ('d, 'g) http_env =
  env_p :: Processor
  env_tes :: "('d body_source, 'g body_sink, body_error) List"
  env_status_text :: "nat \<Rightarrow> string"
  env_order :: "Header \<Rightarrow> string list"
  env_format_time :: "int \<Rightarrow> string"
  env_now :: int
  env_date :: string
  env_enc :: "'g \<Rightarrow> (string \<Rightarrow> ('d, 'g) frame \<Rightarrow> ('d, 'g) frame write_result) \<Rightarrow> string \<Rightarrow> ('d, 'g) frame
    \<Rightarrow> ('d, 'g) frame write_result"
  env_close_enc :: "'g \<Rightarrow> 'g body_sink \<Rightarrow> ('d, 'g) frame \<Rightarrow> ('d, 'g) frame close_result"
  env_flush_enc :: "'g \<Rightarrow> 'g body_sink \<Rightarrow> (('d, 'g) frame \<Rightarrow> ('d, 'g) frame close_result) option"

definition conLock_Unlock :: "'d session \<Rightarrow> 'd session go" where
  "conLock_Unlock s =
     (if conLock s then Inr (s\<lparr>conLock := False\<rparr>)
      else Inl (Explicit ''sync: unlock of unlocked mutex''))"

definition Session_End :: "'d session \<Rightarrow> 'd session" where
  "Session_End s = s\<lparr>ses_closing := True\<rparr>"

text \<open>The stream that \<open>Hyjack\<close> returns reads from the session's reader and writes to its stream.\<close>

definition Hyjack :: "'d session \<Rightarrow> 'd session" where
  "Hyjack s = s\<lparr>hyjacked := True, ses_closing := True\<rparr>"

text \<open>The variable \<open>http-error-handler\<close>, when it holds a handler (\<open>as_handler\<close> is the type assertion).\<close>

definition ErrorHandler :: "(string \<Rightarrow> 'v option) \<Rightarrow> ('v \<Rightarrow> 'h option) \<Rightarrow> 'h option" where
  "ErrorHandler vars_Get as_handler =
     (case vars_Get ''http-error-handler'' of None \<Rightarrow> None | Some v \<Rightarrow> as_handler v)"

definition HandleError :: "(request_error \<Rightarrow> 'd session \<Rightarrow> 'd session) option \<Rightarrow> request_error \<Rightarrow> 'd session \<Rightarrow> 'd session" where
  "HandleError handler err s = (case handler of None \<Rightarrow> s | Some h \<Rightarrow> h err s)"

subsection \<open>The closures of a frame\<close>

definition headerGenerator :: "('d, 'g) http_env \<Rightarrow> ('d, 'g) frame \<Rightarrow> (string \<times> ('d, 'g) frame) go" where
  "headerGenerator env f =
     bind_go (Has (env_p env) ''Connection'' [''close''] (resp_Header f)) (\<lambda>(close, h).
       let f1 = f\<lparr>resp_Header := h\<rparr> in
       bind_go
         (if close then
            bind_go (conLock_Unlock ((ses f1)\<lparr>ses_closing := True\<rparr>)) (\<lambda>s. Inr (f1\<lparr>ses := s\<rparr>))
          else if ses_closing (ses f1) then
            bind_go (conLock_Unlock (ses f1)) (\<lambda>s.
              bind_go (Header_Set (env_p env) ''Connection'' ''close'' h) (\<lambda>h'.
                Inr (f1\<lparr>ses := s, resp_Header := h'\<rparr>)))
          else bind_go (Header_Set (env_p env) ''Connection'' ''keep-alive'' h) (\<lambda>h'.
            Inr (f1\<lparr>resp_Header := h'\<rparr>)))
         (\<lambda>f2. bind_go (Response_FormatCacheControl (env_format_time env) (env_now env) (env_p env) f2) (\<lambda>(_, f3).
            bind_go (FormatResponse (env_status_text env) f3 (env_order env (resp_Header f3))) (\<lambda>head.
              Inr (head, f3)))))"

definition frame_close :: "('d, 'g) frame \<Rightarrow> ('d, 'g) frame close_result" where
  "frame_close f =
     (if ses_closing (ses f) \<and> \<not> hyjacked (ses f) then
        (let (err, c) = stream_Close (ses_stream (ses f)) in
         Inr (err, f\<lparr>ses := (ses f)\<lparr>ses_stream := c\<rparr>\<rparr>))
      else bind_go (conLock_Unlock (ses f)) (\<lambda>s. Inr (None, f\<lparr>ses := s\<rparr>)))"

definition frame_ops :: "('d, 'g) http_env \<Rightarrow> ('d, 'g) frame sink_ops" where
  "frame_ops env =
     \<lparr>raw_Write = \<lambda>b f. (let (r, c) = stream_Write b (ses_stream (ses f)) in (r, f\<lparr>ses := (ses f)\<lparr>ses_stream := c\<rparr>\<rparr>)),
      raw_Flush = \<lambda>f. (None, f),
      HeaderCB = headerGenerator env,
      Closer = frame_close\<rparr>"

text \<open>
  The body writer of the session as the interface of \<open>Writer\<close>; the buffers come from \<open>U0\<close>, the
  session's \<open>BufioSource\<close>.
\<close>

definition http1_writer ::
  "('d, 'g) http_env
     \<Rightarrow> (('d, 'g) frame, 'g body_sink, ('g body_sink, body_error) WriterPipeGenerator option, 'b) underlying_writer
     \<Rightarrow> (('d, 'g) frame, 'g body_sink, ('g body_sink, body_error) WriterPipeGenerator option, 'b) underlying_writer" where
  "http1_writer env U0 =
     U0\<lparr>U_BodyLength := \<lambda>f. Inr (BodyWriter_BodyLength (env_p env) f, f),
        U_SetBodyLength := SetBodyLength (env_p env),
        U_Body := BodyWriter_Body (env_p env) (env_tes env),
        U_pipe := \<lambda>k ps. (case k of None \<Rightarrow> Inl NilDereference | Some raw \<Rightarrow> sink_pipe raw ps),
        U_Write := sink_Write (env_enc env) (frame_ops env),
        U_Flush := \<lambda>k f. (case sink_Flush (env_flush_enc env) (frame_ops env) k of
           None \<Rightarrow> Inl NilDereference | Some flush \<Rightarrow> flush f),
        U_Close := sink_Close (env_close_enc env) (frame_ops env)\<rparr>"

subsection \<open>\<open>Frame\<close>\<close>

fun consume_CRLF :: "nat \<Rightarrow> bufio \<Rightarrow> io_error option \<times> bufio" where
  "consume_CRLF 0 r = (None, r)"
| "consume_CRLF (Suc i) r =
     (let (peek, err) = bufio_Peek 2 r in
      case err of
        Some e \<Rightarrow> (Some e, r)
      | None \<Rightarrow> if peek ! 0 = CHR 0x0D \<and> peek ! 1 = CHR 0x0A then consume_CRLF i (bufio_Discard 2 r) else (None, r))"

datatype session_error = EOS | ErrCRLFLoop io_error | ErrWhileParsing request_error

datatype ('u, 'd, 'g) frame_result =
    FrameError session_error "'d session"
  | FrameOK "'u http_request" "('d, 'g) frame"

definition new_frame :: "('d, 'g) http_env \<Rightarrow> 'u http_request \<Rightarrow> 'd session \<Rightarrow> ('d, 'g) frame" where
  "new_frame env req s =
     (let s' = body_in.extend (NewBodyReader (in_stream s) (req_Header req) (Some (MethodStr req)) True) (body_in.more s);
          resp = \<lparr>resp_Header = SetValuesRaw ''Date'' [env_date env] New_Header, resp_hasCacheControl = False,
                  resp_cacheControl = zero_resource, StatusCode = 200, StatusTextOf = [], resp_Version = req_Version req\<rparr>
      in body_out.extend (NewBodyWriter resp (Some (MethodStr req)) True) (frame.fields s'))"

text \<open>
  \<^term>\<open>None\<close>: the lock is held by another frame, and the call waits for it. \<open>handler\<close> is the
  error handler of the session.
\<close>

definition Frame ::
  "('d, 'g) http_env \<Rightarrow> (string \<Rightarrow> string + 'u URL) \<Rightarrow> (request_error \<Rightarrow> 'd session \<Rightarrow> 'd session) option \<Rightarrow> 'd session
     \<Rightarrow> ('u, 'd, 'g) frame_result go option" where
  "Frame env parse_uri handler s =
     (if conLock s then None
      else if ses_closing s then Some (Inr (FrameError EOS s))
      else (case consume_CRLF 5 (in_stream s) of
          (Some e, r) \<Rightarrow> Some (Inr (FrameError (ErrCRLFLoop e)
             (s\<lparr>in_stream := r, ses_closing := True, ses_stream := snd (stream_Close (ses_stream s))\<rparr>)))
        | (None, r) \<Rightarrow>
            Some (bind_go (ParseRequest (env_p env) parse_uri r) (\<lambda>((req, close, err, canRespond), r').
              let s1 = s\<lparr>in_stream := r', conLock := True, ses_closing := close\<rparr> in
              case err of
                Some e \<Rightarrow>
                  (let s2 = s1\<lparr>ses_closing := True\<rparr>;
                       s3 = (if canRespond then HandleError handler e s2 else s2);
                       err' = (if canRespond then EOS else ErrWhileParsing e)
                   in bind_go (conLock_Unlock s3) (\<lambda>s4.
                        Inr (FrameError err' (s4\<lparr>ses_stream := snd (stream_Close (ses_stream s4))\<rparr>))))
              | None \<Rightarrow>
                  (case req of
                     None \<Rightarrow> Inl NilDereference
                   | Some q \<Rightarrow> Inr (FrameOK q (new_frame env q s1)))))))"

subsection \<open>The head of a response\<close>

abbreviation connection_values :: "Header \<Rightarrow> string list" where
  "connection_values h \<equiv> GetValues standard_processor h ''Connection''"

abbreviation content_length :: "Header \<Rightarrow> string list" where
  "content_length h \<equiv> GetValues standard_processor h ''Content-Length''"

lemma session_keys [simp]:
  "GetKey standard_processor ''Connection'' = ''Connection''"
  "GetKey standard_processor ''cache-control'' = ''Cache-Control''"
  "GetKey standard_processor ''expires'' = ''Expires''"
  "GetKey standard_processor ''Content-Length'' = ''Content-Length''"
  "GetKey standard_processor ''Transfer-Encoding'' = ''Transfer-Encoding''"
  "GetKey standard_processor ''Transfer-Encodings'' = ''Transfer-Encodings''"
  by code_simp+

lemma connection_tokens [simp]: "to_lower ''close'' = ''close''" "to_lower ''keep-alive'' = ''keep-alive''"
  by code_simp+

lemma Header_Set_standard:
  "Header_Set standard_processor k v h = Inr (SetValuesRaw (GetKey standard_processor k) [to_lower v] h)"
  by (simp add: Header_Set_def SetValues_standard)

lemma GetValues_SetValuesRaw:
  "GetValues standard_processor (SetValuesRaw key vs h) k
    = (if GetKey standard_processor k = key then vs else GetValues standard_processor h k)"
  by (simp add: GetValues_def GetValuesRawKey_def SetValuesRaw_def)

lemma GetValues_cong: "Values h = Values h' \<Longrightarrow> GetValues p h k = GetValues p h' k"
  by (simp add: GetValues_def GetValuesRawKey_def)

lemma FormatCacheControl_ok:
  "\<exists>e h c. Response_FormatCacheControl format_time now standard_processor r
      = Inr (e, r\<lparr>resp_Header := h, resp_cacheControl := c\<rparr>)
    \<and> (\<forall>k. k \<noteq> ''Cache-Control'' \<longrightarrow> k \<noteq> ''Expires'' \<longrightarrow> Values h k = Values (resp_Header r) k)"
proof (cases "resp_hasCacheControl r")
  case True
  obtain res c where hd: "ResourceCacheControl_Headers format_time now (resp_cacheControl r) = (res, c)" by fastforce
  obtain cc ex e where x: "(case res of Inl e \<Rightarrow> ([], '''', Some e) | Inr (sds, ex) \<Rightarrow> (sds, ex, None)) = (cc, ex, e)"
    by (cases "case res of Inl e \<Rightarrow> ([], '''', Some e) | Inr (sds, ex) \<Rightarrow> (sds, ex, None)")
  let ?h1 = "SetValuesRaw ''Cache-Control'' (map to_lower cc) (resp_Header r)"
  let ?h = "if ex \<noteq> '''' then SetValuesRaw ''Expires'' [to_lower ex] ?h1 else Header_Del standard_processor ''expires'' ?h1"
  have "Response_FormatCacheControl format_time now standard_processor r
      = Inr (e, r\<lparr>resp_Header := ?h, resp_cacheControl := c\<rparr>)"
    using True by (simp add: Response_FormatCacheControl_def hd x SetValues_standard Header_Set_standard)
  moreover have "k \<noteq> ''Cache-Control'' \<Longrightarrow> k \<noteq> ''Expires'' \<Longrightarrow> Values ?h k = Values (resp_Header r) k" for k
    by (simp add: SetValuesRaw_def Header_Del_def DelRawKey_def)
  ultimately show ?thesis by blast
next
  case False
  then have "Response_FormatCacheControl format_time now standard_processor r
      = Inr (None, r\<lparr>resp_Header := resp_Header r, resp_cacheControl := resp_cacheControl r\<rparr>)"
    by (simp add: Response_FormatCacheControl_def)
  then show ?thesis by blast
qed

lemma FormatResponse_cong:
  "resp_Header r = resp_Header r' \<Longrightarrow> StatusCode r = StatusCode r' \<Longrightarrow> StatusTextOf r = StatusTextOf r'
    \<Longrightarrow> resp_Version r = resp_Version r' \<Longrightarrow> FormatResponse t r keys = FormatResponse t r' keys"
  by (simp add: FormatResponse_def)

text \<open>Whether the response ends the session: it was ending, or the handler asked for it.\<close>

definition closes :: "('d, 'g) frame \<Rightarrow> bool" where
  "closes f \<longleftrightarrow> ses_closing (ses f) \<or> ''close'' \<in> set (connection_values (resp_Header f))"

lemma headerGenerator_ok:
  assumes "env_p env = standard_processor" "conLock (ses f)"
  shows "\<exists>head h c. headerGenerator env f
      = Inr (head, f\<lparr>resp_Header := h, resp_cacheControl := c,
          ses := (ses f)\<lparr>ses_closing := closes f, conLock := \<not> closes f\<rparr>\<rparr>)
    \<and> content_length h = content_length (resp_Header f)
    \<and> (''close'' \<in> set (connection_values h) \<longleftrightarrow> closes f)
    \<and> FormatResponse (env_status_text env) (f\<lparr>resp_Header := h\<rparr>) (env_order env h) = Inr head"
proof -
  obtain h1 where h1: "Has standard_processor ''Connection'' [''close''] (resp_Header f)
      = Inr (''close'' \<in> set (connection_values (resp_Header f)), h1)" "Values h1 = Values (resp_Header f)"
    using Has_one [OF connection_tokens(1)] by blast
  let ?close = "''close'' \<in> set (connection_values (resp_Header f))"
  define h2 where "h2 = (if ?close then h1
    else SetValuesRaw ''Connection'' [if ses_closing (ses f) then ''close'' else ''keep-alive''] h1)"
  define f2 where "f2 = f\<lparr>resp_Header := h2, ses := (ses f)\<lparr>ses_closing := closes f, conLock := \<not> closes f\<rparr>\<rparr>"
  obtain e h c where fc: "Response_FormatCacheControl (env_format_time env) (env_now env) standard_processor f2
      = Inr (e, f2\<lparr>resp_Header := h, resp_cacheControl := c\<rparr>)"
    "\<And>k. k \<noteq> ''Cache-Control'' \<Longrightarrow> k \<noteq> ''Expires'' \<Longrightarrow> Values h k = Values h2 k"
    using FormatCacheControl_ok [of "env_format_time env" "env_now env" f2] by (auto simp: f2_def)
  let ?f3 = "f2\<lparr>resp_Header := h, resp_cacheControl := c\<rparr>"
  obtain head where head: "FormatResponse (env_status_text env) ?f3 (env_order env h) = Inr head"
    by (simp add: FormatResponse_def FormatHeaders_eq)
  let ?f1 = "f\<lparr>resp_Header := h1\<rparr>"
  let ?step = "if ?close then
            bind_go (conLock_Unlock ((ses ?f1)\<lparr>ses_closing := True\<rparr>)) (\<lambda>s. Inr (?f1\<lparr>ses := s\<rparr>))
          else if ses_closing (ses ?f1) then
            bind_go (conLock_Unlock (ses ?f1)) (\<lambda>s.
              bind_go (Header_Set standard_processor ''Connection'' ''close'' h1) (\<lambda>h'.
                Inr (?f1\<lparr>ses := s, resp_Header := h'\<rparr>)))
          else bind_go (Header_Set standard_processor ''Connection'' ''keep-alive'' h1) (\<lambda>h'.
            Inr (?f1\<lparr>resp_Header := h'\<rparr>))"
  have step: "?step = Inr f2"
  proof -
    consider "?close" | "\<not> ?close" "ses_closing (ses f)" | "\<not> ?close" "\<not> ses_closing (ses f)" by blast
    then show ?thesis
    proof cases
      case 1
      with assms(2) show ?thesis by (simp add: f2_def h2_def closes_def conLock_Unlock_def)
    next
      case 2
      then have "(ses f)\<lparr>ses_closing := True, conLock := False\<rparr> = (ses f)\<lparr>conLock := False\<rparr>"
        by (cases "ses f") simp
      with 2 assms(2) show ?thesis
        by (simp add: f2_def h2_def closes_def conLock_Unlock_def Header_Set_standard)
    next
      case 3
      then have "(ses f)\<lparr>ses_closing := False, conLock := True\<rparr> = ses f"
        using assms(2) by (cases "ses f") simp
      with 3 show ?thesis by (simp add: f2_def h2_def closes_def Header_Set_standard)
    qed
  qed
  have "headerGenerator env f = Inr (head, ?f3)"
    unfolding headerGenerator_def assms(1) h1(1) bind_go_Inr prod.case Let_def step fc(1)
    using head by simp
  moreover have "GetValues standard_processor h k = GetValues standard_processor h2 k"
    if "k = ''Content-Length'' \<or> k = ''Connection''" for k
    using that fc(2) [of k] by (auto simp: GetValues_def GetValuesRawKey_def)
  moreover have "content_length h2 = content_length (resp_Header f)"
    using GetValues_cong [OF h1(2)] by (simp add: h2_def GetValues_SetValuesRaw)
  moreover have "''close'' \<in> set (connection_values h2) \<longleftrightarrow> closes f"
    using GetValues_cong [OF h1(2)] by (auto simp: h2_def GetValues_SetValuesRaw closes_def)
  moreover have "FormatResponse (env_status_text env) (f\<lparr>resp_Header := h\<rparr>) (env_order env h) = Inr head"
    by (subst head [symmetric], rule FormatResponse_cong) (simp_all add: f2_def)
  ultimately show ?thesis
    by (intro exI [of _ head] exI [of _ h] exI [of _ c]) (simp add: f2_def)
qed

lemma SetBodyLength_ok:
  assumes "n < 2 ^ 63"
  shows "\<exists>h. SetBodyLength standard_processor (of_nat n) f = Inr (None, f\<lparr>resp_Header := h\<rparr>)
    \<and> content_length h = [FormatUint n 10] \<and> connection_values h = connection_values (resp_Header f)"
proof -
  have l: "0 \<le>s (of_nat n :: int64)" "unat (of_nat n :: int64) = n"
    using sint_of_nat64 [OF assms] unat_of_nat64 [OF assms] by (simp_all add: word_sle_eq)
  show ?thesis
    by (auto simp: SetBodyLength_def l Header_Set_standard SetValues_standard Let_def GetValues_SetValuesRaw)
qed

subsection \<open>The stages of a response\<close>

definition fresh_frame :: "('d, 'g) frame \<Rightarrow> bool" where
  "fresh_frame f \<longleftrightarrow> \<not> HeadWritten f \<and> bw_writer f = None \<and> bw_hasBody f \<and> bw_req f \<noteq> Some ''HEAD''
     \<and> conLock (ses f) \<and> \<not> hyjacked (ses f) \<and> conn_room (ses_stream (ses f)) = None
     \<and> \<not> stream_closed (ses_stream (ses f))"

definition sized_frame :: "nat \<Rightarrow> ('d, 'g) frame \<Rightarrow> ('d, 'g) frame \<Rightarrow> bool" where
  "sized_frame n f f1 \<longleftrightarrow> fresh_frame f \<and> n < 2 ^ 63 \<and> (\<exists>h. f1 = f\<lparr>resp_Header := h\<rparr>
     \<and> content_length h = [FormatUint n 10] \<and> connection_values h = connection_values (resp_Header f))"

abbreviation body_limit :: "nat \<Rightarrow> 'g body_sink" where
  "body_limit n \<equiv> LimitSink 0 (of_nat n)"

definition ready_frame :: "'g body_sink \<Rightarrow> nat \<Rightarrow> ('d, 'g) frame \<Rightarrow> ('d, 'g) frame \<Rightarrow> bool" where
  "ready_frame k n f f2 \<longleftrightarrow> k = SinkPipe [body_limit n]
     \<and> (\<exists>f1. sized_frame n f f1 \<and> f2 = f1\<lparr>bw_writer := Some (body_limit n)\<rparr>)"

text \<open>The frame after the head and the body are on the wire.\<close>

definition after_write :: "Header \<Rightarrow> ResourceCacheControl \<Rightarrow> string \<Rightarrow> ('d, 'g) frame \<Rightarrow> ('d, 'g) frame" where
  "after_write h c text f =
     f\<lparr>resp_Header := h, resp_cacheControl := c,
       ses := (ses f)\<lparr>ses_closing := closes f, conLock := \<not> closes f,
         ses_stream := (ses_stream (ses f))\<lparr>sent_bytes := sent_bytes (ses_stream (ses f)) @ text\<rparr>\<rparr>,
       HeadWritten := True\<rparr>"

definition written_frame ::
  "('d, 'g) http_env \<Rightarrow> 'g body_sink \<Rightarrow> string \<Rightarrow> ('d, 'g) frame \<Rightarrow> ('d, 'g) frame \<Rightarrow> bool" where
  "written_frame env k s f f3 \<longleftrightarrow> (\<exists>f2 head h c. ready_frame k (length s) f f2
     \<and> f3 = after_write h c (head @ s) f2 \<and> content_length h = [FormatUint (length s) 10]
     \<and> (''close'' \<in> set (connection_values h) \<longleftrightarrow> closes f)
     \<and> FormatResponse (env_status_text env) (f2\<lparr>resp_Header := h\<rparr>) (env_order env h) = Inr head)"

text \<open>
  The whole response: the head is the formatted response, with the right Content-Length and a Connection
  field that says whether the connection stays open; the body follows; the lock is free, and the
  connection is closed exactly when the session ends. The request side is untouched.
\<close>

definition responded :: "('d, 'g) http_env \<Rightarrow> string \<Rightarrow> ('d, 'g) frame \<Rightarrow> ('d, 'g) frame \<Rightarrow> bool" where
  "responded env s f f' \<longleftrightarrow>
     (\<exists>head. FormatResponse (env_status_text env) f' (env_order env (resp_Header f')) = Inr head
        \<and> sent_bytes (ses_stream (ses f')) = sent_bytes (ses_stream (ses f)) @ head @ s)
     \<and> content_length (resp_Header f') = [FormatUint (length s) 10]
     \<and> (''close'' \<in> set (connection_values (resp_Header f')) \<longleftrightarrow> closes f)
     \<and> \<not> conLock (ses f') \<and> (ses_closing (ses f') \<longleftrightarrow> closes f)
     \<and> (stream_closed (ses_stream (ses f')) \<longleftrightarrow> closes f) \<and> conn_room (ses_stream (ses f')) = None
     \<and> in_stream (ses f') = in_stream (ses f) \<and> hyjacked (ses f') = hyjacked (ses f)
     \<and> StatusCode f' = StatusCode f \<and> StatusTextOf f' = StatusTextOf f \<and> resp_Version f' = resp_Version f
     \<and> HeadWritten f' \<and> bw_writer f' = Some (body_limit (length s))"

lemma BodyLength_sized:
  assumes "sized_frame n f f1"
  shows "BodyWriter_BodyLength standard_processor f1 = (of_nat n, None)"
  using assms ParseUint_FormatUint [of 10 n 63]
  by (auto simp: sized_frame_def fresh_frame_def BodyWriter_BodyLength_def)

lemma write_frame_ok:
  assumes "env_p env = standard_processor" "ready_frame k (length s) f f2"
  shows "\<exists>f3. sink_Write (env_enc env) (frame_ops env) k s f2 = Inr ((int (length s), None), f3)
    \<and> written_frame env k s f f3"
proof -
  obtain f1 h1 where f1: "f1 = f\<lparr>resp_Header := h1\<rparr>" "f2 = f1\<lparr>bw_writer := Some (body_limit (length s))\<rparr>"
    "k = SinkPipe [body_limit (length s)]" "content_length h1 = [FormatUint (length s) 10]"
    "connection_values h1 = connection_values (resp_Header f)" "fresh_frame f" "length s < 2 ^ 63"
    using assms(2) by (auto simp: ready_frame_def sized_frame_def)
  have lock: "conLock (ses f2)" and head: "\<not> HeadWritten f2" and room: "conn_room (ses_stream (ses f2)) = None"
    and opened: "\<not> stream_closed (ses_stream (ses f2))"
    using f1 by (simp_all add: fresh_frame_def)
  have cl: "closes f2 = closes f" using f1(1,2,5) by (simp add: closes_def)
  obtain hd h c where g: "headerGenerator env f2
      = Inr (hd, f2\<lparr>resp_Header := h, resp_cacheControl := c,
          ses := (ses f2)\<lparr>ses_closing := closes f2, conLock := \<not> closes f2\<rparr>\<rparr>)"
    "content_length h = content_length (resp_Header f2)" "''close'' \<in> set (connection_values h) \<longleftrightarrow> closes f2"
    "FormatResponse (env_status_text env) (f2\<lparr>resp_Header := h\<rparr>) (env_order env h) = Inr hd"
    using headerGenerator_ok [OF assms(1) lock] by blast
  let ?f3 = "after_write h c (hd @ s) f2"
  have "writerWrapper_Write (frame_ops env) s f2 = Inr ((int (length s), None), ?f3)"
    using g(1) head room opened
    by (simp add: writerWrapper_Write_def frame_ops_def stream_Write_def after_write_def)
  then have "sink_Write (env_enc env) (frame_ops env) k s f2 = Inr ((int (length s), None), ?f3)"
    using limit_Write_within [OF order_refl f1(7), of "frame_ops env" f2] f1(3) by simp
  moreover have "content_length h = [FormatUint (length s) 10]" using g(2) f1 by simp
  ultimately show ?thesis
    using assms(2) g(3,4) cl unfolding written_frame_def by blast
qed

lemma close_frame_ok:
  assumes "written_frame env k s f f3"
  shows "\<exists>f4. sink_Close (env_close_enc env) (frame_ops env) k f3 = Inr (None, f4) \<and> responded env s f f4"
proof -
  obtain f1 h1 f2 hd h c where f1: "f1 = f\<lparr>resp_Header := h1\<rparr>" "f2 = f1\<lparr>bw_writer := Some (body_limit (length s))\<rparr>"
    "k = SinkPipe [body_limit (length s)]" "connection_values h1 = connection_values (resp_Header f)" "fresh_frame f"
    and f3: "f3 = after_write h c (hd @ s) f2" "content_length h = [FormatUint (length s) 10]"
    "''close'' \<in> set (connection_values h) \<longleftrightarrow> closes f"
    "FormatResponse (env_status_text env) (f2\<lparr>resp_Header := h\<rparr>) (env_order env h) = Inr hd"
    using assms unfolding written_frame_def ready_frame_def sized_frame_def by blast
  have cl: "closes f2 = closes f" using f1(1,2,4) by (simp add: closes_def)
  let ?c = "ses_stream (ses f3)"
  let ?f4 = "if closes f then f3\<lparr>ses := (ses f3)\<lparr>ses_stream := ?c\<lparr>stream_closed := True\<rparr>\<rparr>\<rparr>
    else f3\<lparr>ses := (ses f3)\<lparr>conLock := False\<rparr>\<rparr>"
  have "frame_close f3 = Inr (None, ?f4)"
    using f1 f3(1) cl
    by (simp add: frame_close_def after_write_def fresh_frame_def stream_Close_def conLock_Unlock_def)
  then have c: "sink_Close (env_close_enc env) (frame_ops env) k f3 = Inr (None, ?f4)"
    using f1(3) f3(1)
    by (simp add: writerWrapper_Close_def frame_ops_def lift_close_def unlift_close_def after_write_def)
  have "FormatResponse (env_status_text env) ?f4 (env_order env (resp_Header ?f4)) = Inr hd"
    by (subst f3(4) [symmetric], cases "closes f")
      (auto simp: f3(1) after_write_def intro: FormatResponse_cong)
  then have "responded env s f ?f4"
    using f1 f3(2,3) cl by (auto simp: responded_def f3(1) after_write_def fresh_frame_def)
  with c show ?thesis by blast
qed

interpretation response: message_writer
  "http1_writer ((env :: ('d, 'g) http_env)\<lparr>env_p := standard_processor\<rparr>) U0" fresh_frame sized_frame ready_frame
  "written_frame (env\<lparr>env_p := standard_processor\<rparr>)" "responded (env\<lparr>env_p := standard_processor\<rparr>)"
proof
  let ?env = "env\<lparr>env_p := standard_processor\<rparr>"
  fix st st1 st' :: "('d, 'g) frame" and n s k
  show "\<exists>st'. U_SetBodyLength (http1_writer ?env U0) (of_nat n) st = Inr (None, st') \<and> sized_frame n st st'"
    if "fresh_frame st" "n < 2 ^ 63"
    using that SetBodyLength_ok [OF that(2), of st] by (auto simp: http1_writer_def sized_frame_def)
  show "\<exists>raw k st'. U_Body (http1_writer ?env U0) st1 = Inr ((Some raw, None), st')
      \<and> U_pipe (http1_writer ?env U0) (Some raw) [] = Inr (None, k) \<and> ready_frame k n st st'"
    if z: "sized_frame n st st1"
  proof -
    have w: "bw_writer st1 = None" "bw_hasBody st1" "n < 2 ^ 63"
      using z by (auto simp: sized_frame_def fresh_frame_def)
    have "(of_nat n :: int64) \<noteq> -1" using sint_of_nat64 [OF w(3)] by (intro notI) simp
    then have "BodyWriter_Body standard_processor (env_tes ?env) st1
        = Inr ((Some (body_limit n), None), st1\<lparr>bw_writer := Some (body_limit n)\<rparr>)"
      using w BodyLength_sized [OF z] by (simp add: BodyWriter_Body_def)
    moreover have "sink_pipe (body_limit n) [] = Inr (None, SinkPipe [body_limit n])"
      by (simp add: sink_pipe_def To_def)
    ultimately show ?thesis using z by (auto simp: http1_writer_def ready_frame_def)
  qed
  show "\<exists>st'. U_Write (http1_writer ?env U0) k s st1 = Inr ((int (length s), None), st') \<and> written_frame ?env k s st st'"
    if "ready_frame k (length s) st st1"
    using write_frame_ok [OF _ that, of ?env] by (simp add: http1_writer_def)
  show "\<exists>st'. U_Close (http1_writer ?env U0) k st1 = Inr (None, st') \<and> responded ?env s st st'"
    if "written_frame ?env k s st st1"
    using close_frame_ok [OF that] by (simp add: http1_writer_def)
qed

end
