(* ===== verification/Chunked_Body.thy ===== *)
theory Chunked_Body
  imports Chunked Http_Session
begin

section \<open>A chunked body behind the headers of a message\<close>

text \<open>
  The reader of \<open>Chunked\<close> as a layer of the pipe that \<open>BodyReader\<close> builds. The generator of the encoding
  allocates a reader per layer; here the readers are the entries of a table in the state, by the number
  of decoders below them. The reads of a layer go through the source of the layer below, which is any
  \<open>io.Reader\<close>: a raw reader, another decoder, with its errors and its panics.
\<close>

datatype 'c codec = ChunkedAt nat | Codec 'c

record 'd chunk_session = "'d session" +
  ch_left :: "nat \<Rightarrow> int"
  ch_slept :: nat

fun chunk_depth :: "'d body_source \<Rightarrow> nat" where
  "chunk_depth (DecodedSource d r) = Suc (chunk_depth r)"
| "chunk_depth r = 0"

definition chunked_NewPipe :: "'c codec body_source \<Rightarrow> body_error + 'c codec body_source" where
  "chunked_NewPipe r = Inr (DecodedSource (ChunkedAt (chunk_depth r)) r)"

text \<open>A panic of the layer below ends the read at once; it travels as an error that is not temporary.\<close>

definition through :: "(nat \<Rightarrow> 'st \<Rightarrow> 'st read_result) \<Rightarrow> ('st, panic + body_error) chunk_source" where
  "through rd =
     \<lparr>src_Read = (\<lambda>n st. case rd n st of
          Inl p \<Rightarrow> (([], Some (Inl p)), st)
        | Inr ((d, err), st') \<Rightarrow> ((d, map_option Inr err), st')),
      src_lines = None\<rparr>"

definition through_temp :: "(body_error \<Rightarrow> bool) \<Rightarrow> panic + body_error \<Rightarrow> bool" where
  "through_temp tmp err = (case err of Inl p \<Rightarrow> False | Inr e \<Rightarrow> tmp e)"

text \<open>The errors of the reader as those of a body. \<^term>\<open>Inl\<close> is a panic.\<close>

fun chunk_body_error :: "(panic + body_error) chunk_error \<Rightarrow> panic + body_error" where
  "chunk_body_error ErrMalformedChunks = Inr (EncodingError ''malformed chunks'')"
| "chunk_body_error ChunkEOF = Inr (BodyIO EOF)"
| "chunk_body_error (ChunkIO err) = err"
| "chunk_body_error (ChunkSize err) = Inr (EncodingError ''size of a chunk'')"

text \<open>
  A read that waits for ever has no result, and nothing after it runs: like a panic it is on the left
  side. The other decoders are the argument \<open>dec\<close>.
\<close>

fun decode ::
  "(body_error \<Rightarrow> bool)
     \<Rightarrow> ('c \<Rightarrow> (nat \<Rightarrow> ('c codec, 'x) chunk_session_scheme \<Rightarrow> ('c codec, 'x) chunk_session_scheme read_result)
          \<Rightarrow> nat \<Rightarrow> ('c codec, 'x) chunk_session_scheme \<Rightarrow> ('c codec, 'x) chunk_session_scheme read_result)
     \<Rightarrow> 'c codec \<Rightarrow> (nat \<Rightarrow> ('c codec, 'x) chunk_session_scheme \<Rightarrow> ('c codec, 'x) chunk_session_scheme read_result)
     \<Rightarrow> nat \<Rightarrow> ('c codec, 'x) chunk_session_scheme \<Rightarrow> ('c codec, 'x) chunk_session_scheme read_result" where
  "decode tmp dec (ChunkedAt i) rd n st =
     (case chunk_Read (through rd) (through_temp tmp) n \<lparr>cr_source = (st, 0), bytesLeft = ch_left st i\<rparr> of
        None \<Rightarrow> Inl (Explicit ''the read does not return'')
      | Some ((d, err), r) \<Rightarrow>
          (let (st', t) = cr_source r;
               st'' = st'\<lparr>ch_left := (ch_left st')(i := bytesLeft r), ch_slept := ch_slept st' + t\<rparr>
           in case err of
                None \<Rightarrow> Inr ((d, None), st'')
              | Some e \<Rightarrow> (case chunk_body_error e of Inl p \<Rightarrow> Inl p | Inr e' \<Rightarrow> Inr ((d, Some e'), st''))))"
| "decode tmp dec (Codec c) rd n st = dec c rd n st"

subsection \<open>What a read leaves alone\<close>

text \<open>
  A part of the state that no read of the source changes is not changed by the reader of chunks, on any
  path: \<open>frame\<close> is that part.
\<close>

locale framed_source =
  fixes src :: "('s, 'e) chunk_source" and frame :: "'s \<Rightarrow> 'f"
  assumes no_lines: "src_lines src = None"
    and Read_frame: "src_Read src n s = (res, s') \<Longrightarrow> frame s' = frame s"
begin

lemma readSource_frame: "frame (fst (snd (readSource src tmp n st))) = frame (fst st)"
proof -
  have "frame (fst (snd (readSource_loop src' tmp k waits n st))) = frame (fst st)" if "src' = src" for src' k waits
    using that
  proof (induction src' tmp k waits n st rule: readSource_loop.induct)
    case (1 src' tmp k waits n st)
    obtain d err s' where rd: "src_Read src n (fst st) = ((d, err), s')" by (metis surj_pair)
    show ?case
      using 1 Read_frame [OF rd] rd by (subst readSource_loop.simps) (auto simp: sleep_def Let_def)
  qed
  then show ?thesis by (simp add: readSource_def)
qed

lemma read1_frame: "read1 src tmp st = Some y \<Longrightarrow> frame (fst (snd y)) = frame (fst st)"
proof -
  assume y: "read1 src tmp st = Some y"
  have "src = src \<longrightarrow> frame (fst (snd y)) = frame (fst st)"
  proof (rule read1.raw_induct [where P = "\<lambda>src' _ st y. src' = src \<longrightarrow> frame (fst (snd y)) = frame (fst st)"
        and src = src and tmp = tmp and st = st and y = y, OF _ y], goal_cases)
    case (1 f src' tmp st y)
    show ?case
    proof
      assume [simp]: "src' = src"
      obtain d err st' where rd: "readSource src tmp 1 st = ((d, err), st')" by (metis surj_pair)
      then have fr: "frame (fst st') = frame (fst st)" using readSource_frame [of tmp 1 st] by simp
      show "frame (fst (snd y)) = frame (fst st)"
        using 1(2) 1(1) [of src tmp "sleep ZeroReadSleep st'" y] fr rd
        by (auto simp: sleep_def readSource_frame split: if_splits)
    qed
  qed
  then show ?thesis by simp
qed

lemma read2_frame: "read2 src tmp st = Some y \<Longrightarrow> frame (fst (snd y)) = frame (fst st)"
proof -
  assume y: "read2 src tmp st = Some y"
  have "src = src \<longrightarrow> frame (fst (snd y)) = frame (fst st)"
  proof (rule read2.raw_induct [where P = "\<lambda>src' _ st y. src' = src \<longrightarrow> frame (fst (snd y)) = frame (fst st)"
        and src = src and tmp = tmp and st = st and y = y, OF _ y], goal_cases)
    case (1 f src' tmp st y)
    show ?case
    proof
      assume [simp]: "src' = src"
      obtain d err st' where rd: "readSource src tmp 2 st = ((d, err), st')" by (metis surj_pair)
      then have fr: "frame (fst st') = frame (fst st)" using readSource_frame [of tmp 2 st] by simp
      show "frame (fst (snd y)) = frame (fst st)"
        using 1(2) 1(1) [of src tmp "sleep ZeroReadSleep st'" y] 1(1) [of src tmp st' y] fr rd
        by (auto simp: sleep_def bind_eq_Some_conv readSource_frame split: if_splits dest!: read1_frame)
    qed
  qed
  then show ?thesis by simp
qed

lemma readLine_frame: "readLine src tmp st = Some y \<Longrightarrow> frame (fst (snd y)) = frame (fst st)"
proof -
  assume "readLine src tmp st = Some y"
  then have y: "readLine_loop src tmp [] st = Some y" by (simp add: readLine_def no_lines)
  have "src = src \<longrightarrow> frame (fst (snd y)) = frame (fst st)"
  proof (rule readLine_loop.raw_induct [where P = "\<lambda>src' _ _ st y. src' = src \<longrightarrow> frame (fst (snd y)) = frame (fst st)"
        and src = src and tmp = tmp and st = st and y = y, OF _ y], goal_cases)
    case (1 f src' tmp line st y)
    show ?case
    proof
      assume [simp]: "src' = src"
      obtain d err st' where rd: "read2 src tmp st = Some ((d, err), st')" using 1(2) by (auto simp: bind_eq_Some_conv)
      show "frame (fst (snd y)) = frame (fst st)"
        using 1(2) 1(1) [of src tmp "line @ d" st' y] read2_frame [OF rd] rd
        by (auto simp: bind_eq_Some_conv split: if_splits dest!: read1_frame)
    qed
  qed
  then show ?thesis by simp
qed

lemma readBytesLeft_frame: "readBytesLeft src tmp r = Some y \<Longrightarrow> frame (fst (cr_source (snd y))) = frame (fst (cr_source r))"
  by (auto simp: readBytesLeft_def Let_def split: prod.splits if_splits dest!: readLine_frame)

lemma ConsumeCRLF_frame: "ConsumeCRLF src tmp r = Some y \<Longrightarrow> frame (fst (cr_source (snd y))) = frame (fst (cr_source r))"
  by (auto simp: ConsumeCRLF_def split: prod.splits if_splits dest!: read2_frame)

lemma chunk_start_frame: "chunk_start src tmp r = Some y \<Longrightarrow> frame (fst (cr_source (snd y))) = frame (fst (cr_source r))"
  by (fastforce simp: chunk_start_def bind_eq_Some_conv split: prod.splits if_splits dest: readBytesLeft_frame ConsumeCRLF_frame)

lemma chunk_Read_frame: "chunk_Read src tmp n r = Some y \<Longrightarrow> frame (fst (cr_source (snd y))) = frame (fst (cr_source r))"
proof -
  assume y: "chunk_Read src tmp n r = Some y"
  have "src = src \<longrightarrow> frame (fst (cr_source (snd y))) = frame (fst (cr_source r))"
  proof (rule chunk_Read.raw_induct [where P = "\<lambda>src' _ _ r y. src' = src \<longrightarrow> frame (fst (cr_source (snd y))) = frame (fst (cr_source r))"
        and src = src and tmp = tmp and n = n and r = r and y = y, OF _ y], goal_cases)
    case (1 f src' tmp n r y)
    show ?case
    proof
      assume [simp]: "src' = src"
      obtain stop r1 where st: "chunk_start src tmp r = Some (stop, r1)" using 1(2) by (auto simp: bind_eq_Some_conv)
      let ?n = "nat (MinInt (bytesLeft r1) (int n))"
      obtain d err st' where rd: "readSource src tmp ?n (cr_source r1) = ((d, err), st')" by (metis surj_pair)
      show "frame (fst (cr_source (snd y))) = frame (fst (cr_source r))"
        using 1(2) chunk_start_frame [OF st] st readSource_frame [of tmp ?n "cr_source r1"] rd
        by (auto simp: bind_eq_Some_conv Let_def split: if_splits dest!: 1(1) ConsumeCRLF_frame)
    qed
  qed
  then show ?thesis by simp
qed

end

subsection \<open>The raw reader below the chunks\<close>

interpretation raw_pipe: byte_source "through raw_Read" "\<lambda>st. pending (in_stream st)"
proof
  fix n :: nat and s :: "('d, 'x) body_in_scheme"
  assume "0 < n" "pending (in_stream s) \<noteq> []"
  then show "\<exists>k s'. src_Read (through raw_Read) n s = ((take k (pending (in_stream s)), None), s') \<and> 0 < k \<and> k \<le> n
      \<and> k \<le> length (pending (in_stream s)) \<and> pending (in_stream s') = drop k (pending (in_stream s))"
    by (intro exI [of _ "min n (length (pending (in_stream s)))"]) (auto simp: through_def raw_Read_def bufio_Read_def min_def)
qed (auto simp: through_def raw_Read_def bufio_Read_def)

interpretation raw_pipe: framed_source "through raw_Read" "\<lambda>st. st\<lparr>in_stream := (in_stream st)\<lparr>pending := []\<rparr>\<rparr>"
  by unfold_locales (auto simp: through_def raw_Read_def bufio_Read_def split: if_splits)

text \<open>A session but for what reading a body changes: the bytes that are left and the readers of chunks.\<close>

definition unread :: "('d, 'x) chunk_session_scheme \<Rightarrow> ('d, 'x) chunk_session_scheme" where
  "unread st = st\<lparr>in_stream := (in_stream st)\<lparr>pending := []\<rparr>, ch_left := (\<lambda>_. 0), ch_slept := 0\<rparr>"

lemma unread_table [simp]: "unread (st\<lparr>ch_left := l, ch_slept := t\<rparr>) = unread st"
  by (simp add: unread_def)

lemma unread_pending:
  assumes "st'\<lparr>in_stream := (in_stream st')\<lparr>pending := []\<rparr>\<rparr> = st\<lparr>in_stream := (in_stream st)\<lparr>pending := []\<rparr>\<rparr>"
  shows "unread st' = unread st"
proof -
  have "unread s = (s\<lparr>in_stream := (in_stream s)\<lparr>pending := []\<rparr>\<rparr>)\<lparr>ch_left := (\<lambda>_. 0), ch_slept := 0\<rparr>"
    for s :: "('a, 'b) chunk_session_scheme" by (simp add: unread_def)
  with assms show ?thesis by metis
qed

definition in_chunks :: "nat \<Rightarrow> ('d, 'x) chunk_session_scheme \<Rightarrow> string \<Rightarrow> chunk list \<Rightarrow> chunk \<Rightarrow> string \<Rightarrow> bool" where
  "in_chunks i st cur cs e rest \<longleftrightarrow>
     raw_pipe.inside \<lparr>cr_source = (st, 0), bytesLeft = ch_left st i\<rparr> cur cs e rest"

lemma decode_raw:
  assumes "in_chunks i st cur cs e rest" "0 < n"
  shows "\<exists>d err st'. decode tmp dec (ChunkedAt i) raw_Read n st = Inr ((d, err), st') \<and> unread st' = unread st
    \<and> (err = None \<and> d \<noteq> [] \<and> (\<exists>cur' cs'. in_chunks i st' cur' cs' e rest
          \<and> cur @ concat (map ch_data cs) = d @ cur' @ concat (map ch_data cs'))
       \<or> err = Some (BodyIO EOF) \<and> d = cur @ concat (map ch_data cs) \<and> pending (in_stream st') = rest)"
proof -
  let ?r = "\<lparr>cr_source = (st, 0), bytesLeft = ch_left st i\<rparr>"
  have "raw_pipe.inside ?r cur cs e rest" using assms(1) by (simp add: in_chunks_def)
  from raw_pipe.chunk_Read_outcome [OF this, of "through_temp tmp" n] obtain d err r' where
    rd: "chunk_Read (through raw_Read) (through_temp tmp) n ?r = Some ((d, err), r')"
    "raw_pipe.read_outcome n (cur @ concat (map ch_data cs)) e rest ((d, err), r')"
    by (metis surj_pair)
  obtain st' t where s: "cr_source r' = (st', t)" by (metis surj_pair)
  let ?st = "st'\<lparr>ch_left := (ch_left st')(i := bytesLeft r'), ch_slept := ch_slept st' + t\<rparr>"
  have u: "unread ?st = unread st"
    using raw_pipe.chunk_Read_frame [OF rd(1)] s unread_pending [of st' st] by simp
  from rd(2) consider
    (more) cur' cs' where "err = None" "d \<noteq> []" "raw_pipe.inside r' cur' cs' e rest"
      "cur @ concat (map ch_data cs) = d @ cur' @ concat (map ch_data cs')"
    | (eof) "err = Some ChunkEOF" "d = cur @ concat (map ch_data cs)" "pending (in_stream st') = rest"
    using assms(2) s by (auto simp: raw_pipe.read_outcome_def)
  then show ?thesis
  proof cases
    case more
    have "in_chunks i ?st cur' cs' e rest"
      using more(3) s by (simp add: in_chunks_def raw_pipe.inside_def)
    with more(1,2,4) rd(1) s u show ?thesis by (intro exI [of _ d] exI [of _ None] exI [of _ ?st]) auto
  next
    case eof
    with rd(1) s u show ?thesis by (intro exI [of _ d] exI [of _ "Some (BodyIO EOF)"] exI [of _ ?st]) simp
  qed
qed

end
