(* ===== verification/Response_Status.thy ===== *)
theory Response_Status
  imports Go_Strconv
begin

section \<open>Response statuses: \<open>jps/responseStatus.go\<close>, \<open>jps/responseStatusMaps.go\<close>,
  \<open>http/responseCodes.go\<close>\<close>

text \<open>
  A \<open>ResponseStatus\<close> is a 16-bit word, its type in the upper byte and its code in the lower. Two
  map types, one to numbers and one to numbers with a text, keep a slice per type, indexed by
  the code; the entry at code 0 is the default of the type. A third type maps HTTP codes back. The
  two map types have the same methods, written twice; the locale \<open>status_map\<close> states what they
  promise and is interpreted on both.
\<close>

type_synonym ResponseStatus = "16 word"
type_synonym ResponseType = "8 word"

subsection \<open>Statuses\<close>

definition ResponseTypeOK :: ResponseType where "ResponseTypeOK = 0"
definition ResponseTypeClientError :: ResponseType where "ResponseTypeClientError = 0x80"
definition ResponseTypeServerError :: ResponseType where "ResponseTypeServerError = 0x40"
definition ResponseTypeRedirect :: ResponseType where "ResponseTypeRedirect = 0x20"

definition ResponseCodeClientErrorMask :: ResponseStatus where
  "ResponseCodeClientErrorMask = push_bit 8 (ucast ResponseTypeClientError)"

definition ResponseCodeServerErrorMask :: ResponseStatus where
  "ResponseCodeServerErrorMask = push_bit 8 (ucast ResponseTypeServerError)"

definition ResponseCodeNotOKMask :: ResponseStatus where
  "ResponseCodeNotOKMask = or ResponseCodeClientErrorMask ResponseCodeServerErrorMask"

definition ResponseCodeRedirectMask :: ResponseStatus where
  "ResponseCodeRedirectMask = push_bit 8 (ucast ResponseTypeRedirect)"

definition status_OK :: "ResponseStatus \<Rightarrow> bool" where
  "status_OK s = (and s ResponseCodeNotOKMask = 0)"

definition IsClientError :: "ResponseStatus \<Rightarrow> bool" where
  "IsClientError s = (and s ResponseCodeClientErrorMask \<noteq> 0)"

definition IsServerError :: "ResponseStatus \<Rightarrow> bool" where
  "IsServerError s = (and s ResponseCodeServerErrorMask \<noteq> 0)"

definition IsRedirect :: "ResponseStatus \<Rightarrow> bool" where
  "IsRedirect s = (and s ResponseCodeRedirectMask \<noteq> 0)"

definition status_Type :: "ResponseStatus \<Rightarrow> ResponseType" where
  "status_Type s = ucast (drop_bit 8 s)"

definition GetCode :: "ResponseStatus \<Rightarrow> 8 word" where
  "GetCode s = ucast (and s 0xff)"

text \<open>The constants of the package.\<close>

definition ResponseStatusOK :: ResponseStatus where "ResponseStatusOK = 1"
definition ResponseStatusCreated :: ResponseStatus where "ResponseStatusCreated = 2"
definition ResponseStatusAccepted :: ResponseStatus where "ResponseStatusAccepted = 3"
definition ResponseStatusNonAuthoritative :: ResponseStatus where "ResponseStatusNonAuthoritative = 4"
definition ResponseStatusNoContent :: ResponseStatus where "ResponseStatusNoContent = 5"
definition ResponseStatusResetContent :: ResponseStatus where "ResponseStatusResetContent = 6"

definition redirect :: "16 word \<Rightarrow> ResponseStatus" where
  "redirect c = or ResponseCodeRedirectMask c"

definition client_error :: "16 word \<Rightarrow> ResponseStatus" where
  "client_error c = or ResponseCodeClientErrorMask c"

definition server_error_status :: "16 word \<Rightarrow> ResponseStatus" where
  "server_error_status c = or ResponseCodeServerErrorMask c"

definition ResponseStatusMultipleChoices :: ResponseStatus where
  "ResponseStatusMultipleChoices = redirect 8"

definition ResponseStatusMovedPermanently :: ResponseStatus where
  "ResponseStatusMovedPermanently = redirect 1"

definition ResponseStatusFound :: ResponseStatus where
  "ResponseStatusFound = redirect 2"

definition ResponseStatusSeeOther :: ResponseStatus where
  "ResponseStatusSeeOther = redirect 3"

definition ResponseStatusUseProxy :: ResponseStatus where
  "ResponseStatusUseProxy = redirect 5"

definition ResponseStatusTemporaryRedirect :: ResponseStatus where
  "ResponseStatusTemporaryRedirect = redirect 7"

definition ResponseStatusNotModified :: ResponseStatus where
  "ResponseStatusNotModified = redirect 14"

definition ResponseStatusBadMessage :: ResponseStatus where
  "ResponseStatusBadMessage = client_error 1"

definition ResponseStatusBadRequest :: ResponseStatus where
  "ResponseStatusBadRequest = ResponseStatusBadMessage"

definition ResponseStatusPaymentRequired :: ResponseStatus where
  "ResponseStatusPaymentRequired = client_error 2"

definition ResponseStatusForbidden :: ResponseStatus where
  "ResponseStatusForbidden = client_error 3"

definition ResponseStatusNotFound :: ResponseStatus where
  "ResponseStatusNotFound = client_error 4"

definition ResponseStatusMethodNotAllowed :: ResponseStatus where
  "ResponseStatusMethodNotAllowed = client_error 5"

definition ResponseStatusNotAcceptable :: ResponseStatus where
  "ResponseStatusNotAcceptable = client_error 6"

definition ResponseStatusRequestTimeout :: ResponseStatus where
  "ResponseStatusRequestTimeout = client_error 8"

definition ResponseStatusConflict :: ResponseStatus where
  "ResponseStatusConflict = client_error 9"

definition ResponseStatusGone :: ResponseStatus where
  "ResponseStatusGone = client_error 10"

definition ResponseStatusLengthRequired :: ResponseStatus where
  "ResponseStatusLengthRequired = client_error 11"

definition ResponseStatusPayloadTooLarge :: ResponseStatus where
  "ResponseStatusPayloadTooLarge = client_error 13"

definition ResponseStatusURITooLong :: ResponseStatus where
  "ResponseStatusURITooLong = client_error 14"

definition ResponseStatusUnsupportedMediaType :: ResponseStatus where
  "ResponseStatusUnsupportedMediaType = client_error 15"

definition ResponseStatusPreconditionFailed :: ResponseStatus where
  "ResponseStatusPreconditionFailed = client_error 16"

definition ResponseStatusInvalidHandle :: ResponseStatus where
  "ResponseStatusInvalidHandle = client_error 19"

definition ResponseStatusExpectationFailed :: ResponseStatus where
  "ResponseStatusExpectationFailed = client_error 17"

definition ResponseStatusNotADirectory :: ResponseStatus where
  "ResponseStatusNotADirectory = client_error 19"

definition ResponseStatusUpgradeRequired :: ResponseStatus where
  "ResponseStatusUpgradeRequired = client_error 26"

definition ResponseStatusFileAlreadyExists :: ResponseStatus where
  "ResponseStatusFileAlreadyExists = client_error 21"

definition ResponseStatusUnavailableForLegalReasons :: ResponseStatus where
  "ResponseStatusUnavailableForLegalReasons = client_error 51"

definition ResponseStatusInternalServerError :: ResponseStatus where
  "ResponseStatusInternalServerError = server_error_status 1"

definition ResponseStatusNotImplemented :: ResponseStatus where
  "ResponseStatusNotImplemented = server_error_status 2"

definition ResponseStatusBadGateway :: ResponseStatus where
  "ResponseStatusBadGateway = server_error_status 3"

definition ResponseStatusServiceUnavailable :: ResponseStatus where
  "ResponseStatusServiceUnavailable = server_error_status 4"

definition ResponseStatusGatewayTimeout :: ResponseStatus where
  "ResponseStatusGatewayTimeout = server_error_status 5"

definition ResponseStatusVersionNotSupported :: ResponseStatus where
  "ResponseStatusVersionNotSupported = server_error_status 6"

definition ResponseStatusNotCached :: ResponseStatus where
  "ResponseStatusNotCached = server_error_status 15"

subsection \<open>The map to numbers\<close>

record ResponseStatusToUint16Map =
  u_OK :: "16 word list"
  u_Redirect :: "16 word list"
  u_ClientError :: "16 word list"
  u_ServerError :: "16 word list"
  u_Default :: "16 word"

definition u_lookup :: "16 word \<Rightarrow> 16 word list \<Rightarrow> nat \<Rightarrow> 16 word" where
  "u_lookup Default slc code =
     (if length slc = 0 then Default
      else (let code' = (if code \<ge> length slc then 0 else code) in slc ! code'))"

definition Uint16Map_Get :: "ResponseStatusToUint16Map \<Rightarrow> ResponseStatus \<Rightarrow> 16 word" where
  "Uint16Map_Get maps s =
     (if status_Type s = ResponseTypeOK then u_lookup (u_Default maps) (u_OK maps) (unat (GetCode s))
      else if status_Type s = ResponseTypeRedirect then
        u_lookup (u_Default maps) (u_Redirect maps) (unat (GetCode s))
      else if status_Type s = ResponseTypeClientError then
        u_lookup (u_Default maps) (u_ClientError maps) (unat (GetCode s))
      else if status_Type s = ResponseTypeServerError then
        u_lookup (u_Default maps) (u_ServerError maps) (unat (GetCode s))
      else u_Default maps)"

text \<open>The loop that fills the slice with the default up to the code, and the three ways to store.\<close>

function u_pad :: "16 word list \<Rightarrow> nat \<Rightarrow> nat \<Rightarrow> 16 word \<Rightarrow> 16 word list" where
  "u_pad slc l code dflt =
     (if l < code then u_pad (slc @ [dflt]) (l + 1) code dflt else slc)"
  by auto
termination by (relation "measure (\<lambda>(_, l, code, _). code - l)") auto

declare u_pad.simps [simp del]

definition u_store :: "16 word \<Rightarrow> 16 word list \<Rightarrow> nat \<Rightarrow> 16 word \<Rightarrow> 16 word list" where
  "u_store Default slc code u =
     (let l = length slc in
      if l = code then slc @ [u]
      else if l < code then
        (if code = 1 then slc @ [Default, u]
         else if l = 0 then u_pad (slc @ [Default, Default]) 2 code Default @ [u]
         else (let dflt = slc ! 0 in u_pad (slc @ [dflt]) (l + 1) code dflt @ [u]))
      else slc[code := u])"

definition Uint16Map_Set ::
  "ResponseStatusToUint16Map \<Rightarrow> ResponseStatus \<Rightarrow> 16 word \<Rightarrow> ResponseStatusToUint16Map go" where
  "Uint16Map_Set maps s u =
     (if status_Type s = ResponseTypeOK then
        Inr (maps\<lparr>u_OK := u_store (u_Default maps) (u_OK maps) (unat (GetCode s)) u\<rparr>)
      else if status_Type s = ResponseTypeRedirect then
        Inr (maps\<lparr>u_Redirect := u_store (u_Default maps) (u_Redirect maps) (unat (GetCode s)) u\<rparr>)
      else if status_Type s = ResponseTypeClientError then
        Inr (maps\<lparr>u_ClientError := u_store (u_Default maps) (u_ClientError maps) (unat (GetCode s)) u\<rparr>)
      else if status_Type s = ResponseTypeServerError then
        Inr (maps\<lparr>u_ServerError := u_store (u_Default maps) (u_ServerError maps) (unat (GetCode s)) u\<rparr>)
      else Inl (Explicit ''invalid ResponseStatus''))"

fun Uint16Map_SetAll ::
  "ResponseStatusToUint16Map \<Rightarrow> (ResponseStatus \<times> 16 word) list \<Rightarrow> ResponseStatusToUint16Map go" where
  "Uint16Map_SetAll maps [] = Inr maps"
| "Uint16Map_SetAll maps ((s, u) # m) =
     bind_go (Uint16Map_Set maps s u) (\<lambda>maps'. Uint16Map_SetAll maps' m)"

subsection \<open>The map to numbers with a text\<close>

record CodeWithString =
  Code :: "16 word"
  Str :: string

definition CodeWithString_String :: "CodeWithString \<Rightarrow> string" where
  "CodeWithString_String cws = FormatUint (unat (Code cws)) 10 @ '' '' @ Str cws"

record ResponseStatusToCodeWithStringMap =
  c_OK :: "CodeWithString list"
  c_Redirect :: "CodeWithString list"
  c_ClientError :: "CodeWithString list"
  c_ServerError :: "CodeWithString list"
  c_Default :: CodeWithString

definition NewResponseStatusToCodeWithStringMap ::
  "CodeWithString \<Rightarrow> ResponseStatusToCodeWithStringMap" where
  "NewResponseStatusToCodeWithStringMap dflt =
     \<lparr>c_OK = [], c_Redirect = [], c_ClientError = [], c_ServerError = [], c_Default = dflt\<rparr>"

definition c_lookup :: "CodeWithString \<Rightarrow> CodeWithString list \<Rightarrow> nat \<Rightarrow> CodeWithString" where
  "c_lookup Default slc code =
     (if length slc = 0 then Default
      else (let code' = (if code \<ge> length slc then 0 else code) in slc ! code'))"

definition CodeWithStringMap_Get ::
  "ResponseStatusToCodeWithStringMap \<Rightarrow> ResponseStatus \<Rightarrow> CodeWithString" where
  "CodeWithStringMap_Get maps s =
     (if status_Type s = ResponseTypeOK then c_lookup (c_Default maps) (c_OK maps) (unat (GetCode s))
      else if status_Type s = ResponseTypeRedirect then
        c_lookup (c_Default maps) (c_Redirect maps) (unat (GetCode s))
      else if status_Type s = ResponseTypeClientError then
        c_lookup (c_Default maps) (c_ClientError maps) (unat (GetCode s))
      else if status_Type s = ResponseTypeServerError then
        c_lookup (c_Default maps) (c_ServerError maps) (unat (GetCode s))
      else c_Default maps)"

function c_pad :: "CodeWithString list \<Rightarrow> nat \<Rightarrow> nat \<Rightarrow> CodeWithString \<Rightarrow> CodeWithString list" where
  "c_pad slc l code dflt =
     (if l < code then c_pad (slc @ [dflt]) (l + 1) code dflt else slc)"
  by auto
termination by (relation "measure (\<lambda>(_, l, code, _). code - l)") auto

declare c_pad.simps [simp del]

definition c_store ::
  "CodeWithString \<Rightarrow> CodeWithString list \<Rightarrow> nat \<Rightarrow> CodeWithString \<Rightarrow> CodeWithString list" where
  "c_store Default slc code cws =
     (let l = length slc in
      if l = code then slc @ [cws]
      else if l < code then
        (if code = 1 then slc @ [Default, cws]
         else if l = 0 then c_pad (slc @ [Default, Default]) 2 code Default @ [cws]
         else (let dflt = slc ! 0 in c_pad (slc @ [dflt]) (l + 1) code dflt @ [cws]))
      else slc[code := cws])"

definition CodeWithStringMap_Set ::
  "ResponseStatusToCodeWithStringMap \<Rightarrow> ResponseStatus \<Rightarrow> CodeWithString
     \<Rightarrow> ResponseStatusToCodeWithStringMap go" where
  "CodeWithStringMap_Set maps s cws =
     (if status_Type s = ResponseTypeOK then
        Inr (maps\<lparr>c_OK := c_store (c_Default maps) (c_OK maps) (unat (GetCode s)) cws\<rparr>)
      else if status_Type s = ResponseTypeRedirect then
        Inr (maps\<lparr>c_Redirect := c_store (c_Default maps) (c_Redirect maps) (unat (GetCode s)) cws\<rparr>)
      else if status_Type s = ResponseTypeClientError then
        Inr (maps\<lparr>c_ClientError := c_store (c_Default maps) (c_ClientError maps) (unat (GetCode s)) cws\<rparr>)
      else if status_Type s = ResponseTypeServerError then
        Inr (maps\<lparr>c_ServerError := c_store (c_Default maps) (c_ServerError maps) (unat (GetCode s)) cws\<rparr>)
      else Inl (Explicit ''invalid ResponseStatus''))"

fun CodeWithStringMap_SetAll ::
  "ResponseStatusToCodeWithStringMap \<Rightarrow> (ResponseStatus \<times> CodeWithString) list
     \<Rightarrow> ResponseStatusToCodeWithStringMap go" where
  "CodeWithStringMap_SetAll maps [] = Inr maps"
| "CodeWithStringMap_SetAll maps ((s, u) # m) =
     bind_go (CodeWithStringMap_Set maps s u) (\<lambda>maps'. CodeWithStringMap_SetAll maps' m)"

definition NewResponseStatusToCodeWithStringMapFromValuePairs ::
  "CodeWithString \<Rightarrow> (ResponseStatus \<times> CodeWithString) list \<Rightarrow> ResponseStatusToCodeWithStringMap go" where
  "NewResponseStatusToCodeWithStringMapFromValuePairs dflt values =
     CodeWithStringMap_SetAll (NewResponseStatusToCodeWithStringMap dflt) values"

subsection \<open>The tables of HTTP codes\<close>

record Uint16SteppedResponseCodeMap =
  M :: "ResponseStatus list list"
  Step :: "16 word"
  Default :: ResponseStatus

text \<open>The division panics when \<open>Step\<close> is 0; \<open>code - m.Step * i\<close> is computed on 16 bits.\<close>

definition Uint16SteppedResponseCodeMap_Get ::
  "Uint16SteppedResponseCodeMap \<Rightarrow> 16 word \<Rightarrow> ResponseStatus go" where
  "Uint16SteppedResponseCodeMap_Get m code =
     (if Step m = 0 then Inl DivideByZero
      else (let i = code div Step m; ii = unat i; j = unat (code - Step m * i) in
        if ii \<ge> length (M m) then Inr (Default m)
        else (let slc = M m ! ii in if j \<ge> length slc then Inr (Default m) else Inr (slc ! j))))"

definition status_table :: "ResponseStatus list list" where
  "status_table =
     [[], [],
      [ResponseStatusOK, ResponseStatusCreated, ResponseStatusAccepted, ResponseStatusNonAuthoritative,
       ResponseStatusNoContent, ResponseStatusResetContent],
      [ResponseStatusMultipleChoices, ResponseStatusMovedPermanently, ResponseStatusFound, ResponseStatusSeeOther, ResponseStatusUseProxy, 0, ResponseStatusTemporaryRedirect],
      [ResponseStatusBadMessage, 0, ResponseStatusPaymentRequired, ResponseStatusForbidden, ResponseStatusNotFound, ResponseStatusMethodNotAllowed,
       ResponseStatusNotAcceptable, 0, ResponseStatusRequestTimeout, ResponseStatusConflict, ResponseStatusGone, ResponseStatusLengthRequired, 0,
       ResponseStatusPayloadTooLarge, ResponseStatusURITooLong, ResponseStatusUnsupportedMediaType, 0, ResponseStatusExpectationFailed, ResponseStatusExpectationFailed,
       0, 0, 0, 0, 0, 0, 0, 0, ResponseStatusUpgradeRequired, 0, 0, 0, 0,
       0, 0, 0, 0, 0, 0, 0, 0, 0, 0, 0, 0, 0, 0, 0, 0, 0, 0, 0, 0, ResponseStatusUnavailableForLegalReasons],
      [ResponseStatusInternalServerError, ResponseStatusNotImplemented, ResponseStatusBadGateway, ResponseStatusServiceUnavailable,
       ResponseStatusGatewayTimeout, ResponseStatusVersionNotSupported]]"

definition StatusCodeToStatusMap :: Uint16SteppedResponseCodeMap where
  "StatusCodeToStatusMap = \<lparr>M = status_table, Step = 0, Default = 0\<rparr>"

definition status_pairs :: "(ResponseStatus \<times> CodeWithString) list" where
  "status_pairs =
     [(0, \<lparr>Code = 200, Str = ''OK''\<rparr>),
      (ResponseStatusOK, \<lparr>Code = 200, Str = ''OK''\<rparr>),
      (ResponseStatusCreated, \<lparr>Code = 201, Str = ''Created''\<rparr>),
      (ResponseStatusAccepted, \<lparr>Code = 202, Str = ''Accepted''\<rparr>),
      (ResponseStatusNonAuthoritative, \<lparr>Code = 203, Str = ''None Authoritative''\<rparr>),
      (ResponseStatusNoContent, \<lparr>Code = 204, Str = ''No Content''\<rparr>),
      (ResponseStatusResetContent, \<lparr>Code = 205, Str = ''Reset Content''\<rparr>),
      (ResponseStatusNotModified, \<lparr>Code = 316, Str = ''Not Modified''\<rparr>),
      (ResponseStatusNotFound, \<lparr>Code = 404, Str = ''Not Found''\<rparr>),
      (ResponseStatusPreconditionFailed, \<lparr>Code = 412, Str = ''Precondition Failed''\<rparr>)]"

definition StatusToStatusCodeMap :: "ResponseStatusToCodeWithStringMap go" where
  "StatusToStatusCodeMap =
     NewResponseStatusToCodeWithStringMapFromValuePairs \<lparr>Code = 0, Str = ''Unknown''\<rparr> status_pairs"

subsection \<open>The status of a response: \<open>http/request.go\<close>\<close>

record response_status =
  StatusCode :: "16 word"
  StatusText :: string

datatype response_status_error = ErrResponseStatusNotSupported

definition SetHTTPStatus :: "16 word \<Rightarrow> string \<Rightarrow> response_status \<Rightarrow> response_status" where
  "SetHTTPStatus code text' r = r\<lparr>StatusCode := code, StatusText := text'\<rparr>"

definition SetHTTPStatusCode :: "16 word \<Rightarrow> response_status \<Rightarrow> response_status" where
  "SetHTTPStatusCode code r = r\<lparr>StatusCode := code, StatusText := ''''\<rparr>"

text \<open>\<open>table\<close> is the package's \<open>StatusToStatusCodeMap\<close>, built when the program starts.\<close>

definition Response_SetStatus ::
  "ResponseStatusToCodeWithStringMap \<Rightarrow> ResponseStatus \<Rightarrow> response_status
     \<Rightarrow> response_status_error option \<times> response_status" where
  "Response_SetStatus table status r =
     (let cws = CodeWithStringMap_Get table status;
          r' = r\<lparr>StatusCode := Code cws, StatusText := Str cws\<rparr>
      in (if Code cws = 0 then Some ErrResponseStatusNotSupported else None, r'))"

definition Response_Status :: "response_status \<Rightarrow> (ResponseStatus \<times> bool) go" where
  "Response_Status r =
     bind_go (Uint16SteppedResponseCodeMap_Get StatusCodeToStatusMap (StatusCode r)) (\<lambda>s. Inr (s, True))"

subsection \<open>Types and codes\<close>

lemma unat_inj: "unat x = unat y \<Longrightarrow> x = y"
  by (rule unsigned_word_eqI)

lemma unat_status_Type: "unat (status_Type s) = unat s div 256"
proof -
  have "unat (drop_bit 8 s) = unat s div 256" by (simp add: unat_drop_bit_eq drop_bit_nat_def)
  moreover have "unat s < 65536" using unsigned_less [of s] by simp
  ultimately show ?thesis by (simp add: status_Type_def unsigned_ucast_eq take_bit_nat_def)
qed

lemma unat_GetCode: "unat (GetCode s) = unat s mod 256"
proof -
  have "and s 0xff = take_bit 8 s" by (simp add: take_bit_eq_mask mask_eq_exp_minus_1)
  then have "unat (and s 0xff) = unat s mod 256" by (simp add: unsigned_take_bit_eq take_bit_nat_def)
  then show ?thesis by (simp add: GetCode_def unsigned_ucast_eq take_bit_nat_def)
qed

lemma status_eq_iff: "s = t \<longleftrightarrow> status_Type s = status_Type t \<and> GetCode s = GetCode t"
proof
  assume "status_Type s = status_Type t \<and> GetCode s = GetCode t"
  then have "unat s div 256 = unat t div 256" "unat s mod 256 = unat t mod 256"
    using unat_status_Type unat_GetCode by metis+
  then have "unat s = unat t" by (metis div_mult_mod_eq)
  then show "s = t" by (rule unat_inj)
qed simp

definition valid_type :: "ResponseStatus \<Rightarrow> bool" where
  "valid_type s \<longleftrightarrow> status_Type s \<in> {ResponseTypeOK, ResponseTypeRedirect, ResponseTypeClientError,
     ResponseTypeServerError}"

lemmas type_defs = ResponseTypeOK_def ResponseTypeRedirect_def ResponseTypeClientError_def
  ResponseTypeServerError_def

lemma valid_type_cases:
  assumes "valid_type s"
  obtains "status_Type s = ResponseTypeOK" | "status_Type s = ResponseTypeRedirect"
    | "status_Type s = ResponseTypeClientError" | "status_Type s = ResponseTypeServerError"
  using assms by (auto simp: valid_type_def)

subsection \<open>Storing in a slice\<close>

lemma u_pad_eq: "u_pad slc l code dflt = slc @ replicate (code - l) dflt"
proof (induction slc l code dflt rule: u_pad.induct)
  case (1 slc l code dflt)
  show ?case
  proof (cases "l < code")
    case True
    then have "replicate (code - l) dflt = dflt # replicate (code - (l + 1)) dflt"
      by (metis Suc_diff_Suc Suc_eq_plus1 replicate_Suc)
    with "1.IH" [OF True] True show ?thesis by (simp add: u_pad.simps [of slc l])
  qed (simp add: u_pad.simps)
qed

lemma c_pad_eq: "c_pad slc l code dflt = slc @ replicate (code - l) dflt"
proof (induction slc l code dflt rule: c_pad.induct)
  case (1 slc l code dflt)
  show ?case
  proof (cases "l < code")
    case True
    then have "replicate (code - l) dflt = dflt # replicate (code - (l + 1)) dflt"
      by (metis Suc_diff_Suc Suc_eq_plus1 replicate_Suc)
    with "1.IH" [OF True] True show ?thesis by (simp add: c_pad.simps [of slc l])
  qed (simp add: c_pad.simps)
qed

text \<open>What both stores come to, and both lookups.\<close>

definition store :: "'v \<Rightarrow> 'v list \<Rightarrow> nat \<Rightarrow> 'v \<Rightarrow> 'v list" where
  "store d slc code v =
     (if code < length slc then slc[code := v]
      else slc @ replicate (code - length slc) (if slc = [] then d else slc ! 0) @ [v])"

definition lookup_slice :: "'v \<Rightarrow> 'v list \<Rightarrow> nat \<Rightarrow> 'v" where
  "lookup_slice d slc code =
     (if slc = [] then d else if code < length slc then slc ! code else slc ! 0)"

lemma replicate_split: "0 < n \<Longrightarrow> replicate n x = x # replicate (n - 1) x"
  by (cases n) simp_all

lemma u_store_eq: "u_store d slc code v = store d slc code v"
proof (cases "length slc < code")
  case True
  then show ?thesis
    using replicate_split [of code d] replicate_split [of "code - 1" d]
      replicate_split [of "code - length slc" "slc ! 0"]
    by (auto simp: u_store_def store_def Let_def u_pad_eq numeral_2_eq_2)
qed (auto simp: u_store_def store_def Let_def)

lemma c_store_eq: "c_store d slc code v = store d slc code v"
proof (cases "length slc < code")
  case True
  then show ?thesis
    using replicate_split [of code d] replicate_split [of "code - 1" d]
      replicate_split [of "code - length slc" "slc ! 0"]
    by (auto simp: c_store_def store_def Let_def c_pad_eq numeral_2_eq_2)
qed (auto simp: c_store_def store_def Let_def)

lemma u_lookup_eq: "u_lookup d slc code = lookup_slice d slc code"
  by (simp add: u_lookup_def lookup_slice_def Let_def)

lemma c_lookup_eq: "c_lookup d slc code = lookup_slice d slc code"
  by (simp add: c_lookup_def lookup_slice_def Let_def)

lemma lookup_store_same: "lookup_slice d (store d slc code v) code = v"
  by (auto simp: lookup_slice_def store_def nth_append)

lemma lookup_store_other:
  assumes "code \<noteq> 0" "c \<noteq> code"
  shows "lookup_slice d (store d slc code v) c = lookup_slice d slc c"
proof (cases "code < length slc")
  case True
  with assms show ?thesis by (auto simp: lookup_slice_def store_def)
next
  case False
  have "hd (slc @ replicate (code - length slc) x @ [v]) = (if slc = [] then x else slc ! 0)" for x
    using assms by (cases slc; cases code) auto
  with False assms show ?thesis
    by (auto simp: lookup_slice_def store_def nth_append hd_conv_nth)
qed

subsection \<open>The contract of a status map\<close>

locale status_map =
  fixes get :: "'m \<Rightarrow> ResponseStatus \<Rightarrow> 'v"
    and set_one :: "'m \<Rightarrow> ResponseStatus \<Rightarrow> 'v \<Rightarrow> 'm go"
    and set_all :: "'m \<Rightarrow> (ResponseStatus \<times> 'v) list \<Rightarrow> 'm go"
  assumes set_ok: "valid_type s \<Longrightarrow> \<exists>m'. set_one m s v = Inr m'"
    and set_invalid: "\<not> valid_type s \<Longrightarrow> set_one m s v = Inl (Explicit ''invalid ResponseStatus'')"
    and get_set: "set_one m s v = Inr m' \<Longrightarrow> get m' s = v"
    and get_set_other: "set_one m s v = Inr m' \<Longrightarrow> GetCode s \<noteq> 0 \<Longrightarrow> t \<noteq> s \<Longrightarrow> get m' t = get m t"
    and set_all_Nil: "set_all m [] = Inr m"
    and set_all_Cons: "set_all m ((s, v) # ps) = bind_go (set_one m s v) (\<lambda>m'. set_all m' ps)"
begin

lemma get_set_all:
  "(\<And>s v. (s, v) \<in> set ps \<Longrightarrow> valid_type s \<and> GetCode s \<noteq> 0) \<Longrightarrow>
    \<exists>m'. set_all m ps = Inr m'
      \<and> (\<forall>t. get m' t = (case map_of (rev ps) t of Some v \<Rightarrow> v | None \<Rightarrow> get m t))"
proof (induction ps arbitrary: m)
  case (Cons p ps)
  obtain s v where p: "p = (s, v)" by fastforce
  then have s: "valid_type s" "GetCode s \<noteq> 0" using Cons.prems by auto
  obtain m1 where m1: "set_one m s v = Inr m1" using set_ok [OF s(1)] by blast
  obtain m' where m': "set_all m1 ps = Inr m'"
    "\<forall>t. get m' t = (case map_of (rev ps) t of Some v \<Rightarrow> v | None \<Rightarrow> get m1 t)"
    using Cons.IH [of m1] Cons.prems by auto
  then have "get m' t = (case map_of (rev (p # ps)) t of Some v \<Rightarrow> v | None \<Rightarrow> get m t)" for t
    using get_set [OF m1] get_set_other [OF m1 s(2), of t] p
    by (cases "t = s") (auto simp: map_add_def split: option.splits)
  with m1 m' p show ?case by (simp add: set_all_Cons)
qed (simp add: set_all_Nil)

lemma set_all_panics:
  "\<not> valid_type s \<Longrightarrow> (\<And>t v. (t, v) \<in> set ps \<Longrightarrow> valid_type t) \<Longrightarrow>
    set_all m (ps @ (s, v) # qs) = Inl (Explicit ''invalid ResponseStatus'')"
proof (induction ps arbitrary: m)
  case (Cons p ps)
  obtain t u where p: "p = (t, u)" by fastforce
  then obtain m1 where "set_one m t u = Inr m1" using set_ok [of t m u] Cons.prems by auto
  with Cons.IH [of m1] Cons.prems p show ?case by (auto simp: set_all_Cons)
qed (simp add: set_all_Cons set_invalid)

end

lemmas map_ops = u_store_eq c_store_eq u_lookup_eq c_lookup_eq lookup_store_same

interpretation uint16_map: status_map Uint16Map_Get Uint16Map_Set Uint16Map_SetAll
proof
  fix m m' :: ResponseStatusToUint16Map and s t and v :: "16 word"
  show "valid_type s \<Longrightarrow> \<exists>m'. Uint16Map_Set m s v = Inr m'"
    by (auto simp: Uint16Map_Set_def valid_type_def)
  show "\<not> valid_type s \<Longrightarrow> Uint16Map_Set m s v = Inl (Explicit ''invalid ResponseStatus'')"
    by (simp add: Uint16Map_Set_def valid_type_def)
  assume set: "Uint16Map_Set m s v = Inr m'"
  then have "valid_type s" by (auto simp: Uint16Map_Set_def valid_type_def split: if_splits)
  then show "Uint16Map_Get m' s = v"
    using set by (cases rule: valid_type_cases)
      (auto simp: Uint16Map_Set_def Uint16Map_Get_def map_ops type_defs)
  assume c: "GetCode s \<noteq> 0" and ts: "t \<noteq> s"
  then have "unat (GetCode s) \<noteq> 0" by (simp add: unat_eq_0)
  then have other: "lookup_slice d (store d slc (unat (GetCode s)) v) (unat (GetCode t))
      = lookup_slice d slc (unat (GetCode t))" if "status_Type t = status_Type s" for d slc
    using that ts status_eq_iff [of t s] unat_inj [of "GetCode t" "GetCode s"]
    by (intro lookup_store_other) auto
  show "Uint16Map_Get m' t = Uint16Map_Get m t"
    using \<open>valid_type s\<close> set other by (cases rule: valid_type_cases)
      (auto simp: Uint16Map_Set_def Uint16Map_Get_def map_ops type_defs)
qed simp_all

interpretation code_map: status_map CodeWithStringMap_Get CodeWithStringMap_Set CodeWithStringMap_SetAll
proof
  fix m m' :: ResponseStatusToCodeWithStringMap and s t and v :: CodeWithString
  show "valid_type s \<Longrightarrow> \<exists>m'. CodeWithStringMap_Set m s v = Inr m'"
    by (auto simp: CodeWithStringMap_Set_def valid_type_def)
  show "\<not> valid_type s \<Longrightarrow> CodeWithStringMap_Set m s v = Inl (Explicit ''invalid ResponseStatus'')"
    by (simp add: CodeWithStringMap_Set_def valid_type_def)
  assume set: "CodeWithStringMap_Set m s v = Inr m'"
  then have "valid_type s" by (auto simp: CodeWithStringMap_Set_def valid_type_def split: if_splits)
  then show "CodeWithStringMap_Get m' s = v"
    using set by (cases rule: valid_type_cases)
      (auto simp: CodeWithStringMap_Set_def CodeWithStringMap_Get_def map_ops type_defs)
  assume c: "GetCode s \<noteq> 0" and ts: "t \<noteq> s"
  then have "unat (GetCode s) \<noteq> 0" by (simp add: unat_eq_0)
  then have other: "lookup_slice d (store d slc (unat (GetCode s)) v) (unat (GetCode t))
      = lookup_slice d slc (unat (GetCode t))" if "status_Type t = status_Type s" for d slc
    using that ts status_eq_iff [of t s] unat_inj [of "GetCode t" "GetCode s"]
    by (intro lookup_store_other) auto
  show "CodeWithStringMap_Get m' t = CodeWithStringMap_Get m t"
    using \<open>valid_type s\<close> set other by (cases rule: valid_type_cases)
      (auto simp: CodeWithStringMap_Set_def CodeWithStringMap_Get_def map_ops type_defs)
qed simp_all

subsection \<open>The table of the package\<close>

lemmas status_consts = ResponseStatusOK_def ResponseStatusCreated_def ResponseStatusAccepted_def
  ResponseStatusNonAuthoritative_def ResponseStatusNoContent_def ResponseStatusResetContent_def
  redirect_def client_error_def server_error_status_def ResponseCodeRedirectMask_def
  ResponseCodeClientErrorMask_def ResponseCodeServerErrorMask_def
  ResponseStatusMultipleChoices_def
  ResponseStatusMovedPermanently_def
  ResponseStatusFound_def
  ResponseStatusSeeOther_def
  ResponseStatusUseProxy_def
  ResponseStatusTemporaryRedirect_def
  ResponseStatusNotModified_def
  ResponseStatusBadMessage_def
  ResponseStatusBadRequest_def
  ResponseStatusPaymentRequired_def
  ResponseStatusForbidden_def
  ResponseStatusNotFound_def
  ResponseStatusMethodNotAllowed_def
  ResponseStatusNotAcceptable_def
  ResponseStatusRequestTimeout_def
  ResponseStatusConflict_def
  ResponseStatusGone_def
  ResponseStatusLengthRequired_def
  ResponseStatusPayloadTooLarge_def
  ResponseStatusURITooLong_def
  ResponseStatusUnsupportedMediaType_def
  ResponseStatusPreconditionFailed_def
  ResponseStatusInvalidHandle_def
  ResponseStatusExpectationFailed_def
  ResponseStatusNotADirectory_def
  ResponseStatusUpgradeRequired_def
  ResponseStatusFileAlreadyExists_def
  ResponseStatusUnavailableForLegalReasons_def
  ResponseStatusInternalServerError_def
  ResponseStatusNotImplemented_def
  ResponseStatusBadGateway_def
  ResponseStatusServiceUnavailable_def
  ResponseStatusGatewayTimeout_def
  ResponseStatusVersionNotSupported_def
  ResponseStatusNotCached_def

definition unknown_status :: CodeWithString where
  "unknown_status = \<lparr>Code = 0, Str = ''Unknown''\<rparr>"

definition ok_status :: CodeWithString where
  "ok_status = \<lparr>Code = 200, Str = ''OK''\<rparr>"

definition table_start :: ResponseStatusToCodeWithStringMap where
  "table_start = NewResponseStatusToCodeWithStringMap unknown_status \<lparr>c_OK := [ok_status]\<rparr>"

lemma StatusToStatusCodeMap_start:
  "StatusToStatusCodeMap = CodeWithStringMap_SetAll table_start (tl status_pairs)"
proof -
  have "CodeWithStringMap_Set (NewResponseStatusToCodeWithStringMap unknown_status) 0 ok_status
      = Inr table_start"
    by (simp add: CodeWithStringMap_Set_def status_Type_def GetCode_def type_defs table_start_def
        NewResponseStatusToCodeWithStringMap_def c_store_def)
  then show ?thesis
    by (simp add: StatusToStatusCodeMap_def NewResponseStatusToCodeWithStringMapFromValuePairs_def
        status_pairs_def flip: unknown_status_def ok_status_def)
qed

lemma Get_table_start:
  "CodeWithStringMap_Get table_start s = (if status_Type s = ResponseTypeOK then ok_status else unknown_status)"
  by (auto simp: CodeWithStringMap_Get_def table_start_def NewResponseStatusToCodeWithStringMap_def
      c_lookup_def not_le)

lemma status_pairs_valid:
  "list_all (\<lambda>(s, v). valid_type s \<and> GetCode s \<noteq> 0) (tl status_pairs)"
  by code_simp

lemma status_pairs_distinct: "distinct (map fst (tl status_pairs))"
  by code_simp

lemma table_lookup:
  "\<exists>table. StatusToStatusCodeMap = Inr table
    \<and> (\<forall>s. CodeWithStringMap_Get table s = (case map_of (tl status_pairs) s of
         Some v \<Rightarrow> v
       | None \<Rightarrow> if status_Type s = ResponseTypeOK then ok_status else unknown_status))"
proof -
  have "map_of (rev (tl status_pairs)) = map_of (tl status_pairs)"
    using status_pairs_distinct by (simp add: map_of_inject_set rev_map [symmetric])
  moreover have "\<exists>table. CodeWithStringMap_SetAll table_start (tl status_pairs) = Inr table
    \<and> (\<forall>t. CodeWithStringMap_Get table t = (case map_of (rev (tl status_pairs)) t of
       Some v \<Rightarrow> v | None \<Rightarrow> CodeWithStringMap_Get table_start t))"
    by (rule code_map.get_set_all) (use status_pairs_valid in \<open>auto simp: list_all_iff\<close>)
  then obtain table where
    "CodeWithStringMap_SetAll table_start (tl status_pairs) = Inr table"
    "\<forall>t. CodeWithStringMap_Get table t = (case map_of (rev (tl status_pairs)) t of
       Some v \<Rightarrow> v | None \<Rightarrow> CodeWithStringMap_Get table_start t)" by blast
  ultimately show ?thesis
    by (intro exI [of _ table]) (simp add: StatusToStatusCodeMap_start Get_table_start split: option.split)
qed

lemma stepped_Get_ok:
  "Step m \<noteq> 0 \<Longrightarrow> Uint16SteppedResponseCodeMap_Get m code =
    Inr (let i = unat code div unat (Step m); j = unat code mod unat (Step m) in
         if i < length (M m) \<and> j < length (M m ! i) then M m ! i ! j else Default m)"
proof -
  assume s: "Step m \<noteq> 0"
  have "unat (code div Step m) = unat code div unat (Step m)" by (rule unat_div)
  moreover have "code - Step m * (code div Step m) = code mod Step m"
    by (metis minus_mult_div_eq_mod)
  moreover have "unat (code mod Step m) = unat code mod unat (Step m)" by (rule unat_mod)
  ultimately show ?thesis
    using s by (auto simp: Uint16SteppedResponseCodeMap_Get_def Let_def)
qed

subsection \<open>Properties\<close>

text \<open>
  Storing any sequence of statuses of a known type and a non-zero code in either map succeeds,
  and afterwards \<open>Get\<close> gives each status its last stored value and every other status, of
  the same type or not, what it had before, although the slices grow and are filled with defaults.
\<close>

theorem SetAll_Get:
  assumes "\<And>s v. (s, v) \<in> set ps \<Longrightarrow> valid_type s \<and> GetCode s \<noteq> 0"
    and "\<And>s v. (s, v) \<in> set qs \<Longrightarrow> valid_type s \<and> GetCode s \<noteq> 0"
  shows "(\<exists>m'. Uint16Map_SetAll m ps = Inr m'
      \<and> (\<forall>t. Uint16Map_Get m' t = (case map_of (rev ps) t of Some v \<Rightarrow> v | None \<Rightarrow> Uint16Map_Get m t)))
    \<and> (\<exists>c'. CodeWithStringMap_SetAll c qs = Inr c'
      \<and> (\<forall>t. CodeWithStringMap_Get c' t
          = (case map_of (rev qs) t of Some v \<Rightarrow> v | None \<Rightarrow> CodeWithStringMap_Get c t)))"
  using uint16_map.get_set_all [of ps m] code_map.get_set_all [of qs c] assms by blast

theorem SetAll_Get_witness:
  "\<exists>m'. Uint16Map_SetAll \<lparr>u_OK = [], u_Redirect = [], u_ClientError = [], u_ServerError = [], u_Default = 7\<rparr>
      [(0x8004, 404), (0x4003, 502)] = Inr m'
    \<and> Uint16Map_Get m' 0x8004 = 404 \<and> Uint16Map_Get m' 0x4003 = 502 \<and> Uint16Map_Get m' 0x8002 = 7"
proof -
  let ?ps = "[(0x8004, 404), (0x4003, 502)] :: (ResponseStatus \<times> 16 word) list"
  let ?m = "\<lparr>u_OK = [], u_Redirect = [], u_ClientError = [], u_ServerError = [], u_Default = 7\<rparr>"
  have v: "list_all (\<lambda>(s, v). valid_type s \<and> GetCode s \<noteq> 0) ?ps" by code_simp
  have "\<exists>m'. Uint16Map_SetAll ?m ?ps = Inr m'
      \<and> (\<forall>t. Uint16Map_Get m' t = (case map_of (rev ?ps) t of Some v \<Rightarrow> v | None \<Rightarrow> Uint16Map_Get ?m t))"
    by (rule SetAll_Get [where qs = "[]" and m = ?m, THEN conjunct1]) (use v in \<open>auto simp: list_all_iff\<close>)
  then obtain m' where "Uint16Map_SetAll ?m ?ps = Inr m'"
    and g: "\<And>t. Uint16Map_Get m' t = (case map_of (rev ?ps) t of Some v \<Rightarrow> v | None \<Rightarrow> Uint16Map_Get ?m t)"
    by blast
  moreover have "Uint16Map_Get ?m 0x8002 = 7"
    by (simp add: Uint16Map_Get_def u_lookup_def)
  ultimately show ?thesis by (simp add: g [of "0x8004"] g [of "0x4003"] g [of "0x8002"])
qed

text \<open>
  \<open>Response.SetStatus\<close> on the package's table, for every one of the 65536 statuses: the listed
  statuses give their listed code and text, any other status of the OK type gives 200, and
  everything else (every server error included) is not supported and leaves code 0.
\<close>

theorem SetStatus_table:
  "\<exists>table. StatusToStatusCodeMap = Inr table
    \<and> (\<forall>s r. Response_SetStatus table s r =
        (case map_of (tl status_pairs) s of
           Some cws \<Rightarrow> (None, \<lparr>StatusCode = Code cws, StatusText = Str cws\<rparr>)
         | None \<Rightarrow>
             if status_Type s = ResponseTypeOK then (None, \<lparr>StatusCode = 200, StatusText = ''OK''\<rparr>)
             else (Some ErrResponseStatusNotSupported, \<lparr>StatusCode = 0, StatusText = ''Unknown''\<rparr>)))"
proof -
  obtain table where t: "StatusToStatusCodeMap = Inr table"
    and g: "\<And>s. CodeWithStringMap_Get table s = (case map_of (tl status_pairs) s of
         Some v \<Rightarrow> v
       | None \<Rightarrow> if status_Type s = ResponseTypeOK then ok_status else unknown_status)"
    using table_lookup by blast
  have nz: "map_of (tl status_pairs) s = Some v \<Longrightarrow> Code v \<noteq> 0" for s v
  proof -
    assume "map_of (tl status_pairs) s = Some v"
    then have "v \<in> snd ` set (tl status_pairs)" by (metis map_of_SomeD image_eqI snd_conv)
    then show "Code v \<noteq> 0" by (auto simp: status_pairs_def)
  qed
  have "Response_SetStatus table s r =
        (case map_of (tl status_pairs) s of
           Some cws \<Rightarrow> (None, \<lparr>StatusCode = Code cws, StatusText = Str cws\<rparr>)
         | None \<Rightarrow>
             if status_Type s = ResponseTypeOK then (None, \<lparr>StatusCode = 200, StatusText = ''OK''\<rparr>)
             else (Some ErrResponseStatusNotSupported, \<lparr>StatusCode = 0, StatusText = ''Unknown''\<rparr>))" for s r
    using nz [of s] by (auto simp: Response_SetStatus_def Let_def g ok_status_def unknown_status_def
        split: option.splits)
  with t show ?thesis by blast
qed

text \<open>
  The map from HTTP codes to statuses has no step, so \<open>Response.Status\<close> panics on every
  response. With any non-zero step \<open>Get\<close> never panics; with the step of 100 that the rows
  are written for, 304 would be "use proxy" and 426 no status at all, because the rows leave out
  304 and repeat 417.
\<close>

theorem Status_panics:
  "Response_Status r = Inl DivideByZero
    \<and> (st \<noteq> 0 \<longrightarrow> (\<exists>s. Uint16SteppedResponseCodeMap_Get (StatusCodeToStatusMap\<lparr>Step := st\<rparr>) code = Inr s))
    \<and> Uint16SteppedResponseCodeMap_Get (StatusCodeToStatusMap\<lparr>Step := 100\<rparr>) 304 = Inr ResponseStatusUseProxy
    \<and> Uint16SteppedResponseCodeMap_Get (StatusCodeToStatusMap\<lparr>Step := 100\<rparr>) 426 = Inr 0
    \<and> Uint16SteppedResponseCodeMap_Get (StatusCodeToStatusMap\<lparr>Step := 100\<rparr>) 427 = Inr ResponseStatusUpgradeRequired"
proof (intro conjI)
  show "Response_Status r = Inl DivideByZero"
    by (simp add: Response_Status_def Uint16SteppedResponseCodeMap_Get_def StatusCodeToStatusMap_def)
  show "st \<noteq> 0 \<longrightarrow> (\<exists>s. Uint16SteppedResponseCodeMap_Get (StatusCodeToStatusMap\<lparr>Step := st\<rparr>) code = Inr s)"
    using stepped_Get_ok [of "StatusCodeToStatusMap\<lparr>Step := st\<rparr>" code] by simp
qed (simp_all add: stepped_Get_ok StatusCodeToStatusMap_def status_table_def)

theorem Status_panics_witness:
  "\<exists>s. Uint16SteppedResponseCodeMap_Get (StatusCodeToStatusMap\<lparr>Step := 100\<rparr>) 404 = Inr s"
  using Status_panics [where st = 100 and code = 404] by simp

end
