(* ===== verification/Conditions.thy ===== *)
theory Conditions
  imports Header Response_Status
begin

section \<open>Conditions of requests: \<open>jps/condition.go\<close>, \<open>http/conditions.go\<close>\<close>

text \<open>
  A condition has a type, the status of the response when it fails, and parameters: a time, a string
  or a list of strings, or none, in which case asking for them dereferences a nil interface. A
  time is the number of nanoseconds since the start of Unix time; \<open>parse_time\<close> is \<open>time.Parse\<close>
  of the standard library, with the layout as its first argument.
\<close>

datatype ConditionType = ConditionTypeModSince | ConditionTypeNotModSince | ConditionTypeETag
  | ConditionTypeETagNot | ConditionTypeExists | ConditionTypeNotExists

datatype ConditionParams = NoParams | TimeParam int | StrParam string | StrsParam "string list"

record Condition =
  cond_Type :: ConditionType
  cond_Fail :: ResponseStatus
  cond_Params :: ConditionParams

text \<open>The zero \<open>time.Time\<close> is the start of year 1.\<close>

definition zero_time :: int where "zero_time = - 62135596800000000000"

definition params_Time :: "ConditionParams \<Rightarrow> int go" where
  "params_Time p = (case p of NoParams \<Rightarrow> Inl NilDereference | TimeParam t \<Rightarrow> Inr t
     | StrParam _ \<Rightarrow> Inr zero_time | StrsParam _ \<Rightarrow> Inr zero_time)"

definition params_Str :: "ConditionParams \<Rightarrow> string go" where
  "params_Str p = (case p of NoParams \<Rightarrow> Inl NilDereference | TimeParam _ \<Rightarrow> Inr [] | StrParam s \<Rightarrow> Inr s
     | StrsParam ss \<Rightarrow> if length ss > 0 then Inr (ss ! 0) else Inr [])"

definition params_Strs :: "ConditionParams \<Rightarrow> string list go" where
  "params_Strs p = (case p of NoParams \<Rightarrow> Inl NilDereference | TimeParam _ \<Rightarrow> Inr [] | StrParam s \<Rightarrow> Inr [s]
     | StrsParam ss \<Rightarrow> Inr ss)"

subsection \<open>Conditions of HTTP headers\<close>

definition RFC1123 :: string where "RFC1123 = ''Mon, 02 Jan 2006 15:04:05 MST''"
definition RFC850 :: string where "RFC850 = ''Monday, 02-Jan-06 15:04:05 MST''"
definition ANSIC :: string where "ANSIC = ''Mon Jan _2 15:04:05 2006''"

definition ParseDate :: "(string \<Rightarrow> string \<Rightarrow> int option) \<Rightarrow> string \<Rightarrow> int \<times> bool" where
  "ParseDate parse_time date =
     (case parse_time RFC1123 (map upper_byte date) of
        Some t \<Rightarrow> (t, True)
      | None \<Rightarrow> (case parse_time RFC850 date of
          Some t \<Rightarrow> (t, True)
        | None \<Rightarrow> (case parse_time ANSIC date of
            Some t \<Rightarrow> (t, True)
          | None \<Rightarrow> (zero_time, False))))"

definition FormatDate :: "(string \<Rightarrow> int \<Rightarrow> string) \<Rightarrow> int \<Rightarrow> string" where
  "FormatDate format_time date = format_time RFC1123 date"

fun unmodified_loop :: "(string \<Rightarrow> string \<Rightarrow> int option) \<Rightarrow> string list \<Rightarrow> Condition list \<Rightarrow> Condition list" where
  "unmodified_loop parse_time [] conds = conds"
| "unmodified_loop parse_time (d # ds) conds =
     (let (date, ok) = ParseDate parse_time d in
      unmodified_loop parse_time ds
        (if ok then conds @ [\<lparr>cond_Type = ConditionTypeNotModSince, cond_Fail = ResponseStatusPreconditionFailed,
           cond_Params = TimeParam date\<rparr>] else conds))"

definition Conditions :: "(string \<Rightarrow> string \<Rightarrow> int option) \<Rightarrow> Processor \<Rightarrow> Header \<Rightarrow> bool \<Rightarrow> Condition list" where
  "Conditions parse_time p h getOrHead =
     (let ifMatch = GetValues p h ''If-Match'';
          c1 = (if length ifMatch > 0 then
                  (if length ifMatch = 1 \<and> ifMatch ! 0 = ''*'' then
                     [\<lparr>cond_Type = ConditionTypeExists, cond_Fail = ResponseStatusPreconditionFailed, cond_Params = NoParams\<rparr>]
                   else [\<lparr>cond_Type = ConditionTypeETag, cond_Fail = ResponseStatusPreconditionFailed,
                     cond_Params = StrsParam ifMatch\<rparr>])
                else unmodified_loop parse_time (GetValues p h ''If-Unmodified-Since'') []);
          ifNoneMatch = GetValues p h ''If-None-Match''
      in if length ifNoneMatch > 0 then
           (if length ifNoneMatch = 1 \<and> ifNoneMatch ! 0 = ''*'' then
              c1 @ [\<lparr>cond_Type = ConditionTypeNotExists, cond_Fail = ResponseStatusPreconditionFailed, cond_Params = NoParams\<rparr>]
            else c1 @ [\<lparr>cond_Type = ConditionTypeETagNot,
              cond_Fail = (if getOrHead then ResponseStatusNotModified else ResponseStatusPreconditionFailed),
              cond_Params = StrsParam ifNoneMatch\<rparr>])
         else if getOrHead then
           (let ifModSince = GetValues p h ''If-Modified-Since'' in
            if length ifModSince = 1 then
              (let (date, ok) = ParseDate parse_time (ifModSince ! 0) in
               if ok then c1 @ [\<lparr>cond_Type = ConditionTypeModSince, cond_Fail = ResponseStatusNotModified,
                 cond_Params = TimeParam date\<rparr>]
               else c1)
            else c1)
         else c1)"

subsection \<open>The list of conditions\<close>

lemma unmodified_loop_eq:
  "unmodified_loop parse_time ds conds = conds @
     map (\<lambda>d. \<lparr>cond_Type = ConditionTypeNotModSince, cond_Fail = ResponseStatusPreconditionFailed,
        cond_Params = TimeParam (fst (ParseDate parse_time d))\<rparr>) (filter (\<lambda>d. snd (ParseDate parse_time d)) ds)"
  by (induction ds arbitrary: conds) (auto split: prod.splits)

text \<open>The two halves of the list.\<close>

definition match_part :: "(string \<Rightarrow> string \<Rightarrow> int option) \<Rightarrow> Processor \<Rightarrow> Header \<Rightarrow> Condition list" where
  "match_part parse_time p h =
     (let ifMatch = GetValues p h ''If-Match'' in
      if ifMatch = [] then unmodified_loop parse_time (GetValues p h ''If-Unmodified-Since'') []
      else if ifMatch = [''*''] then
        [\<lparr>cond_Type = ConditionTypeExists, cond_Fail = ResponseStatusPreconditionFailed, cond_Params = NoParams\<rparr>]
      else [\<lparr>cond_Type = ConditionTypeETag, cond_Fail = ResponseStatusPreconditionFailed, cond_Params = StrsParam ifMatch\<rparr>])"

definition none_match_part :: "(string \<Rightarrow> string \<Rightarrow> int option) \<Rightarrow> Processor \<Rightarrow> Header \<Rightarrow> bool \<Rightarrow> Condition list" where
  "none_match_part parse_time p h getOrHead =
     (let ifNoneMatch = GetValues p h ''If-None-Match''; ifModSince = GetValues p h ''If-Modified-Since'' in
      if ifNoneMatch = [''*''] then
        [\<lparr>cond_Type = ConditionTypeNotExists, cond_Fail = ResponseStatusPreconditionFailed, cond_Params = NoParams\<rparr>]
      else if ifNoneMatch \<noteq> [] then
        [\<lparr>cond_Type = ConditionTypeETagNot,
          cond_Fail = (if getOrHead then ResponseStatusNotModified else ResponseStatusPreconditionFailed),
          cond_Params = StrsParam ifNoneMatch\<rparr>]
      else if getOrHead \<and> length ifModSince = 1 \<and> snd (ParseDate parse_time (ifModSince ! 0)) then
        [\<lparr>cond_Type = ConditionTypeModSince, cond_Fail = ResponseStatusNotModified,
          cond_Params = TimeParam (fst (ParseDate parse_time (ifModSince ! 0)))\<rparr>]
      else [])"

lemma one_star: "length xs = 1 \<and> xs ! 0 = x \<longleftrightarrow> xs = [x]"
  by (cases xs) auto

lemma Conditions_parts:
  "Conditions parse_time p h getOrHead = match_part parse_time p h @ none_match_part parse_time p h getOrHead"
proof -
  have "(let ifMatch = GetValues p h ''If-Match'' in
      if length ifMatch > 0 then
        (if length ifMatch = 1 \<and> ifMatch ! 0 = ''*'' then
           [\<lparr>cond_Type = ConditionTypeExists, cond_Fail = ResponseStatusPreconditionFailed, cond_Params = NoParams\<rparr>]
         else [\<lparr>cond_Type = ConditionTypeETag, cond_Fail = ResponseStatusPreconditionFailed,
           cond_Params = StrsParam ifMatch\<rparr>])
      else unmodified_loop parse_time (GetValues p h ''If-Unmodified-Since'') []) = match_part parse_time p h"
    unfolding match_part_def Let_def one_star by simp
  then show ?thesis
    unfolding Conditions_def none_match_part_def Let_def one_star
    by (cases "ParseDate parse_time (GetValues p h ''If-Modified-Since'' ! 0)") simp
qed

end
