(* ===== verification/Handler_Lists.thy ===== *)
theory Handler_Lists
  imports Stable_Insertion "HOL-Library.Product_Lexorder"
begin

section \<open>Handler lists: \<open>jps/ListMethods.go\<close> and the three handler types\<close>

text \<open>
  A server keeps three linked lists of handlers (stream sessions, server sessions, frames). Each
  item has a stage and a priority; \<open>insert\<close> puts an item in the order "lower stage first, higher
  priority first within a stage", and \<open>Handle\<close> calls the matching handlers in that order until
  one takes the request or fails. The Go code has the methods three times, once per type, and so
  has the model. A linked list is the list of its items from \<open>start\<close> on. A handler is a
  function of the state of the session it is called with, which returns the handled flag, an
  error or \<^term>\<open>None\<close> for nil, and the state it leaves.

  Two locales state the shape of the code: what one \<open>insert\<close> does, what one \<open>callFrom\<close> does.
  Their lemmas are proved once and hold for the three types by interpretation.
\<close>

subsection \<open>Items\<close>

record ('s, 'e) handler =
  Protocol :: string
  F :: "'s \<Rightarrow> (bool \<times> 'e option) \<times> 's"

record ('s, 'e) item =
  handler :: "('s, 'e) handler"
  stage :: "8 word"
  priority :: "16 word"

definition StreamSessionStageHandle :: "8 word" where
  "StreamSessionStageHandle = 97"

definition StageHandler :: "8 word" where
  "StageHandler = 193"

subsection \<open>\<open>insert\<close>, three times\<close>

text \<open>
  The loop has the item \<open>i\<close> it stands at and the items after it; it looks at \<open>i.next\<close>.
\<close>

fun ServerSessionHandlerList_insert_loop ::
  "('s, 'e) item \<Rightarrow> ('s, 'e) item \<Rightarrow> ('s, 'e) item list \<Rightarrow> ('s, 'e) item list" where
  "ServerSessionHandlerList_insert_loop j i [] = [i, j]"
| "ServerSessionHandlerList_insert_loop j i (n # rest) =
     (if (stage j = stage n \<and> priority j > priority n) \<or> stage j < stage n
      then i # j # n # rest
      else i # ServerSessionHandlerList_insert_loop j n rest)"

fun ServerSessionHandlerList_insert ::
  "('s, 'e) item list \<Rightarrow> ('s, 'e) item \<Rightarrow> ('s, 'e) item list" where
  "ServerSessionHandlerList_insert [] j = [j]"
| "ServerSessionHandlerList_insert (start # rest) j =
     (if (stage j = stage start \<and> priority j > priority start) \<or> stage j < stage start
      then j # start # rest
      else ServerSessionHandlerList_insert_loop j start rest)"

fun StreamSessionHandlerList_insert_loop ::
  "('s, 'e) item \<Rightarrow> ('s, 'e) item \<Rightarrow> ('s, 'e) item list \<Rightarrow> ('s, 'e) item list" where
  "StreamSessionHandlerList_insert_loop j i [] = [i, j]"
| "StreamSessionHandlerList_insert_loop j i (n # rest) =
     (if (stage j = stage n \<and> priority j > priority n) \<or> stage j < stage n
      then i # j # n # rest
      else i # StreamSessionHandlerList_insert_loop j n rest)"

fun StreamSessionHandlerList_insert ::
  "('s, 'e) item list \<Rightarrow> ('s, 'e) item \<Rightarrow> ('s, 'e) item list" where
  "StreamSessionHandlerList_insert [] j = [j]"
| "StreamSessionHandlerList_insert (start # rest) j =
     (if (stage j = stage start \<and> priority j > priority start) \<or> stage j < stage start
      then j # start # rest
      else StreamSessionHandlerList_insert_loop j start rest)"

fun ServerFrameHandlerList_insert_loop ::
  "('s, 'e) item \<Rightarrow> ('s, 'e) item \<Rightarrow> ('s, 'e) item list \<Rightarrow> ('s, 'e) item list" where
  "ServerFrameHandlerList_insert_loop j i [] = [i, j]"
| "ServerFrameHandlerList_insert_loop j i (n # rest) =
     (if (stage j = stage n \<and> priority j > priority n) \<or> stage j < stage n
      then i # j # n # rest
      else i # ServerFrameHandlerList_insert_loop j n rest)"

fun ServerFrameHandlerList_insert ::
  "('s, 'e) item list \<Rightarrow> ('s, 'e) item \<Rightarrow> ('s, 'e) item list" where
  "ServerFrameHandlerList_insert [] j = [j]"
| "ServerFrameHandlerList_insert (start # rest) j =
     (if (stage j = stage start \<and> priority j > priority start) \<or> stage j < stage start
      then j # start # rest
      else ServerFrameHandlerList_insert_loop j start rest)"

subsection \<open>\<open>callFrom\<close>, three times, and \<open>Handle\<close>\<close>

text \<open>
  \<open>r\<close> is the pair of named results, which keep the values of the last call. \<open>proto\<close> is
  \<open>ses.Protocol().Protocol()\<close>, read once before the loop.
\<close>

fun ServerSessionHandlerList_callFrom ::
  "string \<Rightarrow> ('s, 'e) item list \<Rightarrow> bool \<times> 'e option \<Rightarrow> 's \<Rightarrow> (bool \<times> 'e option) \<times> 's" where
  "ServerSessionHandlerList_callFrom proto [] r ses = (r, ses)"
| "ServerSessionHandlerList_callFrom proto (c # next') r ses =
     (if proto = Protocol (handler c) \<or> Protocol (handler c) = [] then
        (let (r', ses') = F (handler c) ses in
         if fst r' \<or> snd r' \<noteq> None then (r', ses')
         else ServerSessionHandlerList_callFrom proto next' r' ses')
      else ServerSessionHandlerList_callFrom proto next' r ses)"

fun StreamSessionHandlerList_callFrom ::
  "string \<Rightarrow> ('s, 'e) item list \<Rightarrow> bool \<times> 'e option \<Rightarrow> 's \<Rightarrow> (bool \<times> 'e option) \<times> 's" where
  "StreamSessionHandlerList_callFrom proto [] r ses = (r, ses)"
| "StreamSessionHandlerList_callFrom proto (c # next') r ses =
     (if proto = Protocol (handler c) \<or> Protocol (handler c) = [] then
        (let (r', ses') = F (handler c) ses in
         if fst r' \<or> snd r' \<noteq> None then (r', ses')
         else StreamSessionHandlerList_callFrom proto next' r' ses')
      else StreamSessionHandlerList_callFrom proto next' r ses)"

fun callFromWithHandler ::
  "string \<Rightarrow> ('s, 'e) item list \<Rightarrow> ('s, 'e) handler \<Rightarrow> bool \<times> 'e option \<Rightarrow> 's
     \<Rightarrow> (bool \<times> 'e option) \<times> 's" where
  "callFromWithHandler proto [] h r ses = (r, ses)"
| "callFromWithHandler proto (c # next') h r ses =
     (if stage c = StreamSessionStageHandle then
        (if proto = Protocol h \<or> Protocol h = [] then
           (let (r', ses') = F h ses in
            if fst r' \<or> snd r' \<noteq> None then (r', ses')
            else StreamSessionHandlerList_callFrom proto (c # next') (False, None) ses')
         else StreamSessionHandlerList_callFrom proto (c # next') (False, None) ses)
      else if proto = Protocol (handler c) \<or> Protocol (handler c) = [] then
        (let (r', ses') = F (handler c) ses in
         if fst r' \<or> snd r' \<noteq> None then (r', ses')
         else callFromWithHandler proto next' h r' ses')
      else callFromWithHandler proto next' h r ses)"

fun ServerFrameHandlerList_callFrom ::
  "string \<Rightarrow> ('s, 'e) item list \<Rightarrow> bool \<times> 'e option \<Rightarrow> 's \<Rightarrow> (bool \<times> 'e option) \<times> 's" where
  "ServerFrameHandlerList_callFrom proto [] r frame = (r, frame)"
| "ServerFrameHandlerList_callFrom proto (c # next') r frame =
     (if Protocol (handler c) = [] \<or> proto = Protocol (handler c) then
        (let (r', frame') = F (handler c) frame in
         if fst r' \<or> snd r' \<noteq> None then (r', frame')
         else ServerFrameHandlerList_callFrom proto next' r' frame')
      else ServerFrameHandlerList_callFrom proto next' r frame)"

text \<open>\<open>protocol\<close> gives the protocol name of a session or frame in its current state.\<close>

definition ServerSessionHandlerList_Handle ::
  "('s \<Rightarrow> string) \<Rightarrow> ('s, 'e) item list \<Rightarrow> 's \<Rightarrow> (bool \<times> 'e option) \<times> 's" where
  "ServerSessionHandlerList_Handle protocol l ses =
     (if l = [] then ((False, None), ses)
      else ServerSessionHandlerList_callFrom (protocol ses) l (False, None) ses)"

definition StreamSessionHandlerList_Handle ::
  "('s \<Rightarrow> string) \<Rightarrow> ('s, 'e) item list \<Rightarrow> 's \<Rightarrow> (bool \<times> 'e option) \<times> 's" where
  "StreamSessionHandlerList_Handle protocol l ses =
     (if l = [] then ((False, None), ses)
      else StreamSessionHandlerList_callFrom (protocol ses) l (False, None) ses)"

definition HandleWithHandler ::
  "('s \<Rightarrow> string) \<Rightarrow> ('s, 'e) item list \<Rightarrow> 's \<Rightarrow> ('s, 'e) handler \<Rightarrow> (bool \<times> 'e option) \<times> 's" where
  "HandleWithHandler protocol l ses h =
     (if l = [] then ((False, None), ses)
      else callFromWithHandler (protocol ses) l h (False, None) ses)"

definition ServerFrameHandlerList_Handle ::
  "('s \<Rightarrow> string) \<Rightarrow> ('s, 'e) item list \<Rightarrow> 's \<Rightarrow> (bool \<times> 'e option) \<times> 's" where
  "ServerFrameHandlerList_Handle protocol l frame =
     (if l = [] then ((False, None), frame)
      else ServerFrameHandlerList_callFrom (protocol frame) l (False, None) frame)"

subsection \<open>The contract of \<open>insert\<close>\<close>

definition goes_before :: "('s, 'e) item \<Rightarrow> ('s, 'e) item \<Rightarrow> bool" where
  "goes_before j i \<longleftrightarrow> (stage j = stage i \<and> priority j > priority i) \<or> stage j < stage i"

text \<open>The order of the list: ascending stage, then descending priority.\<close>

definition item_key :: "('s, 'e) item \<Rightarrow> 8 word \<times> int" where
  "item_key j = (stage j, - uint (priority j))"

interpretation item_order: stable_placement goes_before item_key
  by unfold_locales
    (auto simp: goes_before_def item_key_def less_prod_def order.order_iff_strict
      word_less_def)


locale item_insertion =
  fixes ins :: "('s, 'e) item list \<Rightarrow> ('s, 'e) item \<Rightarrow> ('s, 'e) item list"
    and loop :: "('s, 'e) item \<Rightarrow> ('s, 'e) item \<Rightarrow> ('s, 'e) item list \<Rightarrow> ('s, 'e) item list"
  assumes ins_Nil: "ins [] j = [j]"
    and ins_Cons: "ins (i # l) j = (if goes_before j i then j # i # l else loop j i l)"
    and loop_Nil: "loop j i [] = [i, j]"
    and loop_Cons: "loop j i (n # l) = (if goes_before j n then i # j # n # l else i # loop j n l)"
begin

lemma loop_place: "loop j i l = i # place goes_before j l"
  by (induction l arbitrary: i) (simp_all add: loop_Nil loop_Cons)

lemma ins_place: "ins l j = place goes_before j l"
  by (cases l) (simp_all add: ins_Nil ins_Cons loop_place)

lemma mset_ins: "mset (ins l j) = add_mset j (mset l)"
  by (simp add: ins_place)

lemma sorted_ins: "sorted (map item_key l) \<Longrightarrow> sorted (map item_key (ins l j))"
  by (simp add: ins_place item_order.sorted_place)

lemma foldl_ins_sort_key: "foldl ins [] js = sort_key item_key js"
proof -
  have "ins = (\<lambda>l j. place goes_before j l)" by (intro ext) (rule ins_place)
  then show ?thesis by (simp add: item_order.foldl_place_sort_key)
qed

end

interpretation server_session_list: item_insertion
  ServerSessionHandlerList_insert ServerSessionHandlerList_insert_loop
  by unfold_locales (simp_all add: goes_before_def)

interpretation stream_session_list: item_insertion
  StreamSessionHandlerList_insert StreamSessionHandlerList_insert_loop
  by unfold_locales (simp_all add: goes_before_def)

interpretation server_frame_list: item_insertion
  ServerFrameHandlerList_insert ServerFrameHandlerList_insert_loop
  by unfold_locales (simp_all add: goes_before_def)

subsection \<open>The contract of \<open>callFrom\<close>\<close>

definition matches :: "string \<Rightarrow> ('s, 'e) item \<Rightarrow> bool" where
  "matches proto c \<longleftrightarrow> proto = Protocol (handler c) \<or> Protocol (handler c) = []"

definition takes :: "bool \<times> 'e option \<Rightarrow> bool" where
  "takes r \<longleftrightarrow> fst r \<or> snd r \<noteq> None"

lemma takes_simps [simp]:
  "\<not> takes (False, None)" "takes (True, e)" "takes (b, Some e)"
  by (simp_all add: takes_def)

lemma not_takes: "\<not> takes r \<Longrightarrow> r = (False, None)"
  by (cases r) (auto simp: takes_def)

text \<open>
  \<open>run_declined\<close> calls the matching handlers of a list one after the other, in order, and gives
  the state they leave if every one of them declines.
\<close>

fun run_declined :: "string \<Rightarrow> ('s, 'e) item list \<Rightarrow> 's \<Rightarrow> 's option" where
  "run_declined proto [] s = Some s"
| "run_declined proto (c # cs) s =
     (if matches proto c then
        (let (r, s') = F (handler c) s in if takes r then None else run_declined proto cs s')
      else run_declined proto cs s)"

locale dispatcher =
  fixes call :: "string \<Rightarrow> ('s, 'e) item list \<Rightarrow> bool \<times> 'e option \<Rightarrow> 's \<Rightarrow> (bool \<times> 'e option) \<times> 's"
  assumes call_Nil: "call proto [] r s = (r, s)"
    and call_Cons: "call proto (c # cs) r s =
      (if matches proto c then
         (let (r', s') = F (handler c) s in if takes r' then (r', s') else call proto cs r' s')
       else call proto cs r s)"
begin

lemma call_declined:
  "run_declined proto l s = Some s' \<Longrightarrow> call proto l (False, None) s = ((False, None), s')"
  by (induction l arbitrary: s)
    (auto simp: call_Nil call_Cons Let_def split: if_splits prod.splits dest: not_takes)

lemma call_taken:
  "run_declined proto l s = None \<Longrightarrow>
    \<exists>as c bs t. l = as @ c # bs \<and> run_declined proto as s = Some t \<and> matches proto c
      \<and> takes (fst (F (handler c) t)) \<and> call proto l (False, None) s = F (handler c) t"
proof (induction l arbitrary: s)
  case (Cons c cs)
  obtain r' s' where F: "F (handler c) s = (r', s')" by fastforce
  consider (now) "matches proto c" "takes r'" | (later) "matches proto c" "\<not> takes r'"
    | (skip) "\<not> matches proto c" by blast
  then show ?case
  proof cases
    case now
    then have "call proto (c # cs) (False, None) s = F (handler c) s"
      by (simp add: call_Cons F)
    with now F show ?thesis by (intro exI [of _ "[]"] exI [of _ c] exI [of _ cs] exI [of _ s]) auto
  next
    case later
    then have "run_declined proto cs s' = None" using Cons.prems by (simp add: F)
    from Cons.IH [OF this] obtain as d bs t where
      "cs = as @ d # bs" "run_declined proto as s' = Some t" "matches proto d"
      "takes (fst (F (handler d) t))" "call proto cs (False, None) s' = F (handler d) t" by blast
    with later F not_takes [of r'] show ?thesis
      by (intro exI [of _ "c # as"] exI [of _ d] exI [of _ bs]) (auto simp: call_Cons)
  next
    case skip
    then have "run_declined proto cs s = None" using Cons.prems by simp
    from Cons.IH [OF this] obtain as d bs t where
      "cs = as @ d # bs" "run_declined proto as s = Some t" "matches proto d"
      "takes (fst (F (handler d) t))" "call proto cs (False, None) s = F (handler d) t" by blast
    with skip show ?thesis
      by (intro exI [of _ "c # as"] exI [of _ d] exI [of _ bs]) (auto simp: call_Cons)
  qed
qed simp

end

interpretation server_session_call: dispatcher ServerSessionHandlerList_callFrom
  by unfold_locales (simp_all add: matches_def takes_def Let_def split: prod.splits)

interpretation stream_session_call: dispatcher StreamSessionHandlerList_callFrom
  by unfold_locales (simp_all add: matches_def takes_def Let_def split: prod.splits)

interpretation server_frame_call: dispatcher ServerFrameHandlerList_callFrom
  by unfold_locales (auto simp: matches_def takes_def Let_def split: prod.splits)

subsection \<open>The extra handler of \<open>HandleWithHandler\<close>\<close>

definition with_handler ::
  "('s, 'e) handler \<Rightarrow> ('s, 'e) item list \<Rightarrow> ('s, 'e) item list" where
  "with_handler h l =
     takeWhile (\<lambda>c. stage c \<noteq> StreamSessionStageHandle) l
     @ (if \<exists>c \<in> set l. stage c = StreamSessionStageHandle
        then [\<lparr>handler = h, stage = StreamSessionStageHandle, priority = 0\<rparr>] else [])
     @ dropWhile (\<lambda>c. stage c \<noteq> StreamSessionStageHandle) l"

lemma with_handler_simps:
  "with_handler h [] = []"
  "with_handler h (c # cs) =
     (if stage c = StreamSessionStageHandle
      then \<lparr>handler = h, stage = StreamSessionStageHandle, priority = 0\<rparr> # c # cs
      else c # with_handler h cs)"
  by (auto simp: with_handler_def)

lemma callFromWithHandler_inserts:
  "callFromWithHandler proto l h (False, None) s
    = StreamSessionHandlerList_callFrom proto (with_handler h l) (False, None) s"
proof (induction l arbitrary: s)
  case (Cons c cs)
  have none: "r' = (False, None)" if "\<not> (fst r' \<or> snd r' \<noteq> None)" for r' :: "bool \<times> 'b option"
    using that by (cases r') auto
  show ?case
    using Cons.IH none
    by (auto simp: with_handler_simps Let_def split: prod.splits)
qed (simp add: with_handler_simps)

subsection \<open>Properties\<close>

text \<open>
  C11: whatever the order in which frame handlers are added, the list is the stable sort of
  the additions by ascending stage and descending priority, so handlers of equal stage and
  priority stay in the order in which they were added.
\<close>

theorem FrameHandlers_in_order:
  "foldl ServerFrameHandlerList_insert [] js = sort_key item_key js"
  by (rule server_frame_list.foldl_ins_sort_key)

text \<open>
  The same for the stream session handlers and the server session handlers.
\<close>

theorem SessionHandlers_in_order:
  "foldl StreamSessionHandlerList_insert [] js = sort_key item_key js
    \<and> foldl ServerSessionHandlerList_insert [] ks = sort_key item_key ks"
  by (simp add: stream_session_list.foldl_ins_sort_key server_session_list.foldl_ins_sort_key)

text \<open>
  C12: \<open>ServerFrameHandlerList.Handle\<close> calls the handlers whose protocol matches one after
  the other. If all of them decline, the result is unhandled without an error; otherwise the
  result and the state are those of the first handler that takes the frame or fails, all matching
  handlers before it have been called and have declined, and none after it is called.
\<close>

theorem FrameHandlers_first_to_take:
  "case run_declined (protocol frame) l frame of
     Some frame' \<Rightarrow> ServerFrameHandlerList_Handle protocol l frame = ((False, None), frame')
   | None \<Rightarrow> \<exists>as c bs t. l = as @ c # bs
       \<and> run_declined (protocol frame) as frame = Some t
       \<and> matches (protocol frame) c \<and> takes (fst (F (handler c) t))
       \<and> ServerFrameHandlerList_Handle protocol l frame = F (handler c) t"
proof (cases "run_declined (protocol frame) l frame")
  case None
  then have "l \<noteq> []" by auto
  with None server_frame_call.call_taken [OF None] show ?thesis
    by (simp add: ServerFrameHandlerList_Handle_def)
next
  case (Some frame')
  then show ?thesis
    by (auto simp: ServerFrameHandlerList_Handle_def server_frame_call.call_declined)
qed

text \<open>
  \<open>HandleWithHandler\<close> behaves as \<open>Handle\<close> on the list with the extra handler put in
  front of the first item of the handle stage. When no item is registered at that stage (an empty
  list included) the extra handler is never called.
\<close>

theorem HandleWithHandler_inserts:
  "HandleWithHandler protocol l ses h
    = StreamSessionHandlerList_Handle protocol (with_handler h l) ses"
proof (cases "l = []")
  case True
  then show ?thesis
    by (simp add: HandleWithHandler_def StreamSessionHandlerList_Handle_def with_handler_simps)
next
  case False
  then have "with_handler h l \<noteq> []" by (cases l) (simp_all add: with_handler_simps)
  with False show ?thesis
    by (simp add: HandleWithHandler_def StreamSessionHandlerList_Handle_def
        callFromWithHandler_inserts)
qed

end
