(* ===== verification/Server.thy ===== *)
theory Server
  imports Handler_Lists
begin

section \<open>The server and its life cycle: \<open>jps/server.go\<close>\<close>

text \<open>
  A \<open>Server\<close> is closed, closing or open, counts the connections it handles, and holds the three
  handler lists. The first part has the methods as functions on the server's state, as they act
  when no other goroutine runs in between. The channel \<open>stateChange\<close> is never made in the
  repository, so it is nil: the \<open>select\<close> of \<open>changeState\<close> always takes its default branch and
  \<open>WaitForState\<close> never receives from it. The configuration, the error log and the buffer source
  are passive fields and left out.

  The second part is the concurrent behaviour: every critical section (what is done under
  \<open>stateLock\<close> or \<open>connectionsLock\<close>) and every unlocked read of the counter is one step of one
  goroutine, and the steps of goroutines interleave.
\<close>

subsection \<open>State\<close>

datatype State = StateClosed | StateClosing | StateOpen

fun state_code :: "State \<Rightarrow> nat" where
  "state_code StateClosed = 0"
| "state_code StateClosing = 1"
| "state_code StateOpen = 2"

instantiation State :: linorder
begin

definition less_eq_State :: "State \<Rightarrow> State \<Rightarrow> bool" where
  "less_eq_State a b \<longleftrightarrow> state_code a \<le> state_code b"

definition less_State :: "State \<Rightarrow> State \<Rightarrow> bool" where
  "less_State a b \<longleftrightarrow> state_code a < state_code b"

instance
proof
  fix a b :: State
  show "a \<le> b \<Longrightarrow> b \<le> a \<Longrightarrow> a = b"
    by (cases a; cases b) (simp_all add: less_eq_State_def)
qed (auto simp: less_eq_State_def less_State_def)

end

datatype server_error = ErrServerClosed | ErrServerClosing | ErrServerOpen

record ('w, 'e) Server =
  srv_state :: State
  connections :: "64 word"
  StreamSessionHandlers :: "('w, 'e) item list"
  SessionHandlers :: "('w, 'e) item list"
  FrameHandlers :: "('w, 'e) item list"

definition new_server :: "('w, 'e) Server" where
  "new_server = \<lparr>srv_state = StateClosed, connections = 0, StreamSessionHandlers = [],
     SessionHandlers = [], FrameHandlers = []\<rparr>"

subsection \<open>Connections and state changes\<close>

definition registerConnection :: "('w, 'e) Server \<Rightarrow> bool \<times> ('w, 'e) Server" where
  "registerConnection s =
     (if srv_state s \<noteq> StateOpen then (False, s)
      else (True, s\<lparr>connections := connections s + 1\<rparr>))"

definition changeState :: "State \<Rightarrow> ('w, 'e) Server \<Rightarrow> ('w, 'e) Server" where
  "changeState st s = s\<lparr>srv_state := st\<rparr>"

definition changeStateIf :: "State \<Rightarrow> State \<Rightarrow> ('w, 'e) Server \<Rightarrow> ('w, 'e) Server" where
  "changeStateIf cond to s =
     (if srv_state s = cond then s\<lparr>srv_state := to\<rparr> else s)"

definition deregisterConnection :: "('w, 'e) Server \<Rightarrow> ('w, 'e) Server" where
  "deregisterConnection s =
     (let s1 = s\<lparr>connections := connections s - 1\<rparr>
      in if connections s1 = 0 then changeStateIf StateClosing StateClosed s1 else s1)"

definition Open :: "('w, 'e) Server \<Rightarrow> ('w, 'e) Server" where
  "Open s = changeState StateOpen s"

definition Close :: "('w, 'e) Server \<Rightarrow> ('w, 'e) Server" where
  "Close s = changeState StateClosing s"

text \<open>
  \<open>WaitForState\<close> returns at once in the given state; otherwise it receives from the nil channel,
  which blocks for ever, so it has no result.
\<close>

definition WaitForState :: "State \<Rightarrow> ('w, 'e) Server \<Rightarrow> ('w, 'e) Server option" where
  "WaitForState st s = (if srv_state s = st then Some s else None)"

definition CloseAndWait :: "('w, 'e) Server \<Rightarrow> ('w, 'e) Server option" where
  "CloseAndWait s = WaitForState StateClosed (Close s)"

subsection \<open>Adding handlers\<close>

definition AddFrameHandler ::
  "8 word \<Rightarrow> 16 word \<Rightarrow> ('w, 'e) handler \<Rightarrow> ('w, 'e) Server
     \<Rightarrow> server_error option \<times> ('w, 'e) Server" where
  "AddFrameHandler stg prio h s =
     (if srv_state s = StateClosed then
        (None, s\<lparr>FrameHandlers := ServerFrameHandlerList_insert (FrameHandlers s)
                   \<lparr>handler = h, stage = stg, priority = prio\<rparr>\<rparr>)
      else if srv_state s = StateOpen then (Some ErrServerOpen, s)
      else (Some ErrServerClosing, s))"

definition AddSessionHandler ::
  "8 word \<Rightarrow> 16 word \<Rightarrow> ('w, 'e) handler \<Rightarrow> ('w, 'e) Server
     \<Rightarrow> server_error option \<times> ('w, 'e) Server" where
  "AddSessionHandler stg prio h s =
     (if srv_state s = StateClosed then
        (None, s\<lparr>SessionHandlers := ServerSessionHandlerList_insert (SessionHandlers s)
                   \<lparr>handler = h, stage = stg, priority = prio\<rparr>\<rparr>)
      else if srv_state s = StateOpen then (Some ErrServerOpen, s)
      else (Some ErrServerClosing, s))"

definition AddStreamSessionHandler ::
  "8 word \<Rightarrow> 16 word \<Rightarrow> ('w, 'e) handler \<Rightarrow> ('w, 'e) Server
     \<Rightarrow> server_error option \<times> ('w, 'e) Server" where
  "AddStreamSessionHandler stg prio h s =
     (if srv_state s = StateClosed then
        (None, s\<lparr>StreamSessionHandlers := StreamSessionHandlerList_insert (StreamSessionHandlers s)
                   \<lparr>handler = h, stage = stg, priority = prio\<rparr>\<rparr>)
      else if srv_state s = StateOpen then (Some ErrServerOpen, s)
      else (Some ErrServerClosing, s))"

subsection \<open>Handling sessions, streams and frames\<close>

text \<open>
  \<open>'w\<close> is the state of the session at hand. \<open>accept\<close> is \<open>sess.AcceptStream\<close>, which gives a
  stream or an error; the accepted streams, each handed to a new goroutine, are collected in
  order. \<open>next_frame\<close> is \<open>sess.Frame\<close>: \<^term>\<open>None\<close> when it produced a frame (now part of the
  state), or its error. Both loops run as long as the peer goes on, so they are partial: \<^term>\<open>None\<close>
  is "does not return".
\<close>

partial_function (option) handleStreamSessionFallback ::
  "('w \<Rightarrow> ('e + 'stream) \<times> 'w) \<Rightarrow> 'w \<Rightarrow> 'stream list \<Rightarrow> ('e \<times> 'w \<times> 'stream list) option" where
  "handleStreamSessionFallback accept sess started =
     (case accept sess of
        (Inl err, sess') \<Rightarrow> Some (err, sess', started)
      | (Inr stream, sess') \<Rightarrow> handleStreamSessionFallback accept sess' (started @ [stream]))"

definition HandleStreamSession ::
  "('w \<Rightarrow> string) \<Rightarrow> ('w \<Rightarrow> ('e + 'stream) \<times> 'w) \<Rightarrow> ('w, 'e) Server \<Rightarrow> 'w
     \<Rightarrow> ('e option \<times> ('w, 'e) Server \<times> 'w \<times> 'stream list) option" where
  "HandleStreamSession protocol accept s sess =
     (let (registered, s1) = registerConnection s in
      if registered then
        (let ((handled, err), sess1) =
               StreamSessionHandlerList_Handle protocol (StreamSessionHandlers s1) sess in
         if \<not> handled then
           Option.bind (handleStreamSessionFallback accept sess1 [])
             (\<lambda>(_, sess2, started). Some (err, deregisterConnection s1, sess2, started))
         else Some (err, deregisterConnection s1, sess1, []))
      else Some (None, s1, sess, []))"

definition HandleStreamSessionWithHandler ::
  "('w \<Rightarrow> string) \<Rightarrow> ('w \<Rightarrow> ('e + 'stream) \<times> 'w) \<Rightarrow> ('w, 'e) Server \<Rightarrow> 'w \<Rightarrow> ('w, 'e) handler
     \<Rightarrow> ('e option \<times> ('w, 'e) Server \<times> 'w \<times> 'stream list) option" where
  "HandleStreamSessionWithHandler protocol accept s sess h =
     (let (registered, s1) = registerConnection s in
      if registered then
        (let ((handled, err), sess1) =
               HandleWithHandler protocol (StreamSessionHandlers s1) sess h in
         if \<not> handled then
           Option.bind (handleStreamSessionFallback accept sess1 [])
             (\<lambda>(_, sess2, started). Some (err, deregisterConnection s1, sess2, started))
         else Some (err, deregisterConnection s1, sess1, []))
      else Some (None, s1, sess, []))"

text \<open>
  \<open>HandleStream\<close>: \<open>run\<close> is the handler it is given, with \<^term>\<open>None\<close> for one that does not return,
  \<open>con_close\<close> the stream's \<open>Close\<close>, \<open>closed_handler\<close> the optional \<open>ClosedHandler\<close>, which is called with a
  nil stream (\<^term>\<open>None\<close>), so the connection stays as it is.
\<close>

definition HandleStream ::
  "('w \<Rightarrow> 'w) \<Rightarrow> ('w option \<Rightarrow> unit go) option \<Rightarrow> (('w, 'e) Server \<Rightarrow> 'w \<Rightarrow> 'w option) \<Rightarrow> ('w, 'e) Server \<Rightarrow> 'w
     \<Rightarrow> (('w, 'e) Server \<times> 'w) go option" where
  "HandleStream con_close closed_handler run s con =
     (if srv_state s \<noteq> StateOpen then
        Some (case closed_handler of
           None \<Rightarrow> Inr (s, con_close con)
         | Some ch \<Rightarrow> bind_go (ch None) (\<lambda>_. Inr (s, con)))
      else
        (let s1 = s\<lparr>connections := connections s + 1\<rparr> in
         map_option (\<lambda>con1.
           let s2 = s1\<lparr>connections := connections s1 - 1\<rparr>
           in Inr (if connections s2 = 0 then changeStateIf StateClosing StateClosed s2 else s2, con1)) (run s1 con)))"

text \<open>
  \<open>accept_session\<close> is the listener's \<open>AcceptSession\<close>; 'l is the listener's state. The streams for which
  goroutines were started are collected over all sessions.
\<close>

partial_function (option) ListenOn ::
  "('l \<Rightarrow> ('e + 'w) \<times> 'l) \<Rightarrow> ('w \<Rightarrow> string) \<Rightarrow> ('w \<Rightarrow> ('e + 'stream) \<times> 'w) \<Rightarrow> ('w, 'e) Server \<Rightarrow> 'l
     \<Rightarrow> 'stream list \<Rightarrow> ('e \<times> ('w, 'e) Server \<times> 'l \<times> 'stream list) option" where
  "ListenOn accept_session protocol accept s l started =
     (case accept_session l of
        (Inl err, l') \<Rightarrow> Some (err, s, l', started)
      | (Inr sess, l') \<Rightarrow>
          Option.bind (HandleStreamSession protocol accept s sess)
            (\<lambda>(r, s', _, streams). case r of
               Some err \<Rightarrow> Some (err, s', l', started @ streams)
             | None \<Rightarrow> ListenOn accept_session protocol accept s' l' (started @ streams)))"

partial_function (option) ListenOnWithHandler ::
  "('l \<Rightarrow> ('e + 'w) \<times> 'l) \<Rightarrow> ('w \<Rightarrow> string) \<Rightarrow> ('w \<Rightarrow> ('e + 'stream) \<times> 'w) \<Rightarrow> ('w, 'e) Server \<Rightarrow> 'l
     \<Rightarrow> ('w, 'e) handler \<Rightarrow> 'stream list \<Rightarrow> ('e \<times> ('w, 'e) Server \<times> 'l \<times> 'stream list) option" where
  "ListenOnWithHandler accept_session protocol accept s l h started =
     (case accept_session l of
        (Inl err, l') \<Rightarrow> Some (err, s, l', started)
      | (Inr sess, l') \<Rightarrow>
          Option.bind (HandleStreamSessionWithHandler protocol accept s sess h)
            (\<lambda>(r, s', _, streams). case r of
               Some err \<Rightarrow> Some (err, s', l', started @ streams)
             | None \<Rightarrow> ListenOnWithHandler accept_session protocol accept s' l' h (started @ streams)))"

definition HandleFrame ::
  "('w \<Rightarrow> string) \<Rightarrow> ('w, 'e) Server \<Rightarrow> 'w \<Rightarrow> 'e option \<times> 'w" where
  "HandleFrame protocol s frame =
     (let ((_, err), frame') = ServerFrameHandlerList_Handle protocol (FrameHandlers s) frame
      in (err, frame'))"

partial_function (option) HandleSession_loop ::
  "('w \<Rightarrow> string) \<Rightarrow> ('w \<Rightarrow> 'e option \<times> 'w) \<Rightarrow> 'e \<Rightarrow> ('w, 'e) Server \<Rightarrow> 'w \<Rightarrow> ('e option \<times> 'w) option" where
  "HandleSession_loop protocol next_frame eos s sess =
     (case next_frame sess of
        (Some err, sess') \<Rightarrow> Some (if err = eos then None else Some err, sess')
      | (None, sess') \<Rightarrow>
          (case HandleFrame protocol s sess' of
             (Some err, sess'') \<Rightarrow> Some (Some err, sess'')
           | (None, sess'') \<Rightarrow> HandleSession_loop protocol next_frame eos s sess''))"

definition HandleSession ::
  "('w \<Rightarrow> string) \<Rightarrow> ('w \<Rightarrow> 'e option \<times> 'w) \<Rightarrow> 'e \<Rightarrow> ('w, 'e) Server \<Rightarrow> 'w \<Rightarrow> ('e option \<times> 'w) option" where
  "HandleSession protocol next_frame eos s sess =
     (let ((handled, err), sess1) =
            ServerSessionHandlerList_Handle protocol (SessionHandlers s) sess in
      if handled \<or> err \<noteq> None then Some (err, sess1)
      else HandleSession_loop protocol next_frame eos s sess1)"

subsection \<open>Goroutines\<close>

text \<open>
  Where a goroutine stands: handling a connection it registered; past the decrement of
  \<open>deregisterConnection\<close>; past the read of a zero counter; past the first check of
  \<open>changeStateIf\<close>; in \<open>CloseAndWait\<close> after the close; blocked on the nil channel; done.
\<close>

datatype pc = Idle | Handling | Deregistered | SawZero | SawClosing
  | WaitPending | WaitBlocked | Finished

record ('w, 'e) sys =
  srv :: "('w, 'e) Server"
  pcs :: "nat \<Rightarrow> pc"

definition init_sys :: "('w, 'e) sys" where
  "init_sys = \<lparr>srv = new_server, pcs = (\<lambda>_. Idle)\<rparr>"

inductive step :: "('w, 'e) sys \<Rightarrow> ('w, 'e) sys \<Rightarrow> bool" where
  register: "pcs s i = Idle \<Longrightarrow> registerConnection (srv s) = (True, v) \<Longrightarrow>
    step s (s\<lparr>srv := v, pcs := (pcs s)(i := Handling)\<rparr>)"
| refuse: "pcs s i = Idle \<Longrightarrow> registerConnection (srv s) = (False, v) \<Longrightarrow>
    step s (s\<lparr>srv := v, pcs := (pcs s)(i := Finished)\<rparr>)"
| decrement: "pcs s i = Handling \<Longrightarrow>
    step s (s\<lparr>srv := (srv s)\<lparr>connections := connections (srv s) - 1\<rparr>,
              pcs := (pcs s)(i := Deregistered)\<rparr>)"
| read_zero: "pcs s i = Deregistered \<Longrightarrow> connections (srv s) = 0 \<Longrightarrow>
    step s (s\<lparr>pcs := (pcs s)(i := SawZero)\<rparr>)"
| read_nonzero: "pcs s i = Deregistered \<Longrightarrow> connections (srv s) \<noteq> 0 \<Longrightarrow>
    step s (s\<lparr>pcs := (pcs s)(i := Finished)\<rparr>)"
| check_closing: "pcs s i = SawZero \<Longrightarrow> srv_state (srv s) = StateClosing \<Longrightarrow>
    step s (s\<lparr>pcs := (pcs s)(i := SawClosing)\<rparr>)"
| check_other: "pcs s i = SawZero \<Longrightarrow> srv_state (srv s) \<noteq> StateClosing \<Longrightarrow>
    step s (s\<lparr>pcs := (pcs s)(i := Finished)\<rparr>)"
| change: "pcs s i = SawClosing \<Longrightarrow>
    step s (s\<lparr>srv := changeStateIf StateClosing StateClosed (srv s),
              pcs := (pcs s)(i := Finished)\<rparr>)"
| open_server: "step s (s\<lparr>srv := Open (srv s)\<rparr>)"
| close_server: "step s (s\<lparr>srv := Close (srv s)\<rparr>)"
| close_and_wait: "pcs s i = Idle \<Longrightarrow>
    step s (s\<lparr>srv := Close (srv s), pcs := (pcs s)(i := WaitPending)\<rparr>)"
| wait_returns: "pcs s i = WaitPending \<Longrightarrow> srv_state (srv s) = StateClosed \<Longrightarrow>
    step s (s\<lparr>pcs := (pcs s)(i := Finished)\<rparr>)"
| wait_blocks: "pcs s i = WaitPending \<Longrightarrow> srv_state (srv s) \<noteq> StateClosed \<Longrightarrow>
    step s (s\<lparr>pcs := (pcs s)(i := WaitBlocked)\<rparr>)"
| add_frame_handler: "step s (s\<lparr>srv := snd (AddFrameHandler stg prio h (srv s))\<rparr>)"
| add_session_handler: "step s (s\<lparr>srv := snd (AddSessionHandler stg prio h (srv s))\<rparr>)"
| add_stream_session_handler:
    "step s (s\<lparr>srv := snd (AddStreamSessionHandler stg prio h (srv s))\<rparr>)"

lemma step_eq: "step s t \<Longrightarrow> t = u \<Longrightarrow> step s u"
  by simp

inductive reachable :: "('w, 'e) sys \<Rightarrow> bool" where
  init: "reachable init_sys"
| next_step: "reachable s \<Longrightarrow> step s t \<Longrightarrow> reachable t"

definition active :: "('w, 'e) sys \<Rightarrow> nat set" where
  "active s = {i. pcs s i = Handling}"

subsection \<open>The counter counts the handlers\<close>

lemma Add_handler_fields [simp]:
  "connections (snd (AddFrameHandler stg prio h v)) = connections v"
  "connections (snd (AddSessionHandler stg prio h v)) = connections v"
  "connections (snd (AddStreamSessionHandler stg prio h v)) = connections v"
  "srv_state (snd (AddFrameHandler stg prio h v)) = srv_state v"
  "srv_state (snd (AddSessionHandler stg prio h v)) = srv_state v"
  "srv_state (snd (AddStreamSessionHandler stg prio h v)) = srv_state v"
  by (simp_all add: AddFrameHandler_def AddSessionHandler_def AddStreamSessionHandler_def)

lemma registerConnection_True:
  "registerConnection v = (True, v') \<longleftrightarrow>
    srv_state v = StateOpen \<and> v' = v\<lparr>connections := connections v + 1\<rparr>"
  by (auto simp: registerConnection_def)

lemma registerConnection_False:
  "registerConnection v = (False, v') \<longleftrightarrow> srv_state v \<noteq> StateOpen \<and> v' = v"
  by (auto simp: registerConnection_def)

lemmas server_defs = Open_def Close_def changeState_def changeStateIf_def
  registerConnection_True registerConnection_False

definition counted :: "('w, 'e) sys \<Rightarrow> bool" where
  "counted s \<longleftrightarrow> finite (active s) \<and> connections (srv s) = of_nat (card (active s))"

lemma active_upd:
  "active (s\<lparr>pcs := (pcs s)(i := p)\<rparr>) =
    (if p = Handling then insert i (active s) else active s - {i})"
  "active (s\<lparr>srv := v, pcs := (pcs s)(i := p)\<rparr>) =
    (if p = Handling then insert i (active s) else active s - {i})"
  "active (s\<lparr>srv := v\<rparr>) = active s"
  by (auto simp: active_def)

lemma active_iff: "i \<in> active s \<longleftrightarrow> pcs s i = Handling"
  by (simp add: active_def)

lemma active_Diff [simp]: "pcs s i \<noteq> Handling \<Longrightarrow> active s - {i} = active s"
  by (auto simp: active_def)

lemma step_counted: "step s t \<Longrightarrow> counted s \<Longrightarrow> counted t"
proof (induction rule: step.induct)
  case (decrement s i)
  then have "i \<in> active s" by (simp add: active_iff)
  moreover have "finite (active s)" using decrement.prems by (simp add: counted_def)
  ultimately have "card (active s) = Suc (card (active s - {i}))"
    by (rule card.remove [rotated])
  with decrement show ?case by (simp add: counted_def active_upd)
qed (auto simp: counted_def active_upd server_defs active_iff)

lemma counted_init: "counted init_sys"
  by (simp add: counted_def init_sys_def active_def new_server_def)

lemma reachable_counted: "reachable s \<Longrightarrow> counted s"
  by (induction rule: reachable.induct) (auto intro: counted_init step_counted)

subsection \<open>Closing\<close>

lemma step_active: "step s t \<Longrightarrow> srv_state (srv s) \<noteq> StateOpen \<Longrightarrow> active t \<subseteq> active s"
  by (induction rule: step.induct) (auto simp: active_upd server_defs)

text \<open>A closing server on which no goroutine is left that could close it.\<close>

definition stuck_closing :: "('w, 'e) sys \<Rightarrow> bool" where
  "stuck_closing s \<longleftrightarrow> srv_state (srv s) = StateClosing
     \<and> (\<forall>i. pcs s i \<notin> {Handling, Deregistered, SawZero, SawClosing})"

definition step_no_open :: "('w, 'e) sys \<Rightarrow> ('w, 'e) sys \<Rightarrow> bool" where
  "step_no_open s t \<longleftrightarrow> step s t \<and> srv_state (srv t) \<noteq> StateOpen"

lemma stuck_closing_step:
  assumes "step s t" "srv_state (srv t) \<noteq> StateOpen" "stuck_closing s"
  shows "stuck_closing t"
  using assms
proof (induction rule: step.induct)
  case (open_server s)
  then show ?case by (simp add: server_defs)
qed (force simp: stuck_closing_def server_defs)+

lemma stuck_closing_run: "step_no_open\<^sup>*\<^sup>* s t \<Longrightarrow> stuck_closing s \<Longrightarrow> stuck_closing t"
  by (induction rule: rtranclp_induct) (auto simp: step_no_open_def intro: stuck_closing_step)

subsection \<open>One operation at a time\<close>

text \<open>
  When every operation runs to its end before the next one starts, the server keeps a stronger
  invariant. \<open>n\<close> is the number of connections being handled.
\<close>

datatype server_op = Register | Deregister | OpenOp | CloseOp

fun run_op :: "('w, 'e) Server \<times> nat \<Rightarrow> server_op \<Rightarrow> ('w, 'e) Server \<times> nat" where
  "run_op (s, n) Register =
     (let (ok, s') = registerConnection s in (s', if ok then Suc n else n))"
| "run_op (s, 0) Deregister = (s, 0)"
| "run_op (s, Suc n) Deregister = (deregisterConnection s, n)"
| "run_op (s, n) OpenOp = (Open s, n)"
| "run_op (s, n) CloseOp = (Close s, n)"

definition serial_inv :: "nat \<Rightarrow> ('w, 'e) Server \<times> nat \<Rightarrow> bool" where
  "serial_inv bound sn \<longleftrightarrow> snd sn \<le> bound \<and> connections (fst sn) = of_nat (snd sn)
     \<and> (srv_state (fst sn) = StateClosed \<longrightarrow> snd sn = 0)"

lemma of_nat_word64_0: "n < 2 ^ 64 \<Longrightarrow> (of_nat n :: 64 word) = 0 \<Longrightarrow> n = 0"
  using dvd_imp_le [of "2 ^ 64" n] by (cases "n = 0") (auto simp: word_of_nat_eq_0_iff)

lemma run_op_inv:
  assumes "serial_inv b sn" "Suc b < 2 ^ 64"
  shows "serial_inv (Suc b) (run_op sn op)"
proof -
  obtain s n where sn: "sn = (s, n)" by fastforce
  show ?thesis
  proof (cases op)
    case Deregister
    show ?thesis
    proof (cases n)
      case 0
      with assms sn Deregister show ?thesis by (simp add: serial_inv_def)
    next
      case (Suc m)
      have "m < 2 ^ 64" using assms sn Suc by (simp add: serial_inv_def)
      with assms sn Suc Deregister of_nat_word64_0 [of m] show ?thesis
        by (auto simp: serial_inv_def deregisterConnection_def changeStateIf_def Let_def)
    qed
  qed (use assms sn in \<open>auto simp: serial_inv_def registerConnection_def Open_def Close_def changeState_def\<close>)
qed

lemma run_ops_inv:
  "serial_inv b sn \<Longrightarrow> b + length ops < 2 ^ 64 \<Longrightarrow>
    serial_inv (b + length ops) (foldl run_op sn ops)"
proof (induction ops arbitrary: b sn)
  case (Cons op ops)
  have "serial_inv (Suc b) (run_op sn op)" using Cons.prems by (intro run_op_inv) auto
  from Cons.IH [OF this] Cons.prems show ?case by simp
qed simp

lemma run_op_preserves:
  assumes "length ops < 2 ^ 64"
  shows "serial_inv (length ops) (foldl run_op (new_server, 0) ops)"
proof -
  have "serial_inv 0 (new_server, 0)"
    by (simp add: serial_inv_def new_server_def)
  from run_ops_inv [OF this, of ops] assms show ?thesis by simp
qed

subsection \<open>Sessions of finitely many frames\<close>

lemma HandleSession_loop_returns:
  assumes "\<And>v v'. next_frame v = (None, v') \<Longrightarrow> m (snd (HandleFrame protocol s v')) < (m v :: nat)"
  shows "\<exists>r. HandleSession_loop protocol next_frame eos s v = Some r"
proof (induction "m v" arbitrary: v rule: less_induct)
  case less
  obtain e v' where n: "next_frame v = (e, v')" by fastforce
  show ?case
  proof (cases e)
    case None
    obtain e' v'' where h: "HandleFrame protocol s v' = (e', v'')" by fastforce
    have "m v'' < m v" using assms [of v v'] n None h by simp
    from less [OF this] show ?thesis
      by (cases e') (simp_all add: HandleSession_loop.simps [of _ _ _ _ v] n None h)
  qed (simp add: HandleSession_loop.simps [of _ _ _ _ v] n)
qed

subsection \<open>Properties\<close>

text \<open>
  C13: in every state the interleaved goroutines can reach, the connection counter is the number
  (modulo 2 to the 64) of goroutines that are handling a connection.
\<close>

theorem connections_count_handlers:
  "reachable s \<Longrightarrow> finite (active s) \<and> connections (srv s) = of_nat (card (active s))"
  using reachable_counted [of s] by (simp add: counted_def)

theorem connections_count_handlers_witness:
  "finite (active (init_sys :: (unit, unit) sys))
    \<and> connections (srv (init_sys :: (unit, unit) sys)) = of_nat (card (active (init_sys :: (unit, unit) sys)))"
  by (rule connections_count_handlers) (rule reachable.init)

text \<open>
  A step taken while the server is closing or closed starts no connection: the set of
  goroutines handling one can only shrink.
\<close>

theorem no_connection_unless_open:
  "step s t \<Longrightarrow> srv_state (srv s) \<noteq> StateOpen \<Longrightarrow> active t \<subseteq> active s"
  by (rule step_active)

theorem no_connection_unless_open_witness:
  "active ((init_sys :: (unit, unit) sys)\<lparr>srv := Close new_server\<rparr>) \<subseteq> active (init_sys :: (unit, unit) sys)"
proof -
  have "step init_sys ((init_sys :: (unit, unit) sys)\<lparr>srv := Close (srv init_sys)\<rparr>)"
    by (rule step.close_server)
  then have "step init_sys ((init_sys :: (unit, unit) sys)\<lparr>srv := Close new_server\<rparr>)"
    by (simp add: init_sys_def)
  then show ?thesis
    by (rule no_connection_unless_open) (simp add: init_sys_def new_server_def)
qed

text \<open>
  C14: when the operations run one after the other (fewer than 2 to the 64 of them), a server that
  is closed handles no connection, and the counter is exact: closing waits for every connection.
\<close>

theorem serial_closed_idle:
  assumes "length ops < 2 ^ 64"
  shows "(case foldl run_op (new_server, 0) ops of (s, n) \<Rightarrow>
    n \<le> length ops \<and> connections s = of_nat n \<and> (srv_state s = StateClosed \<longrightarrow> n = 0))"
  using run_op_preserves [OF assms] by (simp add: serial_inv_def split_beta)

theorem serial_closed_idle_witness:
  "(case foldl run_op (new_server :: (unit, unit) Server, 0) [OpenOp, Register, Register, CloseOp, Deregister] of (s, n) \<Rightarrow>
    n \<le> length [OpenOp, Register, Register, CloseOp, Deregister]
      \<and> connections s = of_nat n \<and> (srv_state s = StateClosed \<longrightarrow> n = 0))"
  by (rule serial_closed_idle) simp

text \<open>
  C16: with goroutines interleaved this fails. \<open>deregisterConnection\<close> reads the counter after
  releasing its lock and closes the server later, so a connection accepted in between is still
  being handled when the server becomes closed (and its handler lists become writable).
\<close>

theorem closed_with_live_connection:
  "\<exists>s :: (unit, unit) sys. reachable s \<and> srv_state (srv s) = StateClosed \<and> 1 \<in> active s"
proof -
  define sys :: "State \<Rightarrow> 64 word \<Rightarrow> pc \<Rightarrow> pc \<Rightarrow> (unit, unit) sys" where
    "sys = (\<lambda>st n p q. \<lparr>srv = new_server\<lparr>srv_state := st, connections := n\<rparr>,
                         pcs = (\<lambda>i. if i = 0 then p else if i = 1 then q else Idle)\<rparr>)"
  note defs = sys_def new_server_def server_defs registerConnection_def fun_eq_iff
  have "init_sys = sys StateClosed 0 Idle Idle"
    by (auto simp: init_sys_def defs)
  then have "reachable (sys StateClosed 0 Idle Idle)" using reachable.init by metis
  moreover have "step (sys StateClosed 0 Idle Idle) (sys StateOpen 0 Idle Idle)"
    by (rule step_eq [OF step.open_server]) (auto simp: defs)
  moreover have "step (sys StateOpen 0 Idle Idle) (sys StateOpen 1 Handling Idle)"
    by (rule step_eq [OF step.register [where i = 0]]) (auto simp: defs)
  moreover have "step (sys StateOpen 1 Handling Idle) (sys StateOpen 0 Deregistered Idle)"
    by (rule step_eq [OF step.decrement [where i = 0]]) (auto simp: defs)
  moreover have "step (sys StateOpen 0 Deregistered Idle) (sys StateOpen 0 SawZero Idle)"
    by (rule step_eq [OF step.read_zero [where i = 0]]) (auto simp: defs)
  moreover have "step (sys StateOpen 0 SawZero Idle) (sys StateOpen 1 SawZero Handling)"
    by (rule step_eq [OF step.register [where i = 1]]) (auto simp: defs)
  moreover have "step (sys StateOpen 1 SawZero Handling) (sys StateClosing 1 SawZero Handling)"
    by (rule step_eq [OF step.close_server]) (auto simp: defs)
  moreover have "step (sys StateClosing 1 SawZero Handling) (sys StateClosing 1 SawClosing Handling)"
    by (rule step_eq [OF step.check_closing [where i = 0]]) (auto simp: defs)
  moreover have "step (sys StateClosing 1 SawClosing Handling) (sys StateClosed 1 Finished Handling)"
    by (rule step_eq [OF step.change [where i = 0]]) (auto simp: defs)
  ultimately have "reachable (sys StateClosed 1 Finished Handling)"
    by (meson reachable.next_step)
  moreover have "srv_state (srv (sys StateClosed 1 Finished Handling)) = StateClosed
      \<and> 1 \<in> active (sys StateClosed 1 Finished Handling)"
    by (simp add: sys_def active_def)
  ultimately show ?thesis by blast
qed

text \<open>
  Closing a server that handles no connection never closes it. Once the server is closing and
  no goroutine is on its way through a connection, it stays so as long as nobody opens it again,
  and \<open>CloseAndWait\<close> does not return.
\<close>

theorem idle_close_never_closes:
  assumes "stuck_closing s" "step_no_open\<^sup>*\<^sup>* s t"
  shows "srv_state (srv t) = StateClosing \<and> WaitForState StateClosed (srv t) = None"
  using stuck_closing_run [OF assms(2,1)] by (simp add: stuck_closing_def WaitForState_def)

theorem idle_close_never_closes_witness:
  "CloseAndWait (new_server :: (unit, unit) Server) = None"
proof -
  define s :: "(unit, unit) sys" where "s = init_sys\<lparr>srv := Close new_server\<rparr>"
  have "stuck_closing s"
    by (simp add: s_def stuck_closing_def init_sys_def server_defs)
  from idle_close_never_closes [OF this rtranclp.rtrancl_refl] show ?thesis
    by (simp add: s_def CloseAndWait_def)
qed

text \<open>
  A handler is added only while the server is closed; then the handler list is the old one
  with the item put in its place, and otherwise the caller gets the error that names the state and
  the server is unchanged.
\<close>

theorem AddFrameHandler_only_closed:
  "AddFrameHandler stg prio h s =
    (case srv_state s of
       StateClosed \<Rightarrow> (None, s\<lparr>FrameHandlers := place goes_before
          \<lparr>handler = h, stage = stg, priority = prio\<rparr> (FrameHandlers s)\<rparr>)
     | StateOpen \<Rightarrow> (Some ErrServerOpen, s)
     | StateClosing \<Rightarrow> (Some ErrServerClosing, s))"
  by (simp add: AddFrameHandler_def server_frame_list.ins_place split: State.splits)

text \<open>
  A session whose frames run out (some measure of it falls with every frame read and handled)
  is handled to an end: \<open>HandleSession\<close> returns, whatever the handlers answer.
\<close>

theorem HandleSession_returns:
  fixes m :: "'w \<Rightarrow> nat"
  assumes "\<And>v v'. next_frame v = (None, v') \<Longrightarrow> m (snd (HandleFrame protocol s v')) < m v"
  shows "\<exists>r. HandleSession protocol next_frame eos s v = Some r"
proof -
  have "\<exists>r. HandleSession_loop protocol next_frame eos s v' = Some r" for v'
    using assms by (rule HandleSession_loop_returns)
  then show ?thesis
    by (auto simp: HandleSession_def Let_def split: prod.splits)
qed

theorem HandleSession_returns_witness:
  "\<exists>r. HandleSession (\<lambda>_. '''') (\<lambda>n. case n of 0 \<Rightarrow> (Some True, 0) | Suc k \<Rightarrow> (None, k))
      True (new_server :: (nat, bool) Server) (3 :: nat) = Some r"
proof (rule HandleSession_returns [where m = id])
  fix v v' :: nat
  assume "(case v of 0 \<Rightarrow> (Some True, 0) | Suc k \<Rightarrow> (None, k)) = (None, v')"
  then have "v = Suc v'" by (cases v) auto
  then show "id (snd (HandleFrame (\<lambda>_. '''') (new_server :: (nat, bool) Server) v')) < id v"
    by (simp add: HandleFrame_def ServerFrameHandlerList_Handle_def new_server_def)
qed

end
