(* ===== verification/Http_Server.thy ===== *)
theory Http_Server
  imports Http_Session Server
begin

section \<open>A server with HTTP/1 sessions\<close>

text \<open>
  The parts together: \<open>Server.HandleSession\<close> asks an HTTP/1 session for frames and hands each to its
  frame handlers, which answer through the writer of the frame. The state of the session loop is a
  \<open>world\<close>: between two frames, inside one, or stuck after a panic. A session that waits for a lock
  nobody will release is reported as the error \<open>Blocked\<close>, a panic as \<open>Crash\<close>.
\<close>

datatype ('u, 'd, 'g) world = Between "'d session" | InFrame "'u http_request" "('d, 'g) frame" | Stuck

datatype world_error = SessionErr session_error | BodyErr body_error | Crash panic | Blocked

fun world_session :: "('u, 'd, 'g) world \<Rightarrow> 'd session option" where
  "world_session (Between s) = Some s"
| "world_session (InFrame q f) = Some (ses f)"
| "world_session Stuck = None"

definition world_Frame ::
  "('d, 'g) http_env \<Rightarrow> (string \<Rightarrow> string + 'u URL) \<Rightarrow> (request_error \<Rightarrow> 'd session \<Rightarrow> 'd session) option
     \<Rightarrow> ('u, 'd, 'g) world \<Rightarrow> world_error option \<times> ('u, 'd, 'g) world" where
  "world_Frame env parse_uri on_error w =
     (case world_session w of
        None \<Rightarrow> (Some Blocked, w)
      | Some s \<Rightarrow>
          (case Frame env parse_uri on_error s of
             None \<Rightarrow> (Some Blocked, w)
           | Some (Inl p) \<Rightarrow> (Some (Crash p), Stuck)
           | Some (Inr (FrameError e s')) \<Rightarrow> (Some (SessionErr e), Between s')
           | Some (Inr (FrameOK q f)) \<Rightarrow> (None, InFrame q f)))"

text \<open>A handler that answers every request with a body of its choice, by \<open>BytesBody\<close>.\<close>

definition answer_frame ::
  "(('d, 'g) frame, 'g body_sink, ('g body_sink, body_error) WriterPipeGenerator option, 'b) underlying_writer
     \<Rightarrow> ('u http_request \<Rightarrow> string) \<Rightarrow> ('u, 'd, 'g) world \<Rightarrow> (bool \<times> world_error option) \<times> ('u, 'd, 'g) world" where
  "answer_frame U answer w =
     (case w of
        InFrame q f \<Rightarrow>
          (case BytesBody U (answer q) (NewWriter, f) of
             Inl p \<Rightarrow> ((True, Some (Crash p)), Stuck)
           | Inr (err, _, f') \<Rightarrow> ((True, map_option BodyErr err), InFrame q f'))
      | _ \<Rightarrow> ((False, None), w))"

definition answering_server ::
  "(('d, 'g) frame, 'g body_sink, ('g body_sink, body_error) WriterPipeGenerator option, 'b) underlying_writer
     \<Rightarrow> ('u http_request \<Rightarrow> string) \<Rightarrow> (('u, 'd, 'g) world, world_error) Server" where
  "answering_server U answer =
     snd (AddFrameHandler StageHandler 0 \<lparr>Protocol = '''', F = answer_frame U answer\<rparr> new_server)"

subsection \<open>Requests on the wire\<close>

record wire_request =
  wq_empty :: nat
  wq_method :: string
  wq_target :: string
  wq_fields :: "(string \<times> string \<times> string) list"

abbreviation http11 :: Version where
  "http11 \<equiv> \<lparr>Major = 1, Minor = 1\<rparr>"

definition wire_head :: "wire_request \<Rightarrow> string" where
  "wire_head q = line_text (wq_method q) (wq_target q) http11 @ block_text (wq_fields q) @ CRLF"

definition wire_text :: "wire_request \<Rightarrow> string" where
  "wire_text q = concat (replicate (wq_empty q) CRLF) @ wire_head q"

text \<open>
  An HTTP/1.1 request without a body, that keeps the connection open, after at most five empty
  lines; its fields are what the parser accepts, with one Host.
\<close>

definition valid_wire :: "(string \<Rightarrow> string + 'u URL) \<Rightarrow> wire_request \<Rightarrow> bool" where
  "valid_wire parse_uri q \<longleftrightarrow>
     wq_empty q \<le> 5 \<and> CHR '' '' \<notin> set (wq_method q) \<and> CHR 0x0A \<notin> set (wq_method q)
     \<and> wq_method q \<noteq> ''CONNECT'' \<and> wq_method q \<noteq> ''HEAD''
     \<and> CHR '' '' \<notin> set (wq_target q) \<and> CHR 0x0A \<notin> set (wq_target q)
     \<and> (\<exists>url. parse_uri (wq_target q) = Inr url)
     \<and> list_all valid_syntax (wq_fields q) \<and> \<not> list_ex lone_field (wq_fields q)
     \<and> (\<exists>hv. values_for (wq_fields q) ''Host'' = [hv]) \<and> values_for (wq_fields q) ''Connection'' = []"

lemma consume_CRLF_skips:
  assumes "n \<le> i" "2 \<le> length t" "t ! 1 \<noteq> CHR 0x0A"
  shows "consume_CRLF i (r\<lparr>pending := concat (replicate n CRLF) @ t\<rparr>) = (None, r\<lparr>pending := t\<rparr>)"
  using assms(1)
proof (induction i arbitrary: n)
  case (Suc i)
  show ?case
  proof (cases n)
    case 0
    with assms(2,3) show ?thesis by (simp add: bufio_Peek_def)
  next
    case (Suc m)
    with Suc.prems Suc.IH [of m] show ?thesis
      by (simp add: bufio_Peek_def bufio_Discard_def CRLF_def)
  qed
qed simp

lemma wire_head_start:
  assumes "CHR 0x0A \<notin> set (wq_method q)" "CHR 0x0A \<notin> set (wq_target q)"
  shows "2 \<le> length (wire_head q @ rest)" "(wire_head q @ rest) ! 1 \<noteq> CHR 0x0A"
proof -
  let ?l = "wq_method q @ CHR '' '' # wq_target q @ CHR '' '' # Version_Format http11"
  have split: "wire_head q @ rest = ?l @ CRLF @ block_text (wq_fields q) @ CRLF @ rest"
    by (simp add: wire_head_def line_text_def)
  have l: "2 \<le> length ?l" by simp
  have "CHR 0x0A \<notin> set ?l" using assms version_text [of http11] by auto
  moreover have "?l ! 1 \<in> set ?l" using l by (intro nth_mem) simp
  ultimately have "?l ! 1 \<noteq> CHR 0x0A" by metis
  moreover have "(wire_head q @ rest) ! 1 = ?l ! 1"
    unfolding split using l by (subst nth_append) simp
  ultimately show "(wire_head q @ rest) ! 1 \<noteq> CHR 0x0A" by simp
  show "2 \<le> length (wire_head q @ rest)" unfolding split using l by simp
qed

text \<open>A session between two frames, on a connection that works.\<close>

definition idle_session :: "'d session \<Rightarrow> bool" where
  "idle_session s \<longleftrightarrow> \<not> conLock s \<and> \<not> ses_closing s \<and> \<not> hyjacked s
     \<and> conn_room (ses_stream s) = None \<and> \<not> stream_closed (ses_stream s)"

lemma new_frame_fields:
  "in_stream (ses (new_frame env q s)) = in_stream s" "ses_stream (ses (new_frame env q s)) = ses_stream s"
  "ses_closing (ses (new_frame env q s)) = ses_closing s" "hyjacked (ses (new_frame env q s)) = hyjacked s"
  "conLock (ses (new_frame env q s)) = conLock s"
  "\<not> HeadWritten (new_frame env q s)" "bw_writer (new_frame env q s) = None" "bw_hasBody (new_frame env q s)"
  "bw_req (new_frame env q s) = Some (MethodStr q)" "StatusCode (new_frame env q s) = 200"
  "connection_values (resp_Header (new_frame env q s)) = []"
  "br_reader (ses (new_frame env q s)) = None" "br_hasBody (ses (new_frame env q s))"
  "br_req (ses (new_frame env q s)) = Some (MethodStr q)" "br_header (ses (new_frame env q s)) = req_Header q"
  by (cases s; simp add: new_frame_def Let_def NewBodyReader_def NewBodyWriter_def body_in.defs body_out.defs frame.defs
      http_response.defs GetValues_SetValuesRaw New_Header_def GetValues_def GetValuesRawKey_def SetValuesRaw_def)+

text \<open>The body reader of a frame before its first use, for a request with these fields.\<close>

definition awaits_body :: "string \<Rightarrow> (string \<times> string \<times> string) list \<Rightarrow> ('d, 'x) body_in_scheme \<Rightarrow> bool" where
  "awaits_body mth fs st \<longleftrightarrow> br_reader st = None \<and> br_hasBody st \<and> br_req st = Some mth
     \<and> (\<forall>key. map to_lower (GetValuesRawKey (br_header st) key) = values_for fs key)"

lemma Frame_answers:
  assumes "env_p env = standard_processor" "idle_session s" "valid_wire parse_uri q"
    and "pending (in_stream s) = wire_text q @ rest"
  shows "\<exists>req f url. Frame env parse_uri on_error s = Some (Inr (FrameOK req f))
    \<and> MethodStr req = wq_method q \<and> parse_uri (wq_target q) = Inr url \<and> url_Rest (URLp req) = url_Rest url
    \<and> fresh_frame f \<and> \<not> closes f \<and> StatusCode f = 200
    \<and> in_stream (ses f) = (in_stream s)\<lparr>pending := rest\<rparr> \<and> ses_stream (ses f) = ses_stream s
    \<and> awaits_body (wq_method q) (wq_fields q) (ses f)
    \<and> (\<forall>key. map to_lower (GetValuesRawKey (req_Header req) key) = values_for (wq_fields q) key)"
proof -
  obtain url hv where v: "wq_empty q \<le> 5" "CHR '' '' \<notin> set (wq_method q)" "CHR 0x0A \<notin> set (wq_method q)"
    "wq_method q \<noteq> ''CONNECT''" "wq_method q \<noteq> ''HEAD''" "CHR '' '' \<notin> set (wq_target q)"
    "CHR 0x0A \<notin> set (wq_target q)" "parse_uri (wq_target q) = Inr url"
    "list_all valid_syntax (wq_fields q)" "\<not> list_ex lone_field (wq_fields q)"
    "values_for (wq_fields q) ''Host'' = [hv]" "values_for (wq_fields q) ''Connection'' = []"
    using assms(3) by (auto simp: valid_wire_def)
  let ?r = "(in_stream s)\<lparr>pending := wire_head q @ rest\<rparr>"
  have "in_stream s = (in_stream s)\<lparr>pending := concat (replicate (wq_empty q) CRLF) @ wire_head q @ rest\<rparr>"
    using assms(4) by (simp add: wire_text_def)
  then have skip: "consume_CRLF 5 (in_stream s) = (None, ?r)"
    using consume_CRLF_skips [OF v(1) wire_head_start [OF v(3,7)], where r = "in_stream s"] by metis
  obtain req where req: "ParseRequest standard_processor parse_uri
      ((in_stream s)\<lparr>pending := line_text (wq_method q) (wq_target q) http11 @ block_text (wq_fields q) @ CRLF @ rest\<rparr>)
      = Inr ((Some req, \<not> keeps_alive http11 (GetValuesRawKey (req_Header req) ''Connection''), None, False),
          (in_stream s)\<lparr>pending := rest\<rparr>)"
    "MethodStr req = wq_method q" "url_Rest (URLp req) = url_Rest url"
    "\<forall>key. map to_lower (GetValuesRawKey (req_Header req) key) = values_for (wq_fields q) key"
    using ParseRequest_wellformed [where parse_uri = parse_uri and u = "wq_target q" and r = "in_stream s" and rest = rest and v = http11,
        OF v(2,3,4,6,7,8,9,10,11)] by blast
  from req(4) v(12) have "GetValuesRawKey (req_Header req) ''Connection'' = []" by (metis Nil_is_map_conv)
  then have keep: "keeps_alive http11 (GetValuesRawKey (req_Header req) ''Connection'')" by (simp add: keeps_alive_def)
  let ?s1 = "s\<lparr>in_stream := (in_stream s)\<lparr>pending := rest\<rparr>, conLock := True, ses_closing := False\<rparr>"
  have "Frame env parse_uri on_error s = Some (Inr (FrameOK req (new_frame env req ?s1)))"
    using assms(1,2) skip req(1) keep by (simp add: Frame_def idle_session_def wire_head_def)
  moreover have "fresh_frame (new_frame env req ?s1)" "\<not> closes (new_frame env req ?s1)"
    using assms(2) v(5) req(2) by (simp_all add: fresh_frame_def closes_def idle_session_def new_frame_fields)
  moreover have "awaits_body (wq_method q) (wq_fields q) (ses (new_frame env req ?s1))"
    using req(2,4) by (simp add: awaits_body_def new_frame_fields)
  ultimately show ?thesis
    using req(2-4) v(8) by (intro exI [of _ req] exI [of _ "new_frame env req ?s1"] exI [of _ url])
      (simp add: new_frame_fields)
qed

subsection \<open>Properties\<close>

text \<open>
  C8: a body sent through the writer of a fresh frame: \<open>BytesBody\<close> succeeds, and the connection carries
  exactly the formatted head, with the length of the body in it, and the body, after what was sent
  before. The head says \<open>close\<close> exactly when the session ends, in which case the connection is closed;
  otherwise it stays open, and the lock is free for the next frame.
\<close>

theorem BytesBody_response:
  assumes "env_p env = standard_processor" "fresh_frame f" "length s < 2 ^ 63"
  shows "\<exists>f' head. BytesBody (http1_writer env U0) s (NewWriter, f) = Inr (None, NewWriter, f')
    \<and> FormatResponse (env_status_text env) f' (env_order env (resp_Header f')) = Inr head
    \<and> sent_bytes (ses_stream (ses f')) = sent_bytes (ses_stream (ses f)) @ head @ s
    \<and> content_length (resp_Header f') = [FormatUint (length s) 10]
    \<and> (''close'' \<in> set (connection_values (resp_Header f')) \<longleftrightarrow> closes f)
    \<and> (stream_closed (ses_stream (ses f')) \<longleftrightarrow> closes f) \<and> \<not> conLock (ses f')
    \<and> in_stream (ses f') = in_stream (ses f)"
proof -
  have "env\<lparr>env_p := standard_processor\<rparr> = env" using assms(1) by (cases env) simp
  with response.BytesBody_sends [OF assms(2,3), of env U0] show ?thesis
    unfolding responded_def by (metis (no_types, lifting))
qed

definition is_response :: "('d, 'g) http_env \<Rightarrow> string \<Rightarrow> string \<Rightarrow> bool" where
  "is_response env body r \<longleftrightarrow> (\<exists>(resp :: http_response) head. r = head @ body
     \<and> FormatResponse (env_status_text env) resp (env_order env (resp_Header resp)) = Inr head
     \<and> StatusCode resp = 200 \<and> content_length (resp_Header resp) = [FormatUint (length body) 10]
     \<and> ''close'' \<notin> set (connection_values (resp_Header resp)))"

text \<open>What the handler sees of a request on the wire, and the body it answers with.\<close>

definition answer_body ::
  "(string \<Rightarrow> string + 'u URL) \<Rightarrow> (string \<Rightarrow> 'u \<Rightarrow> string) \<Rightarrow> wire_request \<Rightarrow> string" where
  "answer_body parse_uri reply q =
     (case parse_uri (wq_target q) of Inl e \<Rightarrow> [] | Inr url \<Rightarrow> reply (wq_method q) (url_Rest url))"

lemma answering_HandleFrame:
  "HandleFrame (\<lambda>_. ''http'') (answering_server U answer) (InFrame q f)
    = (case BytesBody U (answer q) (NewWriter, f) of
         Inl p \<Rightarrow> (Some (Crash p), Stuck)
       | Inr (err, _, f') \<Rightarrow> (map_option BodyErr err, InFrame q f'))"
  by (simp add: HandleFrame_def answering_server_def AddFrameHandler_def new_server_def
      ServerFrameHandlerList_Handle_def answer_frame_def split: sum.splits option.splits)

lemma Frame_at_end:
  assumes "idle_session s" "pending (in_stream s) = []"
  shows "Frame env parse_uri on_error s = Some (Inr (FrameError (ErrCRLFLoop (end_error (in_stream s)))
     (s\<lparr>ses_closing := True, ses_stream := (ses_stream s)\<lparr>stream_closed := True\<rparr>\<rparr>)))"
proof -
  have "consume_CRLF 5 (in_stream s) = (Some (end_error (in_stream s)), in_stream s)"
    using assms(2) by (simp add: eval_nat_numeral bufio_Peek_def)
  then show ?thesis using assms(1) by (simp add: Frame_def idle_session_def stream_Close_def)
qed

text \<open>A response that was sent is a response in the sense above.\<close>

lemma responded_is_response:
  assumes "responded env body f f'" "\<not> closes f" "StatusCode f = 200"
  shows "\<exists>r. sent_bytes (ses_stream (ses f')) = sent_bytes (ses_stream (ses f)) @ r \<and> is_response env body r"
proof -
  obtain hd where hd: "FormatResponse (env_status_text env) f' (env_order env (resp_Header f')) = Inr hd"
    "sent_bytes (ses_stream (ses f')) = sent_bytes (ses_stream (ses f)) @ hd @ body"
    using assms(1) by (auto simp: responded_def)
  let ?resp = "\<lparr>resp_Header = resp_Header f', resp_hasCacheControl = resp_hasCacheControl f',
    resp_cacheControl = resp_cacheControl f', StatusCode = StatusCode f', StatusTextOf = StatusTextOf f',
    resp_Version = resp_Version f'\<rparr>"
  have "FormatResponse (env_status_text env) ?resp (env_order env (resp_Header ?resp)) = Inr hd"
    by (subst hd(1) [symmetric]) (auto intro: FormatResponse_cong)
  with assms have "is_response env body (hd @ body)"
    unfolding is_response_def responded_def by (intro exI [of _ ?resp] exI [of _ hd]) simp
  with hd(2) show ?thesis by blast
qed

text \<open>
  What the session loop needs of a server: for every good message at the front of the connection, \<open>Frame\<close>
  gives a frame, and the handlers answer it, take its bytes and leave the session idle. The messages
  may have bodies or not; the server may read them or not.
\<close>

locale session_server =
  fixes env :: "('d, 'g) http_env" and parse_uri :: "string \<Rightarrow> string + 'u URL"
    and on_error :: "(request_error \<Rightarrow> 'd session \<Rightarrow> 'd session) option"
    and v :: "(('u, 'd, 'g) world, world_error) Server"
    and msg_text :: "'m \<Rightarrow> string" and good :: "'m \<Rightarrow> bool" and body :: "'m \<Rightarrow> string"
  assumes no_handlers: "SessionHandlers v = []"
    and answers: "good m \<Longrightarrow> idle_session s \<Longrightarrow> pending (in_stream s) = msg_text m @ rest \<Longrightarrow>
      \<exists>req f f' r. Frame env parse_uri on_error s = Some (Inr (FrameOK req f))
        \<and> HandleFrame (\<lambda>_. ''http'') v (InFrame req f) = (None, InFrame req f')
        \<and> idle_session (ses f') \<and> in_stream (ses f') = (in_stream s)\<lparr>pending := rest\<rparr>
        \<and> sent_bytes (ses_stream (ses f')) = sent_bytes (ses_stream s) @ r \<and> is_response env (body m) r"
begin

text \<open>
  The session after its good messages: what \<open>Frame\<close> makes of the bytes that follow (\<open>tail\<close>) ends it, without
  anything more being sent.
\<close>

lemma session_loop:
  assumes tail: "\<And>s0. idle_session s0 \<Longrightarrow> in_stream s0 = b\<lparr>pending := tail\<rparr> \<Longrightarrow>
      \<exists>s1. Frame env parse_uri on_error s0 = Some (Inr (FrameError e s1))
        \<and> sent_bytes (ses_stream s1) = sent_bytes (ses_stream s0) \<and> stream_closed (ses_stream s1)"
  shows "world_session w = Some s \<Longrightarrow> idle_session s \<Longrightarrow> in_stream s = b\<lparr>pending := concat (map msg_text ms) @ tail\<rparr>
    \<Longrightarrow> list_all good ms \<Longrightarrow>
    \<exists>s' out. HandleSession_loop (\<lambda>_. ''http'') (world_Frame env parse_uri on_error) (SessionErr EOS) v w
      = Some (if e = EOS then None else Some (SessionErr e), Between s')
    \<and> sent_bytes (ses_stream s') = sent_bytes (ses_stream s) @ concat out
    \<and> list_all2 (\<lambda>m r. is_response env (body m) r) ms out \<and> stream_closed (ses_stream s')"
proof (induction ms arbitrary: w s)
  case Nil
  with tail [of s] show ?case
    by (subst HandleSession_loop.simps) (auto simp: world_Frame_def)
next
  case (Cons m ms)
  from Cons.prems have m: "good m" "pending (in_stream s) = msg_text m @ concat (map msg_text ms) @ tail" by simp_all
  obtain req f f' r where f: "Frame env parse_uri on_error s = Some (Inr (FrameOK req f))"
    "HandleFrame (\<lambda>_. ''http'') v (InFrame req f) = (None, InFrame req f')"
    "idle_session (ses f')" "in_stream (ses f') = (in_stream s)\<lparr>pending := concat (map msg_text ms) @ tail\<rparr>"
    "sent_bytes (ses_stream (ses f')) = sent_bytes (ses_stream s) @ r" "is_response env (body m) r"
    using answers [OF m(1) Cons.prems(2) m(2)] by blast
  have in': "in_stream (ses f') = b\<lparr>pending := concat (map msg_text ms) @ tail\<rparr>" using f(4) Cons.prems(3) by simp
  obtain s' out where rec: "HandleSession_loop (\<lambda>_. ''http'') (world_Frame env parse_uri on_error) (SessionErr EOS) v (InFrame req f')
      = Some (if e = EOS then None else Some (SessionErr e), Between s')"
    "sent_bytes (ses_stream s') = sent_bytes (ses_stream (ses f')) @ concat out"
    "list_all2 (\<lambda>m r. is_response env (body m) r) ms out" "stream_closed (ses_stream s')"
    using Cons.IH [of "InFrame req f'" "ses f'", OF _ f(3) in'] Cons.prems(4) by auto
  have "HandleSession_loop (\<lambda>_. ''http'') (world_Frame env parse_uri on_error) (SessionErr EOS) v w
      = Some (if e = EOS then None else Some (SessionErr e), Between s')"
    using Cons.prems(1) f(1,2) rec(1)
    by (subst HandleSession_loop.simps) (simp add: world_Frame_def)
  then show ?case
    using rec(2-4) f(5,6) by (intro exI [of _ s'] exI [of _ "r # out"]) simp
qed

lemma session_until:
  assumes "\<And>s0. idle_session s0 \<Longrightarrow> in_stream s0 = (in_stream s)\<lparr>pending := tail\<rparr> \<Longrightarrow>
      \<exists>s1. Frame env parse_uri on_error s0 = Some (Inr (FrameError e s1))
        \<and> sent_bytes (ses_stream s1) = sent_bytes (ses_stream s0) \<and> stream_closed (ses_stream s1)"
    and "idle_session s" "pending (in_stream s) = concat (map msg_text ms) @ tail" "list_all good ms"
  shows "\<exists>s' out. HandleSession (\<lambda>_. ''http'') (world_Frame env parse_uri on_error) (SessionErr EOS) v (Between s)
      = Some (if e = EOS then None else Some (SessionErr e), Between s')
    \<and> sent_bytes (ses_stream s') = sent_bytes (ses_stream s) @ concat out
    \<and> list_all2 (\<lambda>m r. is_response env (body m) r) ms out \<and> stream_closed (ses_stream s')"
proof -
  have "HandleSession (\<lambda>_. ''http'') (world_Frame env parse_uri on_error) (SessionErr EOS) v (Between s)
      = HandleSession_loop (\<lambda>_. ''http'') (world_Frame env parse_uri on_error) (SessionErr EOS) v (Between s)"
    using no_handlers by (simp add: HandleSession_def ServerSessionHandlerList_Handle_def)
  moreover have "in_stream s = (in_stream s)\<lparr>pending := concat (map msg_text ms) @ tail\<rparr>" using assms(3) by simp
  moreover note session_loop [where b = "in_stream s" and tail = tail and e = e and w = "Between s" and s = s and ms = ms] assms
  ultimately show ?thesis by simp
qed

lemma session_handled:
  assumes "idle_session s" "pending (in_stream s) = concat (map msg_text ms)" "list_all good ms"
  shows "\<exists>s' out err. HandleSession (\<lambda>_. ''http'') (world_Frame env parse_uri on_error) (SessionErr EOS) v (Between s)
      = Some (err, Between s')
    \<and> sent_bytes (ses_stream s') = sent_bytes (ses_stream s) @ concat out
    \<and> list_all2 (\<lambda>m r. is_response env (body m) r) ms out \<and> stream_closed (ses_stream s')"
proof -
  have "\<exists>s1. Frame env parse_uri on_error s0 = Some (Inr (FrameError (ErrCRLFLoop (end_error (in_stream s))) s1))
      \<and> sent_bytes (ses_stream s1) = sent_bytes (ses_stream s0) \<and> stream_closed (ses_stream s1)"
    if "idle_session s0" "in_stream s0 = (in_stream s)\<lparr>pending := []\<rparr>" for s0
    using that by (simp add: Frame_at_end)
  from session_until [OF this assms(1) _ assms(3)] assms(2) show ?thesis by fastforce
qed

end

text \<open>The handler that answers without looking at the body, as such a server.\<close>

definition answered_wire :: "(string \<Rightarrow> string + 'u URL) \<Rightarrow> (string \<Rightarrow> 'u \<Rightarrow> string) \<Rightarrow> wire_request \<Rightarrow> bool" where
  "answered_wire parse_uri reply q \<longleftrightarrow> valid_wire parse_uri q \<and> length (answer_body parse_uri reply q) < 2 ^ 63"

lemma answering_no_handlers: "SessionHandlers (answering_server U answer) = []"
  by (simp add: answering_server_def AddFrameHandler_def new_server_def)

interpretation answering: session_server "(env :: ('d, 'g) http_env)\<lparr>env_p := standard_processor\<rparr>" parse_uri on_error
  "answering_server (http1_writer ((env :: ('d, 'g) http_env)\<lparr>env_p := standard_processor\<rparr>) U0)
    (\<lambda>q. reply (MethodStr q) (url_Rest (URLp q)))"
  wire_text "answered_wire parse_uri reply" "answer_body parse_uri reply"
proof
  let ?env = "env\<lparr>env_p := standard_processor\<rparr>"
  let ?v = "answering_server (http1_writer ?env U0) (\<lambda>q. reply (MethodStr q) (url_Rest (URLp q)))"
  fix q and s :: "'d session" and rest
  assume "answered_wire parse_uri reply q" and s: "idle_session s" "pending (in_stream s) = wire_text q @ rest"
  then have q: "valid_wire parse_uri q" "length (answer_body parse_uri reply q) < 2 ^ 63" by (simp_all add: answered_wire_def)
  have p: "env_p ?env = standard_processor" by simp
  obtain req f url where f: "Frame ?env parse_uri on_error s = Some (Inr (FrameOK req f))"
    "MethodStr req = wq_method q" "parse_uri (wq_target q) = Inr url" "url_Rest (URLp req) = url_Rest url"
    "fresh_frame f" "\<not> closes f" "StatusCode f = 200"
    "in_stream (ses f) = (in_stream s)\<lparr>pending := rest\<rparr>" "ses_stream (ses f) = ses_stream s"
    using Frame_answers [OF p s(1) q(1) s(2), of on_error] by blast
  let ?b = "answer_body parse_uri reply q"
  have b: "reply (MethodStr req) (url_Rest (URLp req)) = ?b" using f(2-4) by (simp add: answer_body_def)
  obtain f' where f': "BytesBody (http1_writer ?env U0) ?b (NewWriter, f) = Inr (None, NewWriter, f')"
    "responded ?env ?b f f'" using response.BytesBody_sends [OF f(5) q(2), of env U0] by auto
  obtain r where "sent_bytes (ses_stream (ses f')) = sent_bytes (ses_stream s) @ r" "is_response ?env ?b r"
    using responded_is_response [OF f'(2) f(6,7)] f(9) by auto
  moreover have "HandleFrame (\<lambda>_. ''http'') ?v (InFrame req f) = (None, InFrame req f')"
    using f'(1) by (simp add: answering_HandleFrame b)
  moreover have "idle_session (ses f')" "in_stream (ses f') = (in_stream s)\<lparr>pending := rest\<rparr>"
    using f'(2) f(5,6,8) by (simp_all add: responded_def idle_session_def fresh_frame_def)
  ultimately show "\<exists>req f f' r. Frame ?env parse_uri on_error s = Some (Inr (FrameOK req f))
        \<and> HandleFrame (\<lambda>_. ''http'') ?v (InFrame req f) = (None, InFrame req f')
        \<and> idle_session (ses f') \<and> in_stream (ses f') = (in_stream s)\<lparr>pending := rest\<rparr>
        \<and> sent_bytes (ses_stream (ses f')) = sent_bytes (ses_stream s) @ r \<and> is_response ?env ?b r"
    using f(1) by blast
qed (rule answering_no_handlers)

text \<open>
  Pipelined requests: a connection delivers any number of valid requests and then ends. A server whose
  frame handler answers by \<open>BytesBody\<close> handles the session to its end and has sent, in order, one response
  per request, each a head with the right Content-Length followed by the body the handler chose for the
  method and the target of that request; then it closes the connection.
\<close>

theorem pipelined_requests_answered:
  fixes env :: "('d, 'g) http_env" and parse_uri :: "string \<Rightarrow> string + 'u URL"
  assumes "env_p env = standard_processor" "list_all (valid_wire parse_uri) reqs"
    and "list_all (\<lambda>q. length (answer_body parse_uri reply q) < 2 ^ 63) reqs"
    and "idle_session s" "pending (in_stream s) = concat (map wire_text reqs)"
  shows "\<exists>s' out err. HandleSession (\<lambda>_. ''http'') (world_Frame env parse_uri on_error) (SessionErr EOS)
        (answering_server (http1_writer env U0) (\<lambda>q. reply (MethodStr q) (url_Rest (URLp q)))) (Between s)
      = Some (err, Between s')
    \<and> sent_bytes (ses_stream s') = sent_bytes (ses_stream s) @ concat out
    \<and> list_all2 (\<lambda>q r. is_response env (answer_body parse_uri reply q) r) reqs out
    \<and> stream_closed (ses_stream s')"
proof -
  have env: "env\<lparr>env_p := standard_processor\<rparr> = env" using assms(1) by (cases env) simp
  have "list_all (answered_wire parse_uri reply) reqs"
    using assms(2,3) by (auto simp: list_all_iff answered_wire_def)
  from answering.session_handled [OF assms(4,5) this, of env on_error U0] show ?thesis unfolding env .
qed

theorem pipelined_requests_answered_witness:
  "\<forall>(env :: (unit, unit) http_env) (U0 :: ((unit, unit) frame, unit body_sink,
      (unit body_sink, body_error) WriterPipeGenerator option, unit) underlying_writer).
    \<exists>s' r1 r2 err. HandleSession (\<lambda>_. ''http'')
        (world_Frame (env\<lparr>env_p := standard_processor\<rparr>) (\<lambda>u. Inr \<lparr>url_Scheme = [], url_Host = [], url_Rest = u\<rparr>) None)
        (SessionErr EOS) (answering_server (http1_writer (env\<lparr>env_p := standard_processor\<rparr>) U0)
          (\<lambda>q. MethodStr q @ url_Rest (URLp q)))
        (Between (body_in.extend (NewBodyReader \<lparr>pending = wire_text \<lparr>wq_empty = 1, wq_method = ''GET'', wq_target = ''/a'',
              wq_fields = [(''Host'', '' '', ''h1'')]\<rparr> @ wire_text \<lparr>wq_empty = 0, wq_method = ''PUT'', wq_target = ''/b'',
              wq_fields = [(''Host'', '' '', ''h1'')]\<rparr>, end_error = EOF\<rparr> New_Header None True)
          (session.fields \<lparr>sent_bytes = [], conn_room = None, stream_closed = False\<rparr> False False False False)))
      = Some (err, Between s')
    \<and> sent_bytes (ses_stream s') = r1 @ r2
    \<and> is_response (env\<lparr>env_p := standard_processor\<rparr>) ''GET/a'' r1
    \<and> is_response (env\<lparr>env_p := standard_processor\<rparr>) ''PUT/b'' r2"
proof (intro allI)
  fix env :: "(unit, unit) http_env" and U0 :: "((unit, unit) frame, unit body_sink,
      (unit body_sink, body_error) WriterPipeGenerator option, unit) underlying_writer"
  let ?env = "env\<lparr>env_p := standard_processor\<rparr>"
  let ?p = "\<lambda>u. Inr \<lparr>url_Scheme = [], url_Host = [], url_Rest = u\<rparr> :: string + string URL"
  let ?q1 = "\<lparr>wq_empty = 1, wq_method = ''GET'', wq_target = ''/a'', wq_fields = [(''Host'', '' '', ''h1'')]\<rparr>"
  let ?q2 = "\<lparr>wq_empty = 0, wq_method = ''PUT'', wq_target = ''/b'', wq_fields = [(''Host'', '' '', ''h1'')]\<rparr>"
  let ?s = "body_in.extend (NewBodyReader \<lparr>pending = wire_text ?q1 @ wire_text ?q2, end_error = EOF\<rparr> New_Header None True)
    (session.fields \<lparr>sent_bytes = [], conn_room = None, stream_closed = False\<rparr> False False False False) :: unit session"
  have f: "list_all valid_syntax [(''Host'', '' '', ''h1'')]" "\<not> list_ex lone_field [(''Host'', '' '', ''h1'')]"
    "values_for [(''Host'', '' '', ''h1'')] ''Host'' = [''h1'']" "values_for [(''Host'', '' '', ''h1'')] ''Connection'' = []"
    by code_simp+
  have v: "list_all (valid_wire ?p) [?q1, ?q2]"
    using f by (simp add: valid_wire_def)
  have b: "answer_body ?p (@) ?q1 = ''GET/a''" "answer_body ?p (@) ?q2 = ''PUT/b''" by (simp_all add: answer_body_def)
  have s: "idle_session ?s" "pending (in_stream ?s) = concat (map wire_text [?q1, ?q2])" "sent_bytes (ses_stream ?s) = []"
    by (simp_all add: idle_session_def NewBodyReader_def body_in.defs session.defs)
  have l: "list_all (\<lambda>q. length (answer_body ?p (@) q) < 2 ^ 63) [?q1, ?q2]" using b by simp
  have e: "env_p ?env = standard_processor" by simp
  obtain s' out err where o: "HandleSession (\<lambda>_. ''http'') (world_Frame ?env ?p None) (SessionErr EOS)
        (answering_server (http1_writer ?env U0) (\<lambda>q. MethodStr q @ url_Rest (URLp q))) (Between ?s)
      = Some (err, Between s')"
    "sent_bytes (ses_stream s') = concat out" "list_all2 (\<lambda>q r. is_response ?env (answer_body ?p (@) q) r) [?q1, ?q2] out"
    using pipelined_requests_answered [OF e v l s(1,2), of None U0] s(3) by auto
  from o(3) b obtain r1 r2 where "out = [r1, r2]" "is_response ?env ''GET/a'' r1" "is_response ?env ''PUT/b'' r2"
    by (auto simp: list_all2_Cons1)
  with o(1,2) show "\<exists>s' r1 r2 err. HandleSession (\<lambda>_. ''http'') (world_Frame ?env ?p None) (SessionErr EOS)
        (answering_server (http1_writer ?env U0) (\<lambda>q. MethodStr q @ url_Rest (URLp q))) (Between ?s)
      = Some (err, Between s') \<and> sent_bytes (ses_stream s') = r1 @ r2
    \<and> is_response ?env ''GET/a'' r1 \<and> is_response ?env ''PUT/b'' r2"
    by auto
qed

text \<open>A concrete frame for the witnesses: a request by the method \<open>m\<close>, on a connection that works.\<close>

definition sample_session :: "string \<Rightarrow> unit session" where
  "sample_session wire = body_in.extend (NewBodyReader \<lparr>pending = wire, end_error = EOF\<rparr> New_Header None True)
     (session.fields \<lparr>sent_bytes = [], conn_room = None, stream_closed = False\<rparr> False False False True)"

definition sample_frame :: "(unit, unit) http_env \<Rightarrow> string \<Rightarrow> (unit, unit) frame" where
  "sample_frame env m = new_frame env
     (\<lparr>MethodStr = m, req_Header = New_Header, req_hasCacheControl = False, req_cacheControl = defaultRequestCacheControl,
       req_Version = http11, URLp = \<lparr>url_Scheme = [], url_Host = [], url_Rest = ()\<rparr>\<rparr> :: unit http_request)
     (sample_session [])"

lemma sample_frame_fields:
  "fresh_frame (sample_frame env m) \<longleftrightarrow> m \<noteq> ''HEAD''" "\<not> closes (sample_frame env m)"
  "bw_req (sample_frame env m) = Some m" "sent_bytes (ses_stream (ses (sample_frame env m))) = []"
  "fresh_frame (sample_frame env m\<lparr>bw_req := None\<rparr>)"
  by (simp_all add: sample_frame_def sample_session_def fresh_frame_def closes_def new_frame_fields NewBodyReader_def
      body_in.defs session.defs)

theorem BytesBody_response_witness:
  "\<forall>(env :: (unit, unit) http_env) (U0 :: ((unit, unit) frame, unit body_sink,
      (unit body_sink, body_error) WriterPipeGenerator option, unit) underlying_writer).
    \<exists>f' head. BytesBody (http1_writer (env\<lparr>env_p := standard_processor\<rparr>) U0) ''hello''
        (NewWriter, sample_frame env ''GET'') = Inr (None, NewWriter, f')
      \<and> sent_bytes (ses_stream (ses f')) = head @ ''hello'' \<and> content_length (resp_Header f') = [''5'']"
proof (intro allI)
  fix env :: "(unit, unit) http_env" and U0 :: "((unit, unit) frame, unit body_sink,
      (unit body_sink, body_error) WriterPipeGenerator option, unit) underlying_writer"
  have "FormatUint (length ''hello'') 10 = ''5''" by code_simp
  with BytesBody_response [where s = "''hello''" and env = "env\<lparr>env_p := standard_processor\<rparr>"
      and f = "sample_frame env ''GET''" and ?U0.0 = U0]
  show "\<exists>f' head. BytesBody (http1_writer (env\<lparr>env_p := standard_processor\<rparr>) U0) ''hello''
        (NewWriter, sample_frame env ''GET'') = Inr (None, NewWriter, f')
      \<and> sent_bytes (ses_stream (ses f')) = head @ ''hello'' \<and> content_length (resp_Header f') = [''5'']"
    by (fastforce simp: sample_frame_fields)
qed

text \<open>
  A response to a HEAD request must not have a body, but a body given to \<open>BytesBody\<close> is sent in full after
  the head, since the excess over the length 0 is all of it. The call returns an error, the frame is
  not closed and its lock stays taken: on a connection that is kept open, no later frame is ever read.
\<close>

theorem HEAD_body_sent:
  assumes "env_p env = standard_processor" "bw_req f = Some ''HEAD''" "fresh_frame (f\<lparr>bw_req := None\<rparr>)" "\<not> closes f"
    and "s \<noteq> []" "length s < 2 ^ 63"
  shows "\<exists>w f' head. BytesBody (http1_writer env U0) s (NewWriter, f) = Inr (Some ErrBodyLengthExceded, w, f')
    \<and> FormatResponse (env_status_text env) f' (env_order env (resp_Header f')) = Inr head
    \<and> sent_bytes (ses_stream (ses f')) = sent_bytes (ses_stream (ses f)) @ head @ s
    \<and> Frame env parse_uri on_error (ses f') = None"
proof -
  obtain h1 where h1: "SetBodyLength standard_processor (of_nat (length s)) f = Inr (None, f\<lparr>resp_Header := h1\<rparr>)"
    "connection_values h1 = connection_values (resp_Header f)"
    using SetBodyLength_ok [OF assms(6), of f] by blast
  let ?f2 = "f\<lparr>resp_Header := h1, bw_writer := Some (body_limit 0)\<rparr>"
  have fr: "conLock (ses ?f2)" "\<not> HeadWritten ?f2" "conn_room (ses_stream (ses ?f2)) = None"
    "\<not> stream_closed (ses_stream (ses ?f2))" "bw_writer f = None" "bw_hasBody f"
    using assms(3) by (simp_all add: fresh_frame_def)
  have cl: "\<not> closes ?f2" using assms(4) h1(2) by (simp add: closes_def)
  obtain hd h c where g: "headerGenerator env ?f2
      = Inr (hd, ?f2\<lparr>resp_Header := h, resp_cacheControl := c,
          ses := (ses ?f2)\<lparr>ses_closing := closes ?f2, conLock := \<not> closes ?f2\<rparr>\<rparr>)"
    "FormatResponse (env_status_text env) (?f2\<lparr>resp_Header := h\<rparr>) (env_order env h) = Inr hd"
    using headerGenerator_ok [OF assms(1) fr(1)] by blast
  let ?f3 = "after_write h c (hd @ s) ?f2"
  have "writerWrapper_Write (frame_ops env) s ?f2 = Inr ((int (length s), None), ?f3)"
    using g(1) fr(2-4) by (simp add: writerWrapper_Write_def frame_ops_def stream_Write_def after_write_def)
  then have "limit_Write (frame_ops env) 0 0 s ?f2 = Inr ((int (length s), Some ErrBodyLengthExceded), ?f3)"
    using limit_Write_over [of 0 s "frame_ops env" ?f2] assms(5,6) by simp
  moreover have "BodyWriter_Body standard_processor (env_tes env) (f\<lparr>resp_Header := h1\<rparr>)
      = Inr ((Some (body_limit 0), None), ?f2)"
    using assms(2) fr(5,6) by (simp add: BodyWriter_Body_def BodyWriter_BodyLength_def)
  ultimately have "\<exists>w. BytesBody (http1_writer env U0) s (NewWriter, f) = Inr (Some ErrBodyLengthExceded, w, ?f3)"
    using h1(1) assms(1)
    by (simp add: BytesBody_def Writer_SetLength_def Writer_Write_def getWriter_def Writer_getPipedBody_def
        Writer_getRawBody_def NewWriter_def http1_writer_def sink_pipe_def To_def)
  moreover have "FormatResponse (env_status_text env) ?f3 (env_order env (resp_Header ?f3)) = Inr hd"
    by (subst g(2) [symmetric]) (auto simp: after_write_def intro: FormatResponse_cong)
  moreover have "Frame env parse_uri on_error (ses ?f3) = None"
    using cl by (simp add: Frame_def after_write_def)
  ultimately show ?thesis by (auto simp: after_write_def)
qed

theorem HEAD_body_sent_witness:
  "\<forall>(env :: (unit, unit) http_env) (U0 :: ((unit, unit) frame, unit body_sink,
      (unit body_sink, body_error) WriterPipeGenerator option, unit) underlying_writer).
    \<exists>w f' head. BytesBody (http1_writer (env\<lparr>env_p := standard_processor\<rparr>) U0) ''hello''
        (NewWriter, sample_frame env ''HEAD'') = Inr (Some ErrBodyLengthExceded, w, f')
      \<and> sent_bytes (ses_stream (ses f')) = head @ ''hello''"
proof (intro allI)
  fix env :: "(unit, unit) http_env" and U0 :: "((unit, unit) frame, unit body_sink,
      (unit body_sink, body_error) WriterPipeGenerator option, unit) underlying_writer"
  from HEAD_body_sent [where s = "''hello''" and env = "env\<lparr>env_p := standard_processor\<rparr>"
      and f = "sample_frame env ''HEAD''" and ?U0.0 = U0]
  show "\<exists>w f' head. BytesBody (http1_writer (env\<lparr>env_p := standard_processor\<rparr>) U0) ''hello''
        (NewWriter, sample_frame env ''HEAD'') = Inr (Some ErrBodyLengthExceded, w, f')
      \<and> sent_bytes (ses_stream (ses f')) = head @ ''hello''"
    by (fastforce simp: sample_frame_fields)
qed

text \<open>
  A request that every frame handler declines is never answered and its lock is never released: the
  session loop goes on to the next \<open>Frame\<close>, which waits forever.
\<close>

theorem declined_request_blocks:
  assumes "Frame env parse_uri on_error s = Some (Inr (FrameOK q f))" "SessionHandlers v = []"
    and "HandleFrame (\<lambda>_. ''http'') v (InFrame q f) = (None, InFrame q f)"
  shows "HandleSession (\<lambda>_. ''http'') (world_Frame env parse_uri on_error) (SessionErr EOS) v (Between s)
    = Some (Some Blocked, InFrame q f)"
proof -
  have "conLock (ses f)"
    using assms(1) by (auto simp: Frame_def new_frame_fields Let_def split: if_splits prod.splits option.splits
        elim!: bind_goE)
  then have "world_Frame env parse_uri on_error (InFrame q f) = (Some Blocked, InFrame q f)"
    by (simp add: world_Frame_def Frame_def)
  moreover have "world_Frame env parse_uri on_error (Between s) = (None, InFrame q f)"
    using assms(1) by (simp add: world_Frame_def)
  ultimately show ?thesis
    using assms(2,3)
    by (simp add: HandleSession_def ServerSessionHandlerList_Handle_def HandleSession_loop.simps)
qed

theorem declined_request_blocks_witness:
  "\<forall>env :: (unit, unit) http_env. \<exists>q f. HandleSession (\<lambda>_. ''http'')
      (world_Frame (env\<lparr>env_p := standard_processor\<rparr>) (\<lambda>u. Inr \<lparr>url_Scheme = [], url_Host = [], url_Rest = ()\<rparr>) None)
      (SessionErr EOS) new_server
      (Between (sample_session (wire_text \<lparr>wq_empty = 0, wq_method = ''GET'', wq_target = ''/'',
        wq_fields = [(''Host'', '' '', ''h1'')]\<rparr>)\<lparr>conLock := False\<rparr>)) = Some (Some Blocked, InFrame q f)"
proof
  fix env :: "(unit, unit) http_env"
  let ?env = "env\<lparr>env_p := standard_processor\<rparr>"
  let ?p = "\<lambda>u. Inr \<lparr>url_Scheme = [], url_Host = [], url_Rest = ()\<rparr> :: string + unit URL"
  let ?q = "\<lparr>wq_empty = 0, wq_method = ''GET'', wq_target = ''/'', wq_fields = [(''Host'', '' '', ''h1'')]\<rparr>"
  let ?s = "sample_session (wire_text ?q)\<lparr>conLock := False\<rparr>"
  have f: "list_all valid_syntax [(''Host'', '' '', ''h1'')]" "\<not> list_ex lone_field [(''Host'', '' '', ''h1'')]"
    "values_for [(''Host'', '' '', ''h1'')] ''Host'' = [''h1'']" "values_for [(''Host'', '' '', ''h1'')] ''Connection'' = []"
    by code_simp+
  have v: "valid_wire ?p ?q" using f by (simp add: valid_wire_def)
  have s: "idle_session ?s" "pending (in_stream ?s) = wire_text ?q @ []"
    by (simp_all add: sample_session_def idle_session_def NewBodyReader_def body_in.defs session.defs)
  obtain q f where "Frame ?env ?p None ?s = Some (Inr (FrameOK q f))"
    using Frame_answers [OF _ s(1) v s(2), of ?env None] by auto
  from declined_request_blocks [OF this, of new_server]
  show "\<exists>q f. HandleSession (\<lambda>_. ''http'') (world_Frame ?env ?p None) (SessionErr EOS) new_server (Between ?s)
      = Some (Some Blocked, InFrame q f)"
    by (auto simp: new_server_def HandleFrame_def ServerFrameHandlerList_Handle_def)
qed

text \<open>
  Closing the body writer a second time, after a response on a connection that is kept open, unlocks
  the mutex again, which ends the program.
\<close>

theorem second_close_fatal:
  assumes "env_p env = standard_processor" "fresh_frame f" "length s < 2 ^ 63" "\<not> closes f"
  shows "bind_go (BytesBody (http1_writer env U0) s (NewWriter, f)) (\<lambda>(_, ws). Writer_Close (http1_writer env U0) ws)
    = Inl (Explicit ''sync: unlock of unlocked mutex'')"
proof -
  have e: "env\<lparr>env_p := standard_processor\<rparr> = env" using assms(1) by (cases env) simp
  obtain f' where f': "BytesBody (http1_writer env U0) s (NewWriter, f) = Inr (None, NewWriter, f')"
    "responded env s f f'"
    using response.BytesBody_sends [OF assms(2,3), of env U0] e by auto
  then have r: "HeadWritten f'" "bw_writer f' = Some (body_limit (length s))" "\<not> conLock (ses f')" "\<not> ses_closing (ses f')"
    using assms(4) by (simp_all add: responded_def)
  have "Writer_Close (http1_writer env U0) (NewWriter, f') = Inl (Explicit ''sync: unlock of unlocked mutex'')"
    using r by (simp add: Writer_Close_def Writer_Close_buffer_def getWriter_def Writer_getPipedBody_def
        Writer_getRawBody_def NewWriter_def http1_writer_def BodyWriter_Body_def sink_pipe_def To_def
        lift_close_def unlift_close_def writerWrapper_Close_def frame_ops_def frame_close_def conLock_Unlock_def)
  with f'(1) show ?thesis by simp
qed

theorem second_close_fatal_witness:
  "\<forall>(env :: (unit, unit) http_env) (U0 :: ((unit, unit) frame, unit body_sink,
      (unit body_sink, body_error) WriterPipeGenerator option, unit) underlying_writer).
    bind_go (BytesBody (http1_writer (env\<lparr>env_p := standard_processor\<rparr>) U0) ''hi'' (NewWriter, sample_frame env ''GET''))
        (\<lambda>(_, ws). Writer_Close (http1_writer (env\<lparr>env_p := standard_processor\<rparr>) U0) ws)
      = Inl (Explicit ''sync: unlock of unlocked mutex'')"
proof (intro allI)
  fix env :: "(unit, unit) http_env" and U0 :: "((unit, unit) frame, unit body_sink,
      (unit body_sink, body_error) WriterPipeGenerator option, unit) underlying_writer"
  from second_close_fatal [where s = "''hi''" and env = "env\<lparr>env_p := standard_processor\<rparr>"
      and f = "sample_frame env ''GET''" and ?U0.0 = U0]
  show "bind_go (BytesBody (http1_writer (env\<lparr>env_p := standard_processor\<rparr>) U0) ''hi'' (NewWriter, sample_frame env ''GET''))
        (\<lambda>(_, ws). Writer_Close (http1_writer (env\<lparr>env_p := standard_processor\<rparr>) U0) ws)
      = Inl (Explicit ''sync: unlock of unlocked mutex'')"
    by (simp add: sample_frame_fields)
qed

end
