(* ===== verification/Request_Bodies.thy ===== *)
theory Request_Bodies
  imports Chunked_Body Http_Server
begin

section \<open>Requests with bodies\<close>

text \<open>
  The reading side of a frame, from \<open>jps.Reader\<close> down to the connection: the reader of the handler asks the
  body reader of the session for the body and reads it to its end, whatever way the headers say it ends.
  A handler that reads the body of a request and answers is composed with the session loop: pipelined
  requests keep their bodies apart.
\<close>

subsection \<open>The body of a request as the interface of \<open>Reader\<close>\<close>

text \<open>
  \<open>pipe.From\<close> around the body of the protocol; a nil body does not get here without an error. Closing the
  raw or the limited reader closes the connection; the reader of chunks closes nothing.
\<close>

definition reader_pipe ::
  "'d body_source option \<Rightarrow> ('d body_source, body_error) ReaderPipeGenerator list \<Rightarrow> (body_error option \<times> 'd body_source) go" where
  "reader_pipe raw pipes =
     (case raw of
        None \<Rightarrow> Inl NilDereference
      | Some r \<Rightarrow> bind_go (From r [pipes]) (\<lambda>res. case res of
          Inl err \<Rightarrow> Inr (Some err, NilPipe)
        | Inr readers \<Rightarrow> Inr (None, PipeSource readers)))"

definition session_stream_Close :: "('d, 'x) chunk_session_scheme \<Rightarrow> body_error option \<times> ('d, 'x) chunk_session_scheme" where
  "session_stream_Close st = (let (err, c) = stream_Close (ses_stream st) in (err, st\<lparr>ses_stream := c\<rparr>))"

fun codec_Close :: "('c \<Rightarrow> 'st \<Rightarrow> body_error option \<times> 'st) \<Rightarrow> 'c codec \<Rightarrow> 'st \<Rightarrow> body_error option \<times> 'st" where
  "codec_Close close_dec (ChunkedAt i) st = (None, st)"
| "codec_Close close_dec (Codec c) st = close_dec c st"

definition http1_reader ::
  "('c codec, 'g) http_env \<Rightarrow> (body_error \<Rightarrow> bool)
     \<Rightarrow> ('c \<Rightarrow> (nat \<Rightarrow> ('c codec, 'x) chunk_session_scheme \<Rightarrow> ('c codec, 'x) chunk_session_scheme read_result)
          \<Rightarrow> nat \<Rightarrow> ('c codec, 'x) chunk_session_scheme \<Rightarrow> ('c codec, 'x) chunk_session_scheme read_result)
     \<Rightarrow> ('c \<Rightarrow> ('c codec, 'x) chunk_session_scheme \<Rightarrow> body_error option \<times> ('c codec, 'x) chunk_session_scheme)
     \<Rightarrow> (('c codec, 'x) chunk_session_scheme, 'c codec body_source, ('c codec body_source, body_error) ReaderPipeGenerator, 'b) underlying_reader
     \<Rightarrow> (('c codec, 'x) chunk_session_scheme, 'c codec body_source, ('c codec body_source, body_error) ReaderPipeGenerator, 'b) underlying_reader" where
  "http1_reader env tmp dec close_dec R0 =
     R0\<lparr>R_BodyLength := reader_BodyLength (env_p env) (env_tes env),
        R_Body := reader_Body (env_p env) (env_tes env),
        R_pipe := reader_pipe,
        R_Read := source_Read (decode tmp dec),
        R_Close := (\<lambda>k st. case source_Close session_stream_Close (codec_Close close_dec) k (Inr st) of
            (err, Inl p) \<Rightarrow> Inl p
          | (err, Inr st') \<Rightarrow> Inr (err, st'))\<rparr>"

subsection \<open>A whole body through a \<open>Reader\<close>\<close>

text \<open>
  What a protocol promises the reader of a body: \<open>Body\<close> gives a reader without an error, and each read
  gives some bytes of the body, or ends it. \<open>i\<close> is what a stage of the message is about: the state
  before, and what must be there after.
\<close>

locale message_reader =
  fixes U :: "('st, 'k, 'p, 'b) underlying_reader"
    and arrived :: "'i \<Rightarrow> string \<Rightarrow> 'st \<Rightarrow> bool"
    and reading :: "'i \<Rightarrow> 'k \<Rightarrow> string \<Rightarrow> 'st \<Rightarrow> bool"
    and finished :: "'i \<Rightarrow> 'st \<Rightarrow> bool"
  assumes get_body: "arrived i body st \<Longrightarrow> \<exists>raw k st'. R_Body U st = Inr ((Some raw, None), st')
      \<and> R_pipe U (Some raw) [] = Inr (None, k) \<and> reading i k body st'"
    and read_body: "reading i k body st \<Longrightarrow> 0 < n \<Longrightarrow> \<exists>d err st'. R_Read U k n st = Inr ((d, err), st')
      \<and> (err = None \<and> d \<noteq> [] \<and> (\<exists>rest. body = d @ rest \<and> reading i k rest st')
        \<or> err = Some (BodyIO EOF) \<and> d = body \<and> finished i st')"
begin

text \<open>The reader after its first read: \<open>k\<close> is its piped body.\<close>

definition started :: "'k \<Rightarrow> ('k, 'p, 'b) jps_reader \<Rightarrow> bool" where
  "started k r \<longleftrightarrow> rd_pipedBody r = Some k \<and> rd_buf r = None \<and> \<not> rd_bufferBody r"

lemma Read_started:
  "started k r \<Longrightarrow> Reader_Read U n (r, st) = bind_go (R_Read U k n st) (\<lambda>(res, st'). Inr (res, r, st'))"
  by (simp add: started_def Reader_Read_def getReader_def Reader_IsBuffered_def Reader_getPipedBody_def)

lemma reads_started:
  "reading i k body st \<Longrightarrow> started k r \<Longrightarrow> list_all (\<lambda>n. 0 < n) ns \<Longrightarrow> length body < length ns \<Longrightarrow>
    \<exists>st'. read_sizes (Reader_Read U) ns (r, st) = Inr ((body, Some (BodyIO EOF)), (r, st')) \<and> finished i st'"
proof (induction ns arbitrary: body st)
  case (Cons n ns)
  obtain d err st' where rd: "R_Read U k n st = Inr ((d, err), st')"
    and out: "err = None \<and> d \<noteq> [] \<and> (\<exists>rest. body = d @ rest \<and> reading i k rest st')
        \<or> err = Some (BodyIO EOF) \<and> d = body \<and> finished i st'"
    using read_body [OF Cons.prems(1), of n] Cons.prems(3) by auto
  show ?case
  proof (cases "err = None")
    case True
    then obtain rest where rest: "body = d @ rest" "reading i k rest st'" "d \<noteq> []" using out by auto
    then have "length rest < length body" by (cases d) auto
    with Cons.prems(4) have "length rest < length ns" by simp
    from Cons.IH [OF rest(2) Cons.prems(2) _ this] Cons.prems(2,3) rd True rest(1) show ?thesis
      by (auto simp: Read_started)
  next
    case False
    with out rd Cons.prems(2) show ?thesis by (auto simp: Read_started)
  qed
qed simp

lemma reads_all:
  assumes "arrived i body st" "list_all (\<lambda>n. 0 < n) ns" "length body < length ns"
  shows "\<exists>r st'. read_sizes (Reader_Read U) ns (NewReader, st) = Inr ((body, Some (BodyIO EOF)), (r, st')) \<and> finished i st'"
proof -
  obtain raw k st1 where b: "R_Body U st = Inr ((Some raw, None), st1)" "R_pipe U (Some raw) [] = Inr (None, k)"
    "reading i k body st1" using get_body [OF assms(1)] by blast
  let ?r = "NewReader\<lparr>rd_rawBody := Some raw, rd_pipedBody := Some k\<rparr>"
  have s: "started k ?r" by (simp add: started_def NewReader_def)
  have "Reader_Read U n (NewReader, st) = Reader_Read U n (?r, st1)" for n
    using b(1,2) by (simp add: Reader_Read_def getReader_def Reader_IsBuffered_def Reader_getPipedBody_def
        Reader_getRawBody_def NewReader_def)
  then have "read_sizes (Reader_Read U) ns (NewReader, st) = read_sizes (Reader_Read U) ns (?r, st1)"
    using assms(3) by (cases ns) simp_all
  with reads_started [OF b(3) s assms(2,3)] show ?thesis by auto
qed

end

subsection \<open>The connection under a body\<close>

definition same_session :: "('d, 'x) chunk_session_scheme \<Rightarrow> ('d, 'x) chunk_session_scheme \<Rightarrow> bool" where
  "same_session s st \<longleftrightarrow> end_error (in_stream st) = end_error (in_stream s) \<and> ses_stream st = ses_stream s
     \<and> ses_closing st = ses_closing s \<and> ses_eos st = ses_eos s \<and> hyjacked st = hyjacked s \<and> conLock st = conLock s"

lemma same_session_trans [trans]: "same_session s st \<Longrightarrow> same_session st st' \<Longrightarrow> same_session s st'"
  by (simp add: same_session_def)

lemma same_session_unread: "unread st' = unread st \<Longrightarrow> same_session st st'"
proof -
  have "end_error (in_stream (unread s)) = end_error (in_stream s)" "ses_stream (unread s) = ses_stream s"
    "ses_closing (unread s) = ses_closing s" "ses_eos (unread s) = ses_eos s" "hyjacked (unread s) = hyjacked s"
    "conLock (unread s) = conLock s" for s :: "('a, 'b) chunk_session_scheme"
    by (simp_all add: unread_def)
  then show "unread st' = unread st \<Longrightarrow> same_session st st'" unfolding same_session_def by metis
qed

text \<open>\<open>s\<close> is the session when the frame was made, \<open>rest\<close> what follows the body on the connection.\<close>

type_synonym ('c, 'x) body_place = "('c codec, 'x) chunk_session_scheme \<times> string"

definition body_pending :: "('c, 'x) body_place \<Rightarrow> string \<Rightarrow> ('c codec, 'x) chunk_session_scheme \<Rightarrow> bool" where
  "body_pending i bytes st \<longleftrightarrow> same_session (fst i) st \<and> pending (in_stream st) = bytes @ snd i"

definition body_requested :: "('d, 'x) body_in_scheme \<Rightarrow> bool" where
  "body_requested st \<longleftrightarrow> br_reader st = None \<and> br_hasBody st \<and> br_req st \<noteq> Some ''HEAD''"

definition finished_body :: "('c, 'x) body_place \<Rightarrow> ('c codec, 'x) chunk_session_scheme \<Rightarrow> bool" where
  "finished_body i st \<longleftrightarrow> body_pending i [] st"

definition sized_arrived :: "('c, 'x) body_place \<Rightarrow> string \<Rightarrow> ('c codec, 'x) chunk_session_scheme \<Rightarrow> bool" where
  "sized_arrived i body st \<longleftrightarrow> body_requested st \<and> transfer_codes st = [] \<and> length_values st = [FormatUint (length body) 10]
     \<and> length body < 2 ^ 63 \<and> body_pending i body st"

definition sized_reading ::
  "('c, 'x) body_place \<Rightarrow> 'c codec body_source \<Rightarrow> string \<Rightarrow> ('c codec, 'x) chunk_session_scheme \<Rightarrow> bool" where
  "sized_reading i k body st \<longleftrightarrow> k = PipeSource [LimitedSource] \<and> length body < 2 ^ 63
     \<and> in_left st = of_nat (length body) \<and> body_pending i body st"

definition chunked_arrived ::
  "('c, 'x) body_place \<times> chunk list \<times> chunk \<Rightarrow> string \<Rightarrow> ('c codec, 'x) chunk_session_scheme \<Rightarrow> bool" where
  "chunked_arrived j body st \<longleftrightarrow> (case j of (i, cs, e) \<Rightarrow> body_requested st
     \<and> (\<exists>c. transfer_codes st = [c] \<and> to_lower c = ''chunked'') \<and> length_values st = []
     \<and> chunks_ok cs e \<and> body = concat (map ch_data cs) \<and> ch_left st 0 = 0 \<and> body_pending i (chunked_text cs e) st)"

definition chunked_reading ::
  "('c, 'x) body_place \<times> chunk list \<times> chunk \<Rightarrow> 'c codec body_source \<Rightarrow> string \<Rightarrow> ('c codec, 'x) chunk_session_scheme \<Rightarrow> bool" where
  "chunked_reading j k body st \<longleftrightarrow> (case j of (i, _, e) \<Rightarrow>
     k = PipeSource [PipeSource [DecodedSource (ChunkedAt 0) RawSource, RawSource]] \<and> same_session (fst i) st
     \<and> (\<exists>cur cs. in_chunks 0 st cur cs e (snd i) \<and> body = cur @ concat (map ch_data cs)))"

definition chunked_finished ::
  "('c, 'x) body_place \<times> chunk list \<times> chunk \<Rightarrow> ('c codec, 'x) chunk_session_scheme \<Rightarrow> bool" where
  "chunked_finished j st \<longleftrightarrow> finished_body (fst j) st"

lemma chunked_generators:
  assumes "to_lower c = ''chunked''"
  shows "GetReaderPipeGenerators (HTTPTransferEncodings zr zw gr gw ch) [c] = Some [mk_generator (Some ch)]"
proof -
  have "Get (HTTPTransferEncodings zr zw gr gw ch) ''chunked'' = Some (ChunkedEncoding ch)"
    by (rule Get_member [OF HTTPTransferEncodings_descending]) (simp_all add: set_HTTPTransferEncodings predefined)
  with assms show ?thesis
    by (auto simp: GetReaderPipeGenerators_def Get_def ChunkedEncoding_def split: prod.splits if_splits)
qed

interpretation sized_body: message_reader
  "http1_reader ((env :: ('c codec, 'g) http_env)\<lparr>env_p := standard_processor\<rparr>) tmp dec close_dec R0"
  "sized_arrived :: ('c, 'x) body_place \<Rightarrow> _" sized_reading finished_body
proof
  fix i :: "('c, 'x) body_place" and body st
  assume a: "sized_arrived i body st"
  let ?n = "of_nat (length body) :: int64"
  let ?st = "st\<lparr>br_length := ?n, in_left := ?n, br_reader := Some LimitedSource\<rparr>"
  have "reader_Body standard_processor tes st = Inr ((Some LimitedSource, None), ?st)" for tes
    using a ParseUint_FormatUint [of 10 "length body" 63]
    by (simp add: sized_arrived_def body_requested_def reader_Body_def getBody_def)
  moreover have "sized_reading i (PipeSource [LimitedSource]) body ?st"
    using a by (simp add: sized_arrived_def sized_reading_def body_pending_def same_session_def)
  moreover have "reader_pipe (Some LimitedSource) [] = Inr (None, PipeSource [LimitedSource])"
    by (simp add: reader_pipe_def From_def)
  ultimately show "\<exists>raw k st'. R_Body (http1_reader (env\<lparr>env_p := standard_processor\<rparr>) tmp dec close_dec R0) st
        = Inr ((Some raw, None), st')
      \<and> R_pipe (http1_reader (env\<lparr>env_p := standard_processor\<rparr>) tmp dec close_dec R0) (Some raw) [] = Inr (None, k)
      \<and> sized_reading i k body st'" by (auto simp: http1_reader_def)
next
  fix i :: "('c, 'x) body_place" and k body st and n :: nat
  assume a: "sized_reading i k body st" and n: "0 < n"
  let ?st = "\<lambda>b. st\<lparr>in_stream := (in_stream st)\<lparr>pending := b @ snd i\<rparr>, in_left := of_nat (length b)\<rparr>"
  have st: "st = ?st body" using a by (simp add: sized_reading_def body_pending_def)
  have rd: "source_Read (decode tmp dec) k n st = limited_Read n st" using a by (simp add: sized_reading_def)
  have same: "same_session (fst i) (?st b)" for b
    using a by (simp add: sized_reading_def body_pending_def same_session_def)
  have "\<exists>d err st'. limited_Read n st = Inr ((d, err), st')
      \<and> (err = None \<and> d \<noteq> [] \<and> (\<exists>rest. body = d @ rest \<and> sized_reading i k rest st')
        \<or> err = Some (BodyIO EOF) \<and> d = body \<and> finished_body i st')"
  proof (cases "body = []")
    case True
    then have "limited_Read n st = Inr (([], Some (BodyIO EOF)), st)"
      using a by (simp add: sized_reading_def limited_Read_def)
    with True a show ?thesis by (auto simp: finished_body_def sized_reading_def)
  next
    case False
    have "limited_Read n (?st body) = Inr ((take n body, None), ?st (drop n body))"
      by (rule limited_Read_more [OF _ False n]) (use a in \<open>simp add: sized_reading_def\<close>)
    then have "limited_Read n st = Inr ((take n body, None), ?st (drop n body))" using st by metis
    moreover have "sized_reading i k (drop n body) (?st (drop n body))"
      using a same [of "drop n body"] by (simp add: sized_reading_def body_pending_def less_imp_diff_less)
    ultimately show ?thesis using False n
      by (intro exI [of _ "take n body"] exI [of _ None] exI [of _ "?st (drop n body)"]) (auto intro: exI [of _ "drop n body"])
  qed
  then show "\<exists>d err st'. R_Read (http1_reader (env\<lparr>env_p := standard_processor\<rparr>) tmp dec close_dec R0) k n st
        = Inr ((d, err), st')
      \<and> (err = None \<and> d \<noteq> [] \<and> (\<exists>rest. body = d @ rest \<and> sized_reading i k rest st')
        \<or> err = Some (BodyIO EOF) \<and> d = body \<and> finished_body i st')"
    by (simp add: http1_reader_def rd)
qed

interpretation chunked_body: message_reader
  "http1_reader ((env :: ('c codec, 'g) http_env)
    \<lparr>env_p := standard_processor, env_tes := HTTPTransferEncodings zr zw gr gw chunked_NewPipe\<rparr>) tmp dec close_dec R0"
  "chunked_arrived :: ('c, 'x) body_place \<times> _ \<Rightarrow> _" chunked_reading chunked_finished
proof
  let ?tes = "HTTPTransferEncodings zr zw gr gw chunked_NewPipe"
  let ?U = "http1_reader (env\<lparr>env_p := standard_processor, env_tes := ?tes\<rparr>) tmp dec close_dec R0"
  let ?raw = "PipeSource [DecodedSource (ChunkedAt 0) RawSource, RawSource] :: 'c codec body_source"
  {
    fix j :: "('c, 'x) body_place \<times> chunk list \<times> chunk" and body st
    assume a: "chunked_arrived j body st"
    obtain i cs e where j: "j = (i, cs, e)" by (metis surj_pair)
    obtain c where c: "transfer_codes st = [c]" "to_lower c = ''chunked''" using a j by (auto simp: chunked_arrived_def)
    let ?st = "st\<lparr>br_reader := Some ?raw, br_length := -1\<rparr>"
    have "GetReaderPipeGenerators ?tes [c] = Some [mk_generator (Some chunked_NewPipe)]"
      by (rule chunked_generators [OF c(2)])
    moreover have "pipe_source [mk_generator (Some chunked_NewPipe)] = Inr (None, ?raw)"
      by (simp add: pipe_source_def From_def mk_generator_def chunked_NewPipe_def)
    ultimately have "reader_Body standard_processor ?tes st = Inr ((Some ?raw, None), ?st)"
      using a c j by (simp add: chunked_arrived_def body_requested_def reader_Body_def getBody_def)
    moreover have "in_chunks 0 ?st [] cs e (snd i)" "same_session (fst i) ?st"
      using a j by (simp_all add: chunked_arrived_def body_pending_def in_chunks_def raw_pipe.inside_def same_session_def)
    then have "chunked_reading j (PipeSource [?raw]) body ?st"
      using a j by (auto simp: chunked_arrived_def chunked_reading_def intro: exI [of _ "[]"])
    moreover have "reader_pipe (Some ?raw) [] = Inr (None, PipeSource [?raw])"
      by (simp add: reader_pipe_def From_def)
    ultimately show "\<exists>raw k st'. R_Body ?U st = Inr ((Some raw, None), st')
      \<and> R_pipe ?U (Some raw) [] = Inr (None, k) \<and> chunked_reading j k body st'"
      by (auto simp: http1_reader_def)
  next
    fix j :: "('c, 'x) body_place \<times> chunk list \<times> chunk" and k body st and n :: nat
    assume a: "chunked_reading j k body st" and n: "0 < n"
    obtain i cs0 e where j: "j = (i, cs0, e)" by (metis surj_pair)
    obtain cur cs where cs: "in_chunks 0 st cur cs e (snd i)" "body = cur @ concat (map ch_data cs)"
      using a j by (auto simp: chunked_reading_def)
    have k: "k = PipeSource [?raw]" using a j by (simp add: chunked_reading_def)
    have "source_Read (decode tmp dec) RawSource = raw_Read" by (intro ext) simp
    then have "source_Read (decode tmp dec) k n st = decode tmp dec (ChunkedAt 0) raw_Read n st"
      unfolding k by (simp del: decode.simps)
    moreover from decode_raw [OF cs(1) n, of tmp dec] obtain d err st' where
      rd: "decode tmp dec (ChunkedAt 0) raw_Read n st = Inr ((d, err), st')" "unread st' = unread st"
      and out: "err = None \<and> d \<noteq> [] \<and> (\<exists>cur' cs'. in_chunks 0 st' cur' cs' e (snd i) \<and> body = d @ cur' @ concat (map ch_data cs'))
        \<or> err = Some (BodyIO EOF) \<and> d = body \<and> pending (in_stream st') = snd i"
      unfolding cs(2) by blast
    moreover have "same_session (fst i) st'"
      using a j same_session_unread [OF rd(2)] same_session_trans by (auto simp: chunked_reading_def)
    ultimately show "\<exists>d err st'. R_Read ?U k n st = Inr ((d, err), st')
      \<and> (err = None \<and> d \<noteq> [] \<and> (\<exists>rest. body = d @ rest \<and> chunked_reading j k rest st')
        \<or> err = Some (BodyIO EOF) \<and> d = body \<and> chunked_finished j st')"
      using j k by (auto simp: http1_reader_def chunked_reading_def chunked_finished_def finished_body_def body_pending_def
          simp del: source_Read.simps)
  }
qed

subsection \<open>A server that reads the bodies\<close>

text \<open>
  A handler that reads the body of every request that announces one, with buffers of the sizes \<open>sizes\<close> gives
  for the method, and answers with a body computed from it. It does not read when the headers of the request
  announce none: \<open>Body\<close> would hand it the connection itself, and with it the next request. An error of a
  read is returned. The readers of chunks belong to the frame: the table starts empty and is forgotten with
  the frame.
\<close>

definition announces_body :: "'u http_request \<Rightarrow> bool" where
  "announces_body q \<longleftrightarrow> GetValuesRawKey (req_Header q) ''Content-Length'' \<noteq> []
     \<or> GetValuesRawKey (req_Header q) ''Transfer-Encoding'' \<noteq> []"

definition open_tables :: "'d session \<Rightarrow> 'd chunk_session" where
  "open_tables s = session.extend s (chunk_session.fields (\<lambda>_. 0) 0)"

definition read_frame ::
  "(('d, 'g) frame, 'g body_sink, ('g body_sink, body_error) WriterPipeGenerator option, 'b) underlying_writer
     \<Rightarrow> ('d chunk_session, 'd body_source, ('d body_source, body_error) ReaderPipeGenerator, 'b) underlying_reader
     \<Rightarrow> (string \<Rightarrow> nat list) \<Rightarrow> ('u http_request \<Rightarrow> string \<Rightarrow> string) \<Rightarrow> ('u, 'd, 'g) world
     \<Rightarrow> (bool \<times> world_error option) \<times> ('u, 'd, 'g) world" where
  "read_frame U R sizes answer w =
     (case w of
        InFrame q f \<Rightarrow>
          (case read_sizes (Reader_Read R) (if announces_body q then sizes (MethodStr q) else [])
                  (NewReader, open_tables (ses f)) of
             Inl p \<Rightarrow> ((True, Some (Crash p)), Stuck)
           | Inr ((body, err), _, st) \<Rightarrow>
               (let f1 = f\<lparr>ses := session.truncate st\<rparr> in
                if err = None \<or> err = Some (BodyIO EOF) then
                  (case BytesBody U (answer q body) (NewWriter, f1) of
                     Inl p \<Rightarrow> ((True, Some (Crash p)), Stuck)
                   | Inr (err', _, f2) \<Rightarrow> ((True, map_option BodyErr err'), InFrame q f2))
                else ((True, map_option BodyErr err), InFrame q f1)))
      | _ \<Rightarrow> ((False, None), w))"

definition reading_server ::
  "(('d, 'g) frame, 'g body_sink, ('g body_sink, body_error) WriterPipeGenerator option, 'b) underlying_writer
     \<Rightarrow> ('d chunk_session, 'd body_source, ('d body_source, body_error) ReaderPipeGenerator, 'b) underlying_reader
     \<Rightarrow> (string \<Rightarrow> nat list) \<Rightarrow> ('u http_request \<Rightarrow> string \<Rightarrow> string) \<Rightarrow> (('u, 'd, 'g) world, world_error) Server" where
  "reading_server U R sizes answer =
     snd (AddFrameHandler StageHandler 0 \<lparr>Protocol = '''', F = read_frame U R sizes answer\<rparr> new_server)"

lemma reading_HandleFrame:
  "HandleFrame (\<lambda>_. ''http'') (reading_server U R sizes answer) (InFrame q f)
    = (case read_frame U R sizes answer (InFrame q f) of ((handled, err), w') \<Rightarrow> (err, w'))"
  by (simp add: HandleFrame_def reading_server_def AddFrameHandler_def new_server_def
      ServerFrameHandlerList_Handle_def read_frame_def Let_def split: sum.splits option.splits)

text \<open>Messages on the wire: a request, and a body in one of the two framings, or none.\<close>

datatype wire_body = NoBody | SizedBody string | ChunkedBody "chunk list" chunk

fun body_text :: "wire_body \<Rightarrow> string" where
  "body_text NoBody = []"
| "body_text (SizedBody b) = b"
| "body_text (ChunkedBody cs e) = chunked_text cs e"

fun body_content :: "wire_body \<Rightarrow> string" where
  "body_content NoBody = []"
| "body_content (SizedBody b) = b"
| "body_content (ChunkedBody cs e) = concat (map ch_data cs)"

fun framed_by :: "(string \<times> string \<times> string) list \<Rightarrow> wire_body \<Rightarrow> bool" where
  "framed_by fs NoBody \<longleftrightarrow> values_for fs ''Transfer-Encoding'' = [] \<and> values_for fs ''Content-Length'' = []"
| "framed_by fs (SizedBody b) \<longleftrightarrow> values_for fs ''Transfer-Encoding'' = []
     \<and> values_for fs ''Content-Length'' = [FormatUint (length b) 10] \<and> length b < 2 ^ 63"
| "framed_by fs (ChunkedBody cs e) \<longleftrightarrow> values_for fs ''Transfer-Encoding'' = [''chunked'']
     \<and> values_for fs ''Content-Length'' = [] \<and> chunks_ok cs e"

text \<open>
  A message that announces a body meets a handler with enough buffers to see its end: none is empty, and they
  are more than the body has bytes.
\<close>

definition enough_reads :: "nat list \<Rightarrow> wire_body \<Rightarrow> bool" where
  "enough_reads ns b \<longleftrightarrow> b = NoBody \<or> list_all (\<lambda>n. 0 < n) ns \<and> length (body_content b) < length ns"

lemma announces_framed:
  assumes "framed_by fs b" "\<forall>key. map to_lower (GetValuesRawKey (req_Header req) key) = values_for fs key"
  shows "announces_body req \<longleftrightarrow> b \<noteq> NoBody"
proof -
  have "GetValuesRawKey (req_Header req) key = [] \<longleftrightarrow> values_for fs key = []" for key
    using assms(2) by (metis Nil_is_map_conv)
  then show ?thesis using assms(1) unfolding announces_body_def by (cases b) simp_all
qed

type_synonym wire_message = "wire_request \<times> wire_body"

definition message_text :: "wire_message \<Rightarrow> string" where
  "message_text m = wire_text (fst m) @ body_text (snd m)"

definition reply_body ::
  "(string \<Rightarrow> string + 'u URL) \<Rightarrow> (string \<Rightarrow> 'u \<Rightarrow> string \<Rightarrow> string) \<Rightarrow> wire_message \<Rightarrow> string" where
  "reply_body parse_uri reply m = answer_body parse_uri (\<lambda>mth u. reply mth u (body_content (snd m))) (fst m)"

definition valid_message ::
  "(string \<Rightarrow> string + 'u URL) \<Rightarrow> (string \<Rightarrow> nat list) \<Rightarrow> (string \<Rightarrow> 'u \<Rightarrow> string \<Rightarrow> string) \<Rightarrow> wire_message \<Rightarrow> bool" where
  "valid_message parse_uri sizes reply m \<longleftrightarrow> valid_wire parse_uri (fst m) \<and> framed_by (wq_fields (fst m)) (snd m)
     \<and> enough_reads (sizes (wq_method (fst m))) (snd m) \<and> length (reply_body parse_uri reply m) < 2 ^ 63"

lemma to_lower_decimal: "to_lower v = FormatUint n 10 \<Longrightarrow> v = FormatUint n 10"
proof -
  have l: "lower_byte c = c" if "CHR ''0'' \<le> lower_byte c \<and> lower_byte c \<le> CHR ''9''" for c
  proof (rule ccontr)
    assume n: "lower_byte c \<noteq> c"
    then have r: "65 \<le> (of_char c :: nat)" "(of_char c :: nat) \<le> 90" "lower_byte c = char_of ((of_char c :: nat) + 32)"
      by (auto simp: lower_byte_def less_eq_char_def split: if_splits)
    then have "(of_char (lower_byte c) :: nat) = of_char c + 32" by (simp add: char_of_nat)
    with r(1) that show False by (simp add: less_eq_char_def)
  qed
  assume v: "to_lower v = FormatUint n 10"
  have "lower_byte c = c" if "c \<in> set v" for c
  proof (rule l)
    have "lower_byte c \<in> set (to_lower v)" using that by (simp add: to_lower_def)
    then show "CHR ''0'' \<le> lower_byte c \<and> lower_byte c \<le> CHR ''9''"
      unfolding v FormatUint_def by (rule set_format_digits10)
  qed
  then have "to_lower v = v" by (simp add: to_lower_def map_idI)
  with v show ?thesis by simp
qed

text \<open>What the handler reads of a message, and where that leaves the session.\<close>

lemma open_tables_fields [simp]:
  "in_stream (open_tables s) = in_stream s" "ses_stream (open_tables s) = ses_stream s"
  "ses_closing (open_tables s) = ses_closing s" "hyjacked (open_tables s) = hyjacked s"
  "conLock (open_tables s) = conLock s" "br_reader (open_tables s) = br_reader s"
  "br_hasBody (open_tables s) = br_hasBody s" "br_req (open_tables s) = br_req s"
  "br_header (open_tables s) = br_header s" "ch_left (open_tables s) i = 0"
  by (cases s; simp add: open_tables_def session.defs chunk_session.defs)+

lemma truncate_fields [simp]:
  "in_stream (session.truncate st) = in_stream st" "ses_stream (session.truncate st) = ses_stream st"
  "ses_closing (session.truncate st) = ses_closing st" "hyjacked (session.truncate st) = hyjacked st"
  "conLock (session.truncate st) = conLock st"
  by (cases st; simp add: session.defs)+

lemma handler_reads:
  fixes s :: "'c codec session"
  assumes env: "env_p env = standard_processor" "env_tes env = HTTPTransferEncodings zr zw gr gw chunked_NewPipe"
    and s: "awaits_body mth fs s" "mth \<noteq> ''HEAD''" "pending (in_stream s) = body_text b @ rest"
    and b: "framed_by fs b" "enough_reads ns b"
  shows "\<exists>err r st. read_sizes (Reader_Read (http1_reader env tmp dec close_dec R0)) (if b \<noteq> NoBody then ns else [])
          (NewReader, open_tables s)
        = Inr ((body_content b, err), (r, st))
    \<and> (err = None \<or> err = Some (BodyIO EOF)) \<and> finished_body (open_tables s, rest) st"
proof (cases "b = NoBody")
  case True
  with s(3) show ?thesis
    by (simp add: finished_body_def body_pending_def same_session_def)
next
  case False
  have ns: "list_all (\<lambda>n. 0 < n) ns" "length (body_content b) < length ns"
    using False b(2) by (simp_all add: enough_reads_def)
  have e: "env\<lparr>env_p := standard_processor\<rparr> = env"
    "env\<lparr>env_p := standard_processor, env_tes := HTTPTransferEncodings zr zw gr gw chunked_NewPipe\<rparr> = env"
    using env by (cases env; simp)+
  have req: "body_requested (open_tables s)" using s(1,2) by (simp add: body_requested_def awaits_body_def)
  have raw: "map to_lower (GetValuesRawKey (br_header s) key) = values_for fs key" for key
    using s(1) by (simp add: awaits_body_def)
  have reads: "(if b \<noteq> NoBody then ns else []) = ns" using False by simp
  have "\<exists>err r st. read_sizes (Reader_Read (http1_reader env tmp dec close_dec R0)) ns (NewReader, open_tables s)
        = Inr ((body_content b, err), (r, st))
    \<and> (err = None \<or> err = Some (BodyIO EOF)) \<and> finished_body (open_tables s, rest) st"
  proof (cases b)
    case (SizedBody body)
    have "map to_lower (length_values s) = [FormatUint (length body) 10]" "map to_lower (transfer_codes s) = []"
      using raw [of "''Content-Length''"] raw [of "''Transfer-Encoding''"] b(1) SizedBody by (simp_all add: GetValues_def)
    then have "sized_arrived (open_tables s, rest) body (open_tables s)"
      using s(3) req b(1) SizedBody
      by (auto simp: sized_arrived_def body_pending_def same_session_def map_eq_Cons_conv dest: to_lower_decimal)
    from sized_body.reads_all [OF this ns(1), where env = env and tmp = tmp and dec = dec
        and close_dec = close_dec and ?R0.0 = R0] ns(2) SizedBody e(1) show ?thesis by fastforce
  next
    case (ChunkedBody cs ec)
    have "map to_lower (length_values s) = []" "map to_lower (transfer_codes s) = [''chunked'']"
      using raw [of "''Content-Length''"] raw [of "''Transfer-Encoding''"] b(1) ChunkedBody by (simp_all add: GetValues_def)
    then have "chunked_arrived ((open_tables s, rest), cs, ec) (body_content b) (open_tables s)"
      using s(3) req b(1) ChunkedBody
      by (auto simp: chunked_arrived_def body_pending_def same_session_def map_eq_Cons_conv)
    from chunked_body.reads_all [OF this ns, where env = env and zr = zr and zw = zw and gr = gr and gw = gw and tmp = tmp and dec = dec
        and close_dec = close_dec and ?R0.0 = R0] e(2) show ?thesis
      by (fastforce simp: chunked_finished_def)
  qed (use False in simp)
  then show ?thesis unfolding reads .
qed

lemma finished_body_session:
  assumes "finished_body (open_tables (ses f), rest) st"
  shows "fresh_frame (f\<lparr>ses := session.truncate st\<rparr>) \<longleftrightarrow> fresh_frame f"
    and "closes (f\<lparr>ses := session.truncate st\<rparr>) \<longleftrightarrow> closes f"
    and "in_stream st = (in_stream (ses f))\<lparr>pending := rest\<rparr>"
    and "ses_stream st = ses_stream (ses f)"
  using assms by (simp_all add: finished_body_def body_pending_def same_session_def fresh_frame_def closes_def)

interpretation reading: session_server
  "(env :: ('c codec, 'g) http_env)
    \<lparr>env_p := standard_processor, env_tes := HTTPTransferEncodings zr zw gr gw chunked_NewPipe\<rparr>" parse_uri on_error
  "reading_server
    (http1_writer ((env :: ('c codec, 'g) http_env)
      \<lparr>env_p := standard_processor, env_tes := HTTPTransferEncodings zr zw gr gw chunked_NewPipe\<rparr>) U0)
    (http1_reader ((env :: ('c codec, 'g) http_env)
      \<lparr>env_p := standard_processor, env_tes := HTTPTransferEncodings zr zw gr gw chunked_NewPipe\<rparr>) tmp dec close_dec R0)
    sizes (\<lambda>q. reply (MethodStr q) (url_Rest (URLp q)))"
  message_text "valid_message parse_uri sizes reply" "reply_body parse_uri reply"
proof
  let ?env0 = "env\<lparr>env_tes := HTTPTransferEncodings zr zw gr gw chunked_NewPipe\<rparr>"
  let ?env = "env\<lparr>env_p := standard_processor, env_tes := HTTPTransferEncodings zr zw gr gw chunked_NewPipe\<rparr>"
  let ?U = "http1_writer ?env U0" and ?R = "http1_reader ?env tmp dec close_dec R0"
  let ?v = "reading_server ?U ?R sizes (\<lambda>q. reply (MethodStr q) (url_Rest (URLp q)))"
  have env0: "?env0\<lparr>env_p := standard_processor\<rparr> = ?env" by simp
  show "SessionHandlers ?v = []" by (simp add: reading_server_def AddFrameHandler_def new_server_def)
  fix m and s :: "'c codec session" and rest
  assume m: "valid_message parse_uri sizes reply m" and s: "idle_session s" "pending (in_stream s) = message_text m @ rest"
  obtain q b where q: "m = (q, b)" "valid_wire parse_uri q" "framed_by (wq_fields q) b" "enough_reads (sizes (wq_method q)) b"
    "length (reply_body parse_uri reply (q, b)) < 2 ^ 63"
    using m by (cases m) (auto simp: valid_message_def)
  have p: "env_p ?env = standard_processor" "env_tes ?env = HTTPTransferEncodings zr zw gr gw chunked_NewPipe" by simp_all
  have pend: "pending (in_stream s) = wire_text q @ body_text b @ rest" using s(2) q(1) by (simp add: message_text_def)
  obtain req f url where f: "Frame ?env parse_uri on_error s = Some (Inr (FrameOK req f))"
    "MethodStr req = wq_method q" "parse_uri (wq_target q) = Inr url" "url_Rest (URLp req) = url_Rest url"
    "fresh_frame f" "\<not> closes f" "StatusCode f = 200"
    "in_stream (ses f) = (in_stream s)\<lparr>pending := body_text b @ rest\<rparr>" "ses_stream (ses f) = ses_stream s"
    "awaits_body (wq_method q) (wq_fields q) (ses f)"
    "\<forall>key. map to_lower (GetValuesRawKey (req_Header req) key) = values_for (wq_fields q) key"
    using Frame_answers [OF p(1) s(1) q(2) pend, of on_error] by blast
  have head: "wq_method q \<noteq> ''HEAD''" using q(2) by (auto simp: valid_wire_def)
  have fp: "pending (in_stream (ses f)) = body_text b @ rest" using f(8) by simp
  obtain err r st where rd: "read_sizes (Reader_Read ?R) (if announces_body req then sizes (wq_method q) else [])
        (NewReader, open_tables (ses f))
      = Inr ((body_content b, err), (r, st))" "err = None \<or> err = Some (BodyIO EOF)"
    "finished_body (open_tables (ses f), rest) st"
    using handler_reads [OF p f(10) head fp q(3,4), of tmp dec close_dec R0] unfolding announces_framed [OF q(3) f(11)] by blast
  let ?f1 = "f\<lparr>ses := session.truncate st\<rparr>" and ?b = "reply_body parse_uri reply (q, b)"
  have f1: "fresh_frame ?f1" "\<not> closes ?f1" using f(5,6) finished_body_session(1,2) [OF rd(3)] by blast+
  have ans: "reply (MethodStr req) (url_Rest (URLp req)) (body_content b) = ?b"
    using f(2-4) by (simp add: reply_body_def answer_body_def)
  obtain f' where f': "BytesBody ?U ?b (NewWriter, ?f1) = Inr (None, NewWriter, f')" "responded ?env ?b ?f1 f'"
    using response.BytesBody_sends [OF f1(1) q(5), of ?env0 U0] env0 by auto
  obtain t where t: "sent_bytes (ses_stream (ses f')) = sent_bytes (ses_stream (ses ?f1)) @ t" "is_response ?env ?b t"
    using responded_is_response [OF f'(2) f1(2)] f(7) by auto
  have "HandleFrame (\<lambda>_. ''http'') ?v (InFrame req f) = (None, InFrame req f')"
    using rd(1,2) f'(1) f(2) ans by (auto simp: reading_HandleFrame read_frame_def)
  moreover have "idle_session (ses f')" "in_stream (ses f') = (in_stream s)\<lparr>pending := rest\<rparr>"
    using f'(2) f1 f(8) finished_body_session(3) [OF rd(3)] by (simp_all add: responded_def idle_session_def fresh_frame_def)
  ultimately show "\<exists>req f f' r. Frame ?env parse_uri on_error s = Some (Inr (FrameOK req f))
        \<and> HandleFrame (\<lambda>_. ''http'') ?v (InFrame req f) = (None, InFrame req f')
        \<and> idle_session (ses f') \<and> in_stream (ses f') = (in_stream s)\<lparr>pending := rest\<rparr>
        \<and> sent_bytes (ses_stream (ses f')) = sent_bytes (ses_stream s) @ r \<and> is_response ?env (reply_body parse_uri reply m) r"
    using f(1,9) t finished_body_session(4) [OF rd(3)] q(1) by auto
qed

subsection \<open>Properties\<close>

text \<open>
  C1: pipelined requests with bodies: a connection delivers any number of valid HTTP/1.1 requests and then
  ends. Valid: at most five empty lines before it, a method other than CONNECT and HEAD, a target that
  parses, fields of valid syntax without a lone character between white space, one Host, no Connection
  field, and no body and no framing field, or a body of the length that Content-Length announces, or a
  chunked body. A server whose handler reads the body of each request that announces one, with more buffers
  than the body has bytes, of any positive sizes, and answers by \<open>BytesBody\<close> on a connection
  that takes all writes has sent, in order, one response per request, with the body computed from the
  method, the target and exactly the data of that request's body; then it closes the connection. (The
  handler leaves the other requests alone: reading one of them takes the next request.)
\<close>

theorem request_bodies_answered:
  fixes env :: "('c codec, 'g) http_env" and parse_uri :: "string \<Rightarrow> string + 'u URL"
  assumes "env_p env = standard_processor" "env_tes env = HTTPTransferEncodings zr zw gr gw chunked_NewPipe"
    and "list_all (valid_message parse_uri sizes reply) msgs"
    and "idle_session s" "pending (in_stream s) = concat (map message_text msgs)"
  shows "\<exists>s' out err. HandleSession (\<lambda>_. ''http'') (world_Frame env parse_uri on_error) (SessionErr EOS)
        (reading_server (http1_writer env U0) (http1_reader env tmp dec close_dec R0) sizes
          (\<lambda>q. reply (MethodStr q) (url_Rest (URLp q)))) (Between s)
      = Some (err, Between s')
    \<and> sent_bytes (ses_stream s') = sent_bytes (ses_stream s) @ concat out
    \<and> list_all2 (\<lambda>m r. is_response env (reply_body parse_uri reply m) r) msgs out
    \<and> stream_closed (ses_stream s')"
proof -
  have env: "env\<lparr>env_p := standard_processor, env_tes := HTTPTransferEncodings zr zw gr gw chunked_NewPipe\<rparr> = env"
    using assms(1,2) by (cases env) simp
  from reading.session_handled [OF assms(4,5,3), where env = env and zr = zr and zw = zw and gr = gr and gw = gw
      and tmp = tmp and dec = dec and close_dec = close_dec and on_error = on_error]
  show ?thesis unfolding env by blast
qed

definition sample_message :: "string \<Rightarrow> string \<Rightarrow> (string \<times> string \<times> string) list \<Rightarrow> wire_body \<Rightarrow> wire_message" where
  "sample_message mth target fs b =
     (\<lparr>wq_empty = 0, wq_method = mth, wq_target = target, wq_fields = (''Host'', '' '', ''h1'') # fs\<rparr>, b)"

definition sample_uri :: "string \<Rightarrow> string + string URL" where
  "sample_uri u = Inr \<lparr>url_Scheme = [], url_Host = [], url_Rest = u\<rparr>"

theorem request_bodies_answered_witness:
  "\<forall>(env :: (unit codec, unit) http_env) (U0 :: ((unit codec, unit) frame, unit body_sink,
      (unit body_sink, body_error) WriterPipeGenerator option, unit) underlying_writer)
      (R0 :: (unit codec chunk_session, unit codec body_source,
      (unit codec body_source, body_error) ReaderPipeGenerator, unit) underlying_reader).
    let env = env\<lparr>env_p := standard_processor, env_tes := HTTPTransferEncodings Inr id Inr id chunked_NewPipe\<rparr>;
        put = sample_message ''PUT'' ''/a'' [(''Content-Length'', '' '', ''3'')] (SizedBody ''abc'');
        post = sample_message ''POST'' ''/b'' [(''Transfer-Encoding'', '' '', ''Chunked'')]
          (ChunkedBody [plain_chunk ''de'', plain_chunk ''f''] (plain_chunk []));
        get = sample_message ''GET'' ''/c'' [] NoBody
    in \<exists>s' r1 r2 r3 err. HandleSession (\<lambda>_. ''http'') (world_Frame env sample_uri None) (SessionErr EOS)
        (reading_server (http1_writer env U0) (http1_reader env (\<lambda>_. False) (\<lambda>_ rd. rd) (\<lambda>_ st. (None, st)) R0)
          (\<lambda>_. [2, 1, 2, 5]) (\<lambda>q body. url_Rest (URLp q) @ body))
        (Between (body_in.extend (NewBodyReader \<lparr>pending = message_text put @ message_text post @ message_text get,
            end_error = EOF\<rparr> New_Header None True)
          (session.fields \<lparr>sent_bytes = [], conn_room = None, stream_closed = False\<rparr> False False False False)))
      = Some (err, Between s')
    \<and> sent_bytes (ses_stream s') = r1 @ r2 @ r3
    \<and> is_response env ''/aabc'' r1 \<and> is_response env ''/bdef'' r2 \<and> is_response env ''/c'' r3"
proof (intro allI)
  fix env :: "(unit codec, unit) http_env" and U0 :: "((unit codec, unit) frame, unit body_sink,
      (unit body_sink, body_error) WriterPipeGenerator option, unit) underlying_writer"
    and R0 :: "(unit codec chunk_session, unit codec body_source,
      (unit codec body_source, body_error) ReaderPipeGenerator, unit) underlying_reader"
  let ?env = "env\<lparr>env_p := standard_processor, env_tes := HTTPTransferEncodings Inr id Inr id chunked_NewPipe\<rparr>"
  let ?cs = "[plain_chunk ''de'', plain_chunk ''f'']"
  let ?put = "sample_message ''PUT'' ''/a'' [(''Content-Length'', '' '', ''3'')] (SizedBody ''abc'')"
  let ?post = "sample_message ''POST'' ''/b'' [(''Transfer-Encoding'', '' '', ''Chunked'')] (ChunkedBody ?cs (plain_chunk []))"
  let ?get = "sample_message ''GET'' ''/c'' [] NoBody"
  let ?sizes = "\<lambda>_ :: string. [2, 1, 2, 5 :: nat]"
  let ?reply = "\<lambda>(mth :: string) (u :: string) (body :: string). u @ body"
  let ?s = "body_in.extend (NewBodyReader \<lparr>pending = message_text ?put @ message_text ?post @ message_text ?get,
      end_error = EOF\<rparr> New_Header None True)
    (session.fields \<lparr>sent_bytes = [], conn_room = None, stream_closed = False\<rparr> False False False False) :: unit codec session"
  have wire: "valid_wire sample_uri (fst (sample_message m t fs b))"
    if "list_all valid_syntax fs" "\<not> list_ex lone_field fs" "m \<in> {''PUT'', ''POST'', ''GET''}" "t \<in> {''/a'', ''/b'', ''/c''}"
      "values_for ((''Host'', '' '', ''h1'') # fs) ''Host'' = [''h1'']" "values_for ((''Host'', '' '', ''h1'') # fs) ''Connection'' = []"
    for m t fs b
  proof -
    have "valid_syntax (''Host'', '' '', ''h1'')" "\<not> lone_field (''Host'', '' '', ''h1'')" by code_simp+
    with that show ?thesis by (auto simp: valid_wire_def sample_message_def sample_uri_def)
  qed
  have f: "list_all valid_syntax [(''Content-Length'', '' '', ''3'')]" "\<not> list_ex lone_field [(''Content-Length'', '' '', ''3'')]"
    "values_for [(''Host'', '' '', ''h1''), (''Content-Length'', '' '', ''3'')] ''Host'' = [''h1'']"
    "values_for [(''Host'', '' '', ''h1''), (''Content-Length'', '' '', ''3'')] ''Connection'' = []"
    "values_for [(''Host'', '' '', ''h1''), (''Content-Length'', '' '', ''3'')] ''Transfer-Encoding'' = []"
    "values_for [(''Host'', '' '', ''h1''), (''Content-Length'', '' '', ''3'')] ''Content-Length'' = [FormatUint 3 10]"
    "list_all valid_syntax [(''Transfer-Encoding'', '' '', ''Chunked'')]" "\<not> list_ex lone_field [(''Transfer-Encoding'', '' '', ''Chunked'')]"
    "values_for [(''Host'', '' '', ''h1''), (''Transfer-Encoding'', '' '', ''Chunked'')] ''Host'' = [''h1'']"
    "values_for [(''Host'', '' '', ''h1''), (''Transfer-Encoding'', '' '', ''Chunked'')] ''Connection'' = []"
    "values_for [(''Host'', '' '', ''h1''), (''Transfer-Encoding'', '' '', ''Chunked'')] ''Transfer-Encoding'' = [''chunked'']"
    "values_for [(''Host'', '' '', ''h1''), (''Transfer-Encoding'', '' '', ''Chunked'')] ''Content-Length'' = []"
    "values_for [(''Host'', '' '', ''h1'')] ''Host'' = [''h1'']" "values_for [(''Host'', '' '', ''h1'')] ''Connection'' = []"
    "values_for [(''Host'', '' '', ''h1'')] ''Transfer-Encoding'' = []" "values_for [(''Host'', '' '', ''h1'')] ''Content-Length'' = []"
    by code_simp+
  have cs: "chunks_ok ?cs (plain_chunk [])"
    using plain_chunk_ok [of "''de''"] plain_chunk_ok [of "''f''"] plain_chunk_ok [of "[]"]
    by (simp add: chunks_ok_def) (simp add: plain_chunk_def)
  have content: "concat (map ch_data ?cs) = ''def''" by (simp add: plain_chunk_def)
  have r: "reply_body sample_uri ?reply ?put = ''/aabc''" "reply_body sample_uri ?reply ?post = ''/bdef''"
    "reply_body sample_uri ?reply ?get = ''/c''"
    using content by (simp_all add: reply_body_def answer_body_def sample_message_def sample_uri_def)
  have v: "valid_message sample_uri ?sizes ?reply ?put" "valid_message sample_uri ?sizes ?reply ?post"
    "valid_message sample_uri ?sizes ?reply ?get"
    using wire [OF f(1,2) _ _ f(3,4)] wire [OF f(7,8) _ _ f(9,10)] wire [OF _ _ _ _ f(13,14)] f(5,6,11,12,15,16) cs content r
    by (simp_all add: valid_message_def) (simp_all add: sample_message_def enough_reads_def numeral_3_eq_3)
  have s: "idle_session ?s" "pending (in_stream ?s) = concat (map message_text [?put, ?post, ?get])"
    "sent_bytes (ses_stream ?s) = []"
    by (simp_all add: idle_session_def NewBodyReader_def body_in.defs session.defs)
  have vs: "list_all (valid_message sample_uri ?sizes ?reply) [?put, ?post, ?get]" using v by simp
  have e: "env_p ?env = standard_processor" "env_tes ?env = HTTPTransferEncodings Inr id Inr id chunked_NewPipe" by simp_all
  obtain s' out err where res: "HandleSession (\<lambda>_. ''http'') (world_Frame ?env sample_uri None) (SessionErr EOS)
        (reading_server (http1_writer ?env U0) (http1_reader ?env (\<lambda>_. False) (\<lambda>_ rd. rd) (\<lambda>_ st. (None, st)) R0)
          ?sizes (\<lambda>q body. url_Rest (URLp q) @ body)) (Between ?s) = Some (err, Between s')"
    "sent_bytes (ses_stream s') = concat out"
    "list_all2 (\<lambda>m r. is_response ?env (reply_body sample_uri ?reply m) r) [?put, ?post, ?get] out"
    using request_bodies_answered [OF e vs s(1,2)] s(3) by fastforce
  from res(3) r obtain r1 r2 r3 where "out = [r1, r2, r3]" "is_response ?env ''/aabc'' r1" "is_response ?env ''/bdef'' r2"
    "is_response ?env ''/c'' r3"
    by (auto simp: list_all2_Cons1)
  with res(1,2) show "let env = env\<lparr>env_p := standard_processor, env_tes := HTTPTransferEncodings Inr id Inr id chunked_NewPipe\<rparr>;
        put = sample_message ''PUT'' ''/a'' [(''Content-Length'', '' '', ''3'')] (SizedBody ''abc'');
        post = sample_message ''POST'' ''/b'' [(''Transfer-Encoding'', '' '', ''Chunked'')]
          (ChunkedBody [plain_chunk ''de'', plain_chunk ''f''] (plain_chunk []));
        get = sample_message ''GET'' ''/c'' [] NoBody
    in \<exists>s' r1 r2 r3 err. HandleSession (\<lambda>_. ''http'') (world_Frame env sample_uri None) (SessionErr EOS)
        (reading_server (http1_writer env U0) (http1_reader env (\<lambda>_. False) (\<lambda>_ rd. rd) (\<lambda>_ st. (None, st)) R0)
          (\<lambda>_. [2, 1, 2, 5]) (\<lambda>q body. url_Rest (URLp q) @ body))
        (Between (body_in.extend (NewBodyReader \<lparr>pending = message_text put @ message_text post @ message_text get,
            end_error = EOF\<rparr> New_Header None True)
          (session.fields \<lparr>sent_bytes = [], conn_room = None, stream_closed = False\<rparr> False False False False)))
      = Some (err, Between s')
    \<and> sent_bytes (ses_stream s') = r1 @ r2 @ r3
    \<and> is_response env ''/aabc'' r1 \<and> is_response env ''/bdef'' r2 \<and> is_response env ''/c'' r3"
    unfolding Let_def by (intro exI [of _ s'] exI [of _ r1] exI [of _ r2] exI [of _ r3] exI [of _ err]) simp
qed

end
