(* ===== verification/Jp_Variables.thy ===== *)
theory Jp_Variables
  imports Http_Session
begin

section \<open>Configuration variables: \<open>jpvariable/jpconfig.go\<close>\<close>

text \<open>
  Variables are a map from names to values of any type, or a scope: a map of its own over the variables
  of its parent. A value is an \<open>interface{}\<close>: a string, or something else. \<open>Set\<close> of a map stores the
  name under the name, as the code does.
\<close>

datatype 'v var_value = StringValue string | OtherValue 'v

datatype 'v variables = MapVariables "string \<rightharpoonup> 'v var_value" | VariablesScope "'v variables" "'v variables"

fun Variables_Get :: "'v variables \<Rightarrow> string \<Rightarrow> 'v var_value option" where
  "Variables_Get (MapVariables c) k = c k"
| "Variables_Get (VariablesScope this parent) k =
     (case Variables_Get this k of Some v \<Rightarrow> Some v | None \<Rightarrow> Variables_Get parent k)"

fun Variables_Set :: "'v variables \<Rightarrow> string \<Rightarrow> 'v var_value \<Rightarrow> 'v variables" where
  "Variables_Set (MapVariables c) k v = MapVariables (c(k \<mapsto> StringValue k))"
| "Variables_Set (VariablesScope this parent) k v = VariablesScope (Variables_Set this k v) parent"

text \<open>
  \<open>Handle\<close> of the HTTP/1 session takes its configuration from the server's variables, and the session gets
  a scope of its own over them.
\<close>

definition session_config :: "'v variables \<Rightarrow> ('v var_value \<Rightarrow> 'c option) \<Rightarrow> 'c \<Rightarrow> 'c" where
  "session_config vars as_config DefaultConfig =
     (case Variables_Get vars ''http'' of
        None \<Rightarrow> DefaultConfig
      | Some v \<Rightarrow> (case as_config v of None \<Rightarrow> DefaultConfig | Some c \<Rightarrow> c))"

definition session_variables :: "'v variables \<Rightarrow> 'v variables" where
  "session_variables server_vars = VariablesScope (MapVariables Map.empty) server_vars"

text \<open>The stores a sequence of \<open>Set\<close> calls can make of given variables.\<close>

fun set_all :: "'v variables \<Rightarrow> (string \<times> 'v var_value) list \<Rightarrow> 'v variables" where
  "set_all vars [] = vars"
| "set_all vars ((k, v) # kvs) = set_all (Variables_Set vars k v) kvs"

lemma Get_Set: "Variables_Get (Variables_Set vars k v) k' = (if k' = k then Some (StringValue k) else Variables_Get vars k')"
  by (induction vars) auto

lemma Get_set_all:
  "Variables_Get (set_all vars kvs) k = (if k \<in> fst ` set kvs then Some (StringValue k) else Variables_Get vars k)"
  by (induction vars kvs rule: set_all.induct) (simp_all add: Get_Set del: fun_upd_apply)

text \<open>
  Whatever is set on variables, what \<open>Get\<close> then finds under a name that was set is the name itself; the
  other names keep their values, and the parent's are still found through a scope. So an error handler
  or an HTTP configuration cannot be installed by \<open>Set\<close>: it is not there, or hides the one of the parent.
\<close>

theorem Set_stores_the_name:
  "Variables_Get (set_all vars kvs) k = (if k \<in> fst ` set kvs then Some (StringValue k) else Variables_Get vars k)
    \<and> ErrorHandler (Variables_Get (set_all (session_variables vars) ((''http-error-handler'', h) # kvs)))
        (\<lambda>v. case v of OtherValue f \<Rightarrow> Some f | StringValue _ \<Rightarrow> None) = None"
  by (simp add: Get_set_all ErrorHandler_def Get_Set)

end
