(* ===== verification/Http_Config.thy ===== *)
theory Http_Config
  imports Request_Parser
begin

section \<open>Simple error responses: \<open>http/config.go\<close>\<close>

text \<open>
  The error handler of the default configuration writes a response in one piece. A status code is an
  \<open>int\<close>, converted to an unsigned one; \<open>status_text\<close> is the table of \<open>net/http\<close>.
\<close>

definition SimpleResponse :: "(int \<Rightarrow> string) \<Rightarrow> int \<Rightarrow> string \<Rightarrow> string" where
  "SimpleResponse status_text code body =
     ''HTTP/1.1 '' @ FormatUint (unat (word_of_int code :: 64 word)) 10 @ '' '' @ status_text code
       @ CRLF @ ''Connection: close''
       @ CRLF @ ''Content-Length: '' @ FormatUint (length body) 10
       @ CRLF @ ''Content-Type: text/plain; charset=utf-8''
       @ CRLF @ CRLF @ body"

definition SimpleResponseWriter ::
  "(int \<Rightarrow> string) \<Rightarrow> (string \<Rightarrow> 'w \<Rightarrow> 'r \<times> 'w) \<Rightarrow> int \<Rightarrow> string \<Rightarrow> 'w \<Rightarrow> 'w" where
  "SimpleResponseWriter status_text w code body st = snd (w (SimpleResponse status_text code body) st)"

text \<open>\<open>as_http\<close> is the type switch: an \<open>Error\<close> or a pointer to one, or nothing else.\<close>

definition DefaultServerErrorHandler ::
  "(int \<Rightarrow> string) \<Rightarrow> (string \<Rightarrow> 'w \<Rightarrow> 'r \<times> 'w) \<Rightarrow> ('e \<Rightarrow> http_error option) \<Rightarrow> 'e \<Rightarrow> 'w \<Rightarrow> 'w" where
  "DefaultServerErrorHandler status_text w as_http err st =
     (let hErr = (case as_http err of Some e \<Rightarrow> e | None \<Rightarrow> HttpError 500 ''Internal Server Error'' NoCause)
      in SimpleResponseWriter status_text w (uint (err_code hErr)) (err_message hErr) st)"

text \<open>
  The simple response is what the response formatter prints for a response with the three fields,
  followed by the body: the two ways to write a response agree on every status code and body.
\<close>

theorem SimpleResponse_formatted:
  fixes code :: "16 word"
  shows "bind_go (FormatResponse (\<lambda>n. status_text (int n))
        \<lparr>resp_Header = SetValuesRaw ''Connection'' [''close''] (SetValuesRaw ''Content-Length'' [FormatUint (length body) 10]
            (SetValuesRaw ''Content-Type'' [''text/plain; charset=utf-8''] New_Header)),
          resp_hasCacheControl = False, resp_cacheControl = zero_resource, StatusCode = code, StatusTextOf = [],
          resp_Version = \<lparr>Major = 1, Minor = 1\<rparr>\<rparr>
        [''Connection'', ''Content-Length'', ''Content-Type'']) (\<lambda>s. Inr (s @ body))
    = Inr (SimpleResponse status_text (uint code) body)"
proof -
  have v: "Version_Format \<lparr>Major = 1, Minor = 1\<rparr> = ''HTTP/1.1''" by code_simp
  have "unat code < 2 ^ 64" using unsigned_less [of code, where ?'a = nat] by simp
  then have "unat (word_of_int (uint code) :: 64 word) = unat code"
    by (simp add: unsigned_ucast_eq take_bit_nat_eq_self)
  moreover have "int (unat code) = uint code" by simp
  ultimately show ?thesis
    by (simp add: FormatResponse_def FormatHeaders_eq fields_of_def field_of_def GetValuesRawKey_def SetValuesRaw_def
        block_text_def field_line_def SimpleResponse_def v CRLF_def)
qed

end
