(* ===== verification/Default_Server.thy ===== *)
theory Default_Server
  imports Request_Bodies Jp_Variables Http_Config Buffer_Sources
begin

section \<open>The standard server: \<open>jps/server/standard/httpServer.go\<close>\<close>

text \<open>
  The configuration of the standard server, what an HTTP/1 session finds in it, and what becomes of a
  request that cannot be parsed. The compressors are parameters. A value of a variable is the
  configuration record of \<open>http/config.go\<close> or an error handler of \<open>http1\<close>.
\<close>

record ('d, 'g, 'h) http_Config =
  TransferEncodings :: "('d body_source, 'g body_sink, body_error) List"
  ContentEncodings :: "('d body_source, 'g body_sink, body_error) List"
  HeaderProcessor :: "Processor option"
  UseJPHeaders :: bool
  ServerErrorHandler :: "'h option"

definition DefaultConfig :: "'h \<Rightarrow> ('d, 'g, 'h) http_Config" where
  "DefaultConfig default_error_handler =
     \<lparr>TransferEncodings = NewList, ContentEncodings = NewList, HeaderProcessor = None, UseJPHeaders = False,
      ServerErrorHandler = Some default_error_handler\<rparr>"

datatype ('c, 'h) config_value = HttpConfigValue 'c | ErrorHandlerValue 'h

fun as_http_Config :: "('c, 'h) config_value var_value \<Rightarrow> 'c option" where
  "as_http_Config (OtherValue (HttpConfigValue c)) = Some c"
| "as_http_Config v = None"

fun as_error_handler :: "('c, 'h) config_value var_value \<Rightarrow> 'h option" where
  "as_error_handler (OtherValue (ErrorHandlerValue h)) = Some h"
| "as_error_handler v = None"

text \<open>
  What the standard server sets of the fields of a server: the variables and the sizes of buffers. Its stream
  handler is \<open>Handle\<close>, below.
\<close>

record 'v standard_server =
  std_Config :: "'v variables"
  std_BufioSource :: BasicBufioSource

definition NewDefaultHTTPServer ::
  "('d body_source \<Rightarrow> body_error + 'd body_source) \<Rightarrow> ('g body_sink \<Rightarrow> 'g body_sink)
     \<Rightarrow> ('d body_source \<Rightarrow> body_error + 'd body_source) \<Rightarrow> ('g body_sink \<Rightarrow> 'g body_sink)
     \<Rightarrow> ('d body_source \<Rightarrow> body_error + 'd body_source)
     \<Rightarrow> (('d, 'g, 'h) http_Config, 'h2) config_value standard_server" where
  "NewDefaultHTTPServer zr zw gr gw ch =
     \<lparr>std_Config = MapVariables [''http'' \<mapsto> OtherValue (HttpConfigValue
        \<lparr>TransferEncodings = HTTPTransferEncodings zr zw gr gw ch, ContentEncodings = HTTPContentEncodings zr zw gr gw,
         HeaderProcessor = Some standard_processor, UseJPHeaders = False, ServerErrorHandler = None\<rparr>)],
      std_BufioSource = \<lparr>ReaderBufSize = 4096, WriterBufSize = 4096\<rparr>\<rparr>"

text \<open>What \<open>Handle\<close> makes of the configuration: the processor and the encodings of the session.\<close>

definition configured :: "('d, 'g, 'h) http_Config \<Rightarrow> ('d, 'g) http_env \<Rightarrow> ('d, 'g) http_env option" where
  "configured c env = map_option (\<lambda>p. env\<lparr>env_p := p, env_tes := TransferEncodings c\<rparr>) (HeaderProcessor c)"

lemma default_env:
  "configured (session_config (std_Config (NewDefaultHTTPServer zr zw gr gw ch)) as_http_Config (DefaultConfig h)) env
    = Some (env\<lparr>env_p := standard_processor, env_tes := HTTPTransferEncodings zr zw gr gw ch\<rparr>)"
  by (simp add: configured_def session_config_def NewDefaultHTTPServer_def)

lemma no_config_no_processor:
  "configured (session_config (MapVariables (m(''http'' := None))) as_http_Config (DefaultConfig h)) env = None"
  by (simp add: configured_def session_config_def DefaultConfig_def)

lemma default_error_handler:
  "ErrorHandler (Variables_Get (session_variables (std_Config (NewDefaultHTTPServer zr zw gr gw ch)))) as_error_handler = None"
  by (simp add: ErrorHandler_def session_variables_def NewDefaultHTTPServer_def)

text \<open>
  The end of \<open>http1.Handle\<close>: a session on the stream, handled by the server; what is printed is an error
  that is not, and does not wrap, the end of input. The session errors wrap with \<open>%w\<close>.
\<close>

fun body_error_is_EOF :: "body_error \<Rightarrow> bool" where
  "body_error_is_EOF (BodyIO e) = (e = EOF)"
| "body_error_is_EOF (HeadFailed e) = body_error_is_EOF e"
| "body_error_is_EOF e = False"

fun world_error_is_EOF :: "world_error \<Rightarrow> bool" where
  "world_error_is_EOF (SessionErr (ErrCRLFLoop e)) = (e = EOF)"
| "world_error_is_EOF (SessionErr (ErrWhileParsing e)) = (e = ReqIO EOF \<or> e = ReqHeaders (HeaderIO EOF))"
| "world_error_is_EOF (BodyErr e) = body_error_is_EOF e"
| "world_error_is_EOF e = False"

definition http1_session :: "bufio \<Rightarrow> stream \<Rightarrow> 'd session" where
  "http1_session reader con =
     body_in.extend (NewBodyReader reader New_Header None True) (session.fields con False False False False)"

definition http1_Handle ::
  "('d, 'g) http_env \<Rightarrow> (string \<Rightarrow> string + 'u URL) \<Rightarrow> (request_error \<Rightarrow> 'd session \<Rightarrow> 'd session) option
     \<Rightarrow> (('u, 'd, 'g) world, world_error) Server \<Rightarrow> bufio \<Rightarrow> stream
     \<Rightarrow> (world_error option \<times> ('u, 'd, 'g) world) option" where
  "http1_Handle env parse_uri on_error s reader con =
     map_option (\<lambda>(err, w). (Option.bind err (\<lambda>e. if world_error_is_EOF e then None else Some e), w))
       (HandleSession (\<lambda>_. ''http'') (world_Frame env parse_uri on_error) (SessionErr EOS) s (Between (http1_session reader con)))"

lemma http1_session_fields [simp]:
  "in_stream (http1_session reader con) = reader" "ses_stream (http1_session reader con) = con"
  "idle_session (http1_session reader con) \<longleftrightarrow> conn_room con = None \<and> \<not> stream_closed con"
  by (simp_all add: http1_session_def idle_session_def NewBodyReader_def body_in.defs session.defs)

subsection \<open>A request that cannot be parsed\<close>

lemma Frame_malformed:
  assumes "idle_session s" "consume_CRLF 5 (in_stream s) = (None, r)"
    and "ParseRequest (env_p env) parse_uri r = Inr ((req, close, Some e, True), r')"
  shows "Frame env parse_uri None s = Some (Inr (FrameError EOS
    (s\<lparr>in_stream := r', conLock := False, ses_closing := True, ses_stream := (ses_stream s)\<lparr>stream_closed := True\<rparr>\<rparr>)))"
  using assms by (simp add: Frame_def idle_session_def HandleError_def conLock_Unlock_def stream_Close_def)

lemma consume_CRLF_none:
  assumes "pending r = a # b # bs" "\<not> (a = CHR 0x0D \<and> b = CHR 0x0A)"
  shows "consume_CRLF (Suc n) r = (None, r)"
  using assms by (auto simp: bufio_Peek_def)

text \<open>The first line of a request up to its line feed, and the parser's verdict on it.\<close>

lemma ParseRequest_bad_line:
  assumes "CHR 0x0A \<notin> set l" "parse_request_line (l @ [CHR 0x0A]) = BadLine e"
  shows "ParseRequest p parse_uri (r\<lparr>pending := l @ CHR 0x0A # rest\<rparr>) = Inr ((None, True, Some e, True), r\<lparr>pending := rest\<rparr>)"
proof -
  have "bufio_ReadBytes (CHR 0x0A) (r\<lparr>pending := l @ CHR 0x0A # rest\<rparr>) = ((l @ [CHR 0x0A], None), r\<lparr>pending := rest\<rparr>)"
    using assms(1) by (simp add: bufio_ReadBytes_def index_byte_append)
  with assms(2) show ?thesis by (simp add: ParseRequest_def)
qed

subsection \<open>Properties\<close>

text \<open>
  C5: with the configuration of the standard server (its variables give the session its processor, its encodings
  and its error handler) and the handler of a reading server, a malformed request gets no answer: whatever
  valid requests (as in C1) come first are answered, bodies and all, and a line that is no request line, and
  not an empty one, ends the session with nothing more sent and nothing printed. The error handler of the
  configuration is never asked, and the one the session asks is never there. (The standard server itself has
  no frame handler. A line feed alone must not be the last byte of the connection: the session waits for a
  second byte.)
\<close>

theorem malformed_request_unanswered:
  fixes env :: "('c codec, 'g) http_env" and parse_uri :: "string \<Rightarrow> string + 'u URL" and h :: 'h
    and srv :: "((('c codec, 'g, 'h) http_Config, request_error \<Rightarrow> 'c codec session \<Rightarrow> 'c codec session) config_value) standard_server"
  assumes "srv = NewDefaultHTTPServer zr zw gr gw chunked_NewPipe"
    and "configured (session_config (std_Config srv) as_http_Config (DefaultConfig h)) env0 = Some env"
    and "on_error = ErrorHandler (Variables_Get (session_variables (std_Config srv))) as_error_handler"
    and "list_all (valid_message parse_uri sizes reply) msgs" "conn_room con = None" "\<not> stream_closed con"
    and "pending reader = concat (map message_text msgs) @ l @ CHR 0x0A # rest"
    and "CHR 0x0A \<notin> set l" "l \<noteq> [CHR 0x0D]" "l @ rest \<noteq> []" "parse_request_line (l @ [CHR 0x0A]) = BadLine e"
  shows "\<exists>s' out. http1_Handle env parse_uri on_error
        (reading_server (http1_writer env U0) (http1_reader env tmp dec close_dec R0) sizes
          (\<lambda>q. reply (MethodStr q) (url_Rest (URLp q)))) reader con
      = Some (None, Between s')
    \<and> sent_bytes (ses_stream s') = sent_bytes con @ concat out
    \<and> list_all2 (\<lambda>m r. is_response env (reply_body parse_uri reply m) r) msgs out
    \<and> stream_closed (ses_stream s')"
proof -
  have env: "env = env0\<lparr>env_p := standard_processor, env_tes := HTTPTransferEncodings zr zw gr gw chunked_NewPipe\<rparr>"
    using assms(2) unfolding assms(1) default_env by simp
  have none: "on_error = None" unfolding assms(3,1) by (rule default_error_handler)
  let ?s = "http1_session reader con :: 'c codec session"
  have s: "idle_session ?s" "pending (in_stream ?s) = concat (map message_text msgs) @ l @ CHR 0x0A # rest"
    using assms(5-7) by simp_all
  let ?tail = "l @ CHR 0x0A # rest"
  have bad: "\<exists>s1. Frame env parse_uri on_error s0 = Some (Inr (FrameError EOS s1))
      \<and> sent_bytes (ses_stream s1) = sent_bytes (ses_stream s0) \<and> stream_closed (ses_stream s1)"
    if "idle_session s0" "in_stream s0 = (in_stream ?s)\<lparr>pending := ?tail\<rparr>" for s0
  proof -
    obtain a b bs where "?tail = a # b # bs" "\<not> (a = CHR 0x0D \<and> b = CHR 0x0A)"
      using assms(8-10) by (cases l rule: remdups_adj.cases; cases rest) auto
    then have "consume_CRLF (Suc 4) (in_stream s0) = (None, reader\<lparr>pending := ?tail\<rparr>)"
      using that(2) by (subst consume_CRLF_none) auto
    then have "consume_CRLF 5 (in_stream s0) = (None, reader\<lparr>pending := ?tail\<rparr>)" by simp
    from Frame_malformed [where env = env and parse_uri = parse_uri, OF that(1) this ParseRequest_bad_line [OF assms(8,11)]] show ?thesis
      unfolding none by simp
  qed
  from reading.session_until [where env = env0 and zr = zr and zw = zw and gr = gr and gw = gw and tmp = tmp and dec = dec
      and close_dec = close_dec and parse_uri = parse_uri and on_error = on_error and s = ?s and tail = ?tail and e = EOS
      and ms = msgs and sizes = sizes and reply = reply and ?R0.0 = R0 and ?U0.0 = U0, folded env, OF bad s assms(4)]
  show ?thesis by (auto simp: http1_Handle_def)
qed

theorem malformed_request_unanswered_witness:
  "\<forall>(env0 :: (unit codec, unit) http_env) (U0 :: ((unit codec, unit) frame, unit body_sink,
      (unit body_sink, body_error) WriterPipeGenerator option, unit) underlying_writer)
      (R0 :: (unit codec chunk_session, unit codec body_source,
      (unit codec body_source, body_error) ReaderPipeGenerator, unit) underlying_reader).
    let env = env0\<lparr>env_p := standard_processor, env_tes := HTTPTransferEncodings Inr id Inr id chunked_NewPipe\<rparr>
    in \<exists>s' r. http1_Handle env sample_uri None
        (reading_server (http1_writer env U0) (http1_reader env (\<lambda>_. False) (\<lambda>_ rd. rd) (\<lambda>_ st. (None, st)) R0)
          (\<lambda>_. []) (\<lambda>q body. url_Rest (URLp q)))
        \<lparr>pending = message_text (sample_message ''GET'' ''/c'' [] NoBody) @ ''GET /d'' @ [CHR 0x0A], end_error = EOF\<rparr>
        \<lparr>sent_bytes = [], conn_room = None, stream_closed = False\<rparr> = Some (None, Between s')
    \<and> sent_bytes (ses_stream s') = r \<and> is_response env ''/c'' r"
proof (intro allI)
  fix env0 :: "(unit codec, unit) http_env" and U0 :: "((unit codec, unit) frame, unit body_sink,
      (unit body_sink, body_error) WriterPipeGenerator option, unit) underlying_writer"
    and R0 :: "(unit codec chunk_session, unit codec body_source,
      (unit codec body_source, body_error) ReaderPipeGenerator, unit) underlying_reader"
  let ?env = "env0\<lparr>env_p := standard_processor, env_tes := HTTPTransferEncodings Inr id Inr id chunked_NewPipe\<rparr>"
  let ?get = "sample_message ''GET'' ''/c'' [] NoBody"
  let ?reply = "\<lambda>(mth :: string) (u :: string) (body :: string). u"
  let ?rd = "\<lparr>pending = message_text ?get @ ''GET /d'' @ [CHR 0x0A], end_error = EOF\<rparr>"
  let ?con = "\<lparr>sent_bytes = [], conn_room = None, stream_closed = False\<rparr>"
  have f: "valid_syntax (''Host'', '' '', ''h1'')" "\<not> lone_field (''Host'', '' '', ''h1'')"
    "values_for [(''Host'', '' '', ''h1'')] ''Host'' = [''h1'']" "values_for [(''Host'', '' '', ''h1'')] ''Connection'' = []"
    "values_for [(''Host'', '' '', ''h1'')] ''Transfer-Encoding'' = []" "values_for [(''Host'', '' '', ''h1'')] ''Content-Length'' = []"
    by code_simp+
  have r: "reply_body sample_uri ?reply ?get = ''/c''"
    by (simp add: reply_body_def answer_body_def sample_message_def sample_uri_def)
  have v: "list_all (valid_message sample_uri (\<lambda>_. []) ?reply) [?get]"
    using f r by (simp add: valid_message_def valid_wire_def sample_message_def sample_uri_def enough_reads_def)
  have con: "conn_room ?con = None" "\<not> stream_closed ?con" by simp_all
  have rd: "pending ?rd = concat (map message_text [?get]) @ ''GET /d'' @ CHR 0x0A # []" by simp
  have bad: "parse_request_line (''GET /d'' @ [CHR 0x0A])
      = BadLine (ReqHttp ErrMalformedHTTPRequestExpectingCarraigeReturnBeforeNewline)"
    by code_simp
  have lf: "CHR 0x0A \<notin> set ''GET /d''" "''GET /d'' \<noteq> [CHR 0x0D]" "''GET /d'' @ [] \<noteq> []" by simp_all
  obtain s' out where res: "http1_Handle ?env sample_uri None
        (reading_server (http1_writer ?env U0) (http1_reader ?env (\<lambda>_. False) (\<lambda>_ rd. rd) (\<lambda>_ st. (None, st)) R0)
          (\<lambda>_. []) (\<lambda>q body. url_Rest (URLp q))) ?rd ?con = Some (None, Between s')"
    "sent_bytes (ses_stream s') = concat out"
    "list_all2 (\<lambda>m r. is_response ?env (reply_body sample_uri ?reply m) r) [?get] out"
    using malformed_request_unanswered [OF refl default_env default_error_handler [symmetric] v con rd lf bad,
        where dec = "\<lambda>_ rd. rd" and tmp = "\<lambda>_. False" and close_dec = "\<lambda>_ st. (None, st)" and ?R0.0 = R0 and ?U0.0 = U0] by fastforce
  from res(3) r obtain r1 where "out = [r1]" "is_response ?env ''/c'' r1" by (auto simp: list_all2_Cons1)
  with res(1,2) show "let env = ?env in \<exists>s' r. http1_Handle env sample_uri None
        (reading_server (http1_writer env U0) (http1_reader env (\<lambda>_. False) (\<lambda>_ rd. rd) (\<lambda>_ st. (None, st)) R0)
          (\<lambda>_. []) (\<lambda>q body. url_Rest (URLp q))) ?rd ?con = Some (None, Between s')
    \<and> sent_bytes (ses_stream s') = r \<and> is_response env ''/c'' r"
    unfolding Let_def by auto
qed

end
