(* ===== verification/Encoding_Map.thy ===== *)
theory Encoding_Map
  imports Encoding_List
begin

section \<open>The list of encodings is a finite map\<close>

text \<open>
  What the users of \<open>encoding.List\<close> rely on, without its order and its binary search: a map from names to
  encodings in which \<open>Add\<close> never replaces an entry. Every sequence of operations on a new list gives the
  answers of the map.
\<close>

datatype ('r, 'w, 'e) list_op = OpAdd "('r, 'w, 'e) Encoding" | OpRemove string | OpGet string | OpContains string

datatype ('r, 'w, 'e) list_answer = Done bool | Found "('r, 'w, 'e) Encoding option"

subsection \<open>The two machines\<close>

fun list_step :: "('r, 'w, 'e) list_op \<Rightarrow> ('r, 'w, 'e) List \<Rightarrow> ('r, 'w, 'e) list_answer \<times> ('r, 'w, 'e) List" where
  "list_step (OpAdd e) l = apfst Done (Add l e)"
| "list_step (OpRemove n) l = apfst Done (Remove l n)"
| "list_step (OpGet n) l = (Found (Get l n), l)"
| "list_step (OpContains n) l = (Done (Contains l n), l)"

fun map_step :: "('r, 'w, 'e) list_op \<Rightarrow> (string \<rightharpoonup> ('r, 'w, 'e) Encoding) \<Rightarrow> ('r, 'w, 'e) list_answer \<times> (string \<rightharpoonup> ('r, 'w, 'e) Encoding)" where
  "map_step (OpAdd e) t = (if t (Name e) = None then (Done True, t(Name e \<mapsto> e)) else (Done False, t))"
| "map_step (OpRemove n) t = (Done (t n \<noteq> None), t(n := None))"
| "map_step (OpGet n) t = (Found (t n), t)"
| "map_step (OpContains n) t = (Done (t n \<noteq> None), t)"

fun run_ops :: "('o \<Rightarrow> 's \<Rightarrow> 'a \<times> 's) \<Rightarrow> 'o list \<Rightarrow> 's \<Rightarrow> 'a list" where
  "run_ops step [] s = []"
| "run_ops step (x # xs) s = (let (a, s') = step x s in a # run_ops step xs s')"

subsection \<open>The simulation\<close>

definition table :: "('r, 'w, 'e) List \<Rightarrow> string \<rightharpoonup> ('r, 'w, 'e) Encoding" where
  "table l = Get l"

lemma table_Some: "descending l \<Longrightarrow> table l n = Some e \<longleftrightarrow> e \<in> set l \<and> Name e = n"
  using Get_result [of l n] Get_member [of l e n] by (auto simp: table_def split: option.splits)

lemma table_None: "descending l \<Longrightarrow> table l n = None \<longleftrightarrow> n \<notin> Name ` set l"
  using Get_result [of l n] Get_member [of l _ n] by (auto simp: table_def split: option.splits)

lemma table_eqI:
  assumes "descending l" "\<And>n e. t n = Some e \<longleftrightarrow> e \<in> set l \<and> Name e = n"
  shows "table l = t"
proof
  fix n
  show "table l n = t n"
    using table_Some [OF assms(1), of n] assms(2) [of n] by (cases "table l n"; cases "t n") auto
qed

lemma table_Add:
  assumes d: "descending l"
  shows "fst (Add l e) = (table l (Name e) = None)"
    and "table (snd (Add l e)) = (if table l (Name e) = None then (table l)(Name e \<mapsto> e) else table l)"
proof -
  obtain r i where ri: "index l (Name e) = (r, i)" by fastforce
  have r: "r \<longleftrightarrow> table l (Name e) \<noteq> None"
    using Contains_iff [OF d, of "Name e"] ri table_None [OF d, of "Name e"] by (simp add: Contains_def)
  show "fst (Add l e) = (table l (Name e) = None)" using Add_result [OF d, of e] ri r by (simp add: Let_def)
  show "table (snd (Add l e)) = (if table l (Name e) = None then (table l)(Name e \<mapsto> e) else table l)"
  proof (cases r)
    case True
    then show ?thesis using Add_result [OF d, of e] ri r by auto
  next
    case False
    then have s: "set (snd (Add l e)) = insert e (set l)"
      using Add_result [OF d, of e] ri encodings.insert_set [of l e i] d by (simp add: descending_def Let_def)
    have "table (snd (Add l e)) = (table l)(Name e \<mapsto> e)"
    proof (rule table_eqI [OF Add_descending [OF d]])
      fix n x
      show "((table l)(Name e \<mapsto> e)) n = Some x \<longleftrightarrow> x \<in> set (snd (Add l e)) \<and> Name x = n"
        using s table_Some [OF d, of n x] table_None [OF d, of "Name e"] False r by auto
    qed
    then show ?thesis using False r by simp
  qed
qed

lemma table_Remove:
  assumes d: "descending l"
  shows "fst (Remove l n) = (table l n \<noteq> None)" and "table (snd (Remove l n)) = (table l)(n := None)"
proof -
  obtain r i where ri: "index l n = (r, i)" by fastforce
  have r: "r \<longleftrightarrow> table l n \<noteq> None"
    using Contains_iff [OF d, of n] ri table_None [OF d, of n] by (simp add: Contains_def)
  show "fst (Remove l n) = (table l n \<noteq> None)" using Remove_result [OF d, of n] ri r by (simp add: Let_def)
  have s: "set (snd (Remove l n)) = {x \<in> set l. Name x \<noteq> n}"
  proof (cases r)
    case True
    then show ?thesis
      using Remove_result [OF d, of n] ri encodings.remove_keeps_order(2) [of l n i] d by (simp add: descending_def Let_def)
  next
    case False
    then show ?thesis using Remove_result [OF d, of n] ri r table_None [OF d, of n] by auto
  qed
  show "table (snd (Remove l n)) = (table l)(n := None)"
  proof (rule table_eqI [OF Remove_descending [OF d]])
    fix m x
    show "((table l)(n := None)) m = Some x \<longleftrightarrow> x \<in> set (snd (Remove l n)) \<and> Name x = m"
      using s table_Some [OF d, of m x] by auto
  qed
qed

lemma list_step_simulates:
  assumes "descending l"
  shows "fst (list_step x l) = fst (map_step x (table l)) \<and> table (snd (list_step x l)) = snd (map_step x (table l))
    \<and> descending (snd (list_step x l))"
proof (cases x)
  case (OpAdd e)
  with table_Add [OF assms, of e] Add_descending [OF assms, of e] show ?thesis by auto
next
  case (OpRemove n)
  with table_Remove [OF assms, of n] Remove_descending [OF assms, of n] show ?thesis by simp
next
  case (OpContains n)
  with Contains_iff [OF assms, of n] table_None [OF assms, of n] assms show ?thesis by simp
qed (use assms in \<open>simp add: table_def\<close>)

lemma run_list_table: "descending l \<Longrightarrow> run_ops list_step xs l = run_ops map_step xs (table l)"
proof (induction xs arbitrary: l)
  case (Cons x xs)
  obtain a l' where s: "list_step x l = (a, l')" by fastforce
  with list_step_simulates [OF Cons.prems, of x] have "map_step x (table l) = (a, table l')" "descending l'"
    by (metis fst_conv prod.collapse snd_conv)+
  with s Cons.IH [of l'] show ?case by (simp add: Let_def)
qed simp

subsection \<open>Property\<close>

text \<open>
  C9: every sequence of additions, removals and lookups on a new list of encodings gives the answers a finite
  map gives: the sorted list with its binary search implements the map.
\<close>

theorem encodings_refine_map:
  "run_ops list_step xs NewList = run_ops map_step xs (\<lambda>_. None)"
proof -
  have "table (NewList :: ('a, 'b, 'c) List) = (\<lambda>_. None)"
    by (rule ext) (simp add: table_def Get_def index_def NewList_def)
  then show ?thesis using run_list_table [OF NewList_descending(1), of xs] by simp
qed

end
