(* ===== verification/Endpoints.thy ===== *)
theory Endpoints
  imports Prelude
begin

section \<open>Protocols, safe errors and extensions\<close>

text \<open>
  The protocols of the transports and of a session, the protocol a TLS connection negotiated
  (\<open>tls/ProtocolNegotiator.go\<close>), plain connections as streams (\<open>connstream\<close>), errors that carry a text for
  the user (\<open>jps/jpserror\<close>, \<open>jps/errors.go\<close>), and lists of extensions (\<open>jps/extension.go\<close>).
\<close>

subsection \<open>Protocols\<close>

datatype protocol = TCPProtocol | UDPProtocol | UnixProtocol | SessionProtocol

fun Protocol_name :: "protocol \<Rightarrow> string" where
  "Protocol_name TCPProtocol = ''tcp''"
| "Protocol_name UDPProtocol = ''udp''"
| "Protocol_name UnixProtocol = ''unix''"
| "Protocol_name SessionProtocol = ''http''"

datatype net_conn = TCPConn | UDPConn | UnixConn | OtherConn

definition ConnStream_Protocol :: "net_conn \<Rightarrow> protocol option" where
  "ConnStream_Protocol c =
     (case c of TCPConn \<Rightarrow> Some TCPProtocol | UDPConn \<Rightarrow> Some UDPProtocol | UnixConn \<Rightarrow> Some UnixProtocol
      | OtherConn \<Rightarrow> None)"

text \<open>
  \<open>crypto/tls\<close> is a parameter: the handshake (with its error) changes the connection, and its state has
  the name of the negotiated protocol, empty for none. \<open>tls\<close> is the type assertion.
\<close>

record ('c, 'e) tls_ops =
  Handshake :: "'c \<Rightarrow> 'e option \<times> 'c"
  NegotiatedProtocol :: "'c \<Rightarrow> string"

definition ProtocolNegotiator :: "('c, 'e) tls_ops option \<Rightarrow> string \<Rightarrow> 'c \<Rightarrow> (string \<times> 'e option) \<times> 'c" where
  "ProtocolNegotiator tls p con =
     (case tls of
        None \<Rightarrow> ((p, None), con)
      | Some ops \<Rightarrow>
          (case Handshake ops con of
             (Some err, con') \<Rightarrow> ((p, Some err), con')
           | (None, con') \<Rightarrow>
               (if NegotiatedProtocol ops con' \<noteq> [] then ((NegotiatedProtocol ops con', None), con')
                else ((p, None), con'))))"

subsection \<open>Errors\<close>

text \<open>Errors: one of a package, by its text; \<open>jpserror.Error\<close>, wrapping another; one wrapped by \<open>fmt.Errorf\<close> with a text in front.\<close>

datatype go_error = PlainError string | SafeError string go_error | WrappedError string go_error

fun error_text :: "go_error \<Rightarrow> string" where
  "error_text (PlainError t) = t"
| "error_text (SafeError safe e) = safe @ '': '' @ error_text e"
| "error_text (WrappedError t e) = t @ error_text e"

fun error_Unwrap :: "go_error \<Rightarrow> go_error option" where
  "error_Unwrap (PlainError t) = None"
| "error_Unwrap (SafeError safe e) = Some e"
| "error_Unwrap (WrappedError t e) = Some e"

fun error_UserSafeStr :: "go_error \<Rightarrow> string option" where
  "error_UserSafeStr (SafeError safe e) = Some safe"
| "error_UserSafeStr e = None"

text \<open>\<open>errors.Is\<close> of the standard library: the error or one it wraps is the target.\<close>

fun errors_Is :: "go_error \<Rightarrow> go_error \<Rightarrow> bool" where
  "errors_Is (PlainError t) target = (PlainError t = target)"
| "errors_Is (SafeError safe e) target = (SafeError safe e = target \<or> errors_Is e target)"
| "errors_Is (WrappedError t e) target = (WrappedError t e = target \<or> errors_Is e target)"

definition ErrNotSupported :: go_error where
  "ErrNotSupported = PlainError ''not supported''"

definition ErrResponseStatusNotSupported :: go_error where
  "ErrResponseStatusNotSupported = PlainError ''response status not supported''"

definition ErrMethodNotSupported :: go_error where
  "ErrMethodNotSupported = PlainError ''method not supported''"

definition IgnoreNotSupported :: "go_error option \<Rightarrow> go_error option" where
  "IgnoreNotSupported err = (case err of None \<Rightarrow> None | Some e \<Rightarrow> if errors_Is e ErrNotSupported then None else Some e)"

definition GetUserSafeError :: "go_error \<Rightarrow> string \<Rightarrow> go_error" where
  "GetUserSafeError err defaultSafeStr = (case error_UserSafeStr err of Some _ \<Rightarrow> err | None \<Rightarrow> SafeError defaultSafeStr err)"

subsection \<open>Extensions\<close>

fun ServerExtensionInit :: "('s \<Rightarrow> 'e option \<times> 's) list \<Rightarrow> 's \<Rightarrow> 'e option \<times> 's" where
  "ServerExtensionInit [] s = (None, s)"
| "ServerExtensionInit (ext # exts) s =
     (case ext s of (Some err, s') \<Rightarrow> (Some err, s') | (None, s') \<Rightarrow> ServerExtensionInit exts s')"

definition Install :: "('s \<Rightarrow> 'e option \<times> 's) \<Rightarrow> 's \<Rightarrow> 'e option \<times> 's" where
  "Install ext s = ext s"

text \<open>A list of extensions is an extension, and lists install one after the other.\<close>

lemma ServerExtensionInit_append:
  "ServerExtensionInit (xs @ ys) s =
     (case ServerExtensionInit xs s of (Some err, s') \<Rightarrow> (Some err, s') | (None, s') \<Rightarrow> ServerExtensionInit ys s')"
  by (induction xs arbitrary: s) (auto split: prod.splits option.splits)

subsection \<open>Properties\<close>

text \<open>
  The text that \<open>GetUserSafeError\<close> gives the user is the one an error brings for the user, or the default:
  no text of an inner error gets into it, although a safe error further inside is overlooked; what the
  error is an instance of stays the same, so \<open>IgnoreNotSupported\<close> treats both alike.
\<close>

theorem safe_text:
  "error_UserSafeStr (GetUserSafeError err d) = Some (case err of SafeError safe e \<Rightarrow> safe | _ \<Rightarrow> d)
    \<and> errors_Is (GetUserSafeError err d) ErrNotSupported = errors_Is err ErrNotSupported
    \<and> (IgnoreNotSupported (Some (GetUserSafeError err d)) = None) = (IgnoreNotSupported (Some err) = None)
    \<and> GetUserSafeError (GetUserSafeError err d) d' = GetUserSafeError err d"
  by (cases err) (auto simp: GetUserSafeError_def IgnoreNotSupported_def ErrNotSupported_def)

end
