(* ===== verification/Etag.thy ===== *)
theory Etag
  imports Prelude
begin

section \<open>Entity tags: \<open>etag/etag.go\<close>\<close>

text \<open>
  A number is written with the 88 characters of an alphabet as digits, the most significant first. The
  code works on 64-bit words: the loop that finds the first digit's weight multiplies until the
  product exceeds the number, and the product may wrap. A loop that does not end is \<^term>\<open>None\<close>.
\<close>

definition etagBaseAlphabet :: string where
  "etagBaseAlphabet = ''!%&()*,./01234566789:;<=>?@ABCDEFGHIJKLMNOPQRSTUVWXYZ[]^_`abcdefghijklmnopqrstuvwxyz{|}~''"

partial_function (option) etag_scale :: "64 word \<Rightarrow> 64 word \<Rightarrow> nat \<Rightarrow> (64 word \<times> nat) option" where
  "etag_scale v c l =
     (if c * of_nat (length etagBaseAlphabet) \<le> v
      then etag_scale v (c * of_nat (length etagBaseAlphabet)) (l + 1)
      else Some (c, l))"

fun etag_digits :: "nat \<Rightarrow> 64 word \<Rightarrow> 64 word \<Rightarrow> string go" where
  "etag_digits 0 v c = Inr []"
| "etag_digits (Suc n) v c =
     (if c = 0 then Inl DivideByZero
      else bind_go (go_index etagBaseAlphabet (unat (v div c))) (\<lambda>d.
        bind_go (etag_digits n (v mod c) (c div of_nat (length etagBaseAlphabet))) (\<lambda>s. Inr (d # s))))"

definition etagFormatUint64 :: "64 word \<Rightarrow> string go option" where
  "etagFormatUint64 v = map_option (\<lambda>(c, l). etag_digits l v c) (etag_scale v 1 1)"

definition etagFormatInt64 :: "int64 \<Rightarrow> string go option" where
  "etagFormatInt64 v =
     (if v <s 0 then map_option (\<lambda>r. bind_go r (\<lambda>s. Inr (''-'' @ s))) (etagFormatUint64 (- v))
      else etagFormatUint64 v)"

definition jEpoch :: int64 where
  "jEpoch = 1588908438000000060"

record ETag =
  Tag :: string
  Week :: bool

definition ETag_String :: "ETag \<Rightarrow> string" where
  "ETag_String tag =
     (if Week tag then ''W/'' @ [CHR 0x22] @ Tag tag @ [CHR 0x22] else [CHR 0x22] @ Tag tag @ [CHR 0x22])"

text \<open>\<open>mtime\<close> is the modification time in nanoseconds of Unix time.\<close>

definition SimpleFileETag :: "int64 \<Rightarrow> int64 \<Rightarrow> bool \<Rightarrow> ETag go option" where
  "SimpleFileETag mtime sz week =
     Option.bind (etagFormatInt64 (mtime - jEpoch)) (\<lambda>r1.
       map_option (\<lambda>r2. bind_go r1 (\<lambda>s1. bind_go r2 (\<lambda>s2.
         Inr \<lparr>Tag = s1 @ ''+'' @ s2, Week = week\<rparr>))) (etagFormatInt64 sz))"

subsection \<open>Digits\<close>

text \<open>The digits of a number below \<open>88 ^ (k + 1)\<close>, the most significant first.\<close>

fun base_digits :: "nat \<Rightarrow> nat \<Rightarrow> string" where
  "base_digits 0 n = [etagBaseAlphabet ! (n mod 88)]"
| "base_digits (Suc k) n = etagBaseAlphabet ! (n div 88 ^ Suc k mod 88) # base_digits k (n mod 88 ^ Suc k)"

lemma alphabet_length [simp]: "length etagBaseAlphabet = 88"
  by (simp add: etagBaseAlphabet_def)

lemma power_small: "k \<le> 9 \<Longrightarrow> (88 :: nat) ^ k < 2 ^ 63"
proof -
  assume "k \<le> 9"
  then have "(88 :: nat) ^ k \<le> 88 ^ 9" by (rule power_increasing) simp
  also have "\<dots> < 2 ^ 63" by simp
  finally show ?thesis .
qed

lemma scale_product:
  fixes c v :: "64 word"
  assumes "unat c = 88 ^ k" "k \<le> 9" "unat v \<le> 2 ^ 63"
  shows "c * 88 \<le> v \<longleftrightarrow> 88 ^ Suc k \<le> unat v" and "k < 9 \<Longrightarrow> unat (c * 88) = 88 ^ Suc k"
proof -
  have p: "unat (c * 88 :: 64 word) = 88 ^ Suc k mod 2 ^ 64"
    using assms(1) by (simp add: unat_word_ariths mult.commute)
  have small: "unat (c * 88) = 88 ^ Suc k" if "k < 9"
  proof -
    have "(88 :: nat) ^ Suc k < 2 ^ 63" by (rule power_small) (use that in simp)
    then have "(88 :: nat) ^ Suc k < 2 ^ 64" by (rule less_trans) simp
    then show ?thesis unfolding p by (rule mod_less)
  qed
  then show "k < 9 \<Longrightarrow> unat (c * 88) = 88 ^ Suc k" .
  show "c * 88 \<le> v \<longleftrightarrow> 88 ^ Suc k \<le> unat v"
  proof (cases "k < 9")
    case True
    with small show ?thesis by (simp add: word_le_nat_alt)
  next
    case False
    with assms(2) have k: "k = 9" by simp
    have "unat (c * 88) = 9403353527230660608" unfolding p k by simp
    moreover have "(2 :: nat) ^ 63 < 9403353527230660608" "(2 :: nat) ^ 63 < 88 ^ Suc 9" by simp_all
    ultimately show ?thesis using assms(3) unfolding k by (simp add: word_le_nat_alt)
  qed
qed

lemma scale_ok:
  assumes "unat v \<le> 2 ^ 63"
  shows "unat c = 88 ^ k \<Longrightarrow> k \<le> 9 \<Longrightarrow> 88 ^ k \<le> max 1 (unat v) \<Longrightarrow>
    \<exists>c' K. etag_scale v c (Suc k) = Some (c', Suc K) \<and> unat c' = 88 ^ K \<and> K \<le> 9
      \<and> 88 ^ K \<le> max 1 (unat v) \<and> unat v < 88 ^ Suc K"
proof (induction "9 - k" arbitrary: c k rule: less_induct)
  case less
  note step = scale_product [OF less.prems(1,2) assms]
  show ?case
  proof (cases "88 ^ Suc k \<le> unat v")
    case True
    have k: "k < 9"
    proof (rule ccontr)
      assume "\<not> k < 9"
      then have "k = 9" using less.prems(2) by simp
      with True assms have "(88 :: nat) ^ Suc 9 \<le> 2 ^ 63" by simp
      then show False by simp
    qed
    have "9 - Suc k < 9 - k" using k by simp
    from less.hyps [OF this step(2) [OF k]] k True
    show ?thesis using step(1) by (subst etag_scale.simps) (simp add: max_def split: if_splits)
  next
    case False
    with less.prems step(1) show ?thesis
      by (subst etag_scale.simps) auto
  qed
qed

lemma digits_ok:
  "unat c = 88 ^ k \<Longrightarrow> k \<le> 9 \<Longrightarrow> unat v < 88 ^ Suc k \<Longrightarrow> etag_digits (Suc k) v c = Inr (base_digits k (unat v))"
proof (induction k arbitrary: v c)
  case 0
  then have "c = 1" by (metis power_0 unat_1 word_unat_eq_iff)
  with 0 show ?case by simp
next
  case (Suc k)
  have c: "c \<noteq> 0" using Suc.prems(1) by auto
  have d: "unat (v div c) = unat v div 88 ^ Suc k" "unat (v mod c) = unat v mod 88 ^ Suc k"
    using Suc.prems(1) by (simp_all add: unat_div_distrib unat_mod_distrib)
  have lt: "unat v div 88 ^ Suc k < 88"
    using Suc.prems(3) by (subst div_less_iff_less_mult) (simp_all add: mult.commute)
  have "unat (c div 88) = 88 ^ k" using Suc.prems(1) by (simp add: unat_div_distrib)
  from Suc.IH [OF this, of "v mod c"] Suc.prems(2) d
  have "etag_digits (Suc k) (v mod c) (c div 88) = Inr (base_digits k (unat v mod 88 ^ Suc k))" by simp
  with c d lt show ?case by (simp del: etag_digits.simps(2) power_Suc add: etag_digits.simps(2) [of "Suc k"])
qed

lemma FormatUint64_ok:
  assumes "unat v \<le> 2 ^ 63"
  shows "\<exists>K. etagFormatUint64 v = Some (Inr (base_digits K (unat v))) \<and> K \<le> 9
    \<and> 88 ^ K \<le> max 1 (unat v) \<and> unat v < 88 ^ Suc K"
proof -
  obtain c K where s: "etag_scale v 1 1 = Some (c, Suc K)" "unat c = 88 ^ K" "K \<le> 9"
    "88 ^ K \<le> max 1 (unat v)" "unat v < 88 ^ Suc K"
    using scale_ok [OF assms, of 1 0] by auto
  with digits_ok [OF s(2,3,5)] show ?thesis
    by (auto simp: etagFormatUint64_def simp del: etag_digits.simps power_Suc)
qed

subsection \<open>Properties\<close>

definition signed_digits :: "int \<Rightarrow> nat \<Rightarrow> string" where
  "signed_digits i k = (if i < 0 then CHR ''-'' # base_digits k (nat (- i)) else base_digits k (nat i))"

text \<open>\<open>digits_for i k\<close>: \<open>k + 1\<close> is the number of digits of \<open>i\<close>.\<close>

definition digits_for :: "int \<Rightarrow> nat \<Rightarrow> bool" where
  "digits_for i k \<longleftrightarrow> k \<le> 9 \<and> 88 ^ k \<le> max 1 (nat \<bar>i\<bar>) \<and> nat \<bar>i\<bar> < 88 ^ Suc k"

lemma FormatInt64_ok:
  "\<exists>k. etagFormatInt64 v = Some (Inr (signed_digits (sint v) k)) \<and> digits_for (sint v) k"
proof (cases "v <s 0")
  case True
  then have neg: "sint v < 0" by (simp add: word_sless_alt)
  have "unat (- v) = nat (- sint v)"
  proof (cases "v = min_int64")
    case True
    then show ?thesis by (simp add: min_int64_def)
  next
    case False
    then have s: "sint (- v) = - sint v" by (rule sint64_uminus)
    with neg have "0 \<le> sint (- v)" by simp
    then have "sint (- v) = int (unat (- v))" by (intro sint_unat) (simp add: word_sle_eq)
    with s have "int (unat (- v)) = - sint v" by (simp only:)
    then show ?thesis by (metis nat_int)
  qed
  moreover have "nat (- sint v) \<le> 2 ^ 63" using sint64_bounds(1) [of v] by simp
  ultimately have "\<exists>k. etagFormatUint64 (- v) = Some (Inr (base_digits k (nat (- sint v)))) \<and> k \<le> 9
      \<and> 88 ^ k \<le> max 1 (nat (- sint v)) \<and> nat (- sint v) < 88 ^ Suc k"
    using FormatUint64_ok [of "- v"] by simp
  with True neg show ?thesis by (auto simp: etagFormatInt64_def signed_digits_def digits_for_def)
next
  case False
  then have nonneg: "0 \<le> sint v" by (simp add: word_sless_alt)
  then have "sint v = int (unat v)" by (intro sint_unat) (simp add: word_sle_eq)
  then have "unat v = nat (sint v)" by (metis nat_int)
  moreover have "nat (sint v) \<le> 2 ^ 63" using sint64_bounds(2) [of v] by simp
  ultimately have "\<exists>k. etagFormatUint64 v = Some (Inr (base_digits k (nat (sint v)))) \<and> k \<le> 9
      \<and> 88 ^ k \<le> max 1 (nat (sint v)) \<and> nat (sint v) < 88 ^ Suc k"
    using FormatUint64_ok [of v] by simp
  with False nonneg show ?thesis by (auto simp: etagFormatInt64_def signed_digits_def digits_for_def)
qed

text \<open>
  C34: the tag of a file is computed for every 64-bit time and size: the loops end, no index is out of range,
  nothing is divided by zero, and the tag is the time since the epoch of the package (a 64-bit difference) and
  the size, each in base 88 with no leading zero. (For numbers from 88 ^ 9 on, the last product of the first
  loop is 88 ^ 10 and wraps; what is left of it, 9403353527230660608, is still larger than any signed 64-bit
  number, so the loop ends there: see \<open>scale_product\<close>.)
\<close>

theorem file_etag:
  "\<exists>j k. SimpleFileETag mtime sz week = Some (Inr \<lparr>Tag = signed_digits (sint (mtime - jEpoch)) j @ ''+'' @ signed_digits (sint sz) k, Week = week\<rparr>)
    \<and> digits_for (sint (mtime - jEpoch)) j \<and> digits_for (sint sz) k"
proof -
  obtain j where j: "etagFormatInt64 (mtime - jEpoch) = Some (Inr (signed_digits (sint (mtime - jEpoch)) j))"
    "digits_for (sint (mtime - jEpoch)) j" using FormatInt64_ok by blast
  obtain k where k: "etagFormatInt64 sz = Some (Inr (signed_digits (sint sz) k))" "digits_for (sint sz) k"
    using FormatInt64_ok by blast
  with j show ?thesis by (intro exI [of _ j] exI [of _ k]) (simp add: SimpleFileETag_def)
qed

text \<open>
  Two files of different sizes may have the same tag: the alphabet has the digit 6 twice, for 15
  and for 16.
\<close>

theorem etag_collision:
  "SimpleFileETag mtime 15 week = SimpleFileETag mtime 16 week"
proof -
  have "etagFormatInt64 15 = Some (Inr ''6'')" "etagFormatInt64 16 = Some (Inr ''6'')"
    by (simp_all add: etagFormatInt64_def etagFormatUint64_def etag_scale.simps word_sless_alt etagBaseAlphabet_def)
  then show ?thesis by (simp add: SimpleFileETag_def)
qed

lemma ETag_String_start: "Week t \<Longrightarrow> hd (ETag_String t) = CHR ''W''"
  by (simp add: ETag_String_def)

end
