(* ===== verification/File_Server.thy ===== *)
theory File_Server
  imports Conditions Etag Reader_Writer
begin

section \<open>Serving files: \<open>fileserver/fileserver.go\<close>\<close>

text \<open>
  The file server maps a URL to a file below a root, checks the conditions of the request against the
  time and the tag of the file, and copies the file to the body. The file system is a parameter: opening
  a path, the attributes of an open file and its bytes; so are the operations on the response.
  \<open>path.Join\<close> and \<open>path.Clean\<close> are those of the standard library. A read of a regular file gives as many
  bytes as it is asked for and there are, then the end of the file; a read of no bytes gives none
  and no error. The copy loop may not end, which is \<^term>\<open>None\<close>.
\<close>

subsection \<open>Paths\<close>

fun split_slash :: "string \<Rightarrow> string list" where
  "split_slash [] = [[]]"
| "split_slash (c # s) =
     (if c = CHR ''/'' then [] # split_slash s
      else (case split_slash s of seg # segs \<Rightarrow> (c # seg) # segs | [] \<Rightarrow> [[c]]))"

fun join_slash :: "string list \<Rightarrow> string" where
  "join_slash [] = []"
| "join_slash [s] = s"
| "join_slash (s # segs) = s @ ''/'' @ join_slash segs"

text \<open>\<open>stack\<close> holds the elements kept so far, the last one first.\<close>

definition clean_step :: "bool \<Rightarrow> string \<Rightarrow> string list \<Rightarrow> string list" where
  "clean_step rooted seg stack =
     (if seg = '''' \<or> seg = ''.'' then stack
      else if seg = ''..'' then
        (case stack of
           [] \<Rightarrow> if rooted then [] else [''..'']
         | prev # rest \<Rightarrow> if prev = ''..'' then ''..'' # stack else rest)
      else seg # stack)"

definition path_Clean :: "string \<Rightarrow> string" where
  "path_Clean p =
     (if p = '''' then ''.''
      else (let rooted = (hd p = CHR ''/'');
                out = (if rooted then ''/'' else '''') @ join_slash (rev (fold (clean_step rooted) (split_slash p) []))
            in if out = '''' then ''.'' else out))"

fun path_Join :: "string list \<Rightarrow> string" where
  "path_Join [] = ''''"
| "path_Join (e # es) = (if e \<noteq> '''' then path_Clean (join_slash (e # es)) else path_Join es)"

subsection \<open>Opening a file\<close>

datatype file_error = FsNotExist | FsOther string | FsIO io_error | FsShortWrite | FsBody body_error
  | FsStatusNotSupported | ErrRequestHasNoURL

record file_stats =
  st_mtime :: int64
  st_size :: int64
  st_isdir :: bool

record 'f file_system =
  OpenFile :: "string \<Rightarrow> file_error + 'f"
  Stat :: "'f \<Rightarrow> file_error + file_stats"
  file_bytes :: "'f \<Rightarrow> string"

record 'u FileServer =
  GetRoot :: "'u \<Rightarrow> file_error + string"
  fs_ETag :: bool

definition open_path :: "'f file_system \<Rightarrow> string \<Rightarrow> file_error + 'f \<times> file_stats" where
  "open_path fsys p =
     (case OpenFile fsys p of
        Inl e \<Rightarrow> Inl e
      | Inr f \<Rightarrow> (case Stat fsys f of Inl e \<Rightarrow> Inl e | Inr st \<Rightarrow> Inr (f, st)))"

definition FileServer_Open ::
  "'u FileServer \<Rightarrow> 'f file_system \<Rightarrow> ('u \<Rightarrow> string) \<Rightarrow> 'u \<Rightarrow> file_error + string \<times> 'f \<times> file_stats" where
  "FileServer_Open sv fsys url_Path url =
     (case GetRoot sv url of
        Inl e \<Rightarrow> Inl e
      | Inr root \<Rightarrow>
          (let p = path_Join [root, url_Path url] in
           case open_path fsys p of
             Inl e \<Rightarrow> Inl e
           | Inr (f, stats) \<Rightarrow>
               if st_isdir stats then
                 (let p' = path_Join [p, ''index.html''] in
                  case open_path fsys p' of
                    Inl e \<Rightarrow> Inl e
                  | Inr (f', stats') \<Rightarrow> if st_isdir stats' then Inl FsNotExist else Inr (p', f', stats'))
               else Inr (p, f, stats)))"

subsection \<open>Copying a file\<close>

partial_function (option) write_loop ::
  "(string \<Rightarrow> 'st \<Rightarrow> ((int \<times> body_error option) \<times> 'st) go) \<Rightarrow> nat \<Rightarrow> bufio \<Rightarrow> 'st \<Rightarrow> (file_error option \<times> 'st) go option" where
  "write_loop w n src st =
     (case bufio_Read n src of ((data, rerr), src') \<Rightarrow>
        if data = [] then
          (case rerr of
             Some e \<Rightarrow> Some (Inr (if e = EOF then None else Some (FsIO e), st))
           | None \<Rightarrow> write_loop w n src' st)
        else
          (case w data st of
             Inl p \<Rightarrow> Some (Inl p)
           | Inr ((wn, werr), st') \<Rightarrow>
               if werr \<noteq> None then Some (Inr (map_option FsIO rerr, st'))
               else (case rerr of
                   Some e \<Rightarrow> Some (Inr (if e = EOF then None else Some (FsIO e), st'))
                 | None \<Rightarrow> if wn \<noteq> int (length data) then Some (Inr (Some FsShortWrite, st'))
                     else write_loop w n src' st')))"

definition file_write ::
  "(string \<Rightarrow> 'st \<Rightarrow> ((int \<times> body_error option) \<times> 'st) go) \<Rightarrow> bufio \<Rightarrow> int64 \<Rightarrow> int64 \<Rightarrow> 'st
     \<Rightarrow> (file_error option \<times> 'st) go option" where
  "file_write w src maxBufSize sz st =
     (let n = (if maxBufSize <s sz then maxBufSize else sz) in
      if n <s 0 then Some (Inl (Explicit ''makeslice: len out of range''))
      else write_loop w (unat n) src st)"

subsection \<open>Handling a request\<close>

fun firstErr :: "'e option list \<Rightarrow> 'e option" where
  "firstErr [] = None"
| "firstErr (e # es) = (if e \<noteq> None then e else firstErr es)"

fun inListOfStrings :: "string list \<Rightarrow> string \<Rightarrow> bool" where
  "inListOfStrings [] item = False"
| "inListOfStrings (s # l) item = (if item = s then True else inListOfStrings l item)"

text \<open>The first condition that fails, if any. Differences of times are in nanoseconds.\<close>

definition condition_fails :: "bool \<Rightarrow> string \<Rightarrow> int \<Rightarrow> Condition \<Rightarrow> bool go" where
  "condition_fails etagOn ETag mtime c =
     (case cond_Type c of
        ConditionTypeModSince \<Rightarrow> bind_go (params_Time (cond_Params c)) (\<lambda>t. Inr (mtime - t < 1000000000))
      | ConditionTypeNotModSince \<Rightarrow> bind_go (params_Time (cond_Params c)) (\<lambda>t. Inr (mtime - t \<ge> 1000000000))
      | ConditionTypeNotExists \<Rightarrow> Inr True
      | ConditionTypeETagNot \<Rightarrow>
          if etagOn then bind_go (params_Strs (cond_Params c)) (\<lambda>ss. Inr (inListOfStrings ss ETag)) else Inr False
      | ConditionTypeETag \<Rightarrow>
          if \<not> etagOn then Inr True
          else bind_go (params_Strs (cond_Params c)) (\<lambda>ss. Inr (\<not> inListOfStrings ss ETag))
      | ConditionTypeExists \<Rightarrow> Inr False)"

fun first_failing :: "bool \<Rightarrow> string \<Rightarrow> int \<Rightarrow> Condition list \<Rightarrow> Condition option go" where
  "first_failing etagOn ETag mtime [] = Inr None"
| "first_failing etagOn ETag mtime (c # cs) =
     bind_go (condition_fails etagOn ETag mtime c) (\<lambda>b. if b then Inr (Some c) else first_failing etagOn ETag mtime cs)"

text \<open>
  What the handler does with the response: its status and the operations on its body. Errors of the
  metadata setters are dropped by the code.
\<close>

record 'st file_response =
  fr_SetStatus :: "ResponseStatus \<Rightarrow> 'st \<Rightarrow> (file_error option \<times> 'st) go"
  fr_StringBody :: "string \<Rightarrow> 'st \<Rightarrow> (file_error option \<times> 'st) go"
  fr_Write :: "string \<Rightarrow> 'st \<Rightarrow> ((int \<times> body_error option) \<times> 'st) go"
  fr_Close :: "'st \<Rightarrow> (file_error option \<times> 'st) go"
  fr_SetETag :: "string \<Rightarrow> bool \<Rightarrow> 'st \<Rightarrow> 'st go"
  fr_SetSize :: "int64 \<Rightarrow> 'st \<Rightarrow> 'st go"
  fr_SetTypeString :: "string \<Rightarrow> 'st \<Rightarrow> 'st go"
  fr_SetMTime :: "int64 \<Rightarrow> 'st \<Rightarrow> 'st go"

definition set_status_close :: "'st file_response \<Rightarrow> ResponseStatus \<Rightarrow> 'st \<Rightarrow> ((bool \<times> file_error option) \<times> 'st) go" where
  "set_status_close R status st =
     bind_go (fr_SetStatus R status st) (\<lambda>(e1, st1). bind_go (fr_Close R st1) (\<lambda>(e2, st2).
       Inr ((True, firstErr [e1, e2]), st2)))"

text \<open>\<open>mime\<close> is \<open>mime.TypeByExtension\<close> of the extension of a path.\<close>

definition serve_file ::
  "'st file_response \<Rightarrow> (string \<Rightarrow> string) \<Rightarrow> string \<Rightarrow> string \<Rightarrow> file_stats \<Rightarrow> 'st
     \<Rightarrow> ((bool \<times> file_error option) \<times> 'st) go option" where
  "serve_file R mime filePath content stats st =
     (case bind_go (fr_SetSize R (st_size stats) st) (\<lambda>st1. bind_go (fr_SetTypeString R (mime filePath) st1)
             (fr_SetMTime R (st_mtime stats))) of
        Inl p \<Rightarrow> Some (Inl p)
      | Inr st3 \<Rightarrow>
          map_option (\<lambda>r. bind_go r (\<lambda>(err, st4).
            if err \<noteq> None then Inr ((False, err), st4)
            else bind_go (fr_Close R st4) (\<lambda>(_, st5). Inr ((True, None), st5))))
          (file_write (fr_Write R) \<lparr>pending = content, end_error = EOF\<rparr> 16384 (st_size stats) st3))"

definition FileServer_Handle ::
  "'u FileServer \<Rightarrow> 'f file_system \<Rightarrow> ('u \<Rightarrow> string) \<Rightarrow> (string \<Rightarrow> string) \<Rightarrow> 'st file_response \<Rightarrow> 'u option
     \<Rightarrow> Condition list \<Rightarrow> 'st \<Rightarrow> ((bool \<times> file_error option) \<times> 'st) go option" where
  "FileServer_Handle sv fsys url_Path mime R url conditions st =
     (case url of
        None \<Rightarrow> Some (Inr ((False, Some ErrRequestHasNoURL), st))
      | Some u \<Rightarrow>
          (case FileServer_Open sv fsys url_Path u of
             Inl e \<Rightarrow>
               if e = FsNotExist then
                 Some (bind_go (fr_SetStatus R ResponseStatusNotFound st) (\<lambda>(e1, st1).
                   bind_go (fr_StringBody R ''404: Not found!'' st1) (\<lambda>(e2, st2).
                     Inr ((True, firstErr [e1, e2]), st2))))
               else Some (Inr ((False, Some e), st))
           | Inr (filePath, f, stats) \<Rightarrow>
               Option.bind
                 (if fs_ETag sv then
                    map_option (\<lambda>r. bind_go r (\<lambda>t. bind_go (fr_SetETag R (ETag_String t) False st) (\<lambda>st1.
                      Inr (ETag_String t, st1)))) (SimpleFileETag (st_mtime stats) (st_size stats) True)
                  else Some (Inr ([], st)))
                 (\<lambda>r. case r of
                    Inl p \<Rightarrow> Some (Inl p)
                  | Inr (ETag, st1) \<Rightarrow>
                      (case first_failing (fs_ETag sv) ETag (sint (st_mtime stats)) conditions of
                         Inl p \<Rightarrow> Some (Inl p)
                       | Inr (Some c) \<Rightarrow> Some (set_status_close R (cond_Fail c) st1)
                       | Inr None \<Rightarrow> serve_file R mime filePath (file_bytes fsys f) stats st1))))"

subsection \<open>Where a path leads\<close>

text \<open>An element of a path that is a name.\<close>

definition plain_name :: "string \<Rightarrow> bool" where
  "plain_name s \<longleftrightarrow> s \<noteq> '''' \<and> s \<noteq> ''.'' \<and> s \<noteq> ''..'' \<and> CHR ''/'' \<notin> set s"

definition abs_path :: "string list \<Rightarrow> string" where
  "abs_path segs = ''/'' @ join_slash segs"

lemma split_slash_not_Nil [simp]: "split_slash s \<noteq> []"
  by (induction s) (auto split: list.splits)

lemma split_slash_name: "CHR ''/'' \<notin> set s \<Longrightarrow> split_slash s = [s]"
  by (induction s) auto

lemma split_slash_append: "CHR ''/'' \<notin> set s \<Longrightarrow> split_slash (s @ CHR ''/'' # t) = s # split_slash t"
  by (induction s) auto

lemma split_join: "segs \<noteq> [] \<Longrightarrow> list_all (\<lambda>s. CHR ''/'' \<notin> set s) segs \<Longrightarrow> split_slash (join_slash segs) = segs"
  by (induction segs rule: join_slash.induct) (auto simp: split_slash_name split_slash_append)

lemma join_slash_append: "xs \<noteq> [] \<Longrightarrow> ys \<noteq> [] \<Longrightarrow> join_slash (xs @ ys) = join_slash xs @ ''/'' @ join_slash ys"
proof (induction xs rule: join_slash.induct)
  case (2 s)
  then show ?case by (cases ys) auto
qed auto

lemma clean_names: "list_all plain_name segs \<Longrightarrow> fold (clean_step True) segs stack = rev segs @ stack"
  by (induction segs arbitrary: stack) (auto simp: plain_name_def clean_step_def)

lemma clean_dots:
  "list_all plain_name stack \<Longrightarrow> length stack = n \<Longrightarrow> fold (clean_step True) (replicate n ''..'') stack = []"
proof (induction n arbitrary: stack)
  case (Suc n)
  then obtain s rest where "stack = s # rest" by (cases stack) auto
  with Suc show ?case by (auto simp: clean_step_def plain_name_def)
qed simp

lemma names_no_slash: "list_all plain_name segs \<Longrightarrow> list_all (\<lambda>s. CHR ''/'' \<notin> set s) segs"
  by (auto simp: plain_name_def list_all_iff)

text \<open>The path \<open>/../..\<close> with as many steps up as given, then names.\<close>

definition climbing :: "nat \<Rightarrow> string list \<Rightarrow> string" where
  "climbing n segs = abs_path (replicate n ''..'' @ segs)"

lemma path_Join_climbs:
  assumes "list_all plain_name root" "list_all plain_name segs" "root \<noteq> []" "segs \<noteq> []"
  shows "path_Join [abs_path root, climbing (length root) segs] = abs_path segs"
proof -
  let ?up = "replicate (length root) ''..''"
  have s1: "list_all (\<lambda>s. CHR ''/'' \<notin> set s) root" using assms(1) by (rule names_no_slash)
  have s2: "list_all (\<lambda>s. CHR ''/'' \<notin> set s) (?up @ segs)" using names_no_slash [OF assms(2)] by (auto simp: list_all_iff)
  let ?p = "abs_path root @ ''/'' @ abs_path (?up @ segs)"
  have "?p = join_slash ([] # root @ [[]] @ ?up @ segs)"
    using assms(3,4) join_slash_append [of root "[] # ?up @ segs"]
      join_slash_append [of root "[] # ?up @ segs", THEN arg_cong [of _ _ "(@) ''/''"]]
      join_slash_append [of "?up" segs]
    by (cases root) (auto simp: abs_path_def neq_Nil_conv)
  then have "split_slash ?p = [] # root @ [[]] @ ?up @ segs"
    using s1 s2 by (subst split_join [symmetric, of "[] # root @ [[]] @ ?up @ segs"]) auto
  moreover have "fold (clean_step True) ([] # root @ [[]] @ ?up @ segs) [] = rev segs"
    using clean_names [OF assms(1), of "[]"] clean_dots [of "rev root" "length root"] clean_names [OF assms(2), of "[]"] assms(1)
    by (simp add: clean_step_def)
  ultimately have "path_Clean ?p = abs_path segs"
    by (simp add: path_Clean_def abs_path_def)
  then show ?thesis by (simp add: climbing_def abs_path_def)
qed

subsection \<open>The copy loop\<close>

lemma write_loop_copies:
  assumes "0 < n"
    and w: "\<And>d s. good s \<Longrightarrow> \<exists>s'. w d s = Inr ((int (length d), None), s') \<and> good s' \<and> out s' = out s @ d"
  shows "good st \<Longrightarrow> \<exists>st'. write_loop w n \<lparr>pending = data, end_error = EOF\<rparr> st = Some (Inr (None, st'))
    \<and> good st' \<and> out st' = out st @ data"
proof (induction "length data" arbitrary: data st rule: less_induct)
  case less
  show ?case
  proof (cases "data = []")
    case True
    then show ?thesis using assms(1) less.prems by (subst write_loop.simps) (simp add: bufio_Read_def)
  next
    case False
    obtain s' where s': "w (take n data) st = Inr ((int (length (take n data)), None), s')" "good s'"
      "out s' = out st @ take n data" using w [OF less.prems] by blast
    have "length (drop n data) < length data" using assms(1) False by simp
    from less.hyps [OF this s'(2)] s'(3) obtain st' where
      "write_loop w n \<lparr>pending = drop n data, end_error = EOF\<rparr> s' = Some (Inr (None, st'))" "good st'"
      "out st' = out st @ data" by auto
    with s'(1) False assms(1) show ?thesis
      by (subst write_loop.simps) (simp add: bufio_Read_def)
  qed
qed

lemma write_loop_stuck: "write_loop w n src st = Some r \<Longrightarrow> n \<noteq> 0"
proof (rule write_loop.raw_induct [where P = "\<lambda>_ n _ _ _. n \<noteq> 0" and w = w and n = n and src = src and st = st and y = r], goal_cases)
  case (1 f w n src st r)
  show ?case
  proof
    assume "n = 0"
    with 1(3) have "f w 0 src st = Some r" by (simp add: bufio_Read_def)
    then show False using 1(2) [of w 0 src st r] by simp
  qed
qed

subsection \<open>Properties\<close>

text \<open>
  C23: the file server does not keep to its root: for every root directory, given by its absolute and clean path
  and not \<open>/\<close> itself, a request path that climbs as many levels as the root is deep opens any file of the file
  system.
\<close>

theorem path_escapes_root:
  assumes "GetRoot sv url = Inr (abs_path root)" "url_Path url = climbing (length root) segs"
    and "list_all plain_name root" "list_all plain_name segs" "root \<noteq> []" "segs \<noteq> []"
    and "open_path fsys (abs_path segs) = Inr (f, stats)" "\<not> st_isdir stats"
  shows "FileServer_Open sv fsys url_Path url = Inr (abs_path segs, f, stats)"
  using assms path_Join_climbs [OF assms(3-6)] by (simp add: FileServer_Open_def del: path_Join.simps)

theorem path_escapes_root_witness:
  "FileServer_Open \<lparr>GetRoot = \<lambda>_. Inr ''/srv/www'', fs_ETag = False\<rparr>
      \<lparr>OpenFile = \<lambda>p. if p = ''/etc/passwd'' then Inr () else Inl FsNotExist,
       Stat = \<lambda>_. Inr \<lparr>st_mtime = 0, st_size = 9, st_isdir = False\<rparr>, file_bytes = \<lambda>_. ''root:x:0:''\<rparr>
      id ''/../../etc/passwd''
    = Inr (''/etc/passwd'', (), \<lparr>st_mtime = 0, st_size = 9, st_isdir = False\<rparr>)"
proof -
  have p: "abs_path [''srv'', ''www''] = ''/srv/www''" "abs_path [''etc'', ''passwd''] = ''/etc/passwd''"
    "climbing (length [''srv'', ''www'']) [''etc'', ''passwd''] = ''/../../etc/passwd''"
    "list_all plain_name [''srv'', ''www'']" "list_all plain_name [''etc'', ''passwd'']"
    by (simp_all add: abs_path_def climbing_def plain_name_def eval_nat_numeral)
  show ?thesis
    unfolding p(2) [symmetric]
    by (rule path_escapes_root [where root = "[''srv'', ''www'']" and segs = "[''etc'', ''passwd'']"])
      (simp_all only: p id_apply FileServer.select_convs file_stats.select_convs list.distinct not_False_eq_True
        open_path_def file_system.select_convs if_True sum.case simp_thms)
qed

text \<open>
  C24: the copy of a file to a body that takes what it is given: every byte arrives, in order, whatever the
  size of the file and of the buffer, and the call returns. Unless the size is 0: then the buffer
  is empty, no read ever reports the end of the file, and the call never returns.
\<close>

theorem file_copied:
  assumes "\<And>d s. good s \<Longrightarrow> \<exists>s'. w d s = Inr ((int (length d), None), s') \<and> good s' \<and> out s' = out s @ d"
    and "good st" "0 \<le>s sz"
  shows "if sz = 0 then file_write w \<lparr>pending = data, end_error = EOF\<rparr> 16384 sz st = None
    else \<exists>st'. file_write w \<lparr>pending = data, end_error = EOF\<rparr> 16384 sz st = Some (Inr (None, st'))
      \<and> out st' = out st @ data"
proof (cases "sz = 0")
  case True
  then show ?thesis
    using write_loop_stuck [of w 0 "\<lparr>pending = data, end_error = EOF\<rparr>" st]
    by (cases "write_loop w 0 \<lparr>pending = data, end_error = EOF\<rparr> st") (auto simp: file_write_def word_sless_alt)
next
  case False
  let ?n = "if 16384 <s sz then 16384 else sz"
  have "\<not> ?n <s 0" "?n \<noteq> 0" using assms(3) False by (auto simp: word_sless_alt word_sle_eq)
  then have "0 < unat ?n" by (simp add: unat_gt_0)
  from write_loop_copies [OF this assms(1,2), of data] obtain st' where
    "write_loop w (unat ?n) \<lparr>pending = data, end_error = EOF\<rparr> st = Some (Inr (None, st'))" "out st' = out st @ data"
    by blast
  with \<open>\<not> ?n <s 0\<close> False show ?thesis unfolding file_write_def Let_def by auto
qed

theorem file_copied_witness:
  "file_write (\<lambda>d s. Inr ((int (length d), None), s @ d)) \<lparr>pending = ''abc'', end_error = EOF\<rparr> 16384 3 ''>''
      = Some (Inr (None, ''>abc''))
    \<and> file_write (\<lambda>d s. Inr ((int (length d), None), s @ d)) \<lparr>pending = [], end_error = EOF\<rparr> 16384 0 ''>'' = None"
  using file_copied [of "\<lambda>_. True" "\<lambda>d s. Inr ((int (length d), None), s @ d)" id "''>''" 3 "''abc''"]
    file_copied [of "\<lambda>_. True" "\<lambda>d s. Inr ((int (length d), None), s @ d)" id "''>''" 0 "[]"]
  by (simp add: word_sle_eq)

text \<open>
  A failed write of the body is reported as success: \<open>write\<close> returns the error of the read, which is
  none.
\<close>

theorem write_error_lost:
  assumes "w (take (unat sz) data) st = Inr ((n, Some e), st')" "data \<noteq> []" "0 <s sz" "sz \<le>s 16384"
  shows "file_write w \<lparr>pending = data, end_error = EOF\<rparr> 16384 sz st = Some (Inr (None, st'))"
proof -
  have s: "\<not> 16384 <s sz" "\<not> sz <s 0" "unat sz \<noteq> 0"
    using assms(3,4) by (auto simp: word_sless_alt word_sle_eq unat_eq_0)
  then have "0 < unat sz" by simp
  with s assms(1,2) show ?thesis
    unfolding file_write_def Let_def by (subst write_loop.simps) (simp add: bufio_Read_def)
qed

theorem write_error_lost_witness:
  "file_write (\<lambda>d s. Inr ((0, Some ErrClosedPipe), s)) \<lparr>pending = ''abc'', end_error = EOF\<rparr> 16384 3 () = Some (Inr (None, ()))"
  by (rule write_error_lost) (auto simp: word_sless_alt word_sle_eq)

lemma inListOfStrings_iff: "inListOfStrings l x \<longleftrightarrow> x \<in> set l"
  by (induction l) auto







text \<open>
  Tags are compared with header values that the standard processor has turned into lower case, while
  the tag of a file starts with \<open>W/\<close>. So a request with \<open>If-Match\<close> always fails with 412, even with the
  tag the server sent; and \<open>If-None-Match\<close> never stops the file from being sent again.
\<close>

lemma lower_not_W: "to_lower s = s \<Longrightarrow> s \<noteq> [] \<Longrightarrow> hd s \<noteq> CHR ''W''"
proof (cases s)
  case (Cons c t)
  assume "to_lower s = s"
  with Cons have "lower_byte c = c" by (simp add: to_lower_def)
  moreover have "lower_byte (CHR ''W'') = CHR ''w''" by code_simp
  ultimately show ?thesis using Cons by auto
qed simp

theorem etag_conditions_useless:
  assumes "Week t" "\<forall>v \<in> set (GetValues p h ''If-Match'') \<union> set (GetValues p h ''If-None-Match''). to_lower v = v"
  shows "(GetValues p h ''If-Match'' \<notin> {[], [''*'']} \<longrightarrow>
      (\<exists>c. first_failing True (ETag_String t) mtime (Conditions parse_time p h get) = Inr (Some c)
        \<and> cond_Fail c = ResponseStatusPreconditionFailed))
    \<and> (GetValues p h ''If-Match'' = [] \<and> GetValues p h ''If-Unmodified-Since'' = [] \<and>
        GetValues p h ''If-None-Match'' \<notin> {[], [''*'']} \<longrightarrow>
      first_failing True (ETag_String t) mtime (Conditions parse_time p h get) = Inr None)"
proof -
  let ?im = "GetValues p h ''If-Match''" and ?inm = "GetValues p h ''If-None-Match''"
  have "ETag_String t \<noteq> []" by (simp add: ETag_String_def)
  then have n: "ETag_String t \<notin> set ?im" "ETag_String t \<notin> set ?inm"
    using assms lower_not_W ETag_String_start [OF assms(1)] by auto
  have "first_failing True (ETag_String t) mtime (Conditions parse_time p h get) =
      Inr (Some \<lparr>cond_Type = ConditionTypeETag, cond_Fail = ResponseStatusPreconditionFailed, cond_Params = StrsParam ?im\<rparr>)"
    if "?im \<notin> {[], [''*'']}"
    using that n(1)
    by (simp add: Conditions_parts match_part_def condition_fails_def params_Strs_def inListOfStrings_iff)
  moreover have "first_failing True (ETag_String t) mtime (Conditions parse_time p h get) = Inr None"
    if "?im = []" "GetValues p h ''If-Unmodified-Since'' = []" "?inm \<notin> {[], [''*'']}"
    using that n(2)
    by (simp add: Conditions_parts match_part_def none_match_part_def condition_fails_def params_Strs_def
        inListOfStrings_iff)
  ultimately show ?thesis by auto
qed

theorem etag_conditions_useless_witness:
  "(\<exists>c. first_failing True (ETag_String \<lparr>Tag = ''a'', Week = True\<rparr>) 0
      (Conditions (\<lambda>_ _. None) standard_processor
        (SetValuesRaw ''If-Match'' [to_lower (ETag_String \<lparr>Tag = ''a'', Week = True\<rparr>)] New_Header) True) = Inr (Some c)
    \<and> cond_Fail c = ResponseStatusPreconditionFailed)"
proof -
  let ?t = "\<lparr>Tag = ''a'', Week = True\<rparr>"
  let ?h = "SetValuesRaw ''If-Match'' [to_lower (ETag_String ?t)] New_Header"
  have v: "GetValues standard_processor ?h ''If-Match'' = [to_lower (ETag_String ?t)]"
    "GetValues standard_processor ?h ''If-None-Match'' = []"
    by code_simp+
  have "length (to_lower (ETag_String ?t)) \<noteq> length ''*''" by code_simp
  then have "to_lower (ETag_String ?t) \<noteq> ''*''" by metis
  then have "GetValues standard_processor ?h ''If-Match'' \<notin> {[], [''*'']}" using v(1) by simp
  moreover have "\<forall>v \<in> set (GetValues standard_processor ?h ''If-Match'') \<union> set (GetValues standard_processor ?h ''If-None-Match'').
      to_lower v = v" using v by simp
  moreover have "Week ?t" by simp
  ultimately show ?thesis using etag_conditions_useless [of ?t standard_processor ?h] by blast
qed

end
