(* ===== verification/Tcp_Session.thy ===== *)
theory Tcp_Session
  imports Prelude "HOL-Library.Transitive_Closure_Table"
begin

section \<open>TCP sessions: \<open>tcp/tcp.go\<close>\<close>

text \<open>
  A TCP session has one stream, its connection, and gives it out once. The methods as functions of the
  state, and a step relation for calls that run at the same time: \<open>AcceptStream\<close> and \<open>End\<close> read and write
  \<open>accepted\<close> under the lock, \<open>Close\<close> writes it without. The connection is a parameter of the code (\<open>net\<close>);
  the model counts how often it is closed.
\<close>

subsection \<open>The methods\<close>

record TCPSession =
  accepted :: bool
  conn_closes :: nat

datatype tcp_error = TcpEOS | TcpNotSupported

definition NewTCPSession :: TCPSession where
  "NewTCPSession = \<lparr>accepted = False, conn_closes = 0\<rparr>"

definition AcceptStream :: "'a TCPSession_scheme \<Rightarrow> tcp_error option \<times> 'a TCPSession_scheme" where
  "AcceptStream sess = (if accepted sess then (Some TcpEOS, sess) else (None, sess\<lparr>accepted := True\<rparr>))"

definition conn_Close :: "TCPSession \<Rightarrow> TCPSession" where
  "conn_Close sess = sess\<lparr>conn_closes := conn_closes sess + 1\<rparr>"

definition TCPSession_End :: "TCPSession \<Rightarrow> TCPSession" where
  "TCPSession_End sess = (if accepted sess then sess else conn_Close (sess\<lparr>accepted := True\<rparr>))"

definition TCPSession_Close :: "TCPSession \<Rightarrow> TCPSession" where
  "TCPSession_Close sess = conn_Close (sess\<lparr>accepted := True\<rparr>)"

definition RequestStream :: "TCPSession \<Rightarrow> tcp_error" where
  "RequestStream sess = TcpNotSupported"

subsection \<open>Calls at the same time\<close>

text \<open>
  \<open>lock_of\<close> is the call that holds the lock between its read and its write of \<open>accepted\<close>. The counters say
  how many streams were given out, how many calls of \<open>End\<close> took the connection, and how many calls of
  either kind are about to close it.
\<close>

datatype holder = Free | InAccept | InEnd

record tcp_world =
  tw_session :: TCPSession
  lock_of :: holder
  handed :: nat
  ended :: nat
  pending_closes :: nat

definition tcp_start :: tcp_world where
  "tcp_start = \<lparr>tw_session = NewTCPSession, lock_of = Free, handed = 0, ended = 0, pending_closes = 0\<rparr>"

inductive tcp_step :: "tcp_world \<Rightarrow> tcp_world \<Rightarrow> bool" where
  accept_eos: "lock_of w = Free \<Longrightarrow> accepted (tw_session w) \<Longrightarrow> tcp_step w w"
| accept_read: "lock_of w = Free \<Longrightarrow> \<not> accepted (tw_session w) \<Longrightarrow> tcp_step w (w\<lparr>lock_of := InAccept\<rparr>)"
| accept_write: "lock_of w = InAccept \<Longrightarrow>
    tcp_step w (w\<lparr>tw_session := (tw_session w)\<lparr>accepted := True\<rparr>, lock_of := Free, handed := handed w + 1\<rparr>)"
| end_done: "lock_of w = Free \<Longrightarrow> accepted (tw_session w) \<Longrightarrow> tcp_step w w"
| end_read: "lock_of w = Free \<Longrightarrow> \<not> accepted (tw_session w) \<Longrightarrow> tcp_step w (w\<lparr>lock_of := InEnd\<rparr>)"
| end_write: "lock_of w = InEnd \<Longrightarrow>
    tcp_step w (w\<lparr>tw_session := (tw_session w)\<lparr>accepted := True\<rparr>, lock_of := Free, ended := ended w + 1, pending_closes := pending_closes w + 1\<rparr>)"
| close_write: "tcp_step w (w\<lparr>tw_session := (tw_session w)\<lparr>accepted := True\<rparr>, pending_closes := pending_closes w + 1\<rparr>)"
| conn_close: "pending_closes w = Suc n \<Longrightarrow> tcp_step w (w\<lparr>tw_session := conn_Close (tw_session w), pending_closes := n\<rparr>)"

inductive_cases tcp_step_cases: "tcp_step w w'"

definition tcp_inv :: "tcp_world \<Rightarrow> bool" where
  "tcp_inv w \<longleftrightarrow> handed w + ended w \<le> 1 \<and> (\<not> accepted (tw_session w) \<or> lock_of w \<noteq> Free \<longrightarrow> handed w + ended w = 0)"

lemma tcp_step_inv: "tcp_step w w' \<Longrightarrow> tcp_inv w \<Longrightarrow> tcp_inv w'"
  by (erule tcp_step_cases) (auto simp: tcp_inv_def conn_Close_def)

lemma tcp_reachable_inv: "tcp_step\<^sup>*\<^sup>* tcp_start w \<Longrightarrow> tcp_inv w"
proof (induction rule: rtranclp_induct)
  case base
  show ?case by (simp add: tcp_start_def tcp_inv_def)
next
  case (step w w')
  then show ?case by (blast intro: tcp_step_inv)
qed

text \<open>A call that runs alone is a run of steps.\<close>

lemma AcceptStream_steps:
  assumes "lock_of w = Free"
  shows "tcp_step\<^sup>*\<^sup>* w (w\<lparr>tw_session := snd (AcceptStream (tw_session w)),
    handed := handed w + (if fst (AcceptStream (tw_session w)) = None then 1 else 0)\<rparr>)"
proof (cases "accepted (tw_session w)")
  case True
  then show ?thesis by (simp add: AcceptStream_def)
next
  case False
  then have "tcp_step w (w\<lparr>lock_of := InAccept\<rparr>)" using assms by (intro accept_read)
  moreover have "tcp_step (w\<lparr>lock_of := InAccept\<rparr>) (w\<lparr>tw_session := (tw_session w)\<lparr>accepted := True\<rparr>, handed := handed w + 1\<rparr>)"
    using accept_write [of "w\<lparr>lock_of := InAccept\<rparr>"] assms by (cases w) simp
  ultimately show ?thesis using False by (simp add: AcceptStream_def)
qed

subsection \<open>Properties\<close>

text \<open>
  C40: however the calls of \<open>AcceptStream\<close>, \<open>End\<close> and \<open>Close\<close> interleave, a session gives out its stream at most
  once, and \<open>End\<close> closes the connection only when nobody has the stream.
\<close>

theorem one_stream_per_session:
  assumes "tcp_step\<^sup>*\<^sup>* tcp_start w"
  shows "handed w \<le> 1 \<and> (handed w = 1 \<longrightarrow> ended w = 0 \<and> accepted (tw_session w))"
  using tcp_reachable_inv [OF assms] by (auto simp: tcp_inv_def)

theorem one_stream_per_session_witness:
  "\<exists>w. tcp_step\<^sup>*\<^sup>* tcp_start w \<and> handed w = 1 \<and> ended w = 0 \<and> accepted (tw_session w)"
proof -
  let ?w = "tcp_start\<lparr>tw_session := snd (AcceptStream (tw_session tcp_start)), handed := 1\<rparr>"
  have "tcp_step\<^sup>*\<^sup>* tcp_start ?w"
    using AcceptStream_steps [of tcp_start] by (simp add: tcp_start_def AcceptStream_def NewTCPSession_def)
  from this one_stream_per_session [OF this] show ?thesis by (intro exI [of _ ?w]) simp
qed

text \<open>\<open>Close\<close> does not take the lock, so a stream may be given out after its connection was closed.\<close>

theorem closed_stream_handed_out:
  "\<exists>w w'. tcp_step\<^sup>*\<^sup>* tcp_start w \<and> conn_closes (tw_session w) = 1 \<and> handed w = 0 \<and> tcp_step w w' \<and> handed w' = 1"
proof -
  let ?w1 = "tcp_start\<lparr>lock_of := InAccept\<rparr>"
  let ?w2 = "?w1\<lparr>tw_session := (tw_session ?w1)\<lparr>accepted := True\<rparr>, pending_closes := pending_closes ?w1 + 1\<rparr>"
  let ?w3 = "?w2\<lparr>tw_session := conn_Close (tw_session ?w2), pending_closes := 0\<rparr>"
  have "tcp_step tcp_start ?w1" by (rule accept_read) (simp_all add: tcp_start_def NewTCPSession_def)
  moreover have "tcp_step ?w1 ?w2" by (rule close_write)
  moreover have "tcp_step ?w2 ?w3" by (rule conn_close) (simp add: tcp_start_def)
  ultimately have "tcp_step\<^sup>*\<^sup>* tcp_start ?w3" by (meson converse_rtranclp_into_rtranclp rtranclp.rtrancl_refl)
  moreover have "tcp_step ?w3 (?w3\<lparr>tw_session := (tw_session ?w3)\<lparr>accepted := True\<rparr>, lock_of := Free, handed := handed ?w3 + 1\<rparr>)"
    by (rule accept_write) simp
  moreover have "conn_closes (tw_session ?w3) = 1" "handed ?w3 = 0" by (simp_all add: tcp_start_def conn_Close_def NewTCPSession_def)
  moreover have "handed (?w3\<lparr>tw_session := (tw_session ?w3)\<lparr>accepted := True\<rparr>, lock_of := Free, handed := handed ?w3 + 1\<rparr>) = 1"
    by (simp add: tcp_start_def)
  ultimately show ?thesis by blast
qed

end
