(* ===== verification/Listening.thy ===== *)
theory Listening
  imports Server Tcp_Session
begin

section \<open>Listening on TCP\<close>

text \<open>
  \<open>Server.ListenOn\<close> with a listener of \<open>tcp/tcp.go\<close>: accepted connections become sessions, and each session
  gives out its one stream. \<open>net.TCPListener\<close> is a parameter, \<open>accept_tcp\<close>, with a state of its own; a
  connection is any value.
\<close>

subsection \<open>TCP sessions with their connection\<close>

record 'c tcp_conn_session = TCPSession +
  ts_conn :: 'c

datatype 'n listen_error = NetError 'n | TcpError tcp_error

definition AcceptSession ::
  "('l \<Rightarrow> ('n + 'c) \<times> 'l) \<Rightarrow> 'l \<Rightarrow> ('n listen_error + 'c tcp_conn_session) \<times> 'l" where
  "AcceptSession accept_tcp l =
     (case accept_tcp l of
        (Inl err, l') \<Rightarrow> (Inl (NetError err), l')
      | (Inr conn, l') \<Rightarrow> (Inr (TCPSession.extend NewTCPSession (tcp_conn_session.fields conn)), l'))"

definition session_AcceptStream :: "'c tcp_conn_session \<Rightarrow> ('n listen_error + 'c) \<times> 'c tcp_conn_session" where
  "session_AcceptStream sess =
     (case AcceptStream sess of
        (Some err, sess') \<Rightarrow> (Inl (TcpError err), sess')
      | (None, sess') \<Rightarrow> (Inr (ts_conn sess'), sess'))"

text \<open>A listener that accepts the connections of a list and then fails.\<close>

fun accepts :: "('l \<Rightarrow> ('n + 'c) \<times> 'l) \<Rightarrow> 'l \<Rightarrow> 'c list \<Rightarrow> 'n \<Rightarrow> 'l \<Rightarrow> bool" where
  "accepts accept_tcp l [] err l' \<longleftrightarrow> accept_tcp l = (Inl err, l')"
| "accepts accept_tcp l (c # cs) err l' \<longleftrightarrow>
     (case accept_tcp l of (Inl e, l1) \<Rightarrow> False | (Inr c', l1) \<Rightarrow> c' = c \<and> accepts accept_tcp l1 cs err l')"

subsection \<open>One session\<close>

lemma fallback_gives_stream:
  assumes "\<not> accepted sess"
  shows "handleStreamSessionFallback session_AcceptStream sess []
    = Some (TcpError TcpEOS, sess\<lparr>accepted := True\<rparr>, [ts_conn sess])"
  using assms by (subst handleStreamSessionFallback.simps, subst handleStreamSessionFallback.simps)
    (simp add: session_AcceptStream_def AcceptStream_def)

lemma register_deregister:
  assumes "srv_state s = StateOpen"
  shows "deregisterConnection (s\<lparr>connections := connections s + 1\<rparr>) = s"
  using assms by (cases s) (simp add: deregisterConnection_def changeStateIf_def Let_def)

lemma HandleStreamSession_tcp:
  assumes "StreamSessionHandlers s = []" "\<not> accepted sess"
  shows "\<exists>sess'. HandleStreamSession (\<lambda>_. ''tcp'') session_AcceptStream s sess
    = Some (None, s, sess', if srv_state s = StateOpen then [ts_conn sess] else [])"
  using assms by (simp add: HandleStreamSession_def registerConnection_def StreamSessionHandlerList_Handle_def
      fallback_gives_stream register_deregister)

subsection \<open>Properties\<close>

lemma ListenOn_streams:
  assumes "StreamSessionHandlers s = []"
  shows "accepts accept_tcp l cs err l' \<Longrightarrow>
    ListenOn (AcceptSession accept_tcp) (\<lambda>_. ''tcp'') session_AcceptStream s l started
      = Some (NetError err, s, l', started @ (if srv_state s = StateOpen then cs else []))"
proof (induction cs arbitrary: l started)
  case Nil
  then show ?case by (subst ListenOn.simps) (simp add: AcceptSession_def)
next
  case (Cons c cs)
  then obtain l1 where acc: "accept_tcp l = (Inr c, l1)" "accepts accept_tcp l1 cs err l'" by (auto split: prod.splits sum.splits)
  let ?sess = "TCPSession.extend NewTCPSession (tcp_conn_session.fields c)"
  have sess: "\<not> accepted ?sess" "ts_conn ?sess = c"
    by (simp_all add: NewTCPSession_def TCPSession.defs tcp_conn_session.defs)
  from HandleStreamSession_tcp [OF assms sess(1)] obtain sess' where
    h: "HandleStreamSession (\<lambda>_. ''tcp'') session_AcceptStream s ?sess
      = Some (None :: 'b listen_error option, s, sess', if srv_state s = StateOpen then [c] else [])"
    unfolding sess(2) by blast
  show ?case
    by (subst ListenOn.simps) (simp add: AcceptSession_def acc(1) h Cons.IH [OF acc(2)])
qed

text \<open>
  C6: an open server without handlers for whole sessions that listens on TCP starts a stream handler for every
  accepted connection, once and in order, until the listener fails; its count of connections is what it was.
  A server that is closing or closed goes on accepting: the connections are neither handled nor closed.
\<close>

theorem listener_streams:
  assumes "StreamSessionHandlers s = []" "accepts accept_tcp l cs err l'"
  shows "ListenOn (AcceptSession accept_tcp) (\<lambda>_. ''tcp'') session_AcceptStream s l []
    = Some (NetError err, s, l', if srv_state s = StateOpen then cs else [])"
  using ListenOn_streams [OF assms] by simp

theorem listener_streams_witness:
  "let acc = \<lambda>l. case l of [] \<Rightarrow> (Inl ''closed'', []) | c # cs \<Rightarrow> (Inr c, cs);
       listen = \<lambda>s. ListenOn (AcceptSession acc) (\<lambda>_. ''tcp'') session_AcceptStream s [1, 2, 3 :: nat] []
   in listen (Open new_server) = Some (NetError ''closed'', Open new_server, [], [1, 2, 3])
    \<and> listen (Close new_server) = Some (NetError ''closed'', Close new_server, [], [])"
proof -
  let ?acc = "\<lambda>l :: nat list. case l of [] \<Rightarrow> (Inl ''closed'', []) | c # cs \<Rightarrow> (Inr c, cs)"
  have acc: "accepts ?acc [1, 2, 3] [1, 2, 3] ''closed'' []" by simp
  have handlers: "StreamSessionHandlers (Open new_server :: (nat tcp_conn_session, string listen_error) Server) = []"
    "StreamSessionHandlers (Close new_server :: (nat tcp_conn_session, string listen_error) Server) = []"
       by (simp_all add: Open_def Close_def changeState_def new_server_def)
  have states: "srv_state (Open v) = StateOpen" "srv_state (Close v) \<noteq> StateOpen" for v :: "(nat tcp_conn_session, string listen_error) Server"
    by (simp_all add: Open_def Close_def changeState_def)
  show ?thesis
    using listener_streams [OF handlers(1) acc] listener_streams [OF handlers(2) acc] by (simp add: states)
qed

end
