(* ===== verification/Url_Handler.thy ===== *)
theory Url_Handler
  imports Handler_Lists Prelude
begin

section \<open>Routing by URL: \<open>urlhandler/urlhandler.go\<close>\<close>

text \<open>
  Frame handlers that look at or change the URL of the request. A handler is a function of the frame
  that may panic; \<open>run_frame\<close> makes it a handler of the lists of \<open>Handler_Lists\<close>, where a panic ends the
  walk. A frame is its URL (\<^term>\<open>None\<close> for a nil pointer), its protocol and the rest. \<open>Hostname\<close> and
  \<open>Port\<close> are those of \<open>net/url\<close>.
\<close>

subsection \<open>Hosts\<close>

fun last_index_byte :: "string \<Rightarrow> char \<Rightarrow> nat option" where
  "last_index_byte [] c = None"
| "last_index_byte (x # xs) c =
     (case last_index_byte xs c of Some i \<Rightarrow> Some (Suc i) | None \<Rightarrow> if x = c then Some 0 else None)"

definition digit :: "char \<Rightarrow> bool" where
  "digit c \<longleftrightarrow> CHR ''0'' \<le> c \<and> c \<le> CHR ''9''"

definition validOptionalPort :: "string \<Rightarrow> bool" where
  "validOptionalPort port = (port = [] \<or> (hd port = CHR '':'' \<and> list_all digit (tl port)))"

definition splitHostPort :: "string \<Rightarrow> string \<times> string" where
  "splitHostPort hostPort =
     (let (host, port) = (case last_index_byte hostPort (CHR '':'') of
            Some colon \<Rightarrow> if validOptionalPort (drop colon hostPort) then (take colon hostPort, drop (colon + 1) hostPort)
              else (hostPort, [])
          | None \<Rightarrow> (hostPort, []))
      in (if host \<noteq> [] \<and> hd host = CHR ''['' \<and> last host = CHR '']'' then butlast (tl host) else host, port))"

record url_parts =
  u_Host :: string
  u_Path :: string

definition Hostname :: "url_parts \<Rightarrow> string" where
  "Hostname u = fst (splitHostPort (u_Host u))"

definition Port :: "url_parts \<Rightarrow> string" where
  "Port u = snd (splitHostPort (u_Host u))"

subsection \<open>Frames and handlers\<close>

record 'x frame_view =
  fv_URL :: "url_parts option"
  fv_Protocol :: string
  fv_rest :: 'x

type_synonym ('x, 'e) frame_fun = "'x frame_view \<Rightarrow> ((bool \<times> 'e option) \<times> 'x frame_view) go"

record ('x, 'e) frame_handler =
  fh_Protocol :: string
  fh_F :: "('x, 'e) frame_fun"

definition with_URL :: "'x frame_view \<Rightarrow> (url_parts \<Rightarrow> 'b go) \<Rightarrow> 'b go" where
  "with_URL f k = (case fv_URL f of None \<Rightarrow> Inl NilDereference | Some u \<Rightarrow> k u)"

definition StripPort :: "('x, 'e) frame_fun" where
  "StripPort f = with_URL f (\<lambda>u. Inr ((False, None), f\<lparr>fv_URL := Some (u\<lparr>u_Host := Hostname u\<rparr>)\<rparr>))"

definition PortStripper :: "('x, 'e) frame_handler" where
  "PortStripper = \<lparr>fh_Protocol = '''', fh_F = StripPort\<rparr>"

definition StripHTTPPort :: "('x, 'e) frame_fun" where
  "StripHTTPPort f = with_URL f (\<lambda>u.
     let port = Port u in
     if port = ''80'' \<or> port = ''443'' then Inr ((False, None), f\<lparr>fv_URL := Some (u\<lparr>u_Host := Hostname u\<rparr>)\<rparr>)
     else Inr ((False, None), f))"

definition HTTPPortStripper :: "('x, 'e) frame_handler" where
  "HTTPPortStripper = \<lparr>fh_Protocol = '''', fh_F = StripHTTPPort\<rparr>"

text \<open>Reading a key that is not in the map gives a nil handler.\<close>

definition HostSplitter_Handle :: "(string \<rightharpoonup> ('x, 'e) frame_handler) \<Rightarrow> ('x, 'e) frame_fun" where
  "HostSplitter_Handle hs f = with_URL f (\<lambda>u.
     case hs (u_Host u) of None \<Rightarrow> Inl NilDereference | Some h \<Rightarrow> fh_F h f)"

definition HostnameSplitter_Handle :: "(string \<rightharpoonup> ('x, 'e) frame_handler) \<Rightarrow> ('x, 'e) frame_fun" where
  "HostnameSplitter_Handle hns f = with_URL f (\<lambda>u.
     case hns (Hostname u) of
       None \<Rightarrow> Inl NilDereference
     | Some h \<Rightarrow> if length (fh_Protocol h) = 0 \<or> fv_Protocol f = fh_Protocol h then fh_F h f else Inr ((False, None), f))"

record ('x, 'e) PathPrefixSplitter =
  pps_Prefix :: string
  pps_F :: "('x, 'e) frame_fun"

definition PathPrefixSplitter_Handle :: "('x, 'e) PathPrefixSplitter \<Rightarrow> ('x, 'e) frame_fun" where
  "PathPrefixSplitter_Handle pps f = with_URL f (\<lambda>u.
     if has_prefix (u_Path u) (pps_Prefix pps) then pps_F pps f else Inr ((False, None), f))"

definition PathPrefixStripSplitter_Handle :: "('x, 'e) PathPrefixSplitter \<Rightarrow> ('x, 'e) frame_fun" where
  "PathPrefixStripSplitter_Handle ppss f = with_URL f (\<lambda>u.
     if has_prefix (u_Path u) (pps_Prefix ppss) then
       pps_F ppss (f\<lparr>fv_URL := Some (u\<lparr>u_Path := drop (length (pps_Prefix ppss)) (u_Path u)\<rparr>)\<rparr>)
     else Inr ((False, None), f))"

definition PathPrefixHandler :: "string \<Rightarrow> ('x, 'e) frame_handler \<Rightarrow> bool \<Rightarrow> ('x, 'e) frame_handler" where
  "PathPrefixHandler pathPrefix h strip =
     (if strip then
        \<lparr>fh_Protocol = fh_Protocol h, fh_F = PathPrefixStripSplitter_Handle \<lparr>pps_Prefix = pathPrefix, pps_F = fh_F h\<rparr>\<rparr>
      else
        \<lparr>fh_Protocol = fh_Protocol h, fh_F = PathPrefixSplitter_Handle \<lparr>pps_Prefix = pathPrefix, pps_F = fh_F h\<rparr>\<rparr>)"

record ('x, 'e) PathHandler =
  ph_Path :: string
  ph_F :: "('x, 'e) frame_fun"

definition PathHandler_Handle :: "('x, 'e) PathHandler \<Rightarrow> ('x, 'e) frame_fun" where
  "PathHandler_Handle ph f = with_URL f (\<lambda>u.
     if u_Path u = ph_Path ph then ph_F ph f else Inr ((False, None), f))"

definition NewPathHandler :: "string \<Rightarrow> ('x, 'e) frame_handler \<Rightarrow> ('x, 'e) frame_handler" where
  "NewPathHandler path h =
     \<lparr>fh_Protocol = fh_Protocol h, fh_F = PathHandler_Handle \<lparr>ph_Path = path, ph_F = fh_F h\<rparr>\<rparr>"

subsection \<open>In a server\<close>

definition run_frame :: "('x, 'e) frame_fun \<Rightarrow> 'x frame_view go \<Rightarrow> (bool \<times> 'e option) \<times> 'x frame_view go" where
  "run_frame h st =
     (case bind_go st h of Inl p \<Rightarrow> ((True, None), Inl p) | Inr (r, f) \<Rightarrow> (r, Inr f))"

definition frame_item :: "('x, 'e) frame_handler \<Rightarrow> ('x frame_view go, 'e) item" where
  "frame_item h = \<lparr>handler = \<lparr>Protocol = fh_Protocol h, F = run_frame (fh_F h)\<rparr>, stage = StageHandler, priority = 0\<rparr>"

text \<open>Handlers added one after the other at the handler stage, and the dispatch of a frame.\<close>

definition site :: "('x, 'e) frame_handler list \<Rightarrow> ('x frame_view go, 'e) item list" where
  "site hs = foldl ServerFrameHandlerList_insert [] (map frame_item hs)"

definition dispatch :: "('x, 'e) frame_handler list \<Rightarrow> 'x frame_view \<Rightarrow> (bool \<times> 'e option) \<times> 'x frame_view go" where
  "dispatch hs f = ServerFrameHandlerList_Handle (\<lambda>st. case st of Inr f \<Rightarrow> fv_Protocol f | Inl _ \<Rightarrow> []) (site hs) (Inr f)"

lemma site_items: "site hs = map frame_item hs"
proof -
  have "sorted (map item_key (map frame_item hs))" by (induction hs) (auto simp: frame_item_def item_key_def)
  then show ?thesis unfolding site_def server_frame_list.foldl_ins_sort_key by (rule sort_key_id_if_sorted)
qed

lemma dispatch_callFrom:
  "dispatch hs f = ServerFrameHandlerList_callFrom (fv_Protocol f) (map frame_item hs) (False, None) (Inr f)"
  by (cases hs) (simp_all add: dispatch_def site_items ServerFrameHandlerList_Handle_def)

lemma run_frame_Inr [simp]: "run_frame h (Inr f) = (case h f of Inl p \<Rightarrow> ((True, None), Inl p) | Inr (r, f') \<Rightarrow> (r, Inr f'))"
  by (simp add: run_frame_def)

subsection \<open>Host names\<close>

lemma last_index_byte_None: "c \<notin> set s \<Longrightarrow> last_index_byte s c = None"
  by (induction s) auto

lemma last_index_byte_append: "c \<notin> set t \<Longrightarrow> last_index_byte (s @ c # t) c = Some (length s)"
  by (induction s) (simp_all add: last_index_byte_None)

definition reg_name :: "string \<Rightarrow> bool" where
  "reg_name s \<longleftrightarrow> CHR '':'' \<notin> set s \<and> CHR ''['' \<notin> set s"

lemma colon_not_digit: "list_all digit p \<Longrightarrow> CHR '':'' \<notin> set p"
proof -
  have "\<not> digit (CHR '':'')" by code_simp
  then show "list_all digit p \<Longrightarrow> CHR '':'' \<notin> set p" by (auto simp: list_all_iff)
qed

lemma split_port:
  "list_all digit p \<Longrightarrow> splitHostPort (h @ CHR '':'' # p) =
    (if h \<noteq> [] \<and> hd h = CHR ''['' \<and> last h = CHR '']'' then butlast (tl h) else h, p)"
  using colon_not_digit [of p] by (simp add: splitHostPort_def last_index_byte_append validOptionalPort_def)

lemma split_name: "reg_name h \<Longrightarrow> splitHostPort h = (h, [])"
  by (cases h) (auto simp: reg_name_def splitHostPort_def last_index_byte_None)

text \<open>A handler that declines every frame.\<close>

definition declining :: "('x, 'e) frame_handler" where
  "declining = \<lparr>fh_Protocol = '''', fh_F = (\<lambda>f. Inr ((False, None), f))\<rparr>"

lemma dispatch_Nil [simp]: "dispatch [] f = ((False, None), Inr f)"
  by (simp add: dispatch_callFrom)

lemma dispatch_taken:
  "fh_Protocol h \<in> {'''', fv_Protocol f} \<Longrightarrow> takes (fst (run_frame (fh_F h) (Inr f))) \<Longrightarrow>
    dispatch (h # hs) f = run_frame (fh_F h) (Inr f)"
  by (auto simp: dispatch_callFrom frame_item_def takes_def simp del: run_frame_Inr split: prod.splits)

lemma dispatch_declined:
  "fh_Protocol h \<in> {'''', fv_Protocol f} \<Longrightarrow> fh_F h f = Inr ((False, None), f') \<Longrightarrow> fv_Protocol f' = fv_Protocol f \<Longrightarrow>
    dispatch (h # hs) f = dispatch hs f'"
  by (auto simp: dispatch_callFrom frame_item_def)

lemma dispatch_other: "fh_Protocol h \<notin> {'''', fv_Protocol f} \<Longrightarrow> dispatch (h # hs) f = dispatch hs f"
  by (auto simp: dispatch_callFrom frame_item_def)

lemma declined_or_takes: "takes (fst (run_frame (fh_F h) (Inr f))) \<or> (\<exists>f'. fh_F h f = Inr ((False, None), f'))"
  by (auto simp: takes_def split: sum.splits)

text \<open>A handler that declines a frame has not changed its URL.\<close>

definition keeps_declined :: "('x, 'e) frame_handler \<Rightarrow> bool" where
  "keeps_declined h \<longleftrightarrow> (\<forall>f f'. fh_F h f = Inr ((False, None), f') \<longrightarrow> fv_URL f' = fv_URL f \<and> fv_Protocol f' = fv_Protocol f)"

subsection \<open>Properties\<close>

text \<open>
  C38: paths registered one after the other with \<open>NewPathHandler\<close> are a routing table: a frame with a URL is
  dispatched as if only the handlers registered for exactly its path had been added, in their order. So it goes
  to the first of these that fits its protocol and does not decline, and to nobody when there is none. The
  handlers may do anything to the frame but change its URL (or its protocol) and then decline it.
\<close>

theorem paths_are_a_table:
  assumes "fv_URL f = Some u" "list_all (\<lambda>(p, h). keeps_declined h) routes"
  shows "dispatch (map (\<lambda>(p, h). NewPathHandler p h) routes) f
    = dispatch (map snd (filter (\<lambda>(p, h). p = u_Path u) routes)) f"
  using assms
proof (induction routes arbitrary: f)
  case (Cons r routes)
  obtain p h where r: "r = (p, h)" by (cases r)
  let ?table = "\<lambda>rs. map (\<lambda>(p, h). NewPathHandler p h) rs" and ?here = "\<lambda>rs. map snd (filter (\<lambda>(p, h). p = u_Path u) rs)"
  have IH: "dispatch (?table routes) g = dispatch (?here routes) g" if "fv_URL g = Some u" for g
    using Cons.IH [OF that] Cons.prems(2) by simp
  have table: "dispatch (?table (r # routes)) f = dispatch (NewPathHandler p h # ?table routes) f" using r by simp
  show ?case
  proof (cases "p = u_Path u")
    case False
    then have "fh_F (NewPathHandler p h) f = Inr ((False, None), f)"
      using Cons.prems(1) by (simp add: NewPathHandler_def PathHandler_Handle_def with_URL_def)
    then have "dispatch (NewPathHandler p h # ?table routes) f = dispatch (?table routes) f"
      using dispatch_declined [of "NewPathHandler p h" f f] dispatch_other [of "NewPathHandler p h" f] by blast
    with table IH [OF Cons.prems(1)] False r show ?thesis by simp
  next
    case True
    have same: "fh_F (NewPathHandler p h) f = fh_F h f" "fh_Protocol (NewPathHandler p h) = fh_Protocol h"
      using True Cons.prems(1) by (simp_all add: NewPathHandler_def PathHandler_Handle_def with_URL_def)
    have here: "dispatch (?here (r # routes)) f = dispatch (h # ?here routes) f" using True r by simp
    consider (other) "fh_Protocol h \<notin> {'''', fv_Protocol f}"
      | (taken) "fh_Protocol h \<in> {'''', fv_Protocol f}" "takes (fst (run_frame (fh_F h) (Inr f)))"
      | (declined) f' where "fh_Protocol h \<in> {'''', fv_Protocol f}" "fh_F h f = Inr ((False, None), f')"
      using declined_or_takes [of h f] by blast
    then show ?thesis
    proof cases
      case other
      with IH [OF Cons.prems(1)] same(2) show ?thesis unfolding table here by (simp add: dispatch_other)
    next
      case taken
      have "run_frame (fh_F (NewPathHandler p h)) (Inr f) = run_frame (fh_F h) (Inr f)" using same(1) by simp
      with taken same(2) show ?thesis unfolding table here by (simp add: dispatch_taken del: run_frame_Inr)
    next
      case declined
      have "keeps_declined h" using Cons.prems(2) r by simp
      with declined(2) have f': "fv_URL f' = Some u" "fv_Protocol f' = fv_Protocol f"
        using Cons.prems(1) unfolding keeps_declined_def by auto
      have "dispatch (NewPathHandler p h # ?table routes) f = dispatch (?table routes) f'"
        by (rule dispatch_declined) (use declined f'(2) same in simp_all)
      moreover have "dispatch (h # ?here routes) f = dispatch (?here routes) f'"
        by (rule dispatch_declined) (use declined f'(2) in simp_all)
      ultimately show ?thesis using IH [OF f'(1)] unfolding table here by simp
    qed
  qed
qed simp

theorem paths_are_a_table_witness:
  "let takes_it = \<lparr>fh_Protocol = '''', fh_F = (\<lambda>f. Inr ((True, None), f))\<rparr>;
       fails = \<lparr>fh_Protocol = '''', fh_F = (\<lambda>f. Inr ((False, Some ''failed''), f))\<rparr>;
       f = \<lparr>fv_URL = Some \<lparr>u_Host = ''h'', u_Path = ''/b''\<rparr>, fv_Protocol = ''http'', fv_rest = ()\<rparr>
    in dispatch (map (\<lambda>(p, h). NewPathHandler p h) [(''/a'', takes_it), (''/b'', declining), (''/b'', fails), (''/b'', takes_it)]) f
      = ((False, Some ''failed''), Inr f)"
proof -
  let ?takes_it = "\<lparr>fh_Protocol = '''', fh_F = (\<lambda>f. Inr ((True, None), f))\<rparr> :: (unit, string) frame_handler"
  let ?fails = "\<lparr>fh_Protocol = '''', fh_F = (\<lambda>f. Inr ((False, Some ''failed''), f))\<rparr> :: (unit, string) frame_handler"
  let ?u = "\<lparr>u_Host = ''h'', u_Path = ''/b''\<rparr>"
  let ?f = "\<lparr>fv_URL = Some ?u, fv_Protocol = ''http'', fv_rest = ()\<rparr>"
  let ?routes = "[(''/a'', ?takes_it), (''/b'', declining), (''/b'', ?fails), (''/b'', ?takes_it)]"
  have "list_all (\<lambda>(p, h). keeps_declined h) ?routes" by (simp add: keeps_declined_def declining_def)
  from paths_are_a_table [of ?f ?u, OF _ this]
  have "dispatch (map (\<lambda>(p, h). NewPathHandler p h) ?routes) ?f = dispatch [declining, ?fails, ?takes_it] ?f" by simp
  also have "\<dots> = dispatch [?fails, ?takes_it] ?f" by (rule dispatch_declined) (simp_all add: declining_def)
  also have "\<dots> = ((False, Some ''failed''), Inr ?f)" by (subst dispatch_taken) (simp_all add: takes_def)
  finally show ?thesis by (simp add: Let_def)
qed

text \<open>
  A prefix handler that strips the prefix changes the URL before it calls its handler. When that
  handler declines, the handlers after it see the stripped path, and not the one of the request.
\<close>

theorem stripped_path_stays:
  assumes "fv_URL f = Some u" "u_Path u = p @ s"
  shows "dispatch (PathPrefixHandler p declining True # hs) f = dispatch hs (f\<lparr>fv_URL := Some (u\<lparr>u_Path := s\<rparr>)\<rparr>)"
proof -
  have "fh_F (PathPrefixHandler p declining True) f = Inr ((False, None), f\<lparr>fv_URL := Some (u\<lparr>u_Path := s\<rparr>)\<rparr>)"
    using assms by (simp add: PathPrefixHandler_def PathPrefixStripSplitter_Handle_def with_URL_def declining_def)
  then show ?thesis by (intro dispatch_declined) (simp_all add: PathPrefixHandler_def declining_def)
qed

text \<open>
  \<open>StripPort\<close> leaves the name of a host, and running it again changes nothing. An IPv6 literal loses its
  brackets with the port; running it again, or asking for the host name, then cuts the address at its
  last colon.
\<close>

theorem StripPort_hosts:
  assumes "list_all digit port" "list_all digit b" "reg_name name" "a = [] \<or> hd a \<noteq> CHR ''[''"
  shows "let at = (\<lambda>h. f\<lparr>fv_URL := Some \<lparr>u_Host = h, u_Path = path\<rparr>\<rparr>); v6 = a @ CHR '':'' # b in
    StripPort (at (name @ CHR '':'' # port)) = Inr ((False, None), at name)
    \<and> StripPort (at name) = Inr ((False, None), at name)
    \<and> StripPort (at (CHR ''['' # v6 @ CHR '']'' # CHR '':'' # port)) = Inr ((False, None), at v6)
    \<and> StripPort (at v6) = Inr ((False, None), at a)"
proof -
  have "hd name \<noteq> CHR ''[''" if "name \<noteq> []" using assms(3) that hd_in_set by (fastforce simp: reg_name_def)
  then have "splitHostPort (name @ CHR '':'' # port) = (name, port)" using split_port [OF assms(1)] by auto
  moreover have "splitHostPort (CHR ''['' # (a @ CHR '':'' # b) @ CHR '']'' # CHR '':'' # port) = (a @ CHR '':'' # b, port)"
    using split_port [OF assms(1), of "CHR ''['' # (a @ CHR '':'' # b) @ [CHR '']'']"] by (simp add: butlast_append)
  moreover have "splitHostPort (a @ CHR '':'' # b) = (a, b)" using split_port [OF assms(2), of a] assms(4) by auto
  ultimately show ?thesis using split_name [OF assms(3)]
    by (simp add: StripPort_def with_URL_def Hostname_def Let_def)
qed

theorem StripPort_hosts_witness:
  "StripPort \<lparr>fv_URL = Some \<lparr>u_Host = ''[::1]:80'', u_Path = ''/''\<rparr>, fv_Protocol = '''', fv_rest = ()\<rparr>
      = Inr ((False, None :: unit option), \<lparr>fv_URL = Some \<lparr>u_Host = ''::1'', u_Path = ''/''\<rparr>, fv_Protocol = '''', fv_rest = ()\<rparr>)
    \<and> StripPort \<lparr>fv_URL = Some \<lparr>u_Host = ''::1'', u_Path = ''/''\<rparr>, fv_Protocol = '''', fv_rest = ()\<rparr>
      = Inr ((False, None :: unit option), \<lparr>fv_URL = Some \<lparr>u_Host = '':'', u_Path = ''/''\<rparr>, fv_Protocol = '''', fv_rest = ()\<rparr>)"
proof -
  have "list_all digit ''80''" "list_all digit ''1''" "reg_name ''host''" by code_simp+
  then have "let at = (\<lambda>h. \<lparr>fv_URL = None, fv_Protocol = [], fv_rest = ()\<rparr>\<lparr>fv_URL := Some \<lparr>u_Host = h, u_Path = ''/''\<rparr>\<rparr>);
      v6 = '':'' @ CHR '':'' # ''1'' in
    StripPort (at (''host'' @ CHR '':'' # ''80'')) = Inr ((False, None :: unit option), at ''host'')
    \<and> StripPort (at ''host'') = Inr ((False, None :: unit option), at ''host'')
    \<and> StripPort (at (CHR ''['' # v6 @ CHR '']'' # CHR '':'' # ''80'')) = Inr ((False, None :: unit option), at v6)
    \<and> StripPort (at v6) = Inr ((False, None :: unit option), at '':'')"
    by (rule StripPort_hosts) simp
  then show ?thesis by (simp add: Let_def)
qed

text \<open>A host or host name that is not in the map of a splitter ends the program with a nil dereference.\<close>

theorem unknown_host_panics:
  assumes "fv_URL f = Some u" "hs (u_Host u) = None" "hs' (Hostname u) = None"
  shows "HostSplitter_Handle hs f = Inl NilDereference \<and> HostnameSplitter_Handle hs' f = Inl NilDereference"
  using assms by (simp add: HostSplitter_Handle_def HostnameSplitter_Handle_def with_URL_def)

theorem unknown_host_panics_witness:
  "HostSplitter_Handle Map.empty \<lparr>fv_URL = Some \<lparr>u_Host = ''evil'', u_Path = ''/''\<rparr>, fv_Protocol = '''', fv_rest = ()\<rparr>
    = (Inl NilDereference :: ((bool \<times> unit option) \<times> _) go)"
  by (rule unknown_host_panics [where hs' = Map.empty, THEN conjunct1]) simp_all

end
