(* ===== verification/Package_Tests.thy ===== *)
theory Package_Tests
  imports Ranges Url_Handler
begin

section \<open>The tests of the repository: \<open>jps/range_test.go\<close>, \<open>urlhandler/urlhandler_test.go\<close>\<close>

text \<open>
  The test functions of the packages \<open>jps\<close> and \<open>urlhandler\<close>, run on the model. A test is a value: \<^term>\<open>None\<close>
  when it passes, or the report of its first failure, up to the values it prints. The tests of ranges pass, those
  of \<open>StripPort\<close> and \<open>StripHTTPPort\<close> too; \<open>TestHostSplitter\<close> panics.
\<close>

text \<open>A test is a chain of conditions; the first that fails is reported.\<close>

fun reports :: "(bool \<times> string) list \<Rightarrow> string option" where
  "reports [] = None"
| "reports ((ok, msg) # cs) = (if ok then reports cs else Some msg)"

subsection \<open>Ranges\<close>

definition TestNewRange :: "string option" where
  "TestNewRange = reports [(NewRange 0 0 = \<lparr>Start = 0, End = 0\<rparr>, ''NewRange(0,0) failed''),
     (NewRange 0 2 = \<lparr>Start = 0, End = 2\<rparr>, ''NewRange(0,2) failed''),
     (NewRange 1 2 = \<lparr>Start = 1, End = 2\<rparr>, ''NewRange(1,2) failed''),
     (NewRange (- 1) 2 = \<lparr>Start = (- 1), End = 2\<rparr>, ''NewRange(-1,2) failed''),
     (NewRange (- 1) (- 2) = \<lparr>Start = (- 1), End = (- 2)\<rparr>, ''NewRange(-1,-2) failed'')]"

definition TestRangeIsAbsolute :: "string option" where
  "TestRangeIsAbsolute = reports [(IsAbsolute (NewRange 0 0), ''Range{0,0} is not absolute?''),
     (IsAbsolute (NewRange 0 6), ''Range{0,6} is not absolute?''),
     (IsAbsolute (NewRange 2 6), ''Range{2,6} is not absolute?''),
     (IsAbsolute (NewRange 2 0), ''Range{2,0} is not absolute?''),
     (\<not> IsAbsolute (NewRange (- 1) 6), ''Range{-1,6} is absolute?''),
     (\<not> IsAbsolute (NewRange (- 10) 6), ''Range{-10,6} is absolute?''),
     (\<not> IsAbsolute (NewRange (- 10) (- 6)), ''Range{-10,-6} is absolute?''),
     (\<not> IsAbsolute (NewRange 0 (- 6)), ''Range{0,-6} is absolute?''),
     (\<not> IsAbsolute (NewRange 0 (- 1)), ''Range{0,-1} is absolute?''),
     (\<not> IsAbsolute (NewRange (- 10) (- 4)), ''Range{-10,-4} is absolute?'')]"

definition TestRangeLength :: "string option" where
  "TestRangeLength = reports [(Length (NewRange 0 0) = (1, 0), ''Range{0, 0}.Length() returned''),
     (Length (NewRange 0 6) = (7, 0), ''Range{0, 6}.Length() returned''),
     (Length (NewRange 5 9) = (5, 0), ''Range{5, 9}.Length() returned''),
     (Length (NewRange (- 5) (- 1)) = (5, 0), ''Range{-5, -1}.Length() returned''),
     (Length (NewRange (- 1) (- 1)) = (1, 0), ''Range{-1, -1}.Length() returned''),
     (Length (NewRange (- 6) (- 3)) = (4, 0), ''Range{-6, -3}.Length() returned''),
     (Length (NewRange 0 (- 1)) = (0, 1), ''Range{0, -1}.Length() returned''),
     (Length (NewRange 5 (- 2)) = ((- 6), 1), ''Range{0, 0}.Length() returned''),
     (AbsLength (NewRange (- 8) 20) 25 = 4, ''Range{-8, 20}.AbsLength(25) returned'')]"

definition TestRangeAbs :: "string option" where
  "TestRangeAbs = reports [(NewRange 1 2 = \<lparr>Start = 1, End = 2\<rparr>, ''Equality assumption failed''),
     (NewRange 1 2 \<noteq> \<lparr>Start = 2, End = 2\<rparr>, ''Equality assumption failed''),
     (Abs (NewRange 0 5) 19 = NewRange 0 5, ''Range{0, 5}.Abs(19) =''),
     (Abs (NewRange 0 (- 1)) 19 = NewRange 0 18, ''Range{0, -1}.Abs(19) =''),
     (Abs (NewRange (- 10) 26) 30 = NewRange 20 26, ''Range{-10, 26}.Abs(30) =''),
     (Abs (NewRange (- 11) (- 3)) 219 = NewRange 208 216, ''Range{-11, -3}.Abs(219) ='')]"

definition tSortRanges :: "Range list \<Rightarrow> Range list" where
  "tSortRanges rs = SortRanges rs"

definition TestSortRanges :: "string option" where
  "TestSortRanges = reports [(tSortRanges [] = [], ''Failed to sort 0 ranges.''),
     (tSortRanges [NewRange 1 2] = [NewRange 1 2], ''Failed to sort 1 range.''),
     (tSortRanges [NewRange 1 5, NewRange 2 3] = [NewRange 1 5, NewRange 2 3], ''Failed to sort 2 in order ranges.''),
     (tSortRanges [NewRange 2 5, NewRange 1 3] = [NewRange 1 3, NewRange 2 5], ''Failed to sort 2 out of order ranges.''),
     (tSortRanges [NewRange 0 5, NewRange 3 3, NewRange (- 6) 10, NewRange 11 (- 1), NewRange 2 50] =
        [NewRange (- 6) 10, NewRange 0 5, NewRange 2 50, NewRange 3 3, NewRange 11 (- 1)], ''SortRanges failed (1)'')]"

definition TestMergeRanges :: "string option" where
  "TestMergeRanges = reports [(MergeRanges [] = [], ''Failed to merge no ranges.''),
     (MergeRanges [NewRange 1 10] = [NewRange 1 10], ''Failed to merge 1 range.''),
     (MergeRanges [NewRange 1 5, NewRange 6 12, NewRange 15 100] =
        [NewRange 1 5, NewRange 6 12, NewRange 15 100], ''Failed to not merge disjoint ranges in order.''),
     (MergeRanges [NewRange 100 105, NewRange 6 12, NewRange 15 100] =
        [NewRange 100 105, NewRange 6 12, NewRange 15 100], ''Failed to not merge disjoint ranges out of order.''),
     (MergeRanges [NewRange 5 9, NewRange 9 15] = [NewRange 5 15], ''Failed to merge 2 non-overlaping ranges.''),
     (MergeRanges [NewRange 5 12, NewRange 9 15] = [NewRange 5 15], ''Failed to merge 2 overlaping ranges.''),
     (MergeRanges [NewRange 5 12, NewRange 11 16, NewRange 16 80] = [NewRange 5 80], ''Failed to merge all ranges (overlap).''),
     (MergeRanges [NewRange 5 12, NewRange 11 16, NewRange 14 80] = [NewRange 5 80], ''Failed to merge all ranges (overlap twice).''),
     (MergeRanges [NewRange 5 12, NewRange 11 16, NewRange 17 80] = [NewRange 5 16, NewRange 17 80], ''Failed to merge first 2 ranges.''),
     (MergeRanges [NewRange 5 12, NewRange 15 16, NewRange 15 80] = [NewRange 5 12, NewRange 15 80], ''Failed to merge final 2 ranges.''),
     (MergeRanges [NewRange 0 10, NewRange 11 20, NewRange 20 23, NewRange 50 100] =
        [NewRange 0 10, NewRange 11 23, NewRange 50 100], ''Failed to merge middle ranges.''),
     (MergeRanges [NewRange 200 500, NewRange 100 300, NewRange 600 700, NewRange 30 40, NewRange 25 35] =
        [NewRange 100 500, NewRange 600 700, NewRange 25 40], ''Failed to merge reversed order ranges.''),
     (MergeRanges [NewRange 8 12, NewRange 8 12, NewRange 10 12, NewRange 8 10, NewRange 10 10, NewRange 5 9, NewRange 12 50,
        NewRange 6 3, NewRange 2 0] =
        [NewRange 5 50], ''Failed to merge complex ranges, got %v.''),
     (MergeRanges [NewRange 12 0, NewRange 0 0, NewRange 1 0, NewRange 6 5, NewRange 6 4] =
        [NewRange 0 0], ''Failed to remove 0 or negative length ranges.'')]"

text \<open>
  The tests of the ranges pass.
\<close>

theorem range_tests_pass:
  "TestNewRange = None \<and> TestRangeIsAbsolute = None \<and> TestRangeLength = None \<and> TestRangeAbs = None
    \<and> TestSortRanges = None \<and> TestMergeRanges = None"
proof (intro conjI)
  show "TestNewRange = None" by code_simp
  show "TestRangeIsAbsolute = None" by code_simp
  show "TestRangeLength = None" by code_simp
  show "TestRangeAbs = None" by code_simp
  show "TestSortRanges = None" by code_simp
  show "TestMergeRanges = None" by code_simp
qed

subsection \<open>URLs\<close>

definition testingURLServerFrame :: "'x \<Rightarrow> url_parts \<Rightarrow> 'x frame_view" where
  "testingURLServerFrame x u = \<lparr>fv_URL = Some u, fv_Protocol = '''', fv_rest = x\<rparr>"

text \<open>A host is stripped of its port, in the order of the test; \<open>url.Parse\<close> gives the host between the slashes.\<close>

fun strip_checks :: "(unit, string) frame_fun \<Rightarrow> (url_parts \<times> string \<times> string) list \<Rightarrow> string option go" where
  "strip_checks strip [] = Inr None"
| "strip_checks strip ((u, want, msg) # cs) =
     bind_go (strip (testingURLServerFrame () u)) (\<lambda>(_, f).
       if map_option u_Host (fv_URL f) \<noteq> Some want then Inr (Some msg) else strip_checks strip cs)"

definition TestStripPort :: "string option go" where
  "TestStripPort = strip_checks StripPort
     [(\<lparr>u_Host = ''www.hello.world:80'', u_Path = ''''\<rparr>, ''www.hello.world'', ''StripPort failed to strip www.hello.world:80, result:''),
      (\<lparr>u_Host = ''1.2.3.4:8080'', u_Path = ''''\<rparr>, ''1.2.3.4'', ''StripPort failed to strip 1.2.3.4:8080, result:'')]"

definition TestStripHTTPPort :: "string option go" where
  "TestStripHTTPPort = strip_checks StripHTTPPort
     [(\<lparr>u_Host = ''www.hello.world:80'', u_Path = ''''\<rparr>, ''www.hello.world'', ''StripHTTPPort failed to strip www.hello.world:80, result:''),
      (\<lparr>u_Host = ''1.2.3.4:8080'', u_Path = ''''\<rparr>, ''1.2.3.4:8080'', ''StripHTTPPort failed to not strip 1.2.3.4:8080, result:''),
      (\<lparr>u_Host = ''jotpot.uk:443'', u_Path = ''/server''\<rparr>, ''jotpot.uk'', ''StripHTTPPort failed to strip jotpot.uk:443, result:''),
      (\<lparr>u_Host = ''jotpot.uk:444'', u_Path = ''/server''\<rparr>, ''jotpot.uk:444'', ''StripHTTPPort failed to not strip jotpot.uk:444, result:'')]"

subsection \<open>\<open>TestHostSplitter\<close>\<close>

text \<open>
  The variables that the closures of the test share, and the frames by their names: a frame carries the
  variables to the handler and back.
\<close>

record host_counters =
  correctFrame :: bool
  helloWorld80Counter :: int
  helloWorld443Counter :: int
  helloWorldNPCounter :: int
  localhostCounter :: int

datatype test_frame = HelloWorld80Frame | HelloWorld443Frame | HelloWorldNPFrame | LocalhostFrame

fun frame_URL :: "test_frame \<Rightarrow> url_parts" where
  "frame_URL HelloWorld80Frame = \<lparr>u_Host = ''www.helloworld.com:80'', u_Path = ''/''\<rparr>"
| "frame_URL HelloWorld443Frame = \<lparr>u_Host = ''www.helloworld.com:443'', u_Path = ''/hello/world''\<rparr>"
| "frame_URL HelloWorldNPFrame = \<lparr>u_Host = ''www.helloworld.com'', u_Path = ''''\<rparr>"
| "frame_URL LocalhostFrame = \<lparr>u_Host = ''localhost'', u_Path = ''/index.html''\<rparr>"

fun counter :: "test_frame \<Rightarrow> host_counters \<Rightarrow> int" where
  "counter HelloWorld80Frame = helloWorld80Counter"
| "counter HelloWorld443Frame = helloWorld443Counter"
| "counter HelloWorldNPFrame = helloWorldNPCounter"
| "counter LocalhostFrame = localhostCounter"

fun count_up :: "test_frame \<Rightarrow> host_counters \<Rightarrow> host_counters" where
  "count_up HelloWorld80Frame t = t\<lparr>helloWorld80Counter := helloWorld80Counter t + 1\<rparr>"
| "count_up HelloWorld443Frame t = t\<lparr>helloWorld443Counter := helloWorld443Counter t + 1\<rparr>"
| "count_up HelloWorldNPFrame t = t\<lparr>helloWorldNPCounter := helloWorldNPCounter t + 1\<rparr>"
| "count_up LocalhostFrame t = t\<lparr>localhostCounter := localhostCounter t + 1\<rparr>"

definition counting :: "test_frame \<Rightarrow> bool \<times> string option \<Rightarrow> (test_frame \<times> host_counters, string) frame_fun" where
  "counting own r f =
     (let (v, t) = fv_rest f; t' = (if v \<noteq> own then t\<lparr>correctFrame := False\<rparr> else t)
      in Inr (r, f\<lparr>fv_rest := (v, count_up own t')\<rparr>))"

definition test_hosts :: "string \<Rightarrow> string \<rightharpoonup> (test_frame \<times> host_counters, string) frame_handler" where
  "test_hosts www = map_of
     [(www @ ''helloworld.com:80'', \<lparr>fh_Protocol = '''', fh_F = counting HelloWorld80Frame (True, None)\<rparr>),
      (www @ ''helloworld.com:443'', \<lparr>fh_Protocol = ''https'', fh_F = counting HelloWorld443Frame (True, None)\<rparr>),
      (''localhost'', \<lparr>fh_Protocol = ''http'', fh_F = counting LocalhostFrame (False, Some ''test error to be returned'')\<rparr>),
      (www @ ''helloworld.com'', \<lparr>fh_Protocol = ''http'', fh_F = counting HelloWorldNPFrame (True, None)\<rparr>)]"

fun handler_name :: "test_frame \<Rightarrow> string" where
  "handler_name HelloWorld80Frame = ''helloworld.com:80''"
| "handler_name HelloWorld443Frame = ''helloworld.com:443''"
| "handler_name HelloWorldNPFrame = ''helloworld.com''"
| "handler_name LocalhostFrame = ''localhost''"

text \<open>The calls of the test, each with the count it expects afterwards.\<close>

fun splitter_checks :: "(string \<rightharpoonup> (test_frame \<times> host_counters, string) frame_handler) \<Rightarrow> (test_frame \<times> int) list
    \<Rightarrow> host_counters \<Rightarrow> string option go" where
  "splitter_checks hs [] t = Inr None"
| "splitter_checks hs ((v, n) # cs) t =
     bind_go (HostSplitter_Handle hs (testingURLServerFrame (v, t) (frame_URL v))) (\<lambda>((b, e), f).
       let t' = snd (fv_rest f) in
       if e \<noteq> None then Inr (Some (''Incorrect error returned from '' @ handler_name v @ '' handler, expecring nil, got''))
       else if \<not> b then Inr (Some (''Incorrect bool returned from '' @ handler_name v @ '' handler, expecring true, got''))
       else if \<not> correctFrame t' then Inr (Some (''Correct frame not passed to '' @ handler_name v @ '' handler''))
       else if counter v t' \<noteq> n then Inr (Some (''Incorrect handler called for '' @ handler_name v))
       else splitter_checks hs cs t')"

definition TestHostSplitter :: "(string \<rightharpoonup> (test_frame \<times> host_counters, string) frame_handler) \<Rightarrow> string option go" where
  "TestHostSplitter hs = splitter_checks hs
     [(HelloWorld80Frame, 1), (HelloWorld80Frame, 2), (HelloWorld443Frame, 1), (HelloWorld80Frame, 3), (HelloWorld443Frame, 2),
      (HelloWorld80Frame, 4), (HelloWorldNPFrame, 1), (HelloWorldNPFrame, 2), (HelloWorld80Frame, 5), (LocalhostFrame, 1),
      (HelloWorldNPFrame, 3)]
     \<lparr>correctFrame = True, helloWorld80Counter = 0, helloWorld443Counter = 0, helloWorldNPCounter = 0, localhostCounter = 0\<rparr>"

text \<open>
  The tests of the port strippers pass. \<open>TestHostSplitter\<close> panics in its first call, because its table lacks the
  \<open>www.\<close> of its hosts; with these hosts in the table the first nine calls pass, and the test then expects no error
  of the handler that returns one.
\<close>

theorem url_tests_run:
  "TestStripPort = Inr None \<and> TestStripHTTPPort = Inr None \<and> TestHostSplitter (test_hosts []) = Inl NilDereference
    \<and> TestHostSplitter (test_hosts ''www.'') = Inr (Some ''Incorrect error returned from localhost handler, expecring nil, got'')"
proof (intro conjI)
  show "TestStripPort = Inr None" by code_simp
  show "TestStripHTTPPort = Inr None" by code_simp
  show "TestHostSplitter (test_hosts []) = Inl NilDereference" by code_simp
  show "TestHostSplitter (test_hosts ''www.'') = Inr (Some ''Incorrect error returned from localhost handler, expecring nil, got'')"
    by code_simp
qed

end
