(* ===== verification/Request_Extras.thy ===== *)
theory Request_Extras
  imports Conditions Request_Parser
begin

section \<open>Smaller methods of requests, responses and headers\<close>

text \<open>
  What is left of \<open>http/request.go\<close> and \<open>http/header/header.go\<close>: accessors, the conditions of a request, the
  addresses a proxy announces in headers, the wrapper that advertises ranges, and the adder that
  fills the headers of a request under one lock. \<open>ParseIP\<close> is the one of \<open>net\<close>. The lock of the keys only
  orders concurrent callers.
\<close>

subsection \<open>Accessors\<close>

definition HTTPMethod :: "'x Request_scheme \<Rightarrow> string" where
  "HTTPMethod r = MethodStr r"

definition SetHTTPMethod :: "string \<Rightarrow> 'x Request_scheme \<Rightarrow> 'x Request_scheme" where
  "SetHTTPMethod m r = r\<lparr>MethodStr := m\<rparr>"

definition Request_Method :: "'x Request_scheme \<Rightarrow> Method" where
  "Request_Method r = GetMethod (MethodStr r)"

definition Request_SetMethod :: "Method \<Rightarrow> 'x Request_scheme \<Rightarrow> method_error option \<times> 'x Request_scheme" where
  "Request_SetMethod m r = (let (err, s) = SetMethod m in (err, r\<lparr>MethodStr := s\<rparr>))"

definition HTTPHeader :: "'x Request_scheme \<Rightarrow> Header" where
  "HTTPHeader r = req_Header r"

definition Request_CacheSettings :: "Processor \<Rightarrow> Request \<Rightarrow> (RequestCacheControl \<times> cache_error option \<times> Request) go" where
  "Request_CacheSettings p r = Request_CacheControl p r"

definition Request_Conditions :: "(string \<Rightarrow> string \<Rightarrow> int option) \<Rightarrow> Processor \<Rightarrow> 'x Request_scheme \<Rightarrow> Condition list" where
  "Request_Conditions parse_time p r =
     Conditions parse_time p (req_Header r) (MethodStr r = ''GET'' \<or> MethodStr r = ''HEAD'')"

definition HTTPStatus :: "'x http_response_scheme \<Rightarrow> 16 word \<times> string" where
  "HTTPStatus r = (StatusCode r, StatusTextOf r)"

definition HTTPStatusCode :: "'x http_response_scheme \<Rightarrow> 16 word" where
  "HTTPStatusCode r = StatusCode r"

definition HTTPStatusText :: "'x http_response_scheme \<Rightarrow> string" where
  "HTTPStatusText r = StatusTextOf r"

definition SetHTTPStatusText :: "string \<Rightarrow> 'x http_response_scheme \<Rightarrow> 'x http_response_scheme" where
  "SetHTTPStatusText t r = r\<lparr>StatusTextOf := t\<rparr>"

subsection \<open>Addresses announced by a proxy\<close>

definition incomingTo :: "bool \<Rightarrow> (string \<Rightarrow> 'a) \<Rightarrow> Header \<Rightarrow> 'a \<Rightarrow> 'a go" where
  "incomingTo UseJPHeaders ParseIP h local_addr =
     (if UseJPHeaders then
        (let addrs = GetValuesRawKey h ''jp-to'' in
         if length addrs = 1 then bind_go (go_index addrs 1) (\<lambda>a. Inr (ParseIP a))
         else if length addrs \<noteq> 0 then bind_go (go_index addrs 1) (\<lambda>a. Inr (ParseIP a))
         else Inr local_addr)
      else Inr local_addr)"

definition incomingFrom :: "bool \<Rightarrow> (string \<Rightarrow> 'a) \<Rightarrow> Header \<Rightarrow> 'a \<Rightarrow> 'a go" where
  "incomingFrom UseJPHeaders ParseIP h local_addr =
     (if UseJPHeaders then
        (let addrs = GetValuesRawKey h ''jp-from'' in
         if length addrs = 1 then bind_go (go_index addrs 1) (\<lambda>a. Inr (ParseIP a))
         else if length addrs \<noteq> 0 then bind_go (go_index addrs 1) (\<lambda>a. Inr (ParseIP a))
         else Inr local_addr)
      else Inr local_addr)"

definition outgoingTo :: "bool \<Rightarrow> (string \<Rightarrow> 'a) \<Rightarrow> Header \<Rightarrow> 'a \<Rightarrow> 'a go" where
  "outgoingTo UseJPHeaders ParseIP h local_addr =
     (if UseJPHeaders then
        (let addrs = GetValuesRawKey h ''jp-fwd-to'' in
         if length addrs = 1 then bind_go (go_index addrs 1) (\<lambda>a. Inr (ParseIP a))
         else if length addrs \<noteq> 0 then bind_go (go_index addrs 1) (\<lambda>a. Inr (ParseIP a))
         else Inr local_addr)
      else Inr local_addr)"

definition outgoingFrom :: "bool \<Rightarrow> (string \<Rightarrow> 'a) \<Rightarrow> Header \<Rightarrow> 'a \<Rightarrow> 'a go" where
  "outgoingFrom UseJPHeaders ParseIP h local_addr =
     (if UseJPHeaders then
        (let addrs = GetValuesRawKey h ''jp-fwd-from'' in
         if length addrs = 1 then bind_go (go_index addrs 1) (\<lambda>a. Inr (ParseIP a))
         else if length addrs \<noteq> 0 then bind_go (go_index addrs 1) (\<lambda>a. Inr (ParseIP a))
         else Inr local_addr)
      else Inr local_addr)"

subsection \<open>Advertising ranges\<close>

text \<open>The method calls itself, not the method of the request it wraps.\<close>

partial_function (option) RequestRangeWrapper_Range :: "Processor \<Rightarrow> Header \<Rightarrow> (Range list \<times> Header) go option" where
  "RequestRangeWrapper_Range p RespHeaders =
     (if length (GetValues p RespHeaders ''Accept-Ranges'') = 0 then
        (case Header_Set p ''Accept-Ranges'' ''bytes'' RespHeaders of
           Inl e \<Rightarrow> Some (Inl e)
         | Inr h \<Rightarrow> RequestRangeWrapper_Range p h)
      else RequestRangeWrapper_Range p RespHeaders)"

subsection \<open>Safe calls of a processor, and the adder\<close>

definition GetKeySafe :: "Processor \<Rightarrow> string \<Rightarrow> Header \<Rightarrow> string \<times> Header" where
  "GetKeySafe p key h = (let h1 = Processor_RLock h in (GetKey p key, Processor_RUnlock h1))"

definition ProcessValuesSafe :: "Processor \<Rightarrow> string \<Rightarrow> string list \<Rightarrow> int \<Rightarrow> int \<Rightarrow> Header \<Rightarrow> (string list \<times> Header) go" where
  "ProcessValuesSafe p key values a b h =
     (let h1 = Processor_RLock h in bind_go (ProcessValues p key values a b) (\<lambda>vs. Inr (vs, Processor_RUnlock h1)))"

definition GetValuesRawKeyUnsafe :: "Header \<Rightarrow> string \<Rightarrow> string list" where
  "GetValuesRawKeyUnsafe h key = (case Values h key of None \<Rightarrow> [] | Some vs \<Rightarrow> if length vs = 0 then [] else vs)"

text \<open>The adder points to the header it fills, or to none after its release.\<close>

record adder =
  adder_h :: bool

datatype adder_error = ErrNoHeaderToRelease

definition UnsafeAdder :: "Header \<Rightarrow> adder \<times> Header" where
  "UnsafeAdder h = (\<lparr>adder_h = True\<rparr>, Processor_RLock h)"

definition UnsafeAdder_Add :: "Processor \<Rightarrow> string \<Rightarrow> string \<Rightarrow> adder \<times> Header \<Rightarrow> (adder \<times> Header) go" where
  "UnsafeAdder_Add p key v ah =
     (if adder_h (fst ah) then bind_go (AddUnsafe p key v (snd ah)) (\<lambda>h. Inr (fst ah, h)) else Inl NilDereference)"

definition UnsafeAdder_Release :: "adder \<times> Header \<Rightarrow> adder_error option \<times> adder \<times> Header" where
  "UnsafeAdder_Release ah =
     (if \<not> adder_h (fst ah) then (Some ErrNoHeaderToRelease, ah)
      else (None, \<lparr>adder_h = False\<rparr>, Processor_RUnlock (snd ah)))"

fun add_fields :: "Processor \<Rightarrow> (string \<times> string) list \<Rightarrow> adder \<times> Header \<Rightarrow> (adder \<times> Header) go" where
  "add_fields p [] ah = Inr ah"
| "add_fields p ((k, v) # kvs) ah = bind_go (UnsafeAdder_Add p k v ah) (add_fields p kvs)"

fun add_unsafe_all :: "Processor \<Rightarrow> (string \<times> string) list \<Rightarrow> Header \<Rightarrow> Header go" where
  "add_unsafe_all p [] h = Inr h"
| "add_unsafe_all p ((k, v) # kvs) h = bind_go (AddUnsafe p k v h) (add_unsafe_all p kvs)"

lemma AddUnsafe_locked:
  "AddUnsafe p k v (Processor_RLock h) = bind_go (AddUnsafe p k v h) (\<lambda>h'. Inr (Processor_RLock h'))"
  by (auto simp: AddUnsafe_def AddRawKeyUnsafe_def Let_def Processor_RLock_def bind_go_def split: option.splits sum.splits)

lemma add_fields_locked:
  "add_fields p kvs (\<lparr>adder_h = True\<rparr>, Processor_RLock h)
    = bind_go (add_unsafe_all p kvs h) (\<lambda>h'. Inr (\<lparr>adder_h = True\<rparr>, Processor_RLock h'))"
  by (induction kvs arbitrary: h) (auto simp: UnsafeAdder_Add_def AddUnsafe_locked bind_go_def split: sum.splits)

subsection \<open>Properties\<close>

text \<open>
  With the headers of a proxy switched on, one announced address makes each of the four functions
  panic; of several addresses the second one is taken; with none, or switched off, all four give the
  local address of the connection, those for the remote end too.
\<close>

theorem announced_addresses:
  "incomingFrom b ParseIP h a = (if b then case GetValuesRawKey h ''jp-from'' of
      [] \<Rightarrow> Inr a | [_] \<Rightarrow> Inl IndexOutOfRange | _ # x # _ \<Rightarrow> Inr (ParseIP x) else Inr a)
   \<and> incomingTo b ParseIP h a = (if b then case GetValuesRawKey h ''jp-to'' of
      [] \<Rightarrow> Inr a | [_] \<Rightarrow> Inl IndexOutOfRange | _ # x # _ \<Rightarrow> Inr (ParseIP x) else Inr a)
   \<and> outgoingFrom b ParseIP h a = (if b then case GetValuesRawKey h ''jp-fwd-from'' of
      [] \<Rightarrow> Inr a | [_] \<Rightarrow> Inl IndexOutOfRange | _ # x # _ \<Rightarrow> Inr (ParseIP x) else Inr a)
   \<and> outgoingTo b ParseIP h a = (if b then case GetValuesRawKey h ''jp-fwd-to'' of
      [] \<Rightarrow> Inr a | [_] \<Rightarrow> Inl IndexOutOfRange | _ # x # _ \<Rightarrow> Inr (ParseIP x) else Inr a)"
  by (simp add: incomingFrom_def incomingTo_def outgoingFrom_def outgoingTo_def go_index_def Let_def split: list.splits)

text \<open>\<open>Range\<close> of the wrapper never returns a list of ranges.\<close>

theorem Range_never_returns:
  "RequestRangeWrapper_Range p h \<noteq> Some (Inr r)"
proof
  assume "RequestRangeWrapper_Range p h = Some (Inr r)"
  moreover have "RequestRangeWrapper_Range p h = Some x \<Longrightarrow> \<exists>e. x = Inl e" for x
  proof (rule RequestRangeWrapper_Range.raw_induct [where P = "\<lambda>_ _ y. \<exists>e. y = Inl e" and p = p and RespHeaders = h and y = x], goal_cases)
    case (1 f p' h' y)
    from 1(3) show ?case using 1(2) by (auto split: if_splits sum.splits)
  qed
  ultimately show False by blast
qed

text \<open>
  Fields added through an adder are stored as if each had been added alone; the release gives the lock of
  the processor back, once: a second release is an error and a later addition panics.
\<close>

theorem adder_session:
  "(case add_fields p kvs (UnsafeAdder h) of
      Inl e \<Rightarrow> add_unsafe_all p kvs h = Inl e
    | Inr ah \<Rightarrow> \<exists>h' a. add_unsafe_all p kvs h = Inr h' \<and> UnsafeAdder_Release ah = (None, a, h')
        \<and> UnsafeAdder_Release (a, h') = (Some ErrNoHeaderToRelease, a, h')
        \<and> UnsafeAdder_Add p k v (a, h') = Inl NilDereference)"
  unfolding UnsafeAdder_def add_fields_locked
  by (cases "add_unsafe_all p kvs h")
    (auto simp: UnsafeAdder_Release_def UnsafeAdder_Add_def Processor_RLock_def Processor_RUnlock_def)

end
