(* ===== verification/Served_Streams.thy ===== *)
theory Served_Streams
  imports Default_Server
begin

section \<open>A stream from the server to its answers\<close>

text \<open>
  \<open>HandleStream\<close> of \<open>jps/server.go\<close> with the stream handler \<open>http1.Handle\<close> of the standard server: an open
  server counts the connection, serves it and takes it off the count; any other closes it, or calls its
  \<open>ClosedHandler\<close>.
\<close>

subsection \<open>What a session takes from the server\<close>

lemma HandleFrame_handlers:
  "FrameHandlers s = FrameHandlers t \<Longrightarrow> HandleFrame protocol s w = HandleFrame protocol t w"
  by (simp add: HandleFrame_def)

lemma HandleSession_loop_le:
  assumes "FrameHandlers s = FrameHandlers t" "HandleSession_loop protocol next_frame eos s w = Some r"
  shows "HandleSession_loop protocol next_frame eos t w = Some r"
proof (rule HandleSession_loop.raw_induct [where P = "\<lambda>pr nf e s w r. FrameHandlers s = FrameHandlers t \<longrightarrow>
    HandleSession_loop pr nf e t w = Some r", OF _ assms(2), rule_format, OF _ assms(1)], goal_cases)
  case (1 loop pr nf e s w r)
  then show ?case
    by (subst HandleSession_loop.simps)
      (auto simp: HandleFrame_handlers [OF 1(3)] split: prod.splits option.splits)
qed

lemma HandleSession_handlers:
  assumes "FrameHandlers s = FrameHandlers t" "SessionHandlers s = SessionHandlers t"
  shows "HandleSession protocol next_frame eos s w = HandleSession protocol next_frame eos t w"
proof -
  have "HandleSession_loop protocol next_frame eos s w' = HandleSession_loop protocol next_frame eos t w'" for w'
  proof (cases "HandleSession_loop protocol next_frame eos s w'")
    case (Some r)
    with HandleSession_loop_le [OF assms(1) Some] show ?thesis by simp
  next
    case None
    with HandleSession_loop_le [OF assms(1) [symmetric]] show ?thesis
      by (cases "HandleSession_loop protocol next_frame eos t w'") auto
  qed
  then show ?thesis using assms(2) by (simp add: HandleSession_def split: prod.splits)
qed

subsection \<open>The stream handler\<close>

text \<open>A stream and its buffered reader are those of the session that \<open>Handle\<close> makes for them.\<close>

definition http1_StreamHandler ::
  "('d, 'g) http_env \<Rightarrow> (string \<Rightarrow> string + 'u URL) \<Rightarrow> (request_error \<Rightarrow> 'd session \<Rightarrow> 'd session) option
     \<Rightarrow> (('u, 'd, 'g) world, world_error) Server \<Rightarrow> ('u, 'd, 'g) world \<Rightarrow> ('u, 'd, 'g) world option" where
  "http1_StreamHandler env parse_uri on_error s w =
     Option.bind (world_session w) (\<lambda>ses.
       map_option snd (http1_Handle env parse_uri on_error s (in_stream ses) (ses_stream ses)))"

definition close_unserved :: "('u, 'd, 'g) world \<Rightarrow> ('u, 'd, 'g) world" where
  "close_unserved w =
     (case w of
        Between s \<Rightarrow> Between (s\<lparr>ses_stream := snd (stream_Close (ses_stream s))\<rparr>)
      | _ \<Rightarrow> w)"

lemma HandleStream_open:
  assumes "srv_state s = StateOpen"
  shows "HandleStream con_close closed_handler run s w
    = map_option (\<lambda>w'. Inr (s, w')) (run (s\<lparr>connections := connections s + 1\<rparr>) w)"
proof -
  have "s\<lparr>connections := connections s + 1 - 1\<rparr> = s" by (cases s) simp
  with assms show ?thesis by (simp add: HandleStream_def changeStateIf_def)
qed

definition same_handlers :: "('w, 'e) Server \<Rightarrow> ('w, 'e) Server \<Rightarrow> bool" where
  "same_handlers s t \<longleftrightarrow> FrameHandlers s = FrameHandlers t \<and> SessionHandlers s = SessionHandlers t"

lemma http1_Handle_handlers:
  assumes "same_handlers s t"
  shows "http1_Handle env parse_uri on_error s reader con = http1_Handle env parse_uri on_error t reader con"
  using assms unfolding http1_Handle_def same_handlers_def by (intro arg_cong [where f = "map_option _"] HandleSession_handlers) simp_all

lemma HandleStream_served:
  assumes "srv_state s = StateOpen" "same_handlers s v"
    and "HandleSession (\<lambda>_. ''http'') (world_Frame env parse_uri on_error) (SessionErr EOS) v (Between (http1_session reader con)) = Some (err, w)"
  shows "HandleStream close_unserved closed_handler (http1_StreamHandler env parse_uri on_error) s (Between (http1_session reader con))
    = Some (Inr (s, w))"
proof -
  have "same_handlers (s\<lparr>connections := connections s + 1\<rparr>) v" using assms(2) by (simp add: same_handlers_def)
  from http1_Handle_handlers [OF this] assms(3) show ?thesis
    unfolding HandleStream_open [OF assms(1)] by (simp add: http1_StreamHandler_def http1_Handle_def)
qed

lemma HandleStream_refused:
  assumes "srv_state s \<noteq> StateOpen" "\<not> stream_closed con"
  shows "HandleStream close_unserved closed_handler run s (Between (http1_session reader con))
    = Some (case closed_handler of
        None \<Rightarrow> Inr (s, Between ((http1_session reader con)\<lparr>ses_stream := con\<lparr>stream_closed := True\<rparr>\<rparr>))
      | Some ch \<Rightarrow> bind_go (ch None) (\<lambda>_. Inr (s, Between (http1_session reader con))))"
  using assms by (simp add: HandleStream_def close_unserved_def stream_Close_def split: option.split)

subsection \<open>Properties\<close>

text \<open>
  C2: a stream that carries any number of valid requests (as in C1) and then ends is given to a server with the
  frame and session handlers of a reading server. An open server answers every request, in order and with the
  body of each, closes the stream, and counts as many connections as before. A server that is closing or
  closed answers nothing: without a \<open>ClosedHandler\<close> it closes the stream; with one it calls it with no stream,
  and leaves the stream open and unread.
\<close>

theorem stream_served_or_closed:
  fixes env :: "('c codec, 'g) http_env" and parse_uri :: "string \<Rightarrow> string + 'u URL"
  assumes "env_p env = standard_processor" "env_tes env = HTTPTransferEncodings zr zw gr gw chunked_NewPipe"
    and "same_handlers s (reading_server (http1_writer env U0) (http1_reader env tmp dec close_dec R0) sizes
      (\<lambda>q. reply (MethodStr q) (url_Rest (URLp q))))"
    and "list_all (valid_message parse_uri sizes reply) msgs" "conn_room con = None" "\<not> stream_closed con"
    and "pending reader = concat (map message_text msgs)"
  shows "if srv_state s = StateOpen then
      \<exists>s' out. HandleStream close_unserved closed_handler (http1_StreamHandler env parse_uri on_error) s
          (Between (http1_session reader con)) = Some (Inr (s, Between s'))
        \<and> sent_bytes (ses_stream s') = sent_bytes con @ concat out
        \<and> list_all2 (\<lambda>m r. is_response env (reply_body parse_uri reply m) r) msgs out
        \<and> stream_closed (ses_stream s')
    else HandleStream close_unserved closed_handler (http1_StreamHandler env parse_uri on_error) s
          (Between (http1_session reader con))
        = Some (case closed_handler of
            None \<Rightarrow> Inr (s, Between ((http1_session reader con)\<lparr>ses_stream := con\<lparr>stream_closed := True\<rparr>\<rparr>))
          | Some ch \<Rightarrow> bind_go (ch None) (\<lambda>_. Inr (s, Between (http1_session reader con))))"
proof (cases "srv_state s = StateOpen")
  case True
  have env: "env\<lparr>env_p := standard_processor, env_tes := HTTPTransferEncodings zr zw gr gw chunked_NewPipe\<rparr> = env"
    using assms(1,2) by (cases env) simp
  let ?s = "http1_session reader con :: 'c codec session"
  have s: "idle_session ?s" "pending (in_stream ?s) = concat (map message_text msgs)" using assms(5-7) by simp_all
  from reading.session_handled [OF s assms(4), where env = env and zr = zr and zw = zw and gr = gr and gw = gw
      and tmp = tmp and dec = dec and close_dec = close_dec and on_error = on_error and ?U0.0 = U0 and ?R0.0 = R0, unfolded env]
  obtain s' out err where r: "HandleSession (\<lambda>_. ''http'') (world_Frame env parse_uri on_error) (SessionErr EOS)
      (reading_server (http1_writer env U0) (http1_reader env tmp dec close_dec R0) sizes
        (\<lambda>q. reply (MethodStr q) (url_Rest (URLp q)))) (Between ?s) = Some (err, Between s')"
    "sent_bytes (ses_stream s') = sent_bytes (ses_stream ?s) @ concat out"
    "list_all2 (\<lambda>m r. is_response env (reply_body parse_uri reply m) r) msgs out" "stream_closed (ses_stream s')" by blast
  from HandleStream_served [OF True assms(3) r(1)] r(2-4) True show ?thesis by auto
next
  case False
  then show ?thesis by (simp only: if_False HandleStream_refused [OF False assms(6)])
qed

theorem stream_served_or_closed_witness:
  "\<forall>(env0 :: (unit codec, unit) http_env) (U0 :: ((unit codec, unit) frame, unit body_sink,
      (unit body_sink, body_error) WriterPipeGenerator option, unit) underlying_writer)
      (R0 :: (unit codec chunk_session, unit codec body_source,
      (unit codec body_source, body_error) ReaderPipeGenerator, unit) underlying_reader).
    let env = env0\<lparr>env_p := standard_processor, env_tes := HTTPTransferEncodings Inr id Inr id chunked_NewPipe\<rparr>;
        v = reading_server (http1_writer env U0) (http1_reader env (\<lambda>_. False) (\<lambda>_ rd. rd) (\<lambda>_ st. (None, st)) R0)
          (\<lambda>_. []) (\<lambda>q body. url_Rest (URLp q));
        w = Between (http1_session \<lparr>pending = message_text (sample_message ''GET'' ''/c'' [] NoBody), end_error = EOF\<rparr>
          \<lparr>sent_bytes = [], conn_room = None, stream_closed = False\<rparr>)
    in (\<exists>s'. HandleStream close_unserved None (http1_StreamHandler env sample_uri None) (Open v) w = Some (Inr (Open v, Between s'))
        \<and> is_response env ''/c'' (sent_bytes (ses_stream s')))
    \<and> (\<exists>s'. HandleStream close_unserved None (http1_StreamHandler env sample_uri None) v w = Some (Inr (v, Between s'))
        \<and> sent_bytes (ses_stream s') = [] \<and> stream_closed (ses_stream s'))
    \<and> HandleStream close_unserved (Some (\<lambda>_. Inr ())) (http1_StreamHandler env sample_uri None) v w = Some (Inr (v, w))"
proof (intro allI)
  fix env0 :: "(unit codec, unit) http_env" and U0 :: "((unit codec, unit) frame, unit body_sink,
      (unit body_sink, body_error) WriterPipeGenerator option, unit) underlying_writer"
    and R0 :: "(unit codec chunk_session, unit codec body_source,
      (unit codec body_source, body_error) ReaderPipeGenerator, unit) underlying_reader"
  let ?env = "env0\<lparr>env_p := standard_processor, env_tes := HTTPTransferEncodings Inr id Inr id chunked_NewPipe\<rparr>"
  let ?get = "sample_message ''GET'' ''/c'' [] NoBody"
  let ?reply = "\<lambda>(mth :: string) (u :: string) (body :: string). u"
  let ?v = "reading_server (http1_writer ?env U0) (http1_reader ?env (\<lambda>_. False) (\<lambda>_ rd. rd) (\<lambda>_ st. (None, st)) R0)
          (\<lambda>_. []) (\<lambda>q body. url_Rest (URLp q)) :: ((string, unit codec, unit) world, world_error) Server"
  let ?rd = "\<lparr>pending = message_text ?get, end_error = EOF\<rparr>"
  let ?con = "\<lparr>sent_bytes = [], conn_room = None, stream_closed = False\<rparr>"
  let ?run = "\<lambda>ch s. HandleStream close_unserved ch (http1_StreamHandler ?env sample_uri None) s (Between (http1_session ?rd ?con))"
  have f: "valid_syntax (''Host'', '' '', ''h1'')" "\<not> lone_field (''Host'', '' '', ''h1'')"
    "values_for [(''Host'', '' '', ''h1'')] ''Host'' = [''h1'']" "values_for [(''Host'', '' '', ''h1'')] ''Connection'' = []"
    "values_for [(''Host'', '' '', ''h1'')] ''Transfer-Encoding'' = []" "values_for [(''Host'', '' '', ''h1'')] ''Content-Length'' = []"
    by code_simp+
  have r: "reply_body sample_uri ?reply ?get = ''/c''"
    by (simp add: reply_body_def answer_body_def sample_message_def sample_uri_def)
  have v: "list_all (valid_message sample_uri (\<lambda>_. []) ?reply) [?get]"
    using f r by (simp add: valid_message_def valid_wire_def sample_message_def sample_uri_def enough_reads_def)
  have env: "env_p ?env = standard_processor" "env_tes ?env = HTTPTransferEncodings Inr id Inr id chunked_NewPipe" by simp_all
  have con: "conn_room ?con = None" "\<not> stream_closed ?con" "pending ?rd = concat (map message_text [?get])" by simp_all
  note runs = stream_served_or_closed [where reply = ?reply and on_error = None, OF env _ v con]
  have "same_handlers (Open ?v) ?v" "srv_state (Open ?v) = StateOpen" by (simp_all add: same_handlers_def Open_def changeState_def)
  with runs [of "Open ?v" U0 "\<lambda>_. False" "\<lambda>_ rd. rd" "\<lambda>_ st. (None, st)" R0 None] r
  obtain s1 out r1 where o: "?run None (Open ?v) = Some (Inr (Open ?v, Between s1))"
    "sent_bytes (ses_stream s1) = concat out" "out = [r1]" "is_response ?env ''/c'' r1"
    by (auto simp: list_all2_Cons1)
  have "same_handlers ?v ?v" and closed: "(srv_state ?v = StateOpen) = False"
    by (simp_all add: same_handlers_def reading_server_def AddFrameHandler_def new_server_def)
  note c = runs [OF this(1), unfolded closed if_False]
  have "\<exists>s'. ?run None ?v = Some (Inr (?v, Between s')) \<and> sent_bytes (ses_stream s') = [] \<and> stream_closed (ses_stream s')"
    unfolding c [of None] by simp
  moreover have "?run (Some (\<lambda>_. Inr ())) ?v = Some (Inr (?v, Between (http1_session ?rd ?con)))"
    unfolding c [of "Some (\<lambda>_. Inr ())"] by simp
  ultimately show "let env = ?env;
        v = reading_server (http1_writer env U0) (http1_reader env (\<lambda>_. False) (\<lambda>_ rd. rd) (\<lambda>_ st. (None, st)) R0)
          (\<lambda>_. []) (\<lambda>q body. url_Rest (URLp q)); w = Between (http1_session ?rd ?con)
    in (\<exists>s'. HandleStream close_unserved None (http1_StreamHandler env sample_uri None) (Open v) w = Some (Inr (Open v, Between s'))
        \<and> is_response env ''/c'' (sent_bytes (ses_stream s')))
    \<and> (\<exists>s'. HandleStream close_unserved None (http1_StreamHandler env sample_uri None) v w = Some (Inr (v, Between s'))
        \<and> sent_bytes (ses_stream s') = [] \<and> stream_closed (ses_stream s'))
    \<and> HandleStream close_unserved (Some (\<lambda>_. Inr ())) (http1_StreamHandler env sample_uri None) v w = Some (Inr (v, w))"
    unfolding Let_def using o by simp
qed

end
