(* ===== verification/Session_Control.thy ===== *)
theory Session_Control
  imports Http_Server
begin

section \<open>A session among goroutines: the lock of \<open>http/http1/handler.go\<close>\<close>

text \<open>
  The session loop asks for frames, the handlers answer them in their own time, and anybody with the session
  may call \<open>End\<close> or \<open>Hyjack\<close>. What keeps them apart is \<open>conLock\<close>, taken by \<open>Frame\<close> and given back by the
  closures of the frame, together with two flags that are read and written without it. This theory cuts the
  operations of \<open>Http_Session\<close> down to their effect on the lock and the flags, shows that they have exactly
  this effect, and runs them in any order as the steps of a system.
\<close>

subsection \<open>The control state\<close>

record session_ctl =
  ctl_lock :: bool
  ctl_closing :: bool
  ctl_hyjacked :: bool
  ctl_shut :: bool

definition ctl_of :: "'d session \<Rightarrow> session_ctl" where
  "ctl_of s = \<lparr>ctl_lock = conLock s, ctl_closing = ses_closing s, ctl_hyjacked = hyjacked s,
     ctl_shut = stream_closed (ses_stream s)\<rparr>"

definition ctl_Unlock :: "session_ctl \<Rightarrow> session_ctl go" where
  "ctl_Unlock c = (if ctl_lock c then Inr (c\<lparr>ctl_lock := False\<rparr>) else Inl (Explicit ''sync: unlock of unlocked mutex''))"

definition ctl_End :: "session_ctl \<Rightarrow> session_ctl" where
  "ctl_End c = c\<lparr>ctl_closing := True\<rparr>"

definition ctl_Hyjack :: "session_ctl \<Rightarrow> session_ctl" where
  "ctl_Hyjack c = c\<lparr>ctl_hyjacked := True, ctl_closing := True\<rparr>"

text \<open>\<open>want\<close>: the handler set \<open>Connection: close\<close> on the response.\<close>

definition ctl_head :: "bool \<Rightarrow> session_ctl \<Rightarrow> session_ctl go" where
  "ctl_head want c =
     (if want then ctl_Unlock (c\<lparr>ctl_closing := True\<rparr>) else if ctl_closing c then ctl_Unlock c else Inr c)"

definition ctl_close :: "session_ctl \<Rightarrow> session_ctl go" where
  "ctl_close c =
     (if ctl_closing c \<and> \<not> ctl_hyjacked c then Inr (c\<lparr>ctl_shut := True\<rparr>) else ctl_Unlock c)"

text \<open>\<open>Frame\<close>: after the lock is taken the request is read, which ends well (with the flag the parser returns) or not.\<close>

definition ctl_enter :: "session_ctl \<Rightarrow> session_ctl" where
  "ctl_enter c = (if ctl_closing c then c else c\<lparr>ctl_lock := True\<rparr>)"

definition ctl_parsed :: "bool \<Rightarrow> session_ctl \<Rightarrow> session_ctl" where
  "ctl_parsed close c = c\<lparr>ctl_closing := close\<rparr>"

definition ctl_failed :: "session_ctl \<Rightarrow> session_ctl go" where
  "ctl_failed c = bind_go (ctl_Unlock (c\<lparr>ctl_closing := True\<rparr>)) (\<lambda>c'. Inr (c'\<lparr>ctl_shut := True\<rparr>))"

subsection \<open>The operations have this effect\<close>

lemma ctl_of_fields [simp]:
  "ctl_lock (ctl_of s) = conLock s" "ctl_closing (ctl_of s) = ses_closing s" "ctl_hyjacked (ctl_of s) = hyjacked s"
  "ctl_shut (ctl_of s) = stream_closed (ses_stream s)"
  by (simp_all add: ctl_of_def)

lemma ctl_of_updates [simp]:
  "ctl_of (s\<lparr>ses_closing := b\<rparr>) = (ctl_of s)\<lparr>ctl_closing := b\<rparr>" "ctl_of (s\<lparr>conLock := b\<rparr>) = (ctl_of s)\<lparr>ctl_lock := b\<rparr>"
  "ctl_of (s\<lparr>in_stream := r\<rparr>) = ctl_of s"
  by (simp_all add: ctl_of_def)

lemma End_Hyjack_ctl: "ctl_of (Session_End s) = ctl_End (ctl_of s)" "ctl_of (Hyjack s) = ctl_Hyjack (ctl_of s)"
  by (simp_all add: Session_End_def Hyjack_def ctl_End_def ctl_Hyjack_def ctl_of_def)

lemma stream_Close_closed: "stream_closed (snd (stream_Close c))"
  by (simp add: stream_Close_def)

lemma ctl_of_closed: "ctl_of (s\<lparr>ses_stream := snd (stream_Close c)\<rparr>) = (ctl_of s)\<lparr>ctl_shut := True\<rparr>"
  by (simp add: ctl_of_def stream_Close_closed)

lemma Unlock_ctl:
  "conLock_Unlock s = (if conLock s then Inr (s\<lparr>conLock := False\<rparr>) else Inl (Explicit ''sync: unlock of unlocked mutex''))"
  "ctl_Unlock (ctl_of s) = (case conLock_Unlock s of Inl p \<Rightarrow> Inl p | Inr s' \<Rightarrow> Inr (ctl_of s'))"
  by (simp_all add: conLock_Unlock_def ctl_Unlock_def)

lemma FormatCacheControl_ses: "Response_FormatCacheControl ft now p r = Inr (e, r') \<Longrightarrow> ses r' = ses r"
  by (auto simp: Response_FormatCacheControl_def Let_def split: if_splits prod.splits elim!: bind_goE)

lemma frame_close_ctl:
  "ctl_close (ctl_of (ses f)) = (case frame_close f of Inl p \<Rightarrow> Inl p | Inr (e, f') \<Rightarrow> Inr (ctl_of (ses f')))"
  by (auto simp: ctl_close_def frame_close_def Unlock_ctl ctl_of_def stream_Close_def ctl_Unlock_def split: prod.splits)

definition want_close :: "('d, 'g) http_env \<Rightarrow> ('d, 'g) frame \<Rightarrow> bool" where
  "want_close env f = (case Has (env_p env) ''Connection'' [''close''] (resp_Header f) of Inl p \<Rightarrow> False | Inr (want, h) \<Rightarrow> want)"

lemma headerGenerator_ctl:
  assumes "headerGenerator env f = Inr (head, f')"
  shows "ctl_head (want_close env f) (ctl_of (ses f)) = Inr (ctl_of (ses f'))"
proof -
  obtain want h where has: "Has (env_p env) ''Connection'' [''close''] (resp_Header f) = Inr (want, h)"
    using assms by (auto simp: headerGenerator_def elim: bind_goE)
  let ?f1 = "f\<lparr>resp_Header := h\<rparr>"
  obtain f2 e f3 where f2: "(if want then bind_go (conLock_Unlock ((ses ?f1)\<lparr>ses_closing := True\<rparr>)) (\<lambda>s. Inr (?f1\<lparr>ses := s\<rparr>))
      else if ses_closing (ses ?f1) then
        bind_go (conLock_Unlock (ses ?f1)) (\<lambda>s.
          bind_go (Header_Set (env_p env) ''Connection'' ''close'' h) (\<lambda>h'. Inr (?f1\<lparr>ses := s, resp_Header := h'\<rparr>)))
      else bind_go (Header_Set (env_p env) ''Connection'' ''keep-alive'' h) (\<lambda>h'. Inr (?f1\<lparr>resp_Header := h'\<rparr>))) = Inr f2"
    and f3: "Response_FormatCacheControl (env_format_time env) (env_now env) (env_p env) f2 = Inr (e, f3)" and f': "f' = f3"
    using assms unfolding headerGenerator_def has bind_go_Inr prod.case Let_def by (fastforce elim!: bind_goE)
  have "ctl_head want (ctl_of (ses f)) = Inr (ctl_of (ses f2))"
    using f2 by (auto simp: Unlock_ctl(1) ctl_head_def ctl_Unlock_def split: if_splits elim!: bind_goE)
  with FormatCacheControl_ses [OF f3] f' has show ?thesis by (simp add: want_close_def)
qed

text \<open>What a call of \<open>Frame\<close> that returns does to the control state, without a handler of errors.\<close>

definition frame_ctl :: "session_ctl \<Rightarrow> ('u, 'd, 'g) frame_result \<Rightarrow> bool" where
  "frame_ctl c res \<longleftrightarrow>
     (case res of
        FrameError e s' \<Rightarrow>
          if ctl_closing c then e = EOS \<and> ctl_of s' = ctl_enter c else ctl_failed (ctl_enter c) = Inr (ctl_of s')
      | FrameOK q f \<Rightarrow> \<not> ctl_closing c \<and> ctl_of (ses f) = ctl_parsed (ctl_closing (ctl_of (ses f))) (ctl_enter c))"

lemma new_frame_ctl: "ctl_of (ses (new_frame env q s)) = ctl_of s"
  by (cases s) (simp add: new_frame_def ctl_of_def body_in.defs body_out.defs frame.defs session.defs NewBodyReader_def NewBodyWriter_def
      http_response.defs Let_def)

lemma new_frame_closing: "ses_closing (ses (new_frame env q s)) = ses_closing s"
  using arg_cong [OF new_frame_ctl, of ctl_closing] by simp

lemma Frame_ctl:
  assumes "Frame env parse_uri None s = Some (Inr res)"
  shows "\<not> ctl_lock (ctl_of s) \<and> frame_ctl (ctl_of s) res"
proof (cases "ses_closing s")
  case True
  with assms show ?thesis by (auto simp: Frame_def frame_ctl_def ctl_enter_def split: if_splits)
next
  case opened: False
  show ?thesis
  proof (cases "consume_CRLF 5 (in_stream s)")
    case (Pair e r)
    then show ?thesis
      using assms opened unfolding Frame_def frame_ctl_def Let_def
      by (cases e) (auto simp: HandleError_def Unlock_ctl(1) new_frame_ctl new_frame_closing ctl_enter_def ctl_failed_def ctl_Unlock_def ctl_of_closed
          ctl_parsed_def split: if_splits option.splits elim!: bind_goE)
  qed
qed

subsection \<open>The system\<close>

text \<open>
  The session loop (\<open>HandleSession\<close>) stands before \<open>Frame\<close>, inside it reading a request, in the handlers of a
  frame, or is done. A frame is fresh, has its head out, or is closed; the writer of a body sends the head
  once, at the latest when it is closed. Nothing keeps a handler from closing a frame again, and a head that the
  stream did not take is generated again by the next write or close. A panic is the end of the whole program.
\<close>

datatype loop_pc = AtFrame | ReadingRequest | InHandler | LoopDone

datatype frame_pc = FreshFrame | HeadOut | ClosedFrame

record control_system =
  cs_ctl :: session_ctl
  cs_loop :: loop_pc
  cs_frames :: "frame_pc list"
  cs_crashed :: bool

datatype control_event = EnterFrame | RequestRead bool | RequestFailed | HandlerReturned | HandlerFailed
  | WriteHead nat bool | LoseHead nat bool | CloseFrame nat | CloseAgain nat | CallEnd | CallHyjack

definition cs_start :: control_system where
  "cs_start = \<lparr>cs_ctl = \<lparr>ctl_lock = False, ctl_closing = False, ctl_hyjacked = False, ctl_shut = False\<rparr>, cs_loop = AtFrame,
     cs_frames = [], cs_crashed = False\<rparr>"

definition cs_result :: "session_ctl go \<Rightarrow> control_system \<Rightarrow> control_system" where
  "cs_result r w = (case r of Inl p \<Rightarrow> w\<lparr>cs_crashed := True\<rparr> | Inr c \<Rightarrow> w\<lparr>cs_ctl := c\<rparr>)"

definition frame_at :: "control_system \<Rightarrow> nat \<Rightarrow> frame_pc \<Rightarrow> bool" where
  "frame_at w i pc \<longleftrightarrow> i < length (cs_frames w) \<and> cs_frames w ! i = pc"

text \<open>The event in a state, or \<^term>\<open>None\<close> when it cannot happen there.\<close>

fun cs_event :: "control_event \<Rightarrow> control_system \<Rightarrow> control_system option" where
  "cs_event EnterFrame w =
     (if cs_loop w = AtFrame \<and> \<not> ctl_lock (cs_ctl w) then
        Some (w\<lparr>cs_ctl := ctl_enter (cs_ctl w), cs_loop := if ctl_closing (cs_ctl w) then LoopDone else ReadingRequest\<rparr>)
      else None)"
| "cs_event (RequestRead close) w =
     (if cs_loop w = ReadingRequest then
        Some (w\<lparr>cs_ctl := ctl_parsed close (cs_ctl w), cs_loop := InHandler, cs_frames := cs_frames w @ [FreshFrame]\<rparr>)
      else None)"
| "cs_event RequestFailed w =
     (if cs_loop w = ReadingRequest then Some (cs_result (ctl_failed (cs_ctl w)) (w\<lparr>cs_loop := LoopDone\<rparr>)) else None)"
| "cs_event HandlerReturned w = (if cs_loop w = InHandler then Some (w\<lparr>cs_loop := AtFrame\<rparr>) else None)"
| "cs_event HandlerFailed w = (if cs_loop w = InHandler then Some (w\<lparr>cs_loop := LoopDone\<rparr>) else None)"
| "cs_event (WriteHead i want) w =
     (if frame_at w i FreshFrame then
        Some (cs_result (ctl_head want (cs_ctl w)) (w\<lparr>cs_frames := (cs_frames w)[i := HeadOut]\<rparr>))
      else None)"
| "cs_event (LoseHead i want) w =
     (if frame_at w i FreshFrame then Some (cs_result (ctl_head want (cs_ctl w)) w) else None)"
| "cs_event (CloseFrame i) w =
     (if frame_at w i HeadOut then
        Some (cs_result (ctl_close (cs_ctl w)) (w\<lparr>cs_frames := (cs_frames w)[i := ClosedFrame]\<rparr>))
      else None)"
| "cs_event (CloseAgain i) w =
     (if frame_at w i ClosedFrame then Some (cs_result (ctl_close (cs_ctl w)) w) else None)"
| "cs_event CallEnd w = Some (w\<lparr>cs_ctl := ctl_End (cs_ctl w)\<rparr>)"
| "cs_event CallHyjack w = Some (w\<lparr>cs_ctl := ctl_Hyjack (cs_ctl w)\<rparr>)"

text \<open>The events of orderly handlers on a connection that takes the heads.\<close>

fun orderly :: "control_event \<Rightarrow> bool" where
  "orderly CallHyjack = False"
| "orderly (LoseHead i want) = False"
| "orderly (CloseAgain i) = False"
| "orderly e = True"

inductive cs_reaches :: "(control_event \<Rightarrow> bool) \<Rightarrow> control_system \<Rightarrow> control_system \<Rightarrow> bool" for may where
  cs_refl: "cs_reaches may w w"
| cs_step: "cs_reaches may w w1 \<Longrightarrow> \<not> cs_crashed w1 \<Longrightarrow> may e \<Longrightarrow> cs_event e w1 = Some w2 \<Longrightarrow> cs_reaches may w w2"

fun run_events :: "control_event list \<Rightarrow> control_system \<Rightarrow> control_system option" where
  "run_events [] w = Some w"
| "run_events (e # es) w = (if cs_crashed w then None else Option.bind (cs_event e w) (run_events es))"

lemma cs_reaches_trans: "cs_reaches may w1 w2 \<Longrightarrow> cs_reaches may w w1 \<Longrightarrow> cs_reaches may w w2"
  by (induction rule: cs_reaches.induct) (auto intro: cs_reaches.intros)

lemma run_events_reaches: "run_events es w = Some w' \<Longrightarrow> list_all may es \<Longrightarrow> cs_reaches may w w'"
proof (induction es arbitrary: w)
  case (Cons e es)
  then obtain w1 where "\<not> cs_crashed w" "cs_event e w = Some w1" "run_events es w1 = Some w'"
    by (auto split: if_splits bind_splits)
  moreover from this Cons.prems(2) have "cs_reaches may w w1" by (auto intro: cs_reaches.intros)
  ultimately show ?case using Cons.IH [of w1] Cons.prems(2) by (auto intro: cs_reaches_trans)
qed (auto intro: cs_refl)

subsection \<open>One frame at a time\<close>

text \<open>
  Only the last frame is live; while a request is read none is, and the lock is held; a fresh frame holds the
  lock, one with its head out holds it or the session is closing.
\<close>

definition live_last :: "control_system \<Rightarrow> bool" where
  "live_last w \<longleftrightarrow> list_all (\<lambda>pc. pc = ClosedFrame) (butlast (cs_frames w))"

definition last_frame :: "control_system \<Rightarrow> frame_pc" where
  "last_frame w = (if cs_frames w = [] then ClosedFrame else last (cs_frames w))"

definition cs_inv :: "control_system \<Rightarrow> bool" where
  "cs_inv w \<longleftrightarrow> \<not> cs_crashed w \<and> \<not> ctl_hyjacked (cs_ctl w) \<and> live_last w
     \<and> (cs_loop w = ReadingRequest \<longrightarrow> ctl_lock (cs_ctl w) \<and> last_frame w = ClosedFrame)
     \<and> (last_frame w = FreshFrame \<longrightarrow> ctl_lock (cs_ctl w))
     \<and> (last_frame w = HeadOut \<longrightarrow> ctl_lock (cs_ctl w) \<or> ctl_closing (cs_ctl w))"

lemma live_last_at:
  assumes "live_last w" "frame_at w i pc" "pc \<noteq> ClosedFrame"
  shows "Suc i = length (cs_frames w)" "last_frame w = pc"
proof -
  have "i = length (cs_frames w) - 1"
  proof (rule ccontr)
    assume "i \<noteq> length (cs_frames w) - 1"
    with assms(2) have "i < length (butlast (cs_frames w))" by (auto simp: frame_at_def)
    with assms show False by (simp add: live_last_def frame_at_def list_all_length nth_butlast)
  qed
  with assms(2) show "Suc i = length (cs_frames w)" "last_frame w = pc"
    by (auto simp: frame_at_def last_frame_def last_conv_nth)
qed

lemma frame_update:
  assumes "live_last w" "Suc i = length (cs_frames w)"
  shows "live_last (w\<lparr>cs_frames := (cs_frames w)[i := pc]\<rparr>)" "last_frame (w\<lparr>cs_frames := (cs_frames w)[i := pc]\<rparr>) = pc"
proof -
  have "(cs_frames w)[i := pc] = butlast (cs_frames w) @ [pc]"
    using assms(2) by (metis append_butlast_last_id diff_Suc_1 length_butlast length_greater_0_conv list_update_length zero_less_Suc)
  with assms(1) show "live_last (w\<lparr>cs_frames := (cs_frames w)[i := pc]\<rparr>)" "last_frame (w\<lparr>cs_frames := (cs_frames w)[i := pc]\<rparr>) = pc"
    by (simp_all add: live_last_def last_frame_def)
qed

lemmas ctl_defs = ctl_enter_def ctl_parsed_def ctl_failed_def ctl_head_def ctl_close_def ctl_Unlock_def ctl_End_def ctl_Hyjack_def

lemma cs_result_simps [simp]:
  "cs_result (Inl p) w = w\<lparr>cs_crashed := True\<rparr>" "cs_result (Inr c) w = w\<lparr>cs_ctl := c\<rparr>"
  by (simp_all add: cs_result_def)

lemma frames_only [simp]:
  "live_last (w\<lparr>cs_ctl := c\<rparr>) = live_last w" "last_frame (w\<lparr>cs_ctl := c\<rparr>) = last_frame w"
  "live_last (w\<lparr>cs_loop := l\<rparr>) = live_last w" "last_frame (w\<lparr>cs_loop := l\<rparr>) = last_frame w"
  "live_last (w\<lparr>cs_crashed := b\<rparr>) = live_last w" "last_frame (w\<lparr>cs_crashed := b\<rparr>) = last_frame w"
  by (simp_all add: live_last_def last_frame_def)

text \<open>A frame that moves on is the last one.\<close>

lemma frame_moves:
  assumes "live_last w" "frame_at w i pc" "pc \<noteq> ClosedFrame"
  shows "last_frame w = pc"
    and "live_last (w\<lparr>cs_frames := (cs_frames w)[i := pc']\<rparr>)" "last_frame (w\<lparr>cs_frames := (cs_frames w)[i := pc']\<rparr>) = pc'"
  using live_last_at [OF assms] frame_update [OF assms(1), of i pc'] by simp_all

lemma new_frame_live:
  assumes "live_last w" "last_frame w = ClosedFrame"
  shows "live_last (w\<lparr>cs_ctl := c, cs_loop := l, cs_frames := cs_frames w @ [pc]\<rparr>)"
    "last_frame (w\<lparr>cs_ctl := c, cs_loop := l, cs_frames := cs_frames w @ [pc]\<rparr>) = pc"
proof -
  have "list_all (\<lambda>pc. pc = ClosedFrame) (butlast (cs_frames w) @ [last (cs_frames w)])" if "cs_frames w \<noteq> []"
    using assms that by (simp add: live_last_def last_frame_def)
  then have "list_all (\<lambda>pc. pc = ClosedFrame) (cs_frames w)" by (cases "cs_frames w = []") simp_all
  then show "live_last (w\<lparr>cs_ctl := c, cs_loop := l, cs_frames := cs_frames w @ [pc]\<rparr>)"
    "last_frame (w\<lparr>cs_ctl := c, cs_loop := l, cs_frames := cs_frames w @ [pc]\<rparr>) = pc"
    by (simp_all add: live_last_def last_frame_def)
qed

text \<open>What the two events of a frame do, when they do not crash.\<close>

lemma WriteHead_moves:
  assumes "cs_inv w" "cs_event (WriteHead i want) w = Some w'"
  shows "last_frame w = FreshFrame" "live_last w'" "last_frame w' = HeadOut" "cs_loop w' = cs_loop w" "\<not> cs_crashed w'"
    and "cs_ctl w' = (if want \<or> ctl_closing (cs_ctl w) then (cs_ctl w)\<lparr>ctl_closing := True, ctl_lock := False\<rparr> else cs_ctl w)"
proof -
  have at: "frame_at w i FreshFrame" using assms(2) by (simp split: if_splits)
  have live: "live_last w" "\<not> cs_crashed w" using assms(1) by (simp_all add: cs_inv_def)
  note m = frame_moves [OF live(1) at, simplified]
  have lock: "ctl_lock (cs_ctl w)" using assms(1) m(1) by (simp add: cs_inv_def)
  let ?c = "if want \<or> ctl_closing (cs_ctl w) then (cs_ctl w)\<lparr>ctl_closing := True, ctl_lock := False\<rparr> else cs_ctl w"
  have "ctl_head want (cs_ctl w) = Inr ?c" using lock by (simp add: ctl_head_def ctl_Unlock_def)
  then have w': "w' = w\<lparr>cs_frames := (cs_frames w)[i := HeadOut], cs_ctl := ?c\<rparr>" using assms(2) at by simp
  show "last_frame w = FreshFrame" by (rule m(1))
  show "live_last w'" "last_frame w' = HeadOut" unfolding w' frames_only by (rule m(2), rule m(3))
  show "cs_loop w' = cs_loop w" "\<not> cs_crashed w'" "cs_ctl w' = ?c" unfolding w' using live(2) by simp_all
qed

lemma CloseFrame_moves:
  assumes "cs_inv w" "cs_event (CloseFrame i) w = Some w'"
  shows "last_frame w = HeadOut" "live_last w'" "last_frame w' = ClosedFrame" "cs_loop w' = cs_loop w" "\<not> cs_crashed w'"
    and "cs_ctl w' = (if ctl_closing (cs_ctl w) then (cs_ctl w)\<lparr>ctl_shut := True\<rparr> else (cs_ctl w)\<lparr>ctl_lock := False\<rparr>)"
proof -
  have at: "frame_at w i HeadOut" using assms(2) by (simp split: if_splits)
  have live: "live_last w" "\<not> cs_crashed w" "\<not> ctl_hyjacked (cs_ctl w)" using assms(1) by (simp_all add: cs_inv_def)
  note m = frame_moves [OF live(1) at, simplified]
  have lock: "ctl_lock (cs_ctl w) \<or> ctl_closing (cs_ctl w)" using assms(1) m(1) by (simp add: cs_inv_def)
  let ?c = "if ctl_closing (cs_ctl w) then (cs_ctl w)\<lparr>ctl_shut := True\<rparr> else (cs_ctl w)\<lparr>ctl_lock := False\<rparr>"
  have "ctl_close (cs_ctl w) = Inr ?c" using lock live(3) by (auto simp: ctl_close_def ctl_Unlock_def)
  then have w': "w' = w\<lparr>cs_frames := (cs_frames w)[i := ClosedFrame], cs_ctl := ?c\<rparr>" using assms(2) at by simp
  show "last_frame w = HeadOut" by (rule m(1))
  show "live_last w'" "last_frame w' = ClosedFrame" unfolding w' frames_only by (rule m(2), rule m(3))
  show "cs_loop w' = cs_loop w" "\<not> cs_crashed w'" "cs_ctl w' = ?c" unfolding w' using live(2) by simp_all
qed

lemma cs_event_inv:
  assumes "cs_inv w" "orderly e" "cs_event e w = Some w'"
  shows "cs_inv w'"
proof (cases e)
  case (WriteHead i want)
  note m = WriteHead_moves [OF assms(1) assms(3) [unfolded WriteHead]]
  show ?thesis using assms(1) m(1) unfolding cs_inv_def by (simp add: m(2-6))
next
  case (CloseFrame i)
  note m = CloseFrame_moves [OF assms(1) assms(3) [unfolded CloseFrame]]
  show ?thesis using assms(1) m(1) unfolding cs_inv_def by (simp add: m(2-6))
next
  case (RequestRead close)
  with assms show ?thesis
    by (auto simp: cs_inv_def new_frame_live ctl_parsed_def split: if_splits)
next
  case EnterFrame
  with assms show ?thesis
    by (cases "last_frame w") (auto simp: cs_inv_def ctl_enter_def split: if_splits)
qed (use assms in \<open>auto simp: cs_inv_def ctl_defs split: if_splits\<close>)

lemma cs_inv_reached:
  "cs_reaches may w w' \<Longrightarrow> (\<And>e. may e \<Longrightarrow> orderly e) \<Longrightarrow> cs_inv w \<Longrightarrow> cs_inv w'"
  by (induction rule: cs_reaches.induct) (auto dest: cs_event_inv)

lemma cs_inv_start: "cs_inv cs_start"
  by (simp add: cs_inv_def cs_start_def live_last_def last_frame_def)

subsection \<open>The next request gets its turn\<close>

text \<open>Without \<open>End\<close> a frame with its head out holds the lock exactly when the session stays open.\<close>

definition cs_turns :: "control_system \<Rightarrow> bool" where
  "cs_turns w \<longleftrightarrow> cs_inv w
     \<and> (last_frame w = HeadOut \<longrightarrow> ctl_lock (cs_ctl w) = (\<not> ctl_closing (cs_ctl w)))
     \<and> (last_frame w = ClosedFrame \<and> cs_loop w \<noteq> ReadingRequest \<longrightarrow> \<not> ctl_lock (cs_ctl w))"

lemma cs_turnsI:
  assumes "cs_inv w" "last_frame w = HeadOut \<Longrightarrow> ctl_lock (cs_ctl w) = (\<not> ctl_closing (cs_ctl w))"
    and "last_frame w = ClosedFrame \<Longrightarrow> cs_loop w \<noteq> ReadingRequest \<Longrightarrow> \<not> ctl_lock (cs_ctl w)"
  shows "cs_turns w"
  using assms by (auto simp: cs_turns_def)

lemma cs_turnsD:
  assumes "cs_turns w"
  shows "cs_inv w" "last_frame w = HeadOut \<Longrightarrow> ctl_lock (cs_ctl w) = (\<not> ctl_closing (cs_ctl w))"
    and "last_frame w = ClosedFrame \<Longrightarrow> cs_loop w \<noteq> ReadingRequest \<Longrightarrow> \<not> ctl_lock (cs_ctl w)"
    and "last_frame w = FreshFrame \<Longrightarrow> ctl_lock (cs_ctl w)"
    and "cs_loop w = ReadingRequest \<Longrightarrow> last_frame w = ClosedFrame \<and> ctl_lock (cs_ctl w)" "live_last w"
  using assms by (auto simp: cs_turns_def cs_inv_def)

lemma cs_event_turns:
  assumes "cs_turns w" "orderly e" "e \<noteq> CallEnd" "cs_event e w = Some w'"
  shows "cs_turns w'"
proof -
  note d = cs_turnsD [OF assms(1)]
  have inv: "cs_inv w'" by (rule cs_event_inv [OF d(1) assms(2,4)])
  show ?thesis
  proof (cases e)
    case (WriteHead i want)
    note m = WriteHead_moves [OF d(1) assms(4) [unfolded WriteHead]]
    show ?thesis by (rule cs_turnsI [OF inv]) (use m(1) d(4) in \<open>simp_all add: m(3-6)\<close>)
  next
    case (CloseFrame i)
    note m = CloseFrame_moves [OF d(1) assms(4) [unfolded CloseFrame]]
    show ?thesis by (rule cs_turnsI [OF inv]) (use m(1) d(2) in \<open>simp_all add: m(3-6)\<close>)
  next
    case (RequestRead close)
    then show ?thesis
      by (intro cs_turnsI [OF inv]) (use assms(4) d(5,6) in \<open>auto simp: new_frame_live split: if_splits\<close>)
  next
    case RequestFailed
    then show ?thesis
      by (intro cs_turnsI [OF inv]) (use assms(4) d(5) in \<open>auto simp: ctl_failed_def ctl_Unlock_def split: if_splits\<close>)
  next
    case EnterFrame
    show ?thesis
      by (rule cs_turnsI [OF inv]) (use EnterFrame assms(4) d(2,3,5) in \<open>auto simp: ctl_enter_def split: if_splits\<close>)
  next
    case HandlerReturned
    show ?thesis
      by (rule cs_turnsI [OF inv]) (use HandlerReturned assms(4) d(2,3,5) in \<open>auto simp: ctl_enter_def split: if_splits\<close>)
  next
    case HandlerFailed
    show ?thesis
      by (rule cs_turnsI [OF inv]) (use HandlerFailed assms(4) d(2,3,5) in \<open>auto simp: ctl_enter_def split: if_splits\<close>)
  qed (use assms(2,3) in simp_all)
qed

lemma cs_turns_reached:
  "cs_reaches may w w' \<Longrightarrow> (\<And>e. may e \<Longrightarrow> orderly e \<and> e \<noteq> CallEnd) \<Longrightarrow> cs_turns w \<Longrightarrow> cs_turns w'"
  by (induction rule: cs_reaches.induct) (auto dest: cs_event_turns)

lemma cs_turns_start: "cs_turns cs_start"
  using cs_inv_start by (simp add: cs_turns_def cs_start_def last_frame_def)

text \<open>A session stopped for ever: the lock is held, every frame is closed, and the loop waits for the lock.\<close>

definition stopped :: "control_system \<Rightarrow> bool" where
  "stopped w \<longleftrightarrow> \<not> cs_crashed w \<and> ctl_lock (cs_ctl w) \<and> cs_loop w = AtFrame
     \<and> list_all (\<lambda>pc. pc = ClosedFrame) (cs_frames w)"

lemma stopped_event: "stopped w \<Longrightarrow> cs_event e w = Some w' \<Longrightarrow> (\<And>i. e \<noteq> CloseAgain i) \<Longrightarrow> stopped w'"
  by (cases e) (auto simp: stopped_def frame_at_def list_all_length ctl_End_def ctl_Hyjack_def split: if_splits)

lemma stopped_for_ever: "cs_reaches may w w' \<Longrightarrow> (\<And>e i. may e \<Longrightarrow> e \<noteq> CloseAgain i) \<Longrightarrow> stopped w \<Longrightarrow> stopped w'"
  by (induction rule: cs_reaches.induct) (auto dest: stopped_event)

subsection \<open>A head that is lost\<close>

lemma FormatResponse_nonempty: "FormatResponse st r keys = Inr head \<Longrightarrow> head \<noteq> []"
  by (auto simp: FormatResponse_def elim!: bind_goE)

text \<open>A second head on a session that closes unlocks the lock again.\<close>

lemma second_head:
  assumes "env_p env = standard_processor" "ses_closing (ses f)" "\<not> conLock (ses f)"
  shows "headerGenerator env f = Inl (Explicit ''sync: unlock of unlocked mutex'')"
proof -
  obtain b h where "Has standard_processor ''Connection'' [''close''] (resp_Header f) = Inr (b, h)"
    using Has_one [OF connection_tokens(1)] by blast
  with assms show ?thesis by (simp add: headerGenerator_def conLock_Unlock_def Let_def)
qed

subsection \<open>Properties\<close>

text \<open>
  C4: the control system is what the operations of a session do to its lock and flags: \<open>End\<close>, \<open>Hyjack\<close>, a
  \<open>Frame\<close> that returns, the head of a response and the closing of a frame change the control state of a
  session exactly as the events change that of the system; the head and the close panic when the events do.
\<close>

theorem control_refined:
  "ctl_of (Session_End s) = ctl_End (ctl_of s) \<and> ctl_of (Hyjack s) = ctl_Hyjack (ctl_of s)
    \<and> (case Frame env parse_uri None s of
        None \<Rightarrow> ctl_lock (ctl_of s)
      | Some (Inl p) \<Rightarrow> \<not> ctl_lock (ctl_of s)
      | Some (Inr res) \<Rightarrow> \<not> ctl_lock (ctl_of s) \<and> frame_ctl (ctl_of s) res)
    \<and> (case headerGenerator env f of
        Inl p \<Rightarrow> True
      | Inr (head, f') \<Rightarrow> ctl_head (want_close env f) (ctl_of (ses f)) = Inr (ctl_of (ses f')))
    \<and> ctl_close (ctl_of (ses f)) = (case frame_close f of Inl p \<Rightarrow> Inl p | Inr (e, f') \<Rightarrow> Inr (ctl_of (ses f')))"
  (is "?end \<and> ?hyjack \<and> ?frame \<and> ?head \<and> ?close")
proof (intro conjI)
  show "ctl_of (Session_End s) = ctl_End (ctl_of s)" "ctl_of (Hyjack s) = ctl_Hyjack (ctl_of s)" by (rule End_Hyjack_ctl)+
  have "Frame env parse_uri None s = None \<longleftrightarrow> ctl_lock (ctl_of s)" by (simp add: Frame_def Let_def split: prod.splits option.splits)
  then show ?frame using Frame_ctl [of env parse_uri s] by (auto split: option.splits sum.splits)
  show ?head using headerGenerator_ctl [of env f] by (auto split: sum.splits)
  show ?close by (rule frame_close_ctl)
qed

text \<open>
  C3: however the loop, handlers that close a frame once on a connection that takes the heads, and calls of
  \<open>End\<close> interleave, the program does not crash, at most one frame of a session is open at any time, and it is
  the last one; a request is only read when no frame is open.
\<close>

theorem one_frame_at_a_time:
  assumes "cs_reaches orderly cs_start w"
  shows "\<not> cs_crashed w \<and> (\<forall>i pc. frame_at w i pc \<and> pc \<noteq> ClosedFrame \<longrightarrow>
    Suc i = length (cs_frames w) \<and> cs_loop w \<noteq> ReadingRequest)"
proof -
  have inv: "cs_inv w" using cs_inv_reached [OF assms _ cs_inv_start] by simp
  then have "Suc i = length (cs_frames w) \<and> cs_loop w \<noteq> ReadingRequest" if "frame_at w i pc" "pc \<noteq> ClosedFrame" for i pc
    using live_last_at [OF _ that] that(2) by (auto simp: cs_inv_def)
  moreover have "\<not> cs_crashed w" using inv by (simp add: cs_inv_def)
  ultimately show ?thesis by blast
qed

theorem one_frame_at_a_time_witness:
  "\<exists>w. run_events [EnterFrame, RequestRead False, CallEnd, HandlerReturned] cs_start = Some w
    \<and> frame_at w 0 FreshFrame \<and> \<not> cs_crashed w \<and> cs_loop w \<noteq> ReadingRequest"
proof -
  let ?es = "[EnterFrame, RequestRead False, CallEnd, HandlerReturned]"
  obtain w where w: "run_events ?es cs_start = Some w" "frame_at w 0 FreshFrame"
    by (simp add: cs_start_def ctl_defs frame_at_def)
  have "cs_reaches orderly cs_start w" by (rule run_events_reaches [OF w(1)]) simp
  from one_frame_at_a_time [OF this] w show ?thesis by blast
qed

text \<open>
  C15: without calls of \<open>End\<close> and \<open>Hyjack\<close> every request gets its turn: when the loop wants the next frame and the
  handlers have closed the frames they were given, the lock is free, and it is taken unless the session closes.
\<close>

theorem next_frame_proceeds:
  assumes "cs_reaches (\<lambda>e. orderly e \<and> e \<noteq> CallEnd) cs_start w"
    and "cs_loop w = AtFrame" "list_all (\<lambda>pc. pc = ClosedFrame) (cs_frames w)"
  shows "\<exists>w'. cs_event EnterFrame w = Some w' \<and> cs_loop w' = (if ctl_closing (cs_ctl w) then LoopDone else ReadingRequest)"
proof -
  have t: "cs_turns w" by (rule cs_turns_reached [OF assms(1) _ cs_turns_start]) simp
  have "last_frame w = ClosedFrame" using assms(3) by (simp add: last_frame_def list_all_iff)
  then have "\<not> ctl_lock (cs_ctl w)" using cs_turnsD(3) [OF t] assms(2) by simp
  with assms(2) show ?thesis by simp
qed

theorem next_frame_proceeds_witness:
  "\<exists>w w'. run_events [EnterFrame, RequestRead False, HandlerReturned, WriteHead 0 False, CloseFrame 0] cs_start = Some w
    \<and> cs_event EnterFrame w = Some w' \<and> cs_loop w' = ReadingRequest"
proof -
  let ?es = "[EnterFrame, RequestRead False, HandlerReturned, WriteHead 0 False, CloseFrame 0]"
  obtain w where w: "run_events ?es cs_start = Some w" "cs_loop w = AtFrame" "list_all (\<lambda>pc. pc = ClosedFrame) (cs_frames w)"
    "\<not> ctl_closing (cs_ctl w)" by (simp add: cs_start_def ctl_defs frame_at_def)
  have "cs_reaches (\<lambda>e. orderly e \<and> e \<noteq> CallEnd) cs_start w" by (rule run_events_reaches [OF w(1)]) simp
  from next_frame_proceeds [OF this w(2,3)] w(1,4) show ?thesis by auto
qed

text \<open>
  C17: the lock is broken by one call at the wrong moment. \<open>End\<close> between the head and the end of a response that
  keeps the connection stops the session for ever: the loop waits for a lock that is never given back, whatever
  happens but another close of a frame. \<open>Hyjack\<close> before the head, or after one that closes the connection,
  crashes the program when the frame is closed. A frame closed again crashes it as well, unless the next request
  is there already: then its lock is given away and two frames are open. A head that was not taken by a connection
  about to close crashes it when the head is tried again. An \<open>End\<close> while a request is read is forgotten.
\<close>

theorem session_lock_broken:
  "(\<exists>w. run_events [EnterFrame, RequestRead False, WriteHead 0 False, CallEnd, CloseFrame 0, HandlerReturned] cs_start = Some w
      \<and> stopped w \<and> (\<nexists>w'. cs_reaches (\<lambda>e. \<nexists>i. e = CloseAgain i) w w' \<and> cs_event EnterFrame w' \<noteq> None))
    \<and> (\<exists>w. run_events [EnterFrame, RequestRead False, CallHyjack, WriteHead 0 False, CloseFrame 0] cs_start = Some w \<and> cs_crashed w)
    \<and> (\<exists>w. run_events [EnterFrame, RequestRead False, WriteHead 0 True, CallHyjack, CloseFrame 0] cs_start = Some w \<and> cs_crashed w)
    \<and> (\<exists>w. run_events [EnterFrame, RequestRead False, WriteHead 0 False, CloseFrame 0, CloseAgain 0] cs_start = Some w \<and> cs_crashed w)
    \<and> (\<exists>w. run_events [EnterFrame, RequestRead False, WriteHead 0 False, CloseFrame 0, HandlerReturned, EnterFrame, RequestRead False,
          CloseAgain 0, HandlerReturned, EnterFrame, RequestRead False] cs_start = Some w \<and> frame_at w 1 FreshFrame \<and> frame_at w 2 FreshFrame)
    \<and> (\<exists>w. run_events [EnterFrame, RequestRead True, LoseHead 0 False, WriteHead 0 False] cs_start = Some w \<and> cs_crashed w)
    \<and> (\<exists>w. run_events [EnterFrame, CallEnd, RequestRead False] cs_start = Some w \<and> \<not> ctl_closing (cs_ctl w))"
proof -
  obtain w where w: "run_events [EnterFrame, RequestRead False, WriteHead 0 False, CallEnd, CloseFrame 0, HandlerReturned] cs_start = Some w"
    "stopped w" by (simp add: cs_start_def ctl_defs frame_at_def stopped_def)
  have "cs_event EnterFrame w' = None" if "cs_reaches (\<lambda>e. \<nexists>i. e = CloseAgain i) w w'" for w'
    using stopped_for_ever [OF that _ w(2)] by (simp add: stopped_def)
  then have "\<nexists>w'. cs_reaches (\<lambda>e. \<nexists>i. e = CloseAgain i) w w' \<and> cs_event EnterFrame w' \<noteq> None"
    by (simp del: cs_event.simps cong: conj_cong)
  with w show ?thesis by (auto simp: cs_start_def ctl_defs frame_at_def)
qed

text \<open>
  C18: a client that goes away can end the server. When the session is about to close and the stream takes no more
  bytes, a write of the body fails for want of its head, and the next write, flush or close of it panics in \<open>Unlock\<close>.
\<close>

theorem lost_head_fatal:
  assumes "env_p env = standard_processor" "\<not> HeadWritten f" "conLock (ses f)" "closes f"
    and "conn_room (ses_stream (ses f)) = Some 0"
  shows "\<exists>n e f'. writerWrapper_Write (frame_ops env) src f = Inr ((n, Some e), f')
    \<and> writerWrapper_Close (frame_ops env) f' = Inl (Explicit ''sync: unlock of unlocked mutex'')
    \<and> writerWrapper_Flush (frame_ops env) f' = Inl (Explicit ''sync: unlock of unlocked mutex'')
    \<and> writerWrapper_Write (frame_ops env) src' f' = Inl (Explicit ''sync: unlock of unlocked mutex'')"
proof -
  obtain head h c where g: "headerGenerator env f = Inr (head, f\<lparr>resp_Header := h, resp_cacheControl := c,
      ses := (ses f)\<lparr>ses_closing := closes f, conLock := \<not> closes f\<rparr>\<rparr>)"
    "FormatResponse (env_status_text env) (f\<lparr>resp_Header := h\<rparr>) (env_order env h) = Inr head"
    using headerGenerator_ok [OF assms(1,3)] by blast
  let ?f1 = "f\<lparr>resp_Header := h, resp_cacheControl := c, ses := (ses f)\<lparr>ses_closing := closes f, conLock := \<not> closes f\<rparr>\<rparr>"
  have head: "head \<noteq> []" by (rule FormatResponse_nonempty [OF g(2)])
  obtain e c where w: "stream_Write (head @ src) (ses_stream (ses f)) = ((0, Some e), c)"
  proof (cases "stream_closed (ses_stream (ses f))")
    case True
    then show ?thesis by (intro that) (simp add: stream_Write_def)
  next
    case False
    then show ?thesis using assms(5) head by (intro that) (simp add: stream_Write_def)
  qed
  let ?f2 = "?f1\<lparr>ses := (ses ?f1)\<lparr>ses_stream := c\<rparr>\<rparr>"
  have again: "headerGenerator env ?f2 = Inl (Explicit ''sync: unlock of unlocked mutex'')"
    by (rule second_head) (simp_all add: assms(1,4))
  have "writerWrapper_Write (frame_ops env) src f = Inr ((- int (length head), Some e), ?f2)"
    using assms(2) g(1) w head by (simp add: writerWrapper_Write_def frame_ops_def)
  moreover have "writerWrapper_Close (frame_ops env) ?f2 = Inl (Explicit ''sync: unlock of unlocked mutex'')"
      "writerWrapper_Flush (frame_ops env) ?f2 = Inl (Explicit ''sync: unlock of unlocked mutex'')"
      "writerWrapper_Write (frame_ops env) src' ?f2 = Inl (Explicit ''sync: unlock of unlocked mutex'')"
    using assms(2) again
    by (simp_all add: writerWrapper_Close_def writerWrapper_Flush_def writerWrapper_Write_def writeHeader_def frame_ops_def)
  ultimately show ?thesis by blast
qed

text \<open>A request that asks to close, from a client that is gone.\<close>

definition abandoned_frame :: "(unit, unit) http_env \<Rightarrow> (unit, unit) frame" where
  "abandoned_frame env = (let f = sample_frame env ''GET'' in
     f\<lparr>ses := (ses f)\<lparr>ses_closing := True, ses_stream := (ses_stream (ses f))\<lparr>conn_room := Some 0\<rparr>\<rparr>\<rparr>)"

lemma abandoned_frame_fields:
  "\<not> HeadWritten (abandoned_frame env)" "conLock (ses (abandoned_frame env))" "closes (abandoned_frame env)"
  "conn_room (ses_stream (ses (abandoned_frame env))) = Some 0"
  using sample_frame_fields(1) [of env "''GET''"] by (simp_all add: abandoned_frame_def fresh_frame_def closes_def Let_def)

theorem lost_head_fatal_witness:
  "\<exists>(env :: (unit, unit) http_env) n e f'.
    writerWrapper_Write (frame_ops (env\<lparr>env_p := standard_processor\<rparr>)) ''hi'' (abandoned_frame env) = Inr ((n, Some e), f')
    \<and> writerWrapper_Close (frame_ops (env\<lparr>env_p := standard_processor\<rparr>)) f' = Inl (Explicit ''sync: unlock of unlocked mutex'')"
proof -
  fix env :: "(unit, unit) http_env"
  show ?thesis
    using lost_head_fatal [of "env\<lparr>env_p := standard_processor\<rparr>" "abandoned_frame env" "''hi''" "''x''"] abandoned_frame_fields [of env]
    by auto
qed

end
