(* ===== verification/Status_Map_Order.thy ===== *)
theory Status_Map_Order
  imports Response_Status
begin

section \<open>Filling a status map from a Go map: \<open>SetMap\<close> of \<open>jps/responseStatusMaps.go\<close>\<close>

text \<open>
  \<open>SetMap\<close> ranges over a Go map, whose order is a different one in every run. The order is an argument,
  any list of the keys. The contract \<open>status_map\<close> of the two map types is extended by the loop.
\<close>

fun Uint16Map_SetMap ::
  "ResponseStatusToUint16Map \<Rightarrow> ResponseStatus list \<Rightarrow> (ResponseStatus \<rightharpoonup> 16 word) \<Rightarrow> ResponseStatusToUint16Map go" where
  "Uint16Map_SetMap maps [] m = Inr maps"
| "Uint16Map_SetMap maps (s # order) m =
     bind_go (Uint16Map_Set maps s (the (m s))) (\<lambda>maps'. Uint16Map_SetMap maps' order m)"

fun CodeWithStringMap_SetMap ::
  "ResponseStatusToCodeWithStringMap \<Rightarrow> ResponseStatus list \<Rightarrow> (ResponseStatus \<rightharpoonup> CodeWithString)
     \<Rightarrow> ResponseStatusToCodeWithStringMap go" where
  "CodeWithStringMap_SetMap maps [] m = Inr maps"
| "CodeWithStringMap_SetMap maps (s # order) m =
     bind_go (CodeWithStringMap_Set maps s (the (m s))) (\<lambda>maps'. CodeWithStringMap_SetMap maps' order m)"

definition iteration_order :: "('k \<rightharpoonup> 'v) \<Rightarrow> 'k list \<Rightarrow> bool" where
  "iteration_order m order \<longleftrightarrow> distinct order \<and> set order = dom m"

lemma map_of_order:
  assumes "iteration_order m order"
  shows "map_of (rev (map (\<lambda>s. (s, the (m s))) order)) t = m t"
  using assms unfolding iteration_order_def rev_map map_of_map_restrict by (auto simp: restrict_map_def dom_def)

locale status_map_loop = status_map get set_one set_all
  for get :: "'m \<Rightarrow> ResponseStatus \<Rightarrow> 'v"
    and set_one :: "'m \<Rightarrow> ResponseStatus \<Rightarrow> 'v \<Rightarrow> 'm go"
    and set_all :: "'m \<Rightarrow> (ResponseStatus \<times> 'v) list \<Rightarrow> 'm go" +
  fixes set_map :: "'m \<Rightarrow> ResponseStatus list \<Rightarrow> (ResponseStatus \<rightharpoonup> 'v) \<Rightarrow> 'm go"
  assumes set_map_Nil: "set_map m [] f = Inr m"
    and set_map_Cons: "set_map m (s # order) f = bind_go (set_one m s (the (f s))) (\<lambda>m'. set_map m' order f)"
begin

lemma set_map_set_all: "set_map m order f = set_all m (map (\<lambda>s. (s, the (f s))) order)"
  by (induction order arbitrary: m) (simp_all add: set_map_Nil set_map_Cons set_all_Nil set_all_Cons)

lemma get_set_map:
  assumes "iteration_order f order" "\<And>s. s \<in> dom f \<Longrightarrow> valid_type s \<and> GetCode s \<noteq> 0"
  shows "\<exists>m'. set_map m order f = Inr m' \<and> (\<forall>t. get m' t = (case f t of Some v \<Rightarrow> v | None \<Rightarrow> get m t))"
proof -
  have "valid_type s \<and> GetCode s \<noteq> 0" if "(s, v) \<in> set (map (\<lambda>s. (s, the (f s))) order)" for s v
    using that assms by (auto simp: iteration_order_def)
  then show ?thesis
    using get_set_all [where m = m and ps = "map (\<lambda>s. (s, the (f s))) order"] map_of_order [OF assms(1)] unfolding set_map_set_all by simp
qed

end

interpretation uint16_loop: status_map_loop Uint16Map_Get Uint16Map_Set Uint16Map_SetAll Uint16Map_SetMap
  by unfold_locales simp_all

interpretation code_loop: status_map_loop CodeWithStringMap_Get CodeWithStringMap_Set CodeWithStringMap_SetAll CodeWithStringMap_SetMap
  by unfold_locales simp_all

subsection \<open>Properties\<close>

text \<open>
  An entry at code 0 is the default of its type, with which gaps are filled when they arise. Its place in
  the order decides what an unlisted status gets.
\<close>

lemma SetMap_default_by_order:
  "let m = \<lparr>u_OK = [], u_Redirect = [], u_ClientError = [], u_ServerError = [], u_Default = 7\<rparr>;
       f = [0x8000 \<mapsto> 400, 0x8003 \<mapsto> 403] :: ResponseStatus \<rightharpoonup> 16 word
   in \<exists>order1 order2 m1 m2. iteration_order f order1 \<and> iteration_order f order2
    \<and> Uint16Map_SetMap m order1 f = Inr m1 \<and> Uint16Map_SetMap m order2 f = Inr m2
    \<and> Uint16Map_Get m1 0x8001 = 400 \<and> Uint16Map_Get m2 0x8001 = 7"
proof -
  let ?m = "\<lparr>u_OK = [], u_Redirect = [], u_ClientError = [], u_ServerError = [], u_Default = 7\<rparr>"
  let ?f = "[0x8000 \<mapsto> 400, 0x8003 \<mapsto> 403] :: ResponseStatus \<rightharpoonup> 16 word"
  have "iteration_order ?f [0x8000, 0x8003]" "iteration_order ?f [0x8003, 0x8000]" by (auto simp: iteration_order_def)
  moreover have "Uint16Map_SetMap ?m [0x8000, 0x8003] ?f = Inr (?m\<lparr>u_ClientError := [400, 400, 400, 403]\<rparr>)" by code_simp
  moreover have "Uint16Map_SetMap ?m [0x8003, 0x8000] ?f = Inr (?m\<lparr>u_ClientError := [400, 7, 7, 403]\<rparr>)" by code_simp
  moreover have "Uint16Map_Get (?m\<lparr>u_ClientError := [400, 400, 400, 403]\<rparr>) 0x8001 = 400"
    "Uint16Map_Get (?m\<lparr>u_ClientError := [400, 7, 7, 403]\<rparr>) 0x8001 = 7" by code_simp+
  ultimately show ?thesis unfolding Let_def by blast
qed

text \<open>
  Filling either map from a Go map whose statuses have a known type and a non-zero code never panics, and
  the result does not depend on the order of the iteration: \<open>Get\<close> gives each status of the Go map its value
  and every other one what it had.
\<close>

theorem SetMap_any_order:
  assumes "iteration_order f order" "iteration_order g order'"
    and "\<And>s. s \<in> dom f \<union> dom g \<Longrightarrow> valid_type s \<and> GetCode s \<noteq> 0"
  shows "(\<exists>m'. Uint16Map_SetMap m order f = Inr m'
      \<and> (\<forall>t. Uint16Map_Get m' t = (case f t of Some v \<Rightarrow> v | None \<Rightarrow> Uint16Map_Get m t)))
    \<and> (\<exists>c'. CodeWithStringMap_SetMap c order' g = Inr c'
      \<and> (\<forall>t. CodeWithStringMap_Get c' t = (case g t of Some v \<Rightarrow> v | None \<Rightarrow> CodeWithStringMap_Get c t)))"
  using uint16_loop.get_set_map [OF assms(1), of m] code_loop.get_set_map [OF assms(2), of c] assms(3) by blast

theorem SetMap_any_order_witness:
  "let m = \<lparr>u_OK = [], u_Redirect = [], u_ClientError = [], u_ServerError = [], u_Default = 7\<rparr>;
       f = [0x8004 \<mapsto> 404, 0x4003 \<mapsto> 502]
   in \<exists>m1 m2. Uint16Map_SetMap m [0x8004, 0x4003] f = Inr m1 \<and> Uint16Map_SetMap m [0x4003, 0x8004] f = Inr m2
    \<and> Uint16Map_Get m1 0x8004 = 404 \<and> Uint16Map_Get m1 0x4003 = 502 \<and> Uint16Map_Get m1 0x8002 = 7
    \<and> Uint16Map_Get m2 0x8004 = 404 \<and> Uint16Map_Get m2 0x4003 = 502 \<and> Uint16Map_Get m2 0x8002 = 7"
proof -
  let ?m = "\<lparr>u_OK = [], u_Redirect = [], u_ClientError = [], u_ServerError = [], u_Default = 7\<rparr> :: ResponseStatusToUint16Map"
  let ?f = "[0x8004 \<mapsto> 404, 0x4003 \<mapsto> 502] :: ResponseStatus \<rightharpoonup> 16 word"
  have none: "iteration_order (Map.empty :: ResponseStatus \<rightharpoonup> CodeWithString) []" by (simp add: iteration_order_def)
  have "valid_type 0x8004 \<and> GetCode 0x8004 \<noteq> 0" "valid_type 0x4003 \<and> GetCode 0x4003 \<noteq> 0" by code_simp+
  then have valid: "valid_type s \<and> GetCode s \<noteq> 0" if "s \<in> dom ?f \<union> dom (Map.empty :: ResponseStatus \<rightharpoonup> CodeWithString)" for s
    using that by auto
  have get: "Uint16Map_Get ?m 0x8002 = 7" by (simp add: Uint16Map_Get_def u_lookup_def)
  have any: "\<exists>m'. Uint16Map_SetMap ?m order ?f = Inr m' \<and> Uint16Map_Get m' 0x8004 = 404
    \<and> Uint16Map_Get m' 0x4003 = 502 \<and> Uint16Map_Get m' 0x8002 = 7" if "iteration_order ?f order" for order
  proof -
    note order = that
    obtain m' where m': "Uint16Map_SetMap ?m order ?f = Inr m'"
      "\<And>t. Uint16Map_Get m' t = (case ?f t of Some v \<Rightarrow> v | None \<Rightarrow> Uint16Map_Get ?m t)"
      using SetMap_any_order [OF order none valid, where m = ?m] by blast
    with get show ?thesis
      by (intro exI [of _ m']) (simp add: m'(2) [of "0x8004"] m'(2) [of "0x4003"] m'(2) [of "0x8002"])
  qed
  have "iteration_order ?f [0x8004, 0x4003]" "iteration_order ?f [0x4003, 0x8004]" by (auto simp: iteration_order_def)
  from any [OF this(1)] any [OF this(2)] show ?thesis unfolding Let_def by blast
qed

end
