(* ===== verification/Streams.thy ===== *)
theory Streams
  imports Prelude
begin

section \<open>Streams and their buffered readers: \<open>jps/stream.go\<close>\<close>

text \<open>
  A handler of a stream reads through a buffered reader. A buffered reader may hold bytes of the
  connection that nobody has read yet, so a session that gives its stream away (\<open>Hyjack\<close>) wraps it with its
  buffered reader, and the next handler finds that reader with \<open>BufioReader\<close> instead of a new one.
  Buffered readers and writers are shared, so they are addresses in a store.
\<close>

subsection \<open>Streams\<close>

text \<open>
  The dynamic values of the interfaces: a reader (writer) is the connection, a \<open>*bufio.Reader\<close>
  (\<open>*bufio.Writer\<close>), or a stream; a stream is the connection's or a \<open>*WrappedStream\<close>. The methods of the
  embedded \<open>Stream\<close> that a wrapped stream does not overwrite are those of the stream inside.
\<close>

datatype io_reader = ConnReader | BufReader nat | StreamReader strm
  and out_writer = ConnWriter | BufWriter nat | StreamWriter strm
  and strm = ConnStrm | WrappedStream io_reader out_writer strm strm

primrec is_bufio_reader :: "io_reader \<Rightarrow> nat option" where
  "is_bufio_reader ConnReader = None"
| "is_bufio_reader (BufReader a) = Some a"
| "is_bufio_reader (StreamReader s) = None"

primrec is_bufio_writer :: "out_writer \<Rightarrow> nat option" where
  "is_bufio_writer ConnWriter = None"
| "is_bufio_writer (BufWriter a) = Some a"
| "is_bufio_writer (StreamWriter s) = None"

lemma is_bufio_reader_SomeE: "is_bufio_reader r = Some a \<Longrightarrow> (r = BufReader a \<Longrightarrow> P) \<Longrightarrow> P"
  by (cases r) auto

definition stream_GetBufioReader :: "strm \<Rightarrow> nat option" where
  "stream_GetBufioReader s = (case s of ConnStrm \<Rightarrow> None | WrappedStream r w c s' \<Rightarrow> is_bufio_reader r)"

definition stream_GetBufioWriter :: "strm \<Rightarrow> nat option" where
  "stream_GetBufioWriter s = (case s of ConnStrm \<Rightarrow> None | WrappedStream r w c s' \<Rightarrow> is_bufio_writer w)"

text \<open>The store: the bytes the connection still delivers, and the buffers that exist.\<close>

record stream_reader =
  sr_size :: nat
  sr_source :: io_reader
  sr_held :: string

record stream_writer =
  sw_size :: nat
  sw_sink :: out_writer
  sw_held :: string

record stream_store =
  net_in :: string
  net_out :: string
  net_closed :: nat
  sreaders :: "stream_reader list"
  swriters :: "stream_writer list"

text \<open>The buffers come from the \<open>BufioSource\<close> of the session, with its sizes.\<close>

definition stream_BufioReader :: "nat \<Rightarrow> strm \<Rightarrow> stream_store \<Rightarrow> nat \<times> stream_store" where
  "stream_BufioReader sz s st =
     (case stream_GetBufioReader s of
        Some a \<Rightarrow> (a, st)
      | None \<Rightarrow> (length (sreaders st),
          st\<lparr>sreaders := sreaders st @ [\<lparr>sr_size = sz, sr_source = StreamReader s, sr_held = []\<rparr>]\<rparr>))"

definition stream_BufioWriter :: "nat \<Rightarrow> strm \<Rightarrow> stream_store \<Rightarrow> nat \<times> stream_store" where
  "stream_BufioWriter sz s st =
     (case stream_GetBufioWriter s of
        Some a \<Rightarrow> (a, st)
      | None \<Rightarrow> (length (swriters st),
          st\<lparr>swriters := swriters st @ [\<lparr>sw_size = sz, sw_sink = StreamWriter s, sw_held = []\<rparr>]\<rparr>))"

text \<open>
  A read goes down to the first buffer that holds something, or to the connection. \<open>bufio.Reader.Read\<close>
  is that of the standard library: a read at least as large as an empty buffer bypasses it, a smaller one
  fills it. The end of the connection is an empty result. \<^term>\<open>None\<close> is a read that never returns, which
  happens when buffers read from each other in a circle.
\<close>

partial_function (option) strm_Read :: "io_reader \<Rightarrow> nat \<Rightarrow> stream_store \<Rightarrow> (string \<times> stream_store) option" where
  "strm_Read r n st =
     (case r of
        ConnReader \<Rightarrow> Some (take n (net_in st), st\<lparr>net_in := drop n (net_in st)\<rparr>)
      | StreamReader s \<Rightarrow>
          (case s of
             ConnStrm \<Rightarrow> strm_Read ConnReader n st
           | WrappedStream r' w c s' \<Rightarrow> strm_Read r' n st)
      | BufReader a \<Rightarrow>
          (let b = sreaders st ! a in
           if n = 0 then Some ([], st)
           else if sr_held b \<noteq> [] then
             Some (take n (sr_held b), st\<lparr>sreaders := (sreaders st)[a := b\<lparr>sr_held := drop n (sr_held b)\<rparr>]\<rparr>)
           else if sr_size b \<le> n then strm_Read (sr_source b) n st
           else Option.bind (strm_Read (sr_source b) (sr_size b) st) (\<lambda>(d, st').
             Some (take n d, st'\<lparr>sreaders := (sreaders st')[a := b\<lparr>sr_held := drop n d\<rparr>]\<rparr>))))"

text \<open>\<open>Close\<close> of a wrapped stream is that of its closer.\<close>

primrec strm_Close :: "strm \<Rightarrow> stream_store \<Rightarrow> stream_store" where
  "strm_Close ConnStrm st = st\<lparr>net_closed := net_closed st + 1\<rparr>"
| "strm_Close (WrappedStream r w c s) st = strm_Close c st"

text \<open>What the HTTP/1 session does: take the stream with a buffered reader, and give both away.\<close>

record strm_session =
  ss_stream :: strm
  ss_reader :: nat

definition strm_Handle :: "nat \<Rightarrow> strm \<Rightarrow> stream_store \<Rightarrow> strm_session \<times> stream_store" where
  "strm_Handle sz con st = (let (a, st') = stream_BufioReader sz con st in (\<lparr>ss_stream = con, ss_reader = a\<rparr>, st'))"

definition strm_Hyjack :: "strm_session \<Rightarrow> strm" where
  "strm_Hyjack s = WrappedStream (BufReader (ss_reader s)) (StreamWriter (ss_stream s)) (ss_stream s) (ss_stream s)"

subsection \<open>The bytes a reader will deliver\<close>

text \<open>
  The buffers below address \<open>k\<close>: what a reader holds comes before what its source delivers. A store is
  ordered when every buffer reads from older ones, as those made by \<open>BufioReader\<close> do.
\<close>

function remaining :: "stream_store \<Rightarrow> nat \<Rightarrow> io_reader \<Rightarrow> string" where
  "remaining st k ConnReader = net_in st"
| "remaining st k (BufReader a) =
     (if a < k then sr_held (sreaders st ! a) @ remaining st a (sr_source (sreaders st ! a)) else [])"
| "remaining st k (StreamReader ConnStrm) = net_in st"
| "remaining st k (StreamReader (WrappedStream r w c s)) = remaining st k r"
  by pat_completeness auto
termination by (relation "measures [\<lambda>(st, k, r). k, \<lambda>(st, k, r). size r]") auto

fun reader_below :: "nat \<Rightarrow> io_reader \<Rightarrow> bool" where
  "reader_below k ConnReader = True"
| "reader_below k (BufReader a) = (a < k)"
| "reader_below k (StreamReader ConnStrm) = True"
| "reader_below k (StreamReader (WrappedStream r w c s)) = reader_below k r"

definition ordered_store :: "stream_store \<Rightarrow> bool" where
  "ordered_store st \<longleftrightarrow> (\<forall>a < length (sreaders st). reader_below a (sr_source (sreaders st ! a)) \<and> 0 < sr_size (sreaders st ! a))"

lemma reader_below_mono: "reader_below k r \<Longrightarrow> k \<le> k' \<Longrightarrow> reader_below k' r"
  by (induction k r rule: reader_below.induct) auto

lemma remaining_bound: "reader_below k r \<Longrightarrow> k \<le> k' \<Longrightarrow> remaining st k' r = remaining st k r"
  by (induction k r rule: reader_below.induct) auto

text \<open>The bytes behind a reader depend only on the connection and on the buffers below it.\<close>

definition same_below :: "nat \<Rightarrow> stream_store \<Rightarrow> stream_store \<Rightarrow> bool" where
  "same_below k st st' \<longleftrightarrow> net_in st' = net_in st \<and> take k (sreaders st') = take k (sreaders st)"

lemma remaining_cong: "same_below k st st' \<Longrightarrow> k \<le> length (sreaders st) \<Longrightarrow> remaining st' k r = remaining st k r"
proof (induction st k r rule: remaining.induct)
  case (2 st k a)
  show ?case
  proof (cases "a < k")
    case True
    then have "take k (sreaders st') ! a = take k (sreaders st) ! a" using 2(2) by (simp add: same_below_def)
    with True have "sreaders st' ! a = sreaders st ! a" by simp
    moreover have "take a (sreaders st') = take a (sreaders st)"
      using 2(2) True take_take [of a k "sreaders st'"] take_take [of a k "sreaders st"] by (simp add: same_below_def min_def)
    then have "same_below a st st'" using 2(2) by (simp add: same_below_def)
    ultimately show ?thesis using 2(1) [OF True] True 2(3) by simp
  qed simp
qed (simp_all add: same_below_def)

text \<open>
  A read of a reader below \<open>k\<close> returns, takes its bytes off the front, at least one if there are any, and
  leaves the buffers from \<open>k\<close> on alone.
\<close>

definition read_takes :: "nat \<Rightarrow> io_reader \<Rightarrow> nat \<Rightarrow> stream_store \<Rightarrow> string \<times> stream_store \<Rightarrow> bool" where
  "read_takes k r n st res \<longleftrightarrow> (case res of (d, st') \<Rightarrow>
     remaining st k r = d @ remaining st' k r \<and> length d \<le> n \<and> (remaining st k r \<noteq> [] \<longrightarrow> d \<noteq> [])
     \<and> length (sreaders st') = length (sreaders st) \<and> drop k (sreaders st') = drop k (sreaders st)
     \<and> map sr_source (sreaders st') = map sr_source (sreaders st) \<and> map sr_size (sreaders st') = map sr_size (sreaders st))"

lemma read_takesI:
  assumes "remaining st k r = d @ remaining st' k r" "length d \<le> n" "remaining st k r \<noteq> [] \<longrightarrow> d \<noteq> []"
    and "length (sreaders st') = length (sreaders st)" "drop k (sreaders st') = drop k (sreaders st)"
    and "map sr_source (sreaders st') = map sr_source (sreaders st)" "map sr_size (sreaders st') = map sr_size (sreaders st)"
  shows "read_takes k r n st (d, st')"
  unfolding read_takes_def prod.case using assms by blast

lemma read_takesD:
  assumes "read_takes k r n st (d, st')"
  shows "remaining st k r = d @ remaining st' k r" "length d \<le> n" "remaining st k r \<noteq> [] \<longrightarrow> d \<noteq> []"
    and "length (sreaders st') = length (sreaders st)" "drop k (sreaders st') = drop k (sreaders st)"
    and "map sr_source (sreaders st') = map sr_source (sreaders st)" "map sr_size (sreaders st') = map sr_size (sreaders st)"
  using assms unfolding read_takes_def prod.case by blast+

lemma ordered_store_cong:
  assumes "map sr_source (sreaders st') = map sr_source (sreaders st)" "map sr_size (sreaders st') = map sr_size (sreaders st)"
  shows "ordered_store st' = ordered_store st"
proof -
  have "length (sreaders st') = length (sreaders st)" using assms(1) by (rule map_eq_imp_length_eq)
  moreover have "sr_source (sreaders st' ! a) = sr_source (sreaders st ! a)" "sr_size (sreaders st' ! a) = sr_size (sreaders st ! a)"
    if "a < length (sreaders st)" for a
    using that assms calculation by (metis nth_map)+
  ultimately show ?thesis by (simp add: ordered_store_def)
qed

lemma same_below_update: "k \<le> a \<Longrightarrow> same_below k st (st\<lparr>sreaders := (sreaders st)[a := b]\<rparr>)"
  by (simp add: same_below_def)

lemma sreaders_update_same:
  assumes "sr_source b = sr_source (xs ! a)" "sr_size b = sr_size (xs ! a)"
  shows "map sr_source (xs[a := b]) = map sr_source xs" "map sr_size (xs[a := b]) = map sr_size xs"
  using assms by (metis list_update_id map_update)+

lemma drop_eq_nth: "drop a xs = drop a ys \<Longrightarrow> a < length xs \<Longrightarrow> xs ! a = ys ! a"
  by (metis drop_eq_Nil2 hd_drop_conv_nth not_le)

lemma drop_eq_mono: "drop a xs = drop a ys \<Longrightarrow> a \<le> k \<Longrightarrow> drop k xs = drop k ys"
  by (metis drop_drop le_add_diff_inverse2)

lemma strm_Read_Conn: "strm_Read ConnReader n st = Some (take n (net_in st), st\<lparr>net_in := drop n (net_in st)\<rparr>)"
  by (subst strm_Read.simps) simp

lemma strm_Read_ConnStrm: "strm_Read (StreamReader ConnStrm) n st = strm_Read ConnReader n st"
  by (subst strm_Read.simps) simp

lemma strm_Read_Wrapped: "strm_Read (StreamReader (WrappedStream r w c s)) n st = strm_Read r n st"
  by (subst strm_Read.simps) simp

lemma strm_Read_takes:
  "ordered_store st \<Longrightarrow> reader_below k r \<Longrightarrow> k \<le> length (sreaders st) \<Longrightarrow> 0 < n \<Longrightarrow>
    \<exists>res. strm_Read r n st = Some res \<and> read_takes k r n st res"
proof (induction st k r arbitrary: n rule: remaining.induct)
  case (1 st k)
  then show ?case by (auto simp: strm_Read_Conn read_takes_def)
next
  case (2 st k a)
  let ?b = "sreaders st ! a"
  have a: "a < k" "a < length (sreaders st)" using 2(3,4) by auto
  then have src: "reader_below a (sr_source ?b)" "0 < sr_size ?b" using 2(2) by (simp_all add: ordered_store_def)
  have "n \<noteq> 0" using 2(5) by simp
  note read = strm_Read.simps [of "BufReader a" n st, simplified this]
  have IH: "\<exists>d st'. strm_Read (sr_source ?b) m st = Some (d, st') \<and> read_takes a (sr_source ?b) m st (d, st')" if "0 < m" for m
    using 2(1) [OF a(1) 2(2) src(1) less_imp_le [OF a(2)] that] by auto
  have eq: "remaining u k (BufReader a) = sr_held (sreaders u ! a) @ remaining u a (sr_source (sreaders u ! a))" for u
    using a(1) by simp
  show ?case
  proof (cases "sr_held ?b = []")
    case False
    let ?b' = "?b\<lparr>sr_held := drop n (sr_held ?b)\<rparr>"
    let ?st = "st\<lparr>sreaders := (sreaders st)[a := ?b']\<rparr>"
    have rem: "remaining ?st a (sr_source ?b) = remaining st a (sr_source ?b)"
      using a(2) by (intro remaining_cong same_below_update) auto
    have b': "sreaders ?st ! a = ?b'" using a(2) by simp
    have "read_takes k (BufReader a) n st (take n (sr_held ?b), ?st)"
    proof (rule read_takesI)
      show "remaining st k (BufReader a) = take n (sr_held ?b) @ remaining ?st k (BufReader a)"
        unfolding eq b' using rem by simp
    qed (use False 2(5) a(1) sreaders_update_same [of ?b' "sreaders st" a] in simp_all)
    moreover have "strm_Read (BufReader a) n st = Some (take n (sr_held ?b), ?st)" using read False by (simp add: Let_def)
    ultimately show ?thesis by blast
  next
    case empty: True
    show ?thesis
    proof (cases "sr_size ?b \<le> n")
      case True
      obtain d st' where rd: "strm_Read (sr_source ?b) n st = Some (d, st')" "read_takes a (sr_source ?b) n st (d, st')"
        using IH [OF 2(5)] by blast
      note t = read_takesD [OF rd(2)]
      have b: "sreaders st' ! a = ?b" using drop_eq_nth [OF t(5)] a(2) t(4) by simp
      have e: "remaining st k (BufReader a) = remaining st a (sr_source ?b)" unfolding eq empty by simp
      have e': "remaining st' k (BufReader a) = remaining st' a (sr_source ?b)" unfolding eq b empty by simp
      have "read_takes k (BufReader a) n st (d, st')"
        by (rule read_takesI) (use t e e' drop_eq_mono [OF t(5) less_imp_le [OF a(1)]] in metis)+
      moreover have "strm_Read (BufReader a) n st = Some (d, st')" using read empty True rd(1) by (simp add: Let_def)
      ultimately show ?thesis by blast
    next
      case False
      obtain d st' where rd: "strm_Read (sr_source ?b) (sr_size ?b) st = Some (d, st')"
        "read_takes a (sr_source ?b) (sr_size ?b) st (d, st')" using IH [OF src(2)] by blast
      note t = read_takesD [OF rd(2)]
      let ?b' = "?b\<lparr>sr_held := drop n d\<rparr>"
      let ?st = "st'\<lparr>sreaders := (sreaders st')[a := ?b']\<rparr>"
      have b: "sreaders st' ! a = ?b" using drop_eq_nth [OF t(5)] a(2) t(4) by simp
      have b': "sreaders ?st ! a = ?b'" using a(2) t(4) by simp
      have rem: "remaining ?st a (sr_source ?b) = remaining st' a (sr_source ?b)"
        using a(2) t(4) by (intro remaining_cong same_below_update) auto
      have m: "map sr_source (sreaders ?st) = map sr_source (sreaders st')" "map sr_size (sreaders ?st) = map sr_size (sreaders st')"
        using sreaders_update_same [of ?b' "sreaders st'" a] b by simp_all
      have "read_takes k (BufReader a) n st (take n d, ?st)"
      proof (rule read_takesI)
        show "remaining st k (BufReader a) = take n d @ remaining ?st k (BufReader a)"
          unfolding eq b' using rem t(1) empty by simp
        show "remaining st k (BufReader a) \<noteq> [] \<longrightarrow> take n d \<noteq> []"
          unfolding eq using t(3) empty 2(5) by auto
        show "drop k (sreaders ?st) = drop k (sreaders st)"
          using drop_eq_mono [OF t(5) less_imp_le [OF a(1)]] a(1) by simp
        show "map sr_source (sreaders ?st) = map sr_source (sreaders st)" "map sr_size (sreaders ?st) = map sr_size (sreaders st)"
          unfolding m by (rule t(6), rule t(7))
      qed (use t(4) in simp_all)
      moreover have "strm_Read (BufReader a) n st = Some (take n d, ?st)" using read empty False rd(1) by (simp add: Let_def)
      ultimately show ?thesis by blast
    qed
  qed
next
  case (3 st k)
  then show ?case by (auto simp: strm_Read_ConnStrm strm_Read_Conn read_takes_def)
next
  case (4 st k r w c s)
  have "reader_below k r" using 4(3) by simp
  then obtain res where res: "strm_Read r n st = Some res" "read_takes k r n st res"
    using 4(1) [OF 4(2) _ 4(4,5)] by blast
  from res(2) have "read_takes k (StreamReader (WrappedStream r w c s)) n st res" by (simp add: read_takes_def)
  with res(1) show ?case by (simp add: strm_Read_Wrapped)
qed

text \<open>Several reads, one after the other.\<close>

fun strm_reads :: "io_reader \<Rightarrow> nat list \<Rightarrow> stream_store \<Rightarrow> (string \<times> stream_store) option" where
  "strm_reads r [] st = Some ([], st)"
| "strm_reads r (n # ns) st =
     Option.bind (strm_Read r n st) (\<lambda>(d, st'). map_option (apfst (\<lambda>d'. d @ d')) (strm_reads r ns st'))"

lemma strm_reads_takes:
  assumes "ordered_store st" "reader_below k r" "k \<le> length (sreaders st)" "0 \<notin> set ns"
  shows "\<exists>d st'. strm_reads r ns st = Some (d, st') \<and> remaining st k r = d @ remaining st' k r
    \<and> (length ns \<le> length d \<or> remaining st' k r = []) \<and> ordered_store st' \<and> length (sreaders st') = length (sreaders st)"
  using assms
proof (induction ns arbitrary: st)
  case (Cons n ns)
  have n: "0 < n" "0 \<notin> set ns" using Cons.prems(4) by auto
  obtain d st' where rd: "strm_Read r n st = Some (d, st')" "read_takes k r n st (d, st')"
    using strm_Read_takes [OF Cons.prems(1-3) n(1)] by auto
  note t = read_takesD [OF rd(2)]
  have st': "ordered_store st'" "k \<le> length (sreaders st')"
    using t(4) Cons.prems(1,3) ordered_store_cong [OF t(6,7)] by simp_all
  obtain d' st'' where ds: "strm_reads r ns st' = Some (d', st'')" "remaining st' k r = d' @ remaining st'' k r"
    "length ns \<le> length d' \<or> remaining st'' k r = []" "ordered_store st''" "length (sreaders st'') = length (sreaders st')"
    using Cons.IH [OF st'(1) Cons.prems(2) st'(2) n(2)] by blast
  have "length (n # ns) \<le> length (d @ d') \<or> remaining st'' k r = []"
  proof (cases d)
    case Nil
    with t(1,3) ds(2) show ?thesis by simp
  next
    case (Cons c cs)
    with ds(3) show ?thesis by auto
  qed
  moreover have "strm_reads r (n # ns) st = Some (d @ d', st'')" using rd(1) ds(1) by simp
  moreover have "remaining st k r = (d @ d') @ remaining st'' k r" using t(1) ds(2) by simp
  moreover have "length (sreaders st'') = length (sreaders st)" using ds(5) t(4) by simp
  ultimately show ?case using ds(4) by blast
qed simp

subsection \<open>Giving a stream away\<close>

text \<open>
  Handlers that take a stream in turn: each wraps it with \<open>Handle\<close>, reads through its buffered reader, and
  gives it to the next one with \<open>Hyjack\<close>.
\<close>

fun hand_overs :: "nat \<Rightarrow> strm \<Rightarrow> nat list list \<Rightarrow> stream_store \<Rightarrow> (string list \<times> stream_store) option" where
  "hand_overs sz con [] st = Some ([], st)"
| "hand_overs sz con (ns # nss) st =
     (let (s, st1) = strm_Handle sz con st in
      Option.bind (strm_reads (BufReader (ss_reader s)) ns st1) (\<lambda>(d, st2).
        map_option (apfst ((#) d)) (hand_overs sz (strm_Hyjack s) nss st2)))"

lemma BufioReader_new:
  assumes "ordered_store st" "reader_below (length (sreaders st)) (StreamReader con)" "stream_GetBufioReader con = None" "0 < sz"
    and "stream_BufioReader sz con st = (a, st')"
  shows "a = length (sreaders st)" "length (sreaders st') = Suc a" "ordered_store st'"
    and "remaining st' (Suc a) (BufReader a) = remaining st a (StreamReader con)"
proof -
  have st': "a = length (sreaders st)" "st' = st\<lparr>sreaders := sreaders st @ [\<lparr>sr_size = sz, sr_source = StreamReader con, sr_held = []\<rparr>]\<rparr>"
    using assms(3,5) by (simp_all add: stream_BufioReader_def)
  then show "a = length (sreaders st)" "length (sreaders st') = Suc a" by simp_all
  show "ordered_store st'" using assms(1,2,4) st' by (auto simp: ordered_store_def nth_append less_Suc_eq)
  have "remaining st' a (StreamReader con) = remaining st a (StreamReader con)"
    using st' by (intro remaining_cong) (auto simp: same_below_def)
  then show "remaining st' (Suc a) (BufReader a) = remaining st a (StreamReader con)" using st' by (simp add: nth_append)
qed

lemma hand_overs_wrapped:
  "ordered_store st \<Longrightarrow> a < length (sreaders st) \<Longrightarrow> stream_GetBufioReader con = Some a \<Longrightarrow> list_all (\<lambda>ns. 0 \<notin> set ns) nss \<Longrightarrow>
    \<exists>ds st'. hand_overs sz con nss st = Some (ds, st') \<and> length ds = length nss
      \<and> remaining st (length (sreaders st)) (BufReader a) = concat ds @ remaining st' (length (sreaders st)) (BufReader a)
      \<and> length (sreaders st') = length (sreaders st) \<and> list_all2 (\<lambda>ns d. length ns \<le> length d \<or> remaining st' (length (sreaders st)) (BufReader a) = []) nss ds"
proof (induction nss arbitrary: con st)
  case (Cons ns nss)
  let ?k = "length (sreaders st)"
  have h: "strm_Handle sz con st = (\<lparr>ss_stream = con, ss_reader = a\<rparr>, st)"
    using Cons.prems(3) by (simp add: strm_Handle_def stream_BufioReader_def)
  obtain d st1 where d: "strm_reads (BufReader a) ns st = Some (d, st1)"
    "remaining st ?k (BufReader a) = d @ remaining st1 ?k (BufReader a)"
    "length ns \<le> length d \<or> remaining st1 ?k (BufReader a) = []" "ordered_store st1" "length (sreaders st1) = ?k"
    using strm_reads_takes [OF Cons.prems(1), of ?k "BufReader a" ns] Cons.prems(2,4) by auto
  let ?con = "strm_Hyjack \<lparr>ss_stream = con, ss_reader = a\<rparr>"
  have "stream_GetBufioReader ?con = Some a" by (simp add: strm_Hyjack_def stream_GetBufioReader_def)
  from Cons.IH [OF d(4) _ this] Cons.prems(2,4) d(5) obtain ds st' where ds:
    "hand_overs sz ?con nss st1 = Some (ds, st')" "length ds = length nss"
    "remaining st1 ?k (BufReader a) = concat ds @ remaining st' ?k (BufReader a)" "length (sreaders st') = ?k"
    "list_all2 (\<lambda>ns d. length ns \<le> length d \<or> remaining st' ?k (BufReader a) = []) nss ds" by auto
  then show ?case using h d by auto
qed simp

text \<open>The two cases of the first handler: its stream brings a buffered reader, or one is made.\<close>

lemma hand_overs_found:
  assumes "ordered_store st" "reader_below (length (sreaders st)) (StreamReader con)" "stream_GetBufioReader con = Some a"
    and "list_all (\<lambda>ns. 0 \<notin> set ns) nss"
  shows "\<exists>ds st' rest. hand_overs sz con nss st = Some (ds, st') \<and> length ds = length nss
    \<and> remaining st (length (sreaders st)) (StreamReader con) = concat ds @ rest
    \<and> (rest = [] \<or> list_all2 (\<lambda>ns d. length ns \<le> length d) nss ds)
    \<and> length (sreaders st') \<le> length (sreaders st) + 1"
proof -
  obtain w c s where con: "con = WrappedStream (BufReader a) w c s"
    using assms(3) by (auto simp: stream_GetBufioReader_def split: strm.splits elim: is_bufio_reader_SomeE)
  then have "a < length (sreaders st)" using assms(2) by simp
  from hand_overs_wrapped [OF assms(1) this assms(3,4), of sz] obtain ds st' where ds:
    "hand_overs sz con nss st = Some (ds, st')" "length ds = length nss"
    "remaining st (length (sreaders st)) (BufReader a) = concat ds @ remaining st' (length (sreaders st)) (BufReader a)"
    "length (sreaders st') = length (sreaders st)"
    "list_all2 (\<lambda>ns d. length ns \<le> length d \<or> remaining st' (length (sreaders st)) (BufReader a) = []) nss ds" by blast
  let ?rest = "remaining st' (length (sreaders st)) (BufReader a)"
  have "?rest = [] \<or> list_all2 (\<lambda>ns d. length ns \<le> length d) nss ds"
    using ds(5) by (cases "?rest = []") (simp_all del: remaining.simps)
  moreover have "remaining st (length (sreaders st)) (StreamReader con) = concat ds @ ?rest"
    unfolding con remaining.simps(4) by (rule ds(3))
  moreover have "length (sreaders st') \<le> length (sreaders st) + 1" using ds(4) by simp
  ultimately show ?thesis using ds(1,2) by blast
qed

lemma hand_overs_made:
  assumes "ordered_store st" "reader_below (length (sreaders st)) (StreamReader con)" "stream_GetBufioReader con = None" "0 < sz"
    and "list_all (\<lambda>ns. 0 \<notin> set ns) nss"
  shows "\<exists>ds st' rest. hand_overs sz con nss st = Some (ds, st') \<and> length ds = length nss
    \<and> remaining st (length (sreaders st)) (StreamReader con) = concat ds @ rest
    \<and> (rest = [] \<or> list_all2 (\<lambda>ns d. length ns \<le> length d) nss ds)
    \<and> length (sreaders st') \<le> length (sreaders st) + 1"
proof (cases nss)
  case (Cons ns nss')
  obtain a st1 where b: "stream_BufioReader sz con st = (a, st1)" by (metis surj_pair)
  note new = BufioReader_new [OF assms(1,2,3,4) b]
  have ns: "0 \<notin> set ns" "list_all (\<lambda>ns. 0 \<notin> set ns) nss'" using assms(5) Cons by simp_all
  obtain d st2 where d: "strm_reads (BufReader a) ns st1 = Some (d, st2)"
    "remaining st1 (Suc a) (BufReader a) = d @ remaining st2 (Suc a) (BufReader a)"
    "length ns \<le> length d \<or> remaining st2 (Suc a) (BufReader a) = []" "ordered_store st2" "length (sreaders st2) = Suc a"
    using strm_reads_takes [OF new(3), of "Suc a" "BufReader a" ns] new(2) ns(1) by auto
  let ?con = "strm_Hyjack \<lparr>ss_stream = con, ss_reader = a\<rparr>"
  have "stream_GetBufioReader ?con = Some a" "a < length (sreaders st2)"
    using d(5) by (simp_all add: strm_Hyjack_def stream_GetBufioReader_def)
  from hand_overs_wrapped [OF d(4) this(2,1) ns(2), of sz] obtain ds st' where
    ds: "hand_overs sz ?con nss' st2 = Some (ds, st')" "length ds = length nss'"
    "remaining st2 (Suc a) (BufReader a) = concat ds @ remaining st' (Suc a) (BufReader a)"
    "length (sreaders st') = Suc a"
    "list_all2 (\<lambda>ns d. length ns \<le> length d \<or> remaining st' (Suc a) (BufReader a) = []) nss' ds"
    unfolding d(5) by blast
  let ?rest = "remaining st' (Suc a) (BufReader a)"
  have "hand_overs sz con nss st = Some (d # ds, st')"
    using Cons b d(1) ds(1) by (simp add: strm_Handle_def)
  moreover have "remaining st (length (sreaders st)) (StreamReader con) = concat (d # ds) @ ?rest"
    using new(1,4) d(2) ds(3) by simp
  moreover have "?rest = [] \<or> list_all2 (\<lambda>ns d. length ns \<le> length d) nss (d # ds)"
  proof (cases "?rest = []")
    case False
    with ds(3) have "remaining st2 (Suc a) (BufReader a) \<noteq> []" by (metis append_is_Nil_conv)
    with False d(3) ds(5) Cons show ?thesis by (simp del: remaining.simps)
  qed simp
  moreover have "length (sreaders st') \<le> length (sreaders st) + 1" using new(1) ds(4) by simp
  moreover have "length (d # ds) = length nss" using Cons ds(2) by simp
  ultimately show ?thesis by blast
qed simp

subsection \<open>Properties\<close>

text \<open>
  C19: however often a stream is given away, nothing of the connection is lost or read twice: the handlers, each
  reading with buffers of any sizes through its own \<open>BufioReader\<close>, together read the bytes of the stream
  in order, every read gets something while there is something, and at most one buffer is made for all of
  them.
\<close>

theorem hand_overs_in_order:
  assumes "ordered_store st" "reader_below (length (sreaders st)) (StreamReader con)" "0 < sz"
    and "list_all (\<lambda>ns. 0 \<notin> set ns) nss"
  shows "\<exists>ds st' rest. hand_overs sz con nss st = Some (ds, st') \<and> length ds = length nss
    \<and> remaining st (length (sreaders st)) (StreamReader con) = concat ds @ rest
    \<and> (rest = [] \<or> list_all2 (\<lambda>ns d. length ns \<le> length d) nss ds)
    \<and> length (sreaders st') \<le> length (sreaders st) + 1"
proof (cases "stream_GetBufioReader con")
  case (Some a)
  with hand_overs_found assms show ?thesis by blast
next
  case None
  with hand_overs_made assms show ?thesis by blast
qed

theorem hand_overs_in_order_witness:
  "\<exists>ds st'. hand_overs 4 ConnStrm [[1], [2, 1], [5, 5]]
        \<lparr>net_in = ''abcdefgh'', net_out = [], net_closed = 0, sreaders = [], swriters = []\<rparr> = Some (ds, st')
    \<and> (\<exists>rest. ''abcdefgh'' = concat ds @ rest) \<and> length (sreaders st') \<le> 1"
proof -
  let ?st = "\<lparr>net_in = ''abcdefgh'', net_out = [], net_closed = 0, sreaders = [], swriters = []\<rparr> :: stream_store"
  have "ordered_store ?st" "reader_below (length (sreaders ?st)) (StreamReader ConnStrm)" "(0 :: nat) < 4"
    "list_all (\<lambda>ns. (0 :: nat) \<notin> set ns) [[1], [2, 1], [5, 5]]" by (simp_all add: ordered_store_def)
  from hand_overs_in_order [OF this] show ?thesis by fastforce
qed

end
