(* ===== verification/Stream_Writers.thy ===== *)
theory Stream_Writers
  imports Streams
begin

section \<open>Writing to streams through their buffered writers\<close>

text \<open>
  The other direction of \<open>jps/stream.go\<close>: \<open>Write\<close> of a wrapped stream is that of its writer, which may be
  a \<open>*bufio.Writer\<close> that \<open>BufioWriter\<close> made or found. What a writer was given lies in its buffer, in the
  buffers below it, or on the connection, in this order from the end.
\<close>

subsection \<open>Writes\<close>

text \<open>
  \<open>bufio.Writer.Write\<close> is that of the standard library: what fits is kept; otherwise an empty buffer is
  bypassed, and one that holds something is filled and flushed first.
\<close>

partial_function (option) strm_Write :: "out_writer \<Rightarrow> string \<Rightarrow> stream_store \<Rightarrow> stream_store option" where
  "strm_Write w p st =
     (case w of
        ConnWriter \<Rightarrow> Some (st\<lparr>net_out := net_out st @ p\<rparr>)
      | StreamWriter s \<Rightarrow>
          (case s of
             ConnStrm \<Rightarrow> strm_Write ConnWriter p st
           | WrappedStream r w' c s' \<Rightarrow> strm_Write w' p st)
      | BufWriter a \<Rightarrow>
          (let b = swriters st ! a; room = sw_size b - length (sw_held b) in
           if length p \<le> room then Some (st\<lparr>swriters := (swriters st)[a := b\<lparr>sw_held := sw_held b @ p\<rparr>]\<rparr>)
           else if sw_held b = [] then strm_Write (sw_sink b) p st
           else Option.bind (strm_Write (sw_sink b) (sw_held b @ take room p) st) (\<lambda>st'.
             strm_Write w (drop room p) (st'\<lparr>swriters := (swriters st')[a := b\<lparr>sw_held := []\<rparr>]\<rparr>))))"

definition strm_Flush :: "nat \<Rightarrow> stream_store \<Rightarrow> stream_store option" where
  "strm_Flush a st =
     (let b = swriters st ! a in
      if sw_held b = [] then Some st
      else map_option (\<lambda>st'. st'\<lparr>swriters := (swriters st')[a := b\<lparr>sw_held := []\<rparr>]\<rparr>) (strm_Write (sw_sink b) (sw_held b) st))"

subsection \<open>The bytes given to a writer\<close>

function delivered :: "stream_store \<Rightarrow> nat \<Rightarrow> out_writer \<Rightarrow> string" where
  "delivered st k ConnWriter = net_out st"
| "delivered st k (BufWriter a) =
     (if a < k then delivered st a (sw_sink (swriters st ! a)) @ sw_held (swriters st ! a) else [])"
| "delivered st k (StreamWriter ConnStrm) = net_out st"
| "delivered st k (StreamWriter (WrappedStream r w c s)) = delivered st k w"
  by pat_completeness auto
termination by (relation "measures [\<lambda>(st, k, w). k, \<lambda>(st, k, w). size w]") auto

fun writer_below :: "nat \<Rightarrow> out_writer \<Rightarrow> bool" where
  "writer_below k ConnWriter = True"
| "writer_below k (BufWriter a) = (a < k)"
| "writer_below k (StreamWriter ConnStrm) = True"
| "writer_below k (StreamWriter (WrappedStream r w c s)) = writer_below k w"

fun no_buffer_below :: "out_writer \<Rightarrow> bool" where
  "no_buffer_below (StreamWriter (WrappedStream r w c s)) = no_buffer_below w"
| "no_buffer_below (BufWriter a) = False"
| "no_buffer_below w = True"

definition ordered_writers :: "stream_store \<Rightarrow> bool" where
  "ordered_writers st \<longleftrightarrow> (\<forall>a < length (swriters st). writer_below a (sw_sink (swriters st ! a)))"

definition same_writers_below :: "nat \<Rightarrow> stream_store \<Rightarrow> stream_store \<Rightarrow> bool" where
  "same_writers_below k st st' \<longleftrightarrow> net_out st' = net_out st \<and> take k (swriters st') = take k (swriters st)"

lemma unbuffered_delivered: "no_buffer_below w \<Longrightarrow> delivered st k w = net_out st"
  by (induction w rule: no_buffer_below.induct) (auto elim: no_buffer_below.elims)

lemma delivered_cong: "same_writers_below k st st' \<Longrightarrow> k \<le> length (swriters st) \<Longrightarrow> delivered st' k w = delivered st k w"
proof (induction st k w rule: delivered.induct)
  case (2 st k a)
  show ?case
  proof (cases "a < k")
    case True
    then have "take k (swriters st') ! a = take k (swriters st) ! a" using 2(2) by (simp add: same_writers_below_def)
    with True have "swriters st' ! a = swriters st ! a" by simp
    moreover have "take a (swriters st') = take a (swriters st)"
      using 2(2) True take_take [of a k "swriters st'"] take_take [of a k "swriters st"]
      by (simp add: same_writers_below_def min_def)
    then have "same_writers_below a st st'" using 2(2) by (simp add: same_writers_below_def)
    ultimately show ?thesis using 2(1) [OF True] True 2(3) by simp
  qed simp
qed (simp_all add: same_writers_below_def)

lemma same_writers_below_update: "k \<le> a \<Longrightarrow> same_writers_below k st (st\<lparr>swriters := (swriters st)[a := b]\<rparr>)"
  by (simp add: same_writers_below_def)

text \<open>A write to a writer below \<open>k\<close> puts its bytes at the end and leaves the buffers from \<open>k\<close> on alone.\<close>

definition write_puts :: "nat \<Rightarrow> out_writer \<Rightarrow> string \<Rightarrow> stream_store \<Rightarrow> stream_store \<Rightarrow> bool" where
  "write_puts k w p st st' \<longleftrightarrow> delivered st' k w = delivered st k w @ p
     \<and> drop k (swriters st') = drop k (swriters st) \<and> map sw_sink (swriters st') = map sw_sink (swriters st)"

lemma write_putsD:
  assumes "write_puts k w p st st'"
  shows "delivered st' k w = delivered st k w @ p" "drop k (swriters st') = drop k (swriters st)"
    and "map sw_sink (swriters st') = map sw_sink (swriters st)" "length (swriters st') = length (swriters st)"
  using assms map_eq_imp_length_eq [of sw_sink "swriters st'" sw_sink "swriters st"] unfolding write_puts_def by blast+

lemma ordered_writers_cong:
  assumes "map sw_sink (swriters st') = map sw_sink (swriters st)"
  shows "ordered_writers st' = ordered_writers st"
proof -
  have "length (swriters st') = length (swriters st)" using assms by (rule map_eq_imp_length_eq)
  moreover have "sw_sink (swriters st' ! a) = sw_sink (swriters st ! a)" if "a < length (swriters st)" for a
    using that assms calculation by (metis nth_map)
  ultimately show ?thesis by (simp add: ordered_writers_def)
qed

lemma writers_update_same: "sw_sink b = sw_sink (xs ! a) \<Longrightarrow> map sw_sink (xs[a := b]) = map sw_sink xs"
  by (metis list_update_id map_update)

lemma strm_Write_Conn: "strm_Write ConnWriter p st = Some (st\<lparr>net_out := net_out st @ p\<rparr>)"
  by (subst strm_Write.simps) simp

lemma strm_Write_ConnStrm: "strm_Write (StreamWriter ConnStrm) p st = strm_Write ConnWriter p st"
  by (subst strm_Write.simps) simp

lemma strm_Write_Wrapped: "strm_Write (StreamWriter (WrappedStream r w c s)) p st = strm_Write w p st"
  by (subst strm_Write.simps) simp

text \<open>Changing what buffer \<open>a\<close> holds changes the bytes given to it at the end only.\<close>

lemma delivered_BufWriter_update:
  assumes "a < k" "a < length (swriters st)"
  shows "delivered (st\<lparr>swriters := (swriters st)[a := (swriters st ! a)\<lparr>sw_held := h\<rparr>]\<rparr>) k (BufWriter a)
    = delivered st a (sw_sink (swriters st ! a)) @ h"
proof -
  have "delivered (st\<lparr>swriters := (swriters st)[a := (swriters st ! a)\<lparr>sw_held := h\<rparr>]\<rparr>) a (sw_sink (swriters st ! a))
      = delivered st a (sw_sink (swriters st ! a))"
    using assms(2) by (intro delivered_cong same_writers_below_update) auto
  with assms show ?thesis by simp
qed

text \<open>The buffer is emptied into its sink, which got what was held and \<open>q\<close> in one write.\<close>

lemma emptied_into_sink:
  assumes "a < k" "a < length (swriters st)" "write_puts a (sw_sink (swriters st ! a)) (sw_held (swriters st ! a) @ q) st st1"
    and "st2 = st1\<lparr>swriters := (swriters st1)[a := (swriters st ! a)\<lparr>sw_held := []\<rparr>]\<rparr>"
  shows "write_puts k (BufWriter a) q st st2" "sw_held (swriters st2 ! a) = []" "sw_size (swriters st2 ! a) = sw_size (swriters st ! a)"
proof -
  note w = write_putsD [OF assms(3)]
  have same: "swriters st1 ! a = swriters st ! a" using drop_eq_nth [OF w(2)] assms(2) w(4) by simp
  show "sw_held (swriters st2 ! a) = []" "sw_size (swriters st2 ! a) = sw_size (swriters st ! a)"
    unfolding assms(4) using assms(2) w(4) by simp_all
  have "delivered st2 k (BufWriter a) = delivered st1 a (sw_sink (swriters st ! a)) @ []"
    using delivered_BufWriter_update [OF assms(1), of st1 "[]"] assms(2) w(4) unfolding assms(4) same by simp
  moreover have "delivered st k (BufWriter a) = delivered st a (sw_sink (swriters st ! a)) @ sw_held (swriters st ! a)"
    using assms(1) by simp
  moreover have "drop k (swriters st2) = drop k (swriters st)"
    using drop_eq_mono [OF w(2) less_imp_le [OF assms(1)]] assms(1) unfolding assms(4) by simp
  moreover have "map sw_sink (swriters st2) = map sw_sink (swriters st)"
    using w(3) same unfolding assms(4) by (simp add: writers_update_same)
  ultimately show "write_puts k (BufWriter a) q st st2" using w(1) unfolding write_puts_def by simp
qed

lemma write_puts_trans: "write_puts k w p st st1 \<Longrightarrow> write_puts k w q st1 st2 \<Longrightarrow> write_puts k w (p @ q) st st2"
  unfolding write_puts_def by simp

lemma BufWriter_bypassed:
  assumes "a < k" "a < length (swriters st)" "sw_held (swriters st ! a) = []" "write_puts a (sw_sink (swriters st ! a)) p st st1"
  shows "write_puts k (BufWriter a) p st st1"
proof -
  note w = write_putsD [OF assms(4)]
  have "swriters st1 ! a = swriters st ! a" using drop_eq_nth [OF w(2)] assms(2) w(4) by simp
  with assms(1,3) w(1) have "delivered st1 k (BufWriter a) = delivered st k (BufWriter a) @ p" by simp
  with w(3) drop_eq_mono [OF w(2) less_imp_le [OF assms(1)]] show ?thesis unfolding write_puts_def by blast
qed

text \<open>A write that fits, or that finds the buffer empty.\<close>

lemma BufWriter_Write_easy:
  assumes "a < k" "a < length (swriters st)"
    and "length p \<le> sw_size (swriters st ! a) - length (sw_held (swriters st ! a)) \<or> sw_held (swriters st ! a) = []"
    and "\<exists>st1. strm_Write (sw_sink (swriters st ! a)) p st = Some st1 \<and> write_puts a (sw_sink (swriters st ! a)) p st st1"
  shows "\<exists>st1. strm_Write (BufWriter a) p st = Some st1 \<and> write_puts k (BufWriter a) p st st1"
proof (cases "length p \<le> sw_size (swriters st ! a) - length (sw_held (swriters st ! a))")
  case True
  let ?b = "swriters st ! a"
  let ?st = "st\<lparr>swriters := (swriters st)[a := ?b\<lparr>sw_held := sw_held ?b @ p\<rparr>]\<rparr>"
  have "delivered ?st k (BufWriter a) = delivered st k (BufWriter a) @ p"
    unfolding delivered_BufWriter_update [OF assms(1,2)] using assms(1) by simp
  then have "write_puts k (BufWriter a) p st ?st"
    using assms(1) unfolding write_puts_def by (simp add: writers_update_same)
  moreover have "strm_Write (BufWriter a) p st = Some ?st" by (subst strm_Write.simps) (simp add: Let_def True)
  ultimately show ?thesis by blast
next
  case False
  with assms(3) have empty: "sw_held (swriters st ! a) = []" by blast
  obtain st1 where st1: "strm_Write (sw_sink (swriters st ! a)) p st = Some st1" "write_puts a (sw_sink (swriters st ! a)) p st st1"
    using assms(4) by blast
  have "strm_Write (BufWriter a) p st = Some st1" by (subst strm_Write.simps) (use False empty st1(1) in \<open>simp add: Let_def\<close>)
  with BufWriter_bypassed [OF assms(1,2) empty st1(2)] show ?thesis by blast
qed

lemma BufWriter_Write_puts:
  assumes "ordered_writers st" "a < k" "a < length (swriters st)"
    and sink: "\<And>st p. ordered_writers st \<Longrightarrow> a \<le> length (swriters st) \<Longrightarrow> writer_below a (sw_sink (swriters st ! a)) \<Longrightarrow>
      \<exists>st'. strm_Write (sw_sink (swriters st ! a)) p st = Some st' \<and> write_puts a (sw_sink (swriters st ! a)) p st st'"
  shows "\<exists>st'. strm_Write (BufWriter a) p st = Some st' \<and> write_puts k (BufWriter a) p st st'"
proof -
  let ?b = "swriters st ! a"
  let ?room = "sw_size ?b - length (sw_held ?b)"
  have below: "writer_below a (sw_sink (swriters u ! a))" if "ordered_writers u" "a < length (swriters u)" for u
    using that by (simp add: ordered_writers_def)
  show ?thesis
  proof (cases "length p \<le> ?room \<or> sw_held ?b = []")
    case True
    with BufWriter_Write_easy [OF assms(2,3) True] sink [OF assms(1) _ below [OF assms(1,3)]] assms(3) show ?thesis by simp
  next
    case False
    obtain st1 where st1: "strm_Write (sw_sink ?b) (sw_held ?b @ take ?room p) st = Some st1"
      "write_puts a (sw_sink ?b) (sw_held ?b @ take ?room p) st st1"
      using sink [OF assms(1) _ below [OF assms(1,3)]] assms(3) by fastforce
    define st2 where "st2 = st1\<lparr>swriters := (swriters st1)[a := ?b\<lparr>sw_held := []\<rparr>]\<rparr>"
    note e = emptied_into_sink [OF assms(2,3) st1(2) st2_def]
    note w = write_putsD [OF e(1)]
    have o2: "ordered_writers st2" "a < length (swriters st2)" using assms(1,3) ordered_writers_cong [OF w(3)] w(4) by simp_all
    obtain st3 where st3: "strm_Write (BufWriter a) (drop ?room p) st2 = Some st3" "write_puts k (BufWriter a) (drop ?room p) st2 st3"
      using BufWriter_Write_easy [OF assms(2) o2(2)] e(2) sink [OF o2(1) _ below [OF o2]] o2(2) by fastforce
    have "strm_Write (BufWriter a) p st = Some st3"
      by (subst strm_Write.simps) (use False st1(1) st3(1) in \<open>simp add: Let_def st2_def\<close>)
    moreover have "write_puts k (BufWriter a) p st st3" using write_puts_trans [OF e(1) st3(2)] by simp
    ultimately show ?thesis by blast
  qed
qed

lemma strm_Write_puts:
  "ordered_writers st \<Longrightarrow> writer_below k w \<Longrightarrow> k \<le> length (swriters st) \<Longrightarrow>
    \<exists>st'. strm_Write w p st = Some st' \<and> write_puts k w p st st'"
proof (induction k arbitrary: w st p rule: less_induct)
  case (less k)
  show ?case using less
  proof (induction k w rule: writer_below.induct)
    case (2 k a)
    then have a: "a < k" "a < length (swriters st)" by simp_all
    show ?case using BufWriter_Write_puts [OF 2(2) a 2(1) [OF a(1)]] .
  next
    case (4 k r w c s)
    then show ?case by (simp add: strm_Write_Wrapped write_puts_def)
  qed (simp_all add: strm_Write_ConnStrm strm_Write_Conn write_puts_def)
qed

text \<open>A flush moves what the buffer holds into its sink.\<close>

lemma strm_Flush_delivers:
  assumes "ordered_writers st" "a < length (swriters st)"
  shows "\<exists>st'. strm_Flush a st = Some st' \<and> write_puts (length (swriters st)) (BufWriter a) [] st st' \<and> sw_held (swriters st' ! a) = []"
proof (cases "sw_held (swriters st ! a) = []")
  case True
  then show ?thesis by (simp add: strm_Flush_def write_puts_def del: delivered.simps)
next
  case False
  let ?b = "swriters st ! a"
  obtain st1 where st1: "strm_Write (sw_sink ?b) (sw_held ?b) st = Some st1" "write_puts a (sw_sink ?b) (sw_held ?b @ []) st st1"
    using strm_Write_puts [OF assms(1), of a "sw_sink ?b" "sw_held ?b"] assms by (auto simp: ordered_writers_def)
  from False st1(1) emptied_into_sink [OF assms(2) assms(2) st1(2) refl] show ?thesis by (simp add: strm_Flush_def)
qed

fun strm_writes :: "out_writer \<Rightarrow> string list \<Rightarrow> stream_store \<Rightarrow> stream_store option" where
  "strm_writes w [] st = Some st"
| "strm_writes w (p # ps) st = Option.bind (strm_Write w p st) (strm_writes w ps)"

lemma strm_writes_puts:
  "ordered_writers st \<Longrightarrow> writer_below k w \<Longrightarrow> k \<le> length (swriters st) \<Longrightarrow>
    \<exists>st'. strm_writes w ps st = Some st' \<and> write_puts k w (concat ps) st st'"
proof (induction ps arbitrary: st)
  case (Cons p ps)
  obtain st1 where st1: "strm_Write w p st = Some st1" "write_puts k w p st st1" using strm_Write_puts [OF Cons.prems] by blast
  note t = write_putsD [OF st1(2)]
  obtain st2 where "strm_writes w ps st1 = Some st2" "write_puts k w (concat ps) st1 st2"
    using Cons.IH [of st1] Cons.prems ordered_writers_cong [OF t(3)] t(4) by auto
  with st1 write_puts_trans [OF st1(2)] show ?case by auto
qed (simp add: write_puts_def)

subsection \<open>Properties\<close>

lemma is_bufio_writer_SomeE: "is_bufio_writer w = Some a \<Longrightarrow> (w = BufWriter a \<Longrightarrow> P) \<Longrightarrow> P"
  by (cases w) auto

lemma BufioWriter_found:
  assumes "stream_GetBufioWriter con = Some a" "stream_BufioWriter sz con st = (b, st1)"
  shows "b = a" "st1 = st" "delivered st k (StreamWriter con) = delivered st k (BufWriter a)"
    and "writer_below k (StreamWriter con) = (a < k)"
proof -
  obtain r c s where "con = WrappedStream r (BufWriter a) c s"
    using assms(1) by (auto simp: stream_GetBufioWriter_def split: strm.splits elim: is_bufio_writer_SomeE)
  then show "delivered st k (StreamWriter con) = delivered st k (BufWriter a)" "writer_below k (StreamWriter con) = (a < k)"
    by simp_all
qed (use assms in \<open>simp_all add: stream_BufioWriter_def\<close>)

lemma BufioWriter_made:
  assumes "stream_GetBufioWriter con = None" "stream_BufioWriter sz con st = (a, st1)"
  shows "a = length (swriters st)" "net_out st1 = net_out st"
    and "swriters st1 = swriters st @ [\<lparr>sw_size = sz, sw_sink = StreamWriter con, sw_held = []\<rparr>]"
  using assms by (auto simp: stream_BufioWriter_def)

lemma BufioWriter_ready:
  assumes "ordered_writers st" "writer_below (length (swriters st)) (StreamWriter con)" "stream_BufioWriter sz con st = (a, st1)"
  shows "ordered_writers st1" "a < length (swriters st1)" "length (swriters st1) \<le> length (swriters st) + 1"
    and "delivered st1 (length (swriters st1)) (BufWriter a) = delivered st (length (swriters st)) (StreamWriter con)"
proof -
  have "ordered_writers st1 \<and> a < length (swriters st1) \<and> length (swriters st1) \<le> length (swriters st) + 1
    \<and> delivered st1 (length (swriters st1)) (BufWriter a) = delivered st (length (swriters st)) (StreamWriter con)"
  proof (cases "stream_GetBufioWriter con")
    case None
    note m = BufioWriter_made [OF None assms(3)]
    have "delivered st1 a (StreamWriter con) = delivered st a (StreamWriter con)"
      using m by (intro delivered_cong) (auto simp: same_writers_below_def)
    moreover have "ordered_writers st1" using assms(1,2) m by (auto simp: ordered_writers_def nth_append less_Suc_eq)
    ultimately show ?thesis using m by (simp add: nth_append)
  next
    case (Some b)
    note f = BufioWriter_found [OF Some assms(3)]
    show ?thesis using assms(1,2) f(3) [symmetric] unfolding f(4) by (simp add: f(1,2) del: delivered.simps)
  qed
  then show "ordered_writers st1" "a < length (swriters st1)" "length (swriters st1) \<le> length (swriters st) + 1"
    "delivered st1 (length (swriters st1)) (BufWriter a) = delivered st (length (swriters st)) (StreamWriter con)" by blast+
qed

text \<open>Pieces that are written to the stream itself (\<^term>\<open>True\<close>) or through its buffered writer \<open>a\<close>.\<close>

fun mixed_writes :: "strm \<Rightarrow> nat \<Rightarrow> (bool \<times> string) list \<Rightarrow> stream_store \<Rightarrow> stream_store option" where
  "mixed_writes con a [] st = Some st"
| "mixed_writes con a ((direct, p) # ps) st =
     Option.bind (strm_Write (if direct then StreamWriter con else BufWriter a) p st) (mixed_writes con a ps)"

lemma mixed_writes_buffered:
  "(\<And>p st. list_ex fst ps \<Longrightarrow> strm_Write (StreamWriter con) p st = strm_Write (BufWriter a) p st) \<Longrightarrow>
    mixed_writes con a ps st = strm_writes (BufWriter a) (map snd ps) st"
proof (induction ps arbitrary: st)
  case (Cons x ps)
  obtain direct p where x: "x = (direct, p)" by (cases x)
  have "mixed_writes con a ps = strm_writes (BufWriter a) (map snd ps)" using Cons x by (intro ext) simp
  with Cons.prems x show ?case by (cases direct) simp_all
qed simp

text \<open>
  C20: a stream with a buffered writer is not buffered again. What handlers write to a stream, in pieces of any
  sizes, through \<open>BufioWriter\<close> or, when the writer of the stream is a \<open>*bufio.Writer\<close>, also to the stream itself,
  alternating as they like, is on the sink of that writer after one flush, in order and after everything written
  before it; when nothing below buffers, it is on the connection. \<open>BufioWriter\<close> makes no new buffer for a stream
  whose writer is a buffered one, whose Write is the stream's, and one for any other.
\<close>

theorem buffered_writes_flushed:
  assumes "ordered_writers st" "writer_below (length (swriters st)) (StreamWriter con)"
    and "stream_BufioWriter sz con st = (a, st1)"
    and "\<not> list_ex fst ps \<or> (\<exists>r b c s. con = WrappedStream r (BufWriter b) c s)"
  shows "\<exists>st2 st3. mixed_writes con a ps st1 = Some st2 \<and> strm_Flush a st2 = Some st3
    \<and> sw_held (swriters st3 ! a) = []
    \<and> delivered st3 a (sw_sink (swriters st3 ! a)) = delivered st (length (swriters st)) (StreamWriter con) @ concat (map snd ps)
    \<and> (no_buffer_below (sw_sink (swriters st1 ! a)) \<longrightarrow>
        net_out st3 = delivered st (length (swriters st)) (StreamWriter con) @ concat (map snd ps))
    \<and> length (swriters st3) = length (swriters st) + (if \<exists>r b c s. con = WrappedStream r (BufWriter b) c s then 0 else 1)"
proof -
  let ?ps = "map snd ps"
  let ?wrapped = "\<exists>r b c s. con = WrappedStream r (BufWriter b) c s"
  note r = BufioWriter_ready [OF assms(1-3)]
  have wr: "stream_GetBufioWriter con \<noteq> None \<longleftrightarrow> ?wrapped"
    by (auto simp: stream_GetBufioWriter_def split: strm.splits elim: is_bufio_writer_SomeE)
  have n: "length (swriters st1) = length (swriters st) + (if ?wrapped then 0 else 1)"
    using wr BufioWriter_found(2) [OF _ assms(3)] BufioWriter_made(3) [OF _ assms(3)]
    by (cases "stream_GetBufioWriter con") auto
  have same: "strm_Write (StreamWriter con) p u = strm_Write (BufWriter a) p u" if ex: "list_ex fst ps" for p u
  proof -
    obtain r b c s where con: "con = WrappedStream r (BufWriter b) c s" using assms(4) ex by blast
    then have "stream_GetBufioWriter con = Some b" by (simp add: stream_GetBufioWriter_def)
    from BufioWriter_found(1) [OF this assms(3)] con show ?thesis by (simp add: strm_Write_Wrapped)
  qed
  obtain st2 where st2: "strm_writes (BufWriter a) ?ps st1 = Some st2" "write_puts (length (swriters st1)) (BufWriter a) (concat ?ps) st1 st2"
    using strm_writes_puts [OF r(1), of "length (swriters st1)" "BufWriter a"] r(2) by auto
  note w = write_putsD [OF st2(2)]
  have o2: "ordered_writers st2" "a < length (swriters st2)" using r(1,2) ordered_writers_cong [OF w(3)] w(4) by simp_all
  obtain st3 where st3: "strm_Flush a st2 = Some st3" "write_puts (length (swriters st2)) (BufWriter a) [] st2 st3"
    "sw_held (swriters st3 ! a) = []" using strm_Flush_delivers [OF o2] by blast
  note f = write_putsD [OF st3(2)]
  have d: "delivered st3 a (sw_sink (swriters st3 ! a)) = delivered st (length (swriters st)) (StreamWriter con) @ concat ?ps"
    using f(1) w(1,4) r(4) o2(2) st3(3) by simp
  have "map sw_sink (swriters st3) ! a = map sw_sink (swriters st1) ! a" using w(3) f(3) by simp
  then have "sw_sink (swriters st3 ! a) = sw_sink (swriters st1 ! a)" using f(4) w(4) r(2) by simp
  with d unbuffered_delivered [of "sw_sink (swriters st3 ! a)" st3 a]
  have "no_buffer_below (sw_sink (swriters st1 ! a)) \<longrightarrow> net_out st3 = delivered st (length (swriters st)) (StreamWriter con) @ concat ?ps"
    by simp
  with d st2(1) st3(1,3) f(4) w(4) n show ?thesis
    by (intro exI [of _ st2] exI [of _ st3]) (simp add: mixed_writes_buffered [OF same])
qed

theorem buffered_writes_flushed_witness:
  "\<exists>st2 st3. mixed_writes (WrappedStream ConnReader (BufWriter 0) ConnStrm ConnStrm) 0 [(False, ''ab''), (True, ''cdefg''), (False, ''h'')]
        \<lparr>net_in = [], net_out = ''x'', net_closed = 0, sreaders = [],
         swriters = [\<lparr>sw_size = 4, sw_sink = StreamWriter ConnStrm, sw_held = ''y''\<rparr>]\<rparr> = Some st2
    \<and> strm_Flush 0 st2 = Some st3 \<and> net_out st3 = ''xyabcdefgh'' \<and> length (swriters st3) = 1"
proof -
  let ?con = "WrappedStream ConnReader (BufWriter 0) ConnStrm ConnStrm"
  let ?st = "\<lparr>net_in = [], net_out = ''x'', net_closed = 0, sreaders = [],
      swriters = [\<lparr>sw_size = 4, sw_sink = StreamWriter ConnStrm, sw_held = ''y''\<rparr>]\<rparr> :: stream_store"
  have st: "ordered_writers ?st" "writer_below (length (swriters ?st)) (StreamWriter ?con)" "stream_BufioWriter 4 ?con ?st = (0, ?st)"
    by (simp_all add: ordered_writers_def stream_BufioWriter_def stream_GetBufioWriter_def)
  have "\<not> list_ex fst [(False, ''ab''), (True, ''cdefg''), (False, ''h'')] \<or> (\<exists>r b c s. ?con = WrappedStream r (BufWriter b) c s)" by simp
  from buffered_writes_flushed [OF st this] show ?thesis by fastforce
qed

end
