(* ===== verification/Spec2Isabelle.thy ===== *)
theory Spec2Isabelle
  imports Body_Reader Body_Writer Buffer_Sources Bufio Cache_Control Cache_Key Chunked Chunked_Body
    Conditions Default_Server Encoding_List Encoding_Map Endpoints Etag File_Server Go_Strconv
    Handler_Lists Header Header_Parser Http_Chars Http_Config Http_Error Http_Server
    Http_Session Jp_Variables Listening Media_Type Metadata Package_Tests Pipe Prelude
    Range_Header Ranges Reader_Writer Request_Bodies Request_Extras Request_Parser
    Request_Response Response_Status Served_Streams Server Session_Control Stable_Insertion
    Status_Map_Order Stream_Writers Streams Tcp_Session Url_Handler Util Version_Method
begin

text \<open>
  A verification library for JOTPOT Server, a server for HTTP/1 and related protocols in Go.
  The program is a set of packages: \<open>jps\<close> defines servers, sessions, handlers and ranges without
  naming a protocol; \<open>http\<close>, \<open>http/header\<close>, \<open>http/httpchars\<close> and \<open>http/http1\<close> implement HTTP
  on top of it; \<open>util\<close>, \<open>etag\<close>, \<open>mediatype\<close> and others are small helpers. A listener hands a
  connection to a \<open>Server\<close>, which tries its session handlers; the HTTP/1 handler parses requests
  from the connection, wraps bodies in the encodings the headers name, and calls the server's
  frame handlers with a pair of request and response.

  \<^bold>\<open>How the model corresponds to the code.\<close> The names are those of the source, with the receiver's
  type in front where two methods share a name. A Go string or byte slice is a list of \<^typ>\<open>char\<close>,
  a sized integer is a word of that width, an \<open>int\<close> that counts list positions is a \<^typ>\<open>nat\<close> or
  \<^typ>\<open>int\<close>, a struct is a record. An operation returns the changed receiver. A panic is the left
  side of a sum (\<^typ>\<open>'a go\<close>), so index and slice bounds, nil dereferences and explicit panics are
  results; an \<open>error\<close> result is an option, or a pair with the value that Go returns beside it. What
  is not in the repository (\<open>net/http\<close> dates, compressors, connections, other handlers) is an
  argument of the definitions that use it.

  \<^bold>\<open>Theories.\<close>
  \<^item> \<open>Prelude\<close>: panics, slices, 64-bit integers, functions of \<open>strings\<close>; \<open>Go_Strconv\<close>: numbers in
    text; \<open>Stable_Insertion\<close>: a locale for walking insertion, used by two components.
  \<^item> \<open>Ranges\<close>: \<open>jps/range.go\<close>. \<open>SortRanges\<close> is the stable sort, merging keeps the covered bytes,
    a tidied list has gaps. \<open>Range_Header\<close>: the Range header of \<open>http/request.go\<close>, with its round
    trip.
  \<^item> \<open>Handler_Lists\<close>: the three handler lists of \<open>jps/ListMethods.go\<close>. The list is always the stable
    sort by stage and priority of what was added, and \<open>Handle\<close> calls its handlers in that order.
  \<^item> \<open>Server\<close>: \<open>jps/server.go\<close>. The methods as functions of the state, and a step relation
    with one step per critical section, with invariants by rule induction over its reachable states.
  \<^item> \<open>Http_Chars\<close>, \<open>Util\<close>, \<open>Http_Error\<close>, \<open>Version_Method\<close>: tokens and quoted strings, string
    comparison and call-once wrappers, error values, HTTP versions and methods.
  \<^item> \<open>Pipe\<close>, \<open>Encoding_List\<close>: layers of readers and writers, and the sorted list of encodings with
    binary search (locale \<open>key_search\<close>).
  \<^item> \<open>Response_Status\<close>: statuses and their translation to HTTP codes (locale \<open>status_map\<close>, two
    interpretations); \<open>Status_Map_Order\<close> extends the contract by the loop over a Go map (locale
    \<open>status_map_loop\<close>).
  \<^item> \<open>Header\<close>: the header store (locale \<open>header_store\<close>, interpreted on the processor of the standard
    server).
  \<^item> \<open>Cache_Control\<close>, \<open>Request_Response\<close>, \<open>Request_Extras\<close>: cache settings, their headers, and the
    methods of requests and responses.
  \<^item> \<open>Media_Type\<close>, \<open>Metadata\<close>: media types with their text, and the metadata of a body in its headers.
  \<^item> \<open>Bufio\<close>, \<open>Header_Parser\<close>, \<open>Request_Parser\<close>: what the parsers use of a buffered reader, the parser
    of header fields and of requests, the formatters of headers and responses, with their round trip.
  \<^item> \<open>Body_Reader\<close>, \<open>Chunked\<close>: how the body of a message ends. Exactly the bytes of a body of known
    length, or of a chunked body (locale \<open>byte_source\<close>, interpreted on the buffered reader and on the raw
    reader of a body), are delivered, and the next request stays on the connection.
  \<^item> \<open>Body_Writer\<close>, \<open>Reader_Writer\<close>: the writer of a body with the head in front of it, and the readers
    and writers of \<open>jps/outgoing.go\<close> and \<open>jps/reader.go\<close> on top (locale \<open>message_writer\<close>).
  \<^item> \<open>Http_Session\<close>, \<open>Http_Server\<close>: the HTTP/1 session of \<open>http/http1/handler.go\<close> and its composition with
    the server of \<open>Server\<close> (locale \<open>session_server\<close>: a server whose handler answers every frame
    answers pipelined requests in order, whatever ends the session).
  \<^item> \<open>Chunked_Body\<close>, \<open>Request_Bodies\<close>: the chunked reader as the decoder of a pipe of encodings (locale
    \<open>framed_source\<close>), the reader of a request down to the connection (locale \<open>message_reader\<close>, for bodies of
    known length and chunked ones), and a server that reads every announced body and answers.
  \<^item> \<open>Default_Server\<close>, \<open>Served_Streams\<close>: the configuration of the standard server, \<open>http1.Handle\<close> with it, what
    becomes of a malformed request, and \<open>HandleStream\<close> around it.
  \<^item> \<open>Streams\<close>, \<open>Stream_Writers\<close>: the wrapped streams of \<open>jps/stream.go\<close> with shared buffered readers and
    writers in a store; streams that are given away lose no byte, written bytes arrive after a flush, and a
    buffered writer is not wrapped in another.
  \<^item> \<open>Endpoints\<close>: protocols, errors with a text for the user, extensions.
  \<^item> \<open>Jp_Variables\<close>, \<open>Http_Config\<close>, \<open>Cache_Key\<close>: configuration variables, the simple error response and
    the lookup of cached responses.
  \<^item> \<open>Buffer_Sources\<close>: pools of buffered readers and writers (locale \<open>buffer_pool\<close>, two interpretations). The
    buffers are in a store and the pools hold addresses: no buffer has two users as long as each is given back
    once.
  \<^item> \<open>Conditions\<close>, \<open>Etag\<close>, \<open>File_Server\<close>, \<open>Url_Handler\<close>: the conditions of a request, the tag of a file,
    the file server, which checks the conditions (with the answer of RFC 7232, but for one case), and the
    routing of frames by host and path.
  \<^item> \<open>Encoding_Map\<close>: the list of encodings refines a finite map, for every sequence of operations.
  \<^item> \<open>Tcp_Session\<close>, \<open>Listening\<close>: a session of \<open>tcp/tcp.go\<close> as a step relation of the calls at the same time,
    and \<open>ListenOn\<close> with a TCP listener.
  \<^item> \<open>Session_Control\<close>: the lock and the flags of an HTTP/1 session. The operations of \<open>Http_Session\<close> refine
    their effect on it, which runs as a system of events: the session loop, the handlers' closures, \<open>End\<close> and
    \<open>Hyjack\<close> in any order. One frame is in use at a time as long as nobody calls \<open>Hyjack\<close>, closes a frame
    again or writes to a client that is gone, and without \<open>End\<close> every frame lets the loop go on; the theory
    shows what each of these calls breaks.
  \<^item> \<open>Package_Tests\<close>: the test functions of \<open>jps/range_test.go\<close> and \<open>urlhandler/urlhandler_test.go\<close>, evaluated on
    the model. All pass but one, which asks for hosts that its own table does not have.

  \<^bold>\<open>Termination.\<close> The loops of the code that move an index or consume a string are recursions with a
  measure. Loops that may not end are partial functions into options, where \<^term>\<open>None\<close> is a call that does
  not return: the session loop of \<open>Server\<close>, the waiting reads of \<open>Chunked\<close>, the copy loop of
  \<open>File_Server\<close>, reads and writes through nested buffers in \<open>Streams\<close> and \<open>Stream_Writers\<close>, the
  scaling loop of \<open>Etag\<close> and \<open>Range\<close> of the range wrapper. The properties about them state that they return (or that they do not) and with which result. No fuel is used.

  \<^bold>\<open>Bounds.\<close> Sizes and positions of bodies and ranges are 64-bit words, status codes and versions 16-bit,
  priorities and stages 16 and 8 bits, the count of waits of a chunked read 8 bits. A list of bytes has
  no bound on its length; where a length is converted to a word the property assumes that it fits.

  \<^bold>\<open>Not modelled.\<close> Sockets, TLS and UDP, the real clock, goroutine scheduling apart from the step
  relations of \<open>Server\<close> and \<open>Tcp_Session\<close> and the system of \<open>Session_Control\<close>, logging, and declarations of interfaces. The
  package \<open>jps/client\<close>, \<open>connstream\<close> (but for the choice of its protocol) and \<open>tls\<close> use names that exist nowhere
  and do not compile; of the client nothing is modelled. Compressors, the file
  system, \<open>time.Parse\<close>, \<open>url.ParseRequestURI\<close> and the tables of \<open>net/http\<close> are arguments. A chunked
  read that never returns is on the side of the panics where the chunked reader is a decoder in a pipe.
  \<open>Response.SetWasCached\<close> has no return and does not compile.
\<close>

end
